(* ===== verification/Usb_Prelude.thy ===== *)
theory Usb_Prelude
  imports Main "HOL-Library.Word"
begin

text \<open>
  Shared vocabulary of the development: the machine integer types of the C++ sources, the
  named collections the component theories extend, and the generic facts about words, lists
  and options that more than one component uses.

  \<^item> \<open>u8\<close>, \<open>u16\<close>, \<open>u32\<close>, \<open>u64\<close> are \<open>quint8\<close>, \<open>quint16\<close>, \<open>quint32\<close> and \<open>std::uint64_t\<close>; arithmetic
    on them wraps, as in C++.
  \<^item> \<open>bytes\<close> is \<open>QByteArray\<close>.
  \<^item> \<open>nat_of\<close> collects the rules that move a word expression to \<open>nat\<close>.
\<close>

unbundle bit_operations_syntax

type_synonym u8 = "8 word"
type_synonym u16 = "16 word"
type_synonym u32 = "32 word"
type_synonym u64 = "64 word"
type_synonym bytes = "u8 list"

named_theorems nat_of \<open>rules that read a word expression as a natural number\<close>
named_theorems buffer_simps \<open>reading a byte buffer after writing it\<close>
named_theorems run_simps \<open>evaluation of effectful steps\<close>
named_theorems text_simps \<open>evaluation of string operations on literals\<close>

subsection \<open>Words as natural numbers\<close>

lemmas word_cmp_nat [nat_of] = word_le_nat_alt word_less_nat_alt word_unat_eq_iff

lemma unat_div_word [nat_of]: "unat (a div b) = unat a div unat (b :: 'a::len word)"
  by (rule unat_div)

lemma unat_mod_word [nat_of]: "unat (a mod b) = unat a mod unat (b :: 'a::len word)"
  by (rule unat_mod)

lemma unat_plus_u64: "unat a + unat b < 2 ^ 64 \<Longrightarrow> unat (a + b) = unat a + unat (b :: u64)"
  by (simp add: unat_word_ariths)

lemma unat_times_u64: "unat a * unat b < 2 ^ 64 \<Longrightarrow> unat (a * b) = unat a * unat (b :: u64)"
  by (simp add: unat_word_ariths)

lemma unat_minus_u64: "unat b \<le> unat a \<Longrightarrow> unat (a - b) = unat a - unat (b :: u64)"
  by (simp add: unat_sub word_le_nat_alt)

lemma unat_u64_bound: "unat (a :: u64) < 18446744073709551616"
  using unsigned_less [of a, where 'a = nat] by simp

lemma unat_u32_bound: "unat (a :: u32) < 4294967296"
  using unsigned_less [of a, where 'a = nat] by simp

text \<open>Widening keeps the value: \<open>quint32\<close> to \<open>std::uint64_t\<close>.\<close>

lemma unat_widen [nat_of]: "unat (ucast (a :: u32) :: u64) = unat a"
proof -
  have "unat a < 2 ^ 64" using unat_u32_bound [of a] by simp
  then show ?thesis by (simp add: unsigned_ucast_eq take_bit_nat_eq_self)
qed

subsection \<open>Rounding down to a multiple\<close>

lemma round_down_le: "(n div k) * k \<le> (n :: nat)"
  by (metis div_mult_mod_eq le_add1)

lemma round_down_gt: "0 < k \<Longrightarrow> n < (n div k) * k + (k :: nat)"
  using dividend_less_div_times [of k n] by simp

lemma dvd_round_down: "k dvd (n div k) * (k :: nat)"
  by simp

lemma unat_round_down: "unat ((x div w) * w) = (unat x div unat w) * unat (w :: u64)"
proof -
  have "(unat x div unat w) * unat w < 2 ^ 64"
    using le_less_trans [OF round_down_le unat_u64_bound] by simp
  then show ?thesis by (subst unat_times_u64) (simp_all add: unat_div_word)
qed

lemma mod_0_dvd_u64: "(a mod b = 0) = (unat b dvd unat (a :: u64))"
  by (simp add: nat_of mod_eq_0_iff_dvd)

subsection \<open>Lists and options\<close>

lemma find_SomeD: "find P xs = Some x \<Longrightarrow> P x \<and> x \<in> set xs"
  by (induction xs) (auto split: if_splits)

end
