(* ===== verification/Qt_Text.thy ===== *)
theory Qt_Text
  imports Usb_Prelude
begin

text \<open>
  The part of Qt's value classes the sources compute with. A \<open>QString\<close> is a list of UTF-16 code
  units; \<open>qs\<close> is \<open>QStringLiteral\<close> on an ASCII literal. \<open>QChar::isSpace\<close> and the category
  \<open>Other_Control\<close> are the Unicode tables for the basic plane, and the string operations are the
  documented ones (\<open>trimmed\<close>, \<open>split\<close>, \<open>indexOf\<close>, \<open>startsWith\<close>, \<open>number\<close>, \<open>toInt\<close>).
  What depends on the full Unicode case tables is a record of parameters, \<open>unicode\<close>.
\<close>

type_synonym qchar = u16
type_synonym qstring = "qchar list"

definition qc :: "char \<Rightarrow> qchar" where
  "qc c = of_char c"

definition qs :: "string \<Rightarrow> qstring" where
  "qs s = map qc s"

record unicode =
  fold_case :: "qstring \<Rightarrow> qstring"
  upper_case :: "qstring \<Rightarrow> qstring"
  letter :: "qchar \<Rightarrow> bool"
  digit :: "qchar \<Rightarrow> bool"
  contains_ci :: "qstring \<Rightarrow> qstring \<Rightarrow> bool"

subsection \<open>Characters\<close>

definition is_space :: "qchar \<Rightarrow> bool" where
  "is_space c \<longleftrightarrow> (9 \<le> c \<and> c \<le> 13) \<or> c = 0x20 \<or> c = 0x85 \<or> c = 0xA0 \<or> c = 0x1680 \<or>
     (0x2000 \<le> c \<and> c \<le> 0x200A) \<or> c = 0x2028 \<or> c = 0x2029 \<or> c = 0x202F \<or> c = 0x205F \<or> c = 0x3000"

definition is_control :: "qchar \<Rightarrow> bool" where
  "is_control c \<longleftrightarrow> c < 0x20 \<or> (0x7F \<le> c \<and> c < 0xA0)"

definition is_high_surrogate :: "qchar \<Rightarrow> bool" where
  "is_high_surrogate c \<longleftrightarrow> 0xD800 \<le> c \<and> c \<le> 0xDBFF"

definition is_decimal :: "qchar \<Rightarrow> bool" where
  "is_decimal c \<longleftrightarrow> 0x30 \<le> c \<and> c \<le> 0x39"

text \<open>\<open>QChar::isLetterOrNumber\<close> below 0x80.\<close>

definition is_ascii_alnum :: "qchar \<Rightarrow> bool" where
  "is_ascii_alnum c \<longleftrightarrow> is_decimal c \<or> (0x41 \<le> c \<and> c \<le> 0x5A) \<or> (0x61 \<le> c \<and> c \<le> 0x7A)"

subsection \<open>Strings\<close>

definition trim_front :: "qstring \<Rightarrow> qstring" where
  "trim_front s = dropWhile is_space s"

definition trimmed :: "qstring \<Rightarrow> qstring" where
  "trimmed s = rev (trim_front (rev (trim_front s)))"

definition starts_with :: "qstring \<Rightarrow> qstring \<Rightarrow> bool" where
  "starts_with s p \<longleftrightarrow> take (length p) s = p"

fun index_of :: "qchar \<Rightarrow> qstring \<Rightarrow> nat option" where
  "index_of c [] = None"
| "index_of c (x # xs) = (if x = c then Some 0 else map_option Suc (index_of c xs))"

text \<open>\<open>QString::split\<close> on one character, keeping or skipping empty parts.\<close>

fun split_keep :: "'a \<Rightarrow> 'a list \<Rightarrow> 'a list list" where
  "split_keep c [] = [[]]"
| "split_keep c (x # xs) =
     (if x = c then [] # split_keep c xs
      else case split_keep c xs of [] \<Rightarrow> [[x]] | p # ps \<Rightarrow> (x # p) # ps)"

definition split_skip :: "'a \<Rightarrow> 'a list \<Rightarrow> 'a list list" where
  "split_skip c s = filter (\<lambda>p. p \<noteq> []) (split_keep c s)"

text \<open>\<open>QString::number\<close> and \<open>QString::toInt\<close> (base 10, surrounding space and a sign allowed).\<close>

fun number :: "nat \<Rightarrow> qstring" where
  "number n = (if n < 10 then [0x30 + of_nat n] else number (n div 10) @ [0x30 + of_nat (n mod 10)])"

declare number.simps [simp del]

definition number_int :: "int \<Rightarrow> qstring" where
  "number_int i = (if i < 0 then 0x2D # number (nat (- i)) else number (nat i))"

definition digits_value :: "qstring \<Rightarrow> nat" where
  "digits_value s = foldl (\<lambda>v c. v * 10 + unat (c - 0x30)) 0 s"

definition unsigned_digits :: "qstring \<Rightarrow> nat option" where
  "unsigned_digits s = (if s \<noteq> [] \<and> list_all is_decimal s then Some (digits_value s) else None)"

definition signed_digits :: "qstring \<Rightarrow> int option" where
  "signed_digits s = (case s of
       [] \<Rightarrow> None
     | c # cs \<Rightarrow> if c = 0x2D then map_option (\<lambda>n. - int n) (unsigned_digits cs)
                else if c = 0x2B then map_option int (unsigned_digits cs)
                else map_option int (unsigned_digits s))"

definition to_int :: "qstring \<Rightarrow> int option" where
  "to_int s = (case signed_digits (trimmed s) of
       None \<Rightarrow> None
     | Some i \<Rightarrow> if - (2 ^ 31) \<le> i \<and> i < 2 ^ 31 then Some i else None)"

text \<open>\<open>toUInt\<close> and \<open>toULongLong\<close>: as \<open>toInt\<close>, but a minus sign and a too large value fail.\<close>

definition to_unsigned :: "qstring \<Rightarrow> nat \<Rightarrow> nat option" where
  "to_unsigned s limit =
     (case trimmed s of
        [] \<Rightarrow> None
      | c # cs \<Rightarrow>
          (case unsigned_digits (if c = 0x2B then cs else c # cs) of
             None \<Rightarrow> None
           | Some n \<Rightarrow> if n < limit then Some n else None))"

definition to_uint :: "qstring \<Rightarrow> u32 option" where
  "to_uint s = map_option of_nat (to_unsigned s (2 ^ 32))"

definition to_ulonglong :: "qstring \<Rightarrow> u64 option" where
  "to_ulonglong s = map_option of_nat (to_unsigned s (2 ^ 64))"

text \<open>\<open>toInt(&ok, 8)\<close> of at most three characters.\<close>

definition is_octal :: "qchar \<Rightarrow> bool" where
  "is_octal c \<longleftrightarrow> 0x30 \<le> c \<and> c \<le> 0x37"

definition octal_value :: "qstring \<Rightarrow> nat" where
  "octal_value s = foldl (\<lambda>v c. v * 8 + unat (c - 0x30)) 0 s"

definition to_octal :: "qstring \<Rightarrow> int option" where
  "to_octal s =
     (let digits = (\<lambda>d. if d \<noteq> [] \<and> list_all is_octal d then Some (int (octal_value d)) else None)
      in case trimmed s of
           [] \<Rightarrow> None
         | c # cs \<Rightarrow>
             if c = 0x2D then map_option uminus (digits cs)
             else if c = 0x2B then digits cs else digits (c # cs))"

text \<open>\<open>QFileInfo(path).fileName()\<close>: what follows the last slash.\<close>

definition file_name :: "qstring \<Rightarrow> qstring" where
  "file_name path = rev (takeWhile (\<lambda>c. c \<noteq> qc (CHR ''/'')) (rev path))"

text \<open>Byte strings: literals, \<open>QByteArray::trimmed\<close> and \<open>QString::fromLatin1\<close>.\<close>

definition bs :: "string \<Rightarrow> bytes" where
  "bs s = map of_char s"

definition trimmed_bytes :: "bytes \<Rightarrow> bytes" where
  "trimmed_bytes b =
     (let space = (\<lambda>c :: u8. (9 \<le> c \<and> c \<le> 13) \<or> c = 0x20)
      in rev (dropWhile space (rev (dropWhile space b))))"

definition from_latin1 :: "bytes \<Rightarrow> qstring" where
  "from_latin1 b = map ucast b"

subsection \<open>Literals\<close>

lemma qc_inject [simp]: "qc a = qc b \<longleftrightarrow> a = b"
proof
  assume eq: "qc a = qc b"
  have "unat (qc c) = of_char c" for c
  proof -
    have "(of_char c :: nat) < 65536"
      by (rule less_trans [OF nat_of_char_less_256]) simp
    then have "unat (of_nat (of_char c) :: qchar) = of_char c"
      by (simp add: unat_of_nat)
    then show ?thesis by (simp add: qc_def of_nat_of_char)
  qed
  with eq have "(of_char a :: nat) = of_char b" by metis
  then show "a = b" by simp
qed simp

lemma qs_inject [simp]: "qs s = qs t \<longleftrightarrow> s = t"
  by (induction s arbitrary: t) (auto simp: qs_def Cons_eq_map_conv map_eq_Cons_conv)

lemma qs_Nil [simp]: "qs [] = []" and qs_Cons: "qs (c # s) = qc c # qs s"
  by (simp_all add: qs_def)

lemma qs_append: "qs (s @ t) = qs s @ qs t"
  by (simp add: qs_def)

lemma length_qs [simp]: "length (qs s) = length s"
  by (simp add: qs_def)

lemma qs_eq_Nil [simp]: "qs s = [] \<longleftrightarrow> s = []"
  by (simp add: qs_def)

end
