(* ===== verification/Disk_Info.thy ===== *)
theory Disk_Info
  imports Qt_Text
begin

text \<open>
  \<open>src/core/disk.{h,cpp}\<close> and \<open>src/core/language.{h,cpp}\<close>: the enumerations, the \<open>DiskInfo\<close>
  record every other component passes around, the filesystem and bus name tables with their
  lookups, and the language preference. The texts built from a disk, \<open>formatByteSize\<close> and \<open>describeDisk\<close>,
  are in \<open>Message_Texts\<close>.
\<close>

subsection \<open>Enumerations and \<open>DiskInfo\<close>\<close>

datatype TextMode = EnglishText | DisplayText

datatype Language = SystemLanguage | English | German

datatype PartitionStyle = Unknown | Mbr | Gpt

datatype FileSystemType = ExFat | Fat32 | Ntfs | Ext4

datatype DiskDetails = DisplayDetails | RestoreDetails

definition UsbBusType :: u32 where
  "UsbBusType = 7"

fun partition_style_code :: "PartitionStyle \<Rightarrow> u16" where
  "partition_style_code Unknown = 0"
| "partition_style_code Mbr = 1"
| "partition_style_code Gpt = 2"

fun file_system_code :: "FileSystemType \<Rightarrow> u16" where
  "file_system_code ExFat = 0"
| "file_system_code Fat32 = 1"
| "file_system_code Ntfs = 2"
| "file_system_code Ext4 = 3"

record DiskInfo =
  deviceId :: qstring
  displayId :: qstring
  disk_number :: u32
  busType :: u32
  disk_name :: qstring
  uniqueId :: qstring
  serialNumber :: qstring
  disk_path :: qstring
  deviceSequence :: "u64 option"
  disk_size :: u64
  sectorSize :: u32
  partitionStyle :: u16
  mountPoints :: "qstring list"
  labels :: "qstring list"
  fileSystems :: "qstring list"
  isBoot :: bool
  isSystem :: bool
  isReadOnly :: bool
  isOffline :: bool

text \<open>A default-constructed \<open>DiskInfo\<close>.\<close>

definition empty_disk :: DiskInfo where
  "empty_disk = \<lparr>deviceId = [], displayId = [], disk_number = 0, busType = 0, disk_name = [],
     uniqueId = [], serialNumber = [], disk_path = [], deviceSequence = None, disk_size = 0,
     sectorSize = 512, partitionStyle = partition_style_code Unknown, mountPoints = [], labels = [],
     fileSystems = [], isBoot = False, isSystem = False, isReadOnly = False, isOffline = False\<rparr>"

subsection \<open>Name tables\<close>

record FileSystemNames =
  fs_type :: FileSystemType
  fs_name :: string
  fs_label :: string
  fs_token :: string

definition FileSystemNamesTable :: "FileSystemNames list" where
  "FileSystemNamesTable =
    [\<lparr>fs_type = ExFat, fs_name = ''exFAT'', fs_label = ''exFAT (recommended)'', fs_token = ''exfat''\<rparr>,
     \<lparr>fs_type = Fat32, fs_name = ''FAT32'', fs_label = ''FAT32 (older devices)'', fs_token = ''fat32''\<rparr>,
     \<lparr>fs_type = Ntfs, fs_name = ''NTFS'', fs_label = ''NTFS'', fs_token = ''ntfs''\<rparr>,
     \<lparr>fs_type = Ext4, fs_name = ''ext4'', fs_label = ''ext4 (Linux)'', fs_token = ''ext4''\<rparr>]"

definition BusTypeNames :: "(u32 \<times> string) list" where
  "BusTypeNames =
    [(1, ''SCSI''), (2, ''ATAPI''), (3, ''ATA''), (4, ''1394''), (5, ''SSA''), (6, ''Fibre Channel''),
     (UsbBusType, ''USB''), (8, ''RAID''), (9, ''iSCSI''), (10, ''SAS''), (11, ''SATA''), (12, ''SD''),
     (13, ''MMC''), (17, ''NVMe'')]"

text \<open>The lookups return the fixed English or untranslated name; \<open>None\<close> is the fallback text.\<close>

definition partitionStyleName :: "u16 \<Rightarrow> string option" where
  "partitionStyleName style =
     (if style = partition_style_code Mbr then Some ''MBR''
      else if style = partition_style_code Gpt then Some ''GPT''
      else None)"

definition busTypeName :: "u32 \<Rightarrow> string option" where
  "busTypeName bus = map_option snd (find (\<lambda>entry. fst entry = bus) BusTypeNames)"

fun partitionStyleLabel :: "PartitionStyle \<Rightarrow> string option" where
  "partitionStyleLabel Gpt = Some ''GPT''"
| "partitionStyleLabel Mbr = Some ''MBR''"
| "partitionStyleLabel Unknown = None"

definition file_system_entry :: "FileSystemType \<Rightarrow> FileSystemNames option" where
  "file_system_entry type = find (\<lambda>entry. fs_type entry = type) FileSystemNamesTable"

definition fileSystemTypeName :: "FileSystemType \<Rightarrow> string" where
  "fileSystemTypeName type =
     (case file_system_entry type of Some entry \<Rightarrow> fs_name entry | None \<Rightarrow> ''Unknown'')"

definition fileSystemTypeLabel :: "FileSystemType \<Rightarrow> string" where
  "fileSystemTypeLabel type =
     (case file_system_entry type of Some entry \<Rightarrow> fs_label entry | None \<Rightarrow> ''Unknown'')"

definition fileSystemTypeToken :: "FileSystemType \<Rightarrow> qstring" where
  "fileSystemTypeToken type =
     (case file_system_entry type of Some entry \<Rightarrow> qs (fs_token entry) | None \<Rightarrow> [])"

definition parseFileSystemType :: "qstring \<Rightarrow> FileSystemType option" where
  "parseFileSystemType token =
     map_option fs_type (find (\<lambda>entry. token = qs (fs_token entry)) FileSystemNamesTable)"

text \<open>On the raw code: settings hold an integer that need not be an enumerator.\<close>

definition isKnownFileSystem :: "u16 \<Rightarrow> bool" where
  "isKnownFileSystem code = list_ex (\<lambda>entry. file_system_code (fs_type entry) = code) FileSystemNamesTable"

subsection \<open>Language preference\<close>

text \<open>What \<open>QLocale(name).language()\<close> answers, as far as the code distinguishes it.\<close>

datatype LocaleLanguage = LocaleGerman | LocaleEnglish | LocaleOther

definition languageFromSettings :: "qstring \<Rightarrow> Language" where
  "languageFromSettings v =
     (if v = qs ''en'' then English else if v = qs ''de'' then German else SystemLanguage)"

fun languageToSettings :: "Language \<Rightarrow> qstring" where
  "languageToSettings English = qs ''en''"
| "languageToSettings German = qs ''de''"
| "languageToSettings SystemLanguage = qs ''system''"

text \<open>The loop over the UI languages: the first one that is German or English wins.\<close>

fun first_ui_language :: "(qstring \<Rightarrow> LocaleLanguage) \<Rightarrow> qstring list \<Rightarrow> Language" where
  "first_ui_language locale_of [] = English"
| "first_ui_language locale_of (name # names) =
     (case locale_of name of
        LocaleGerman \<Rightarrow> German
      | LocaleEnglish \<Rightarrow> English
      | LocaleOther \<Rightarrow> first_ui_language locale_of names)"

definition resolveLanguage ::
  "(qstring \<Rightarrow> LocaleLanguage) \<Rightarrow> Language \<Rightarrow> qstring list \<Rightarrow> Language" where
  "resolveLanguage locale_of preference uiLanguages =
     (if preference = English \<or> preference = German then preference
      else first_ui_language locale_of uiLanguages)"

fun languageButtonText :: "Language \<Rightarrow> string" where
  "languageButtonText SystemLanguage = ''Language: Auto''"
| "languageButtonText English = ''Language: English''"
| "languageButtonText German = ''Language: German''"

subsection \<open>Facts\<close>

lemma fileSystemTypeToken_simps [simp]:
  "fileSystemTypeToken ExFat = qs ''exfat''"
  "fileSystemTypeToken Fat32 = qs ''fat32''"
  "fileSystemTypeToken Ntfs = qs ''ntfs''"
  "fileSystemTypeToken Ext4 = qs ''ext4''"
  by (simp_all add: fileSystemTypeToken_def file_system_entry_def FileSystemNamesTable_def)

lemma parseFileSystemType_eq:
  "parseFileSystemType token =
     (if token = qs ''exfat'' then Some ExFat
      else if token = qs ''fat32'' then Some Fat32
      else if token = qs ''ntfs'' then Some Ntfs
      else if token = qs ''ext4'' then Some Ext4
      else None)"
  by (simp add: parseFileSystemType_def FileSystemNamesTable_def)

lemma file_system_token_inverse [simp]:
  "parseFileSystemType (fileSystemTypeToken type) = Some type"
  by (cases type) (simp_all add: parseFileSystemType_eq)

lemma parseFileSystemType_SomeD:
  "parseFileSystemType token = Some type \<Longrightarrow> token = fileSystemTypeToken type"
  by (auto simp: parseFileSystemType_eq split: if_splits)

lemma isKnownFileSystem_iff: "isKnownFileSystem code \<longleftrightarrow> code \<in> range file_system_code"
proof -
  have "range file_system_code = {0, 1, 2, 3}"
  proof (intro equalityI subsetI)
    fix x assume "x \<in> range file_system_code"
    then obtain t where "x = file_system_code t" by auto
    then show "x \<in> {0, 1, 2, 3}" by (cases t) auto
  next
    fix x :: u16 assume "x \<in> {0, 1, 2, 3}"
    then show "x \<in> range file_system_code"
      by (auto intro: range_eqI [of _ _ ExFat] range_eqI [of _ _ Fat32]
          range_eqI [of _ _ Ntfs] range_eqI [of _ _ Ext4])
  qed
  then show ?thesis
    by (auto simp: isKnownFileSystem_def FileSystemNamesTable_def)
qed

lemma language_settings_inverse: "languageFromSettings (languageToSettings l) = l"
  by (cases l) (simp_all add: languageFromSettings_def)

lemma resolveLanguage_resolved: "resolveLanguage locale_of p names \<noteq> SystemLanguage"
proof -
  have "first_ui_language locale_of names \<noteq> SystemLanguage"
    by (induction names) (auto split: LocaleLanguage.splits)
  then show ?thesis by (simp add: resolveLanguage_def)
qed

end
