(* ===== verification/Restore_Steps.thy ===== *)
theory Restore_Steps
  imports Disk_Info "HOL-Library.Sublist"
begin

text \<open>
  \<open>src/core/restore_message.cpp\<close> and \<open>.h\<close>: the steps of a restore, the order each backend reports
  them in, the counter that checks it, and the bilingual messages.

  \<^item> The locale \<open>restore_plan\<close> is what the counter and the window's "safe to unplug" number ask of a
    plan; it is interpreted on the plans of both backends.
  \<^item> A \<open>RestoreMessage\<close> keeps how it was built (\<open>Origin\<close>), which is what the closures of the source
    capture, so \<open>translated\<close> is a recursive function. The translator and Qt's \<open>QString::arg\<close> are
    parameters.
\<close>

section \<open>Steps and plans\<close>

datatype RestoreStep =
    VerifyDisk | IdentifyDevice | Unmount | OpenExclusive | OpenDrive | RefreshMetadata
  | DetachDriveLetters | DeletePartitions | LockDrive | ClearSignatures | ResetToRaw
  | WritePartitionTable | CreatePartition | RereadPartitionTable | WaitForPartition
  | WaitForVolume | RefreshNewVolume | AssignDriveLetter | Format | Complete

fun changesDiskContents :: "RestoreStep \<Rightarrow> bool" where
  "changesDiskContents DeletePartitions = True"
| "changesDiskContents ClearSignatures = True"
| "changesDiskContents ResetToRaw = True"
| "changesDiskContents WritePartitionTable = True"
| "changesDiskContents CreatePartition = True"
| "changesDiskContents Format = True"
| "changesDiskContents _ = False"

definition linuxRestorePlan :: "RestoreStep list" where
  "linuxRestorePlan =
     [VerifyDisk, IdentifyDevice, Unmount, OpenExclusive, ClearSignatures, WritePartitionTable,
      Format, RereadPartitionTable, WaitForPartition, Complete]"

definition windowsRestorePlan :: "RestoreStep list" where
  "windowsRestorePlan =
     [VerifyDisk, OpenDrive, RefreshMetadata, DetachDriveLetters, DeletePartitions, LockDrive,
      ClearSignatures, ResetToRaw, CreatePartition, WaitForVolume, RefreshNewVolume,
      AssignDriveLetter, Format, Complete]"

text \<open>The loop over the indices, 1-based, one past the plan when no step writes.\<close>

fun firstDestructiveStepOf :: "RestoreStep list \<Rightarrow> nat" where
  "firstDestructiveStepOf [] = 1"
| "firstDestructiveStepOf (s # plan) = (if changesDiskContents s then 1 else Suc (firstDestructiveStepOf plan))"

record RestoreStepCounter =
  counter_plan :: "RestoreStep list"
  counter_done :: nat

definition new_counter :: "RestoreStep list \<Rightarrow> RestoreStepCounter" where
  "new_counter plan = \<lparr>counter_plan = plan, counter_done = 0\<rparr>"

definition advance :: "RestoreStepCounter \<Rightarrow> RestoreStep \<Rightarrow> nat \<times> RestoreStepCounter" where
  "advance c step =
     (if length (counter_plan c) \<le> counter_done c \<or> counter_plan c ! counter_done c \<noteq> step then (0, c)
      else (Suc (counter_done c), c\<lparr>counter_done := Suc (counter_done c)\<rparr>))"

text \<open>A run of the counter over the steps a backend reports: the numbers it answered.\<close>

primrec advance_all :: "RestoreStepCounter \<Rightarrow> RestoreStep list \<Rightarrow> nat list \<times> RestoreStepCounter" where
  "advance_all c [] = ([], c)"
| "advance_all c (s # steps) =
     (let (n, c') = advance c s; (ns, c'') = advance_all c' steps in (n # ns, c''))"

section \<open>What the counter accepts\<close>

lemma prefix_iff_take: "prefix xs ys \<longleftrightarrow> xs = take (length xs) ys"
  by (metis append_eq_conv_conj prefix_def take_is_prefix)

lemma advance_all_prefix:
  assumes "counter_done c + length steps \<le> length (counter_plan c)"
  shows "(\<forall>n \<in> set (fst (advance_all c steps)). n \<noteq> 0) \<longleftrightarrow>
    steps = take (length steps) (drop (counter_done c) (counter_plan c))"
  using assms
proof (induction steps arbitrary: c)
  case (Cons s steps)
  let ?d = "counter_done c" and ?p = "counter_plan c"
  have lt: "?d < length ?p" using Cons.prems by simp
  then have drop: "drop ?d ?p = ?p ! ?d # drop (Suc ?d) ?p" by (simp add: Cons_nth_drop_Suc)
  show ?case
  proof (cases "?p ! ?d = s")
    case True
    then have adv: "advance c s = (Suc ?d, c\<lparr>counter_done := Suc ?d\<rparr>)"
      using lt by (simp add: advance_def)
    show ?thesis
      using Cons.IH [of "c\<lparr>counter_done := Suc ?d\<rparr>"] Cons.prems True
      by (simp add: adv drop split_beta Let_def)
  next
    case False
    then have "advance c s = (0, c)" by (simp add: advance_def)
    then show ?thesis using False by (auto simp: split_beta Let_def drop)
  qed
qed simp

lemma advance_all_too_long:
  "counter_done c \<le> length (counter_plan c) \<Longrightarrow> length (counter_plan c) < counter_done c + length steps \<Longrightarrow>
   0 \<in> set (fst (advance_all c steps))"
proof (induction steps arbitrary: c)
  case (Cons s steps)
  show ?case
  proof (cases "length (counter_plan c) \<le> counter_done c \<or> counter_plan c ! counter_done c \<noteq> s")
    case True
    then show ?thesis by (simp add: advance_def split_beta Let_def)
  next
    case False
    then have "0 \<in> set (fst (advance_all (c\<lparr>counter_done := Suc (counter_done c)\<rparr>) steps))"
      by (intro Cons.IH) (use Cons.prems in simp_all)
    with False show ?thesis by (simp add: advance_def split_beta Let_def)
  qed
qed simp

lemma firstDestructive_bounds: "1 \<le> firstDestructiveStepOf plan \<and> firstDestructiveStepOf plan \<le> length plan + 1"
  by (induction plan) auto

lemma firstDestructive_before:
  "i + 1 < firstDestructiveStepOf plan \<Longrightarrow> \<not> changesDiskContents (plan ! i)"
proof (induction plan arbitrary: i)
  case (Cons s plan)
  then show ?case by (cases i) (auto split: if_splits)
qed simp

lemma firstDestructive_at:
  "firstDestructiveStepOf plan \<le> length plan \<Longrightarrow> changesDiskContents (plan ! (firstDestructiveStepOf plan - 1))"
proof (induction plan)
  case (Cons s plan)
  then show ?case using firstDestructive_bounds [of plan] by (auto simp: nth_Cons split: nat.splits)
qed simp

lemma firstDestructive_none:
  "firstDestructiveStepOf plan = length plan + 1 \<longleftrightarrow> \<not> list_ex changesDiskContents plan"
  by (induction plan) auto

section \<open>The contract of a plan\<close>

locale restore_plan =
  fixes plan :: "RestoreStep list"
  assumes distinct_plan: "distinct plan"
    and starts_verifying: "plan \<noteq> [] \<and> hd plan = VerifyDisk"
    and ends_complete: "last plan = Complete"
    and writes_something: "list_ex changesDiskContents plan"
begin

lemma accepted_iff_prefix:
  "0 \<notin> set (fst (advance_all (new_counter plan) steps)) \<longleftrightarrow> prefix steps plan"
proof (cases "length steps \<le> length plan")
  case True
  then show ?thesis using advance_all_prefix [of "new_counter plan" steps]
    by (auto simp: new_counter_def prefix_iff_take)
next
  case False
  then have "0 \<in> set (fst (advance_all (new_counter plan) steps))"
    by (intro advance_all_too_long) (simp_all add: new_counter_def)
  moreover have "\<not> prefix steps plan" using False prefix_length_le by blast
  ultimately show ?thesis by simp
qed

lemma boundary_in_plan: "firstDestructiveStepOf plan \<le> length plan"
  using firstDestructive_none [of plan] firstDestructive_bounds [of plan] writes_something by linarith

lemma boundary_positive: "1 < firstDestructiveStepOf plan"
proof -
  obtain s p where "plan = s # p" "s = VerifyDisk" using starts_verifying by (cases plan) auto
  then show ?thesis using firstDestructive_bounds [of p] by simp
qed

text \<open>Before the boundary no reported step has written; the step at the boundary is the first that does.\<close>

lemma safe_before_boundary:
  assumes "0 \<notin> set (fst (advance_all (new_counter plan) steps))"
  shows "list_ex changesDiskContents steps \<longleftrightarrow> firstDestructiveStepOf plan \<le> length steps"
proof -
  let ?b = "firstDestructiveStepOf plan"
  have steps: "steps = take (length steps) plan" using assms by (simp add: accepted_iff_prefix prefix_iff_take)
  show ?thesis
  proof
    assume "list_ex changesDiskContents steps"
    then obtain i where i: "i < length steps" "changesDiskContents (steps ! i)"
      by (auto simp: list_ex_length)
    then have "changesDiskContents (plan ! i)" using steps by (metis nth_take)
    then have "\<not> i + 1 < ?b" using firstDestructive_before by blast
    then show "?b \<le> length steps" using i(1) by simp
  next
    assume le: "?b \<le> length steps"
    have "changesDiskContents (plan ! (?b - 1))" by (rule firstDestructive_at [OF boundary_in_plan])
    moreover have "?b - 1 < length steps" using le boundary_positive by linarith
    ultimately have "changesDiskContents (steps ! (?b - 1))" using steps by (metis nth_take)
    then show "list_ex changesDiskContents steps"
      using \<open>?b - 1 < length steps\<close> by (auto simp: list_ex_length)
  qed
qed

end

interpretation linux_plan: restore_plan linuxRestorePlan
  by unfold_locales (simp_all add: linuxRestorePlan_def)

interpretation windows_plan: restore_plan windowsRestorePlan
  by unfold_locales (simp_all add: windowsRestorePlan_def)


section \<open>Messages\<close>

text \<open>
  \<open>wording\<close> stands for \<open>QCoreApplication::translate\<close> in the current language (context, source) and
  for Qt's multi-argument \<open>QString::arg\<close>.
\<close>

record wording =
  translate :: "string \<Rightarrow> string \<Rightarrow> qstring"
  fill :: "qstring \<Rightarrow> qstring list \<Rightarrow> qstring"

datatype RestoreMessage = Message (english: qstring) (display: qstring) (origin: Origin)
and Origin =
    Plain
  | Source string
  | Filled RestoreMessage "MessageArg list"
  | Trimmed RestoreMessage
and MessageArg =
    MessageArg RestoreMessage
  | TextArg qstring
  | NumberArg int

definition plain_message :: "qstring \<Rightarrow> RestoreMessage" where
  "plain_message t = Message t t Plain"

definition restoreText :: "wording \<Rightarrow> string \<Rightarrow> RestoreMessage" where
  "restoreText w src = Message (qs src) (translate w ''usbrestore::Backend'' src) (Source src)"

definition isTranslatable :: "RestoreMessage \<Rightarrow> bool" where
  "isTranslatable m \<longleftrightarrow> origin m \<noteq> Plain"

fun isTranslatableArg :: "MessageArg \<Rightarrow> bool" where
  "isTranslatableArg (MessageArg m) = isTranslatable m"
| "isTranslatableArg _ = False"

fun argument :: "MessageArg \<Rightarrow> TextMode \<Rightarrow> qstring" where
  "argument (MessageArg m) mode = (if mode = DisplayText then display m else english m)"
| "argument (TextArg t) mode = t"
| "argument (NumberArg n) mode = number_int n"

definition message_arg :: "wording \<Rightarrow> RestoreMessage \<Rightarrow> MessageArg list \<Rightarrow> RestoreMessage" where
  "message_arg w m args =
     Message (fill w (english m) (map (\<lambda>a. argument a EnglishText) args))
       (fill w (display m) (map (\<lambda>a. argument a DisplayText) args))
       (if isTranslatable m \<or> list_ex isTranslatableArg args then Filled m args else Plain)"

definition message_trimmed :: "RestoreMessage \<Rightarrow> RestoreMessage" where
  "message_trimmed m =
     Message (trimmed (english m)) (trimmed (display m)) (if isTranslatable m then Trimmed m else Plain)"

fun translated :: "wording \<Rightarrow> RestoreMessage \<Rightarrow> qstring"
  and translated_origin :: "wording \<Rightarrow> Origin \<Rightarrow> qstring \<Rightarrow> qstring"
  and translated_arg :: "wording \<Rightarrow> MessageArg \<Rightarrow> qstring" where
  "translated w (Message e d org) = translated_origin w org d"
| "translated_origin w Plain d = d"
| "translated_origin w (Source src) d = translate w ''usbrestore::Backend'' src"
| "translated_origin w (Filled m args) d = fill w (translated w m) (map (translated_arg w) args)"
| "translated_origin w (Trimmed m) d = trimmed (translated w m)"
| "translated_arg w (MessageArg m) = translated w m"
| "translated_arg w (TextArg t) = t"
| "translated_arg w (NumberArg n) = number_int n"

definition style_text :: "PartitionStyle \<Rightarrow> qstring" where
  "style_text style = (case partitionStyleLabel style of Some l \<Rightarrow> qs l | None \<Rightarrow> qs ''Unknown'')"

fun restoreStepMessage :: "wording \<Rightarrow> RestoreStep \<Rightarrow> PartitionStyle \<Rightarrow> FileSystemType \<Rightarrow> RestoreMessage" where
  "restoreStepMessage w VerifyDisk style fs = restoreText w ''Verifying the selected USB disk''"
| "restoreStepMessage w IdentifyDevice style fs = restoreText w ''Identifying the block device''"
| "restoreStepMessage w Unmount style fs = restoreText w ''Unmounting existing filesystems''"
| "restoreStepMessage w OpenExclusive style fs = restoreText w ''Opening the device exclusively''"
| "restoreStepMessage w OpenDrive style fs = restoreText w ''Opening and identifying the physical drive''"
| "restoreStepMessage w RefreshMetadata style fs = restoreText w ''Refreshing Windows disk metadata''"
| "restoreStepMessage w RefreshNewVolume style fs = restoreText w ''Refreshing Windows disk metadata''"
| "restoreStepMessage w DetachDriveLetters style fs =
     restoreText w ''Detaching existing volumes and drive letters''"
| "restoreStepMessage w DeletePartitions style fs = restoreText w ''Deleting existing partition records''"
| "restoreStepMessage w LockDrive style fs = restoreText w ''Locking the physical drive''"
| "restoreStepMessage w ClearSignatures style fs =
     restoreText w ''Clearing old MBR, GPT and ISO signatures''"
| "restoreStepMessage w ResetToRaw style fs = restoreText w ''Resetting the disk to RAW''"
| "restoreStepMessage w WritePartitionTable style fs =
     message_arg w (restoreText w ''Writing the %1 partition table'') [TextArg (style_text style)]"
| "restoreStepMessage w CreatePartition style fs =
     message_arg w (restoreText w ''Creating one %1 data partition'') [TextArg (style_text style)]"
| "restoreStepMessage w RereadPartitionTable style fs = restoreText w ''Re-reading the partition table''"
| "restoreStepMessage w WaitForPartition style fs =
     restoreText w ''Waiting for the new partition to appear''"
| "restoreStepMessage w WaitForVolume style fs =
     restoreText w ''Waiting for Windows to discover the new volume''"
| "restoreStepMessage w AssignDriveLetter style fs = restoreText w ''Assigning a drive letter''"
| "restoreStepMessage w Format style fs =
     message_arg w (restoreText w ''Formatting as %1'') [TextArg (qs (fileSystemTypeName fs))]"
| "restoreStepMessage w Complete style fs = restoreText w ''Restore complete''"

text \<open>
  \<open>checkRestoreError\<close>: the English run of a pure check decides; its display run only words the
  refusal. \<open>None\<close> is success.
\<close>

definition checkRestoreError :: "(TextMode \<Rightarrow> qstring option) \<Rightarrow> bool \<Rightarrow> RestoreMessage option" where
  "checkRestoreError check wantsDisplay =
     (case check EnglishText of
        None \<Rightarrow> None
      | Some e \<Rightarrow> Some (Message e
          (if wantsDisplay then (case check DisplayText of Some d \<Rightarrow> d | None \<Rightarrow> []) else []) Plain))"

text \<open>
  A message is built under a wording when every part of it is; then its display text is what it
  translates to, and after a language change \<open>translated\<close> gives the display text of the message built
  anew.
\<close>

fun built :: "wording \<Rightarrow> RestoreMessage \<Rightarrow> bool"
  and built_origin :: "wording \<Rightarrow> Origin \<Rightarrow> qstring \<Rightarrow> bool"
  and built_arg :: "wording \<Rightarrow> MessageArg \<Rightarrow> bool" where
  "built w (Message e d org) \<longleftrightarrow> built_origin w org d"
| "built_origin w Plain d \<longleftrightarrow> True"
| "built_origin w (Source src) d \<longleftrightarrow> d = translate w ''usbrestore::Backend'' src"
| "built_origin w (Filled m args) d \<longleftrightarrow>
     built w m \<and> list_all (built_arg w) args \<and>
     d = fill w (display m) (map (\<lambda>a. argument a DisplayText) args)"
| "built_origin w (Trimmed m) d \<longleftrightarrow> built w m \<and> d = trimmed (display m)"
| "built_arg w (MessageArg m) \<longleftrightarrow> built w m"
| "built_arg w (TextArg t) \<longleftrightarrow> True"
| "built_arg w (NumberArg n) \<longleftrightarrow> True"

lemma built_translated:
  "built w m \<Longrightarrow> translated w m = display m"
  "built_origin w org d \<Longrightarrow> translated_origin w org d = d"
  "built_arg w a \<Longrightarrow> translated_arg w a = argument a DisplayText"
proof (induction w m and w org d and w a rule: translated_translated_origin_translated_arg.induct)
  case (4 w m args d)
  have "translated_arg w a = argument a DisplayText" if "a \<in> set args" for a
    using 4 that by (auto simp: list_all_iff)
  then have args: "map (translated_arg w) args = map (\<lambda>a. argument a DisplayText) args" by simp
  from 4 show ?case unfolding translated_origin.simps args by simp
qed simp_all

lemma built_parts:
  "built w (plain_message t)" "built w (restoreText w src)"
  "built w m \<Longrightarrow> list_all (built_arg w) args \<Longrightarrow> built w (message_arg w m args)"
  "built w m \<Longrightarrow> built w (message_trimmed m)"
  by (simp_all add: plain_message_def restoreText_def message_arg_def message_trimmed_def)

lemma restoreStepMessage_built: "built w (restoreStepMessage w step style fs)"
  by (cases step) (simp_all add: built_parts)


section \<open>Properties\<close>

text \<open>The counter of either backend answers every step of a run exactly when the steps are a prefix of its
  plan: a step out of order, a repeated one, or one past the end is answered 0.\<close>

lemma counter_accepts_prefixes:
  "(0 \<notin> set (fst (advance_all (new_counter linuxRestorePlan) steps)) \<longleftrightarrow> prefix steps linuxRestorePlan) \<and>
   (0 \<notin> set (fst (advance_all (new_counter windowsRestorePlan) steps)) \<longleftrightarrow> prefix steps windowsRestorePlan)"
  using linux_plan.accepted_iff_prefix windows_plan.accepted_iff_prefix by blast

text \<open>The number the window shows as the last safe moment to unplug is right: on either backend it is the
  fifth step, and among the accepted step sequences those that contain a writing step are exactly
  those that have reached it.\<close>

lemma safe_to_unplug_boundary:
  assumes "plan = linuxRestorePlan \<or> plan = windowsRestorePlan"
    and "0 \<notin> set (fst (advance_all (new_counter plan) steps))"
  shows "firstDestructiveStepOf plan = 5 \<and>
    (list_ex changesDiskContents steps \<longleftrightarrow> firstDestructiveStepOf plan \<le> length steps)"
  using assms linux_plan.safe_before_boundary [of steps] windows_plan.safe_before_boundary [of steps]
  by (auto simp: linuxRestorePlan_def windowsRestorePlan_def)

lemma safe_to_unplug_boundary_witness:
  "\<not> list_ex changesDiskContents [VerifyDisk, IdentifyDevice, Unmount, OpenExclusive]"
  using safe_to_unplug_boundary [of linuxRestorePlan "[VerifyDisk, IdentifyDevice, Unmount, OpenExclusive]"]
  by (simp add: linuxRestorePlan_def new_counter_def advance_def)

text \<open>Text that stays on screen follows a language change: what a step message built in one language
  translates to in another is the display text of the message built in that language, and its
  English text never changes.\<close>

lemma step_message_follows_language:
  "translated w' (restoreStepMessage w step style fs) = display (restoreStepMessage w' step style fs)"
  using built_translated(1) [OF restoreStepMessage_built, of w' step style fs]
  by (cases step) (simp_all add: restoreText_def message_arg_def isTranslatable_def)

end
