(* ===== verification/Safety.thy ===== *)
theory Safety
  imports Disk_Info "HOL-Library.Sublist"
begin

text \<open>
  \<open>src/core/safety.{h,cpp}\<close>: which disks may be restored, whether a disk is still the selected
  one, and the byte ranges a restore uses. A refusal is a value of a datatype with one constructor
  per refusing statement of the source, in place of the message text; \<open>None\<close> is acceptance.
  Sizes are 64-bit words and wrap as in the code.
\<close>

subsection \<open>Sector sizes and layouts\<close>

record GptLayout =
  startOffset :: u64
  layout_length :: u64

definition no_layout :: GptLayout where
  "no_layout = \<lparr>startOffset = 0, layout_length = 0\<rparr>"

definition MinimumRestoreTargetBytes :: u64 where
  "MinimumRestoreTargetBytes = 8 * 1024 * 1024"

definition LargeRestoreTargetBytes :: u64 where
  "LargeRestoreTargetBytes = 128 * 1024 * 1024 * 1024"

definition SignatureClearBytes :: u64 where
  "SignatureClearBytes = 4 * 1024 * 1024"

definition GptEntryCount :: u32 where
  "GptEntryCount = 128"

definition GptEntrySize :: u32 where
  "GptEntrySize = 128"

definition isSupportedSectorSize :: "u32 \<Rightarrow> bool" where
  "isSupportedSectorSize s \<longleftrightarrow> s = 512 \<or> s = 1024 \<or> s = 2048 \<or> s = 4096"

definition effectiveSectorSize :: "u32 \<Rightarrow> u32" where
  "effectiveSectorSize s = (if s = 0 then 512 else s)"

text \<open>\<open>isSupportedSectorSize(sectorSize) ? sectorSize : 512\<close>, in five places of the source.\<close>

definition supported_or_512 :: "u32 \<Rightarrow> u32" where
  "supported_or_512 s = (if isSupportedSectorSize s then s else 512)"

definition gptEntryArraySectors :: "u32 \<Rightarrow> u32" where
  "gptEntryArraySectors s =
     (let sector = supported_or_512 s; array_bytes = GptEntryCount * GptEntrySize
      in (array_bytes + sector - 1) div sector)"

definition calculateGptLayout :: "u64 \<Rightarrow> u32 \<Rightarrow> GptLayout" where
  "calculateGptLayout diskSize s =
     (let sector = ucast (supported_or_512 s) :: u64;
          oneMiB = 1024 * 1024;
          start = ((oneMiB + sector - 1) div sector) * sector;
          backupGpt = (ucast (gptEntryArraySectors s) + 1) * sector
      in if diskSize \<le> start + backupGpt + sector then no_layout
         else
           let alignment = max oneMiB sector;
               rawLength = diskSize - start - backupGpt;
               len = (rawLength div alignment) * alignment
           in if len = 0 then no_layout else \<lparr>startOffset = start, layout_length = len\<rparr>)"

record SignatureClearRange =
  clear_bytes :: u64
  tailOffset :: u64
  clear_sectorSize :: u32

definition signatureClearRange :: "u64 \<Rightarrow> u32 \<Rightarrow> SignatureClearRange" where
  "signatureClearRange diskSize s =
     (let sectorSize' = supported_or_512 s;
          sector = ucast sectorSize' :: u64;
          clearBytes = (if diskSize div 4 < SignatureClearBytes then diskSize div 4 else SignatureClearBytes);
          n = (clearBytes div sector) * sector
      in \<lparr>clear_bytes = n,
          tailOffset = (if 0 < n then ((diskSize - n) div sector) * sector else 0),
          clear_sectorSize = sectorSize'\<rparr>)"

text \<open>True where the source returns the refusal text.\<close>

definition unalignedZeroRangeError :: "u64 \<Rightarrow> u64 \<Rightarrow> u32 \<Rightarrow> bool" where
  "unalignedZeroRangeError offset n s =
     (let sector = ucast (supported_or_512 s) :: u64
      in \<not> (offset mod sector = 0 \<and> n mod sector = 0))"

definition isPartitionAtDiskStart :: "u64 option \<Rightarrow> bool" where
  "isPartitionAtDiskStart partitionOffset = (case partitionOffset of None \<Rightarrow> False | Some v \<Rightarrow> v = 0)"

definition boundedEntryCount :: "u32 \<Rightarrow> u64 \<Rightarrow> u64 \<Rightarrow> u64 \<Rightarrow> u32" where
  "boundedEntryCount reportedCount returnedBytes headerBytes entryBytes =
     (if entryBytes = 0 \<or> returnedBytes < headerBytes then 0
      else
        let fits = (returnedBytes - headerBytes) div entryBytes
        in ucast (min (ucast reportedCount :: u64) fits))"

definition isValidDeviceRange :: "u64 \<Rightarrow> u64 \<Rightarrow> u64 \<Rightarrow> u32 \<Rightarrow> bool" where
  "isValidDeviceRange size' offset len s \<longleftrightarrow>
     isSupportedSectorSize s \<and> 0 < len \<and> offset \<le> size' \<and> len \<le> size' - offset \<and>
     offset mod ucast s = 0 \<and> len mod ucast s = 0"

subsection \<open>Partition layout errors\<close>

datatype LayoutError =
    UnsupportedLayoutSector u32
  | DiskTooSmallForLayout
  | NoStyleChosen
  | MbrCannotAddress

definition partitionLayoutError :: "PartitionStyle \<Rightarrow> GptLayout \<Rightarrow> u32 \<Rightarrow> LayoutError option" where
  "partitionLayoutError style layout s =
     (if \<not> isSupportedSectorSize s then Some (UnsupportedLayoutSector s)
      else if layout_length layout = 0 then Some DiskTooSmallForLayout
      else if style \<noteq> Mbr \<and> style \<noteq> Gpt then Some NoStyleChosen
      else if style = Mbr \<and> (startOffset layout + layout_length layout) div ucast s > 0xFFFFFFFF
           then Some MbrCannotAddress
      else None)"

definition canCreatePartitionLayout :: "PartitionStyle \<Rightarrow> DiskInfo \<Rightarrow> LayoutError option" where
  "canCreatePartitionLayout style disk =
     partitionLayoutError style (calculateGptLayout (disk_size disk) (sectorSize disk)) (sectorSize disk)"

subsection \<open>Protected mount points\<close>

record RestoreGuard =
  guard_mountPoints :: "qstring list"
  guard_deviceIds :: "qstring list"

definition looksLikeDriveLetter :: "unicode \<Rightarrow> qstring \<Rightarrow> bool" where
  "looksLikeDriveLetter U v =
     (if length v = 1 then letter U (v ! 0) else 2 \<le> length v \<and> v ! 1 = qc (CHR '':''))"

text \<open>\<open>while (mount.size() > 1 && mount.endsWith('/')) mount.chop(1)\<close>, on the reversed string.\<close>

fun chop_slashes_rev :: "qstring \<Rightarrow> qstring" where
  "chop_slashes_rev (c # d # s) = (if c = qc (CHR ''/'') then chop_slashes_rev (d # s) else c # d # s)"
| "chop_slashes_rev s = s"

definition chop_slashes :: "qstring \<Rightarrow> qstring" where
  "chop_slashes s = rev (chop_slashes_rev (rev s))"

definition forward_slashes :: "qstring \<Rightarrow> qstring" where
  "forward_slashes s = map (\<lambda>c. if c = 0x5C then qc (CHR ''/'') else c) s"

definition normalizedMountPoint :: "unicode \<Rightarrow> qstring \<Rightarrow> qstring" where
  "normalizedMountPoint U v =
     (let mount = trimmed v
      in if mount = [] then []
         else if looksLikeDriveLetter U mount then upper_case U (take 1 mount)
         else chop_slashes (forward_slashes mount))"

definition isProtectedMountPoint :: "unicode \<Rightarrow> qstring \<Rightarrow> qstring list \<Rightarrow> bool" where
  "isProtectedMountPoint U mountPoint protectedMountPoints =
     (let candidate = normalizedMountPoint U mountPoint
      in candidate \<noteq> [] \<and>
         list_ex (\<lambda>entry.
           let guarded = normalizedMountPoint U entry
           in guarded \<noteq> [] \<and>
              (candidate = guarded \<or>
               (\<not> looksLikeDriveLetter U candidate \<and> \<not> looksLikeDriveLetter U guarded \<and>
                starts_with guarded (if candidate = qs ''/'' then candidate else candidate @ qs ''/''))))
           protectedMountPoints)"

definition containsProtectedMountPoint :: "unicode \<Rightarrow> DiskInfo \<Rightarrow> RestoreGuard \<Rightarrow> bool" where
  "containsProtectedMountPoint U disk guard =
     list_ex (\<lambda>m. isProtectedMountPoint U m (guard_mountPoints guard)) (mountPoints disk)"

subsection \<open>The two gates: safe target, same target\<close>

definition normalizedIdentity :: "unicode \<Rightarrow> qstring \<Rightarrow> qstring" where
  "normalizedIdentity U v = fold_case U (trimmed v)"

definition bothKnownAndDifferent :: "unicode \<Rightarrow> qstring \<Rightarrow> qstring \<Rightarrow> bool" where
  "bothKnownAndDifferent U left right =
     (let a = normalizedIdentity U left; b = normalizedIdentity U right
      in a \<noteq> [] \<and> b \<noteq> [] \<and> a \<noteq> b)"

definition bothKnownAndEqual :: "unicode \<Rightarrow> qstring \<Rightarrow> qstring \<Rightarrow> bool" where
  "bothKnownAndEqual U left right =
     (let a = normalizedIdentity U left; b = normalizedIdentity U right
      in a \<noteq> [] \<and> b \<noteq> [] \<and> a = b)"

datatype SafetyRefusal =
    NoDevicePath
  | NotOnUsbBus u32
  | RunningSystemDisk
  | BootOrSystemDisk
  | HoldsProtectedLocation
  | DiskIsOffline
  | DiskIsReadOnly
  | NoUsableMedia
  | TooSmallToRestore u64
  | UnsupportedSectorSize u32
  | TooSmallForSafeLayout

definition isSafeRestoreTarget :: "unicode \<Rightarrow> DiskInfo \<Rightarrow> RestoreGuard \<Rightarrow> SafetyRefusal option" where
  "isSafeRestoreTarget U disk guard =
     (if trimmed (deviceId disk) = [] then Some NoDevicePath
      else if busType disk \<noteq> UsbBusType then Some (NotOnUsbBus (busType disk))
      else if list_ex (\<lambda>d. bothKnownAndEqual U (deviceId disk) d) (guard_deviceIds guard)
        then Some RunningSystemDisk
      else if isBoot disk \<or> isSystem disk then Some BootOrSystemDisk
      else if containsProtectedMountPoint U disk guard then Some HoldsProtectedLocation
      else if isOffline disk then Some DiskIsOffline
      else if isReadOnly disk then Some DiskIsReadOnly
      else if disk_size disk = 0 then Some NoUsableMedia
      else if disk_size disk < MinimumRestoreTargetBytes then Some (TooSmallToRestore (disk_size disk))
      else if \<not> isSupportedSectorSize (sectorSize disk) then Some (UnsupportedSectorSize (sectorSize disk))
      else if layout_length (calculateGptLayout (disk_size disk) (sectorSize disk)) = 0
        then Some TooSmallForSafeLayout
      else None)"

definition isSameDeviceSequence :: "u64 option \<Rightarrow> u64 option \<Rightarrow> bool" where
  "isSameDeviceSequence expected current =
     (case (expected, current) of (Some e, Some c) \<Rightarrow> e \<noteq> 0 \<and> e = c | _ \<Rightarrow> False)"

datatype IdentityRefusal =
    MovedDevice
  | DifferentSize
  | DifferentInstance
  | DifferentSectorSize
  | DifferentSerial
  | DifferentUniqueId
  | DifferentPath
  | DifferentName

definition isSameRestoreTarget :: "unicode \<Rightarrow> DiskInfo \<Rightarrow> DiskInfo \<Rightarrow> IdentityRefusal option" where
  "isSameRestoreTarget U selected current =
     (if normalizedIdentity U (deviceId selected) \<noteq> normalizedIdentity U (deviceId current)
        then Some MovedDevice
      else if disk_size selected \<noteq> disk_size current then Some DifferentSize
      else if deviceSequence selected \<noteq> None \<and>
              \<not> isSameDeviceSequence (deviceSequence selected) (deviceSequence current)
        then Some DifferentInstance
      else if sectorSize selected \<noteq> 0 \<and> sectorSize current \<noteq> 0 \<and> sectorSize selected \<noteq> sectorSize current
        then Some DifferentSectorSize
      else if bothKnownAndDifferent U (serialNumber selected) (serialNumber current) then Some DifferentSerial
      else if bothKnownAndDifferent U (uniqueId selected) (uniqueId current) then Some DifferentUniqueId
      else if bothKnownAndDifferent U (disk_path selected) (disk_path current) then Some DifferentPath
      else if bothKnownAndDifferent U (disk_name selected) (disk_name current) then Some DifferentName
      else None)"

definition isLargeRestoreTarget :: "DiskInfo \<Rightarrow> bool" where
  "isLargeRestoreTarget disk \<longleftrightarrow> LargeRestoreTargetBytes \<le> disk_size disk"

subsection \<open>Serial number from a \<open>/dev/disk/by-id\<close> link\<close>

text \<open>
  \<open>value.remove(QRegularExpression("-[0-9]+:[0-9]+$"))\<close>. The match, if there is one, ends at the
  end of the string or before a final newline, and its two digit runs are fixed by the colon and
  the hyphen around them, so it is found from the end.
\<close>

definition match_host_suffix_rev :: "qstring \<Rightarrow> qstring option" where
  "match_host_suffix_rev r =
     (case dropWhile is_decimal r of
        [] \<Rightarrow> None
      | c # r1 \<Rightarrow>
          if takeWhile is_decimal r = [] \<or> c \<noteq> qc (CHR '':'') then None
          else case dropWhile is_decimal r1 of
                 [] \<Rightarrow> None
               | d # r2 \<Rightarrow> if takeWhile is_decimal r1 = [] \<or> d \<noteq> qc (CHR ''-'') then None else Some r2)"

definition removeHostSuffix :: "qstring \<Rightarrow> qstring" where
  "removeHostSuffix s =
     (let (tail, body) = (if s \<noteq> [] \<and> last s = 10 then ([10], butlast s) else ([], s))
      in case match_host_suffix_rev (rev body) of None \<Rightarrow> s | Some r \<Rightarrow> rev r @ tail)"

definition serialFromUsbByIdLink :: "unicode \<Rightarrow> qstring \<Rightarrow> qstring \<Rightarrow> qstring" where
  "serialFromUsbByIdLink U link productName =
     (if \<not> starts_with link (qs ''usb-'') then []
      else
        let parts = split_skip (qc (CHR ''_'')) (drop 4 (removeHostSuffix link))
        in if length parts < 3 then []
           else
             let candidate = last parts
             in if productName \<noteq> [] \<and> contains_ci U productName candidate then [] else candidate)"

subsection \<open>Sector arithmetic\<close>

lemma supported_or_512_cases:
  obtains "supported_or_512 s = 512" | "supported_or_512 s = 1024"
  | "supported_or_512 s = 2048" | "supported_or_512 s = 4096"
  by (cases "isSupportedSectorSize s") (auto simp: supported_or_512_def isSupportedSectorSize_def)

lemma supported_or_512_id [simp]: "isSupportedSectorSize s \<Longrightarrow> supported_or_512 s = s"
  by (simp add: supported_or_512_def)

lemma effective_supported [simp]: "isSupportedSectorSize s \<Longrightarrow> effectiveSectorSize s = s"
  by (auto simp: effectiveSectorSize_def isSupportedSectorSize_def)

lemma array_sectors:
  "supported_or_512 s = 512 \<Longrightarrow> gptEntryArraySectors s = 32"
  "supported_or_512 s = 1024 \<Longrightarrow> gptEntryArraySectors s = 16"
  "supported_or_512 s = 2048 \<Longrightarrow> gptEntryArraySectors s = 8"
  "supported_or_512 s = 4096 \<Longrightarrow> gptEntryArraySectors s = 4"
  by (simp_all add: gptEntryArraySectors_def GptEntryCount_def GptEntrySize_def)

lemma array_bytes: "unat (gptEntryArraySectors s) * unat (supported_or_512 s) = 16384"
  by (rule supported_or_512_cases [of s]) (simp_all add: array_sectors)

lemma unat_supported_bounds:
  "512 \<le> unat (supported_or_512 s)" "unat (supported_or_512 s) \<le> 4096"
  by (rule supported_or_512_cases [of s], simp_all)+

lemma supported_dvd_MiB: "unat (supported_or_512 s) dvd 1048576"
  by (rule supported_or_512_cases [of s]) (simp_all add: dvd_def)

subsection \<open>The layout calculator\<close>

definition layout_reserve :: "u32 \<Rightarrow> u64" where
  "layout_reserve s = 16384 + ucast (supported_or_512 s)"

lemma calculateGptLayout_words:
  "calculateGptLayout d s =
     (if d \<le> 1048576 + layout_reserve s + ucast (supported_or_512 s) then no_layout
      else if ((d - 1048576 - layout_reserve s) div 1048576) * 1048576 = 0 then no_layout
      else \<lparr>startOffset = 1048576,
            layout_length = ((d - 1048576 - layout_reserve s) div 1048576) * 1048576\<rparr>)"
  by (rule supported_or_512_cases [of s])
    (simp_all add: calculateGptLayout_def layout_reserve_def array_sectors Let_def max_def)

lemma unat_layout_reserve: "unat (layout_reserve s) = 16384 + unat (supported_or_512 s)"
  by (rule supported_or_512_cases [of s]) (simp_all add: layout_reserve_def)

lemma layout_nat:
  assumes "layout_length (calculateGptLayout d s) \<noteq> 0"
  shows "unat (startOffset (calculateGptLayout d s)) = 1048576"
    and "unat (layout_length (calculateGptLayout d s)) =
      ((unat d - 1048576 - 16384 - unat (supported_or_512 s)) div 1048576) * 1048576"
    and "1048576 + 16384 + 2 * unat (supported_or_512 s) < unat d"
proof -
  let ?r = "layout_reserve s" and ?S = "supported_or_512 s"
  let ?raw = "d - 1048576 - ?r"
  have big: "\<not> d \<le> 1048576 + ?r + ucast ?S" and eq: "calculateGptLayout d s =
     \<lparr>startOffset = 1048576, layout_length = (?raw div 1048576) * 1048576\<rparr>"
    using assms by (auto simp: calculateGptLayout_words no_layout_def split: if_splits)
  show "unat (startOffset (calculateGptLayout d s)) = 1048576" by (simp add: eq)
  have sum: "unat (1048576 + ?r + ucast ?S) = 1048576 + 16384 + 2 * unat ?S"
    using unat_supported_bounds [of s]
    by (simp add: unat_plus_u64 unat_layout_reserve unat_widen)
  then show d: "1048576 + 16384 + 2 * unat ?S < unat d"
    using big by (simp add: word_le_nat_alt)
  have "unat (d - 1048576) = unat d - 1048576"
    using d by (subst unat_minus_u64) simp_all
  then have raw: "unat ?raw = unat d - 1048576 - 16384 - unat ?S"
    using d by (subst unat_minus_u64) (simp_all add: unat_layout_reserve)
  have "unat (?raw div 1048576 * 1048576) = (unat ?raw div 1048576) * 1048576"
    using unat_round_down [of ?raw 1048576] by simp
  then show "unat (layout_length (calculateGptLayout d s)) =
      ((unat d - 1048576 - 16384 - unat ?S) div 1048576) * 1048576"
    by (simp add: eq raw)
qed

lemma layout_fits:
  assumes "layout_length (calculateGptLayout d s) \<noteq> 0"
  defines "L \<equiv> unat (layout_length (calculateGptLayout d s))"
  shows "1048576 + L + 16384 + unat (supported_or_512 s) \<le> unat d"
    and "unat d < 1048576 + L + 16384 + unat (supported_or_512 s) + 1048576"
    and "1048576 dvd L" and "1048576 \<le> L"
proof -
  let ?raw = "unat d - 1048576 - 16384 - unat (supported_or_512 s)"
  have L: "L = (?raw div 1048576) * 1048576"
    using layout_nat(2) [OF assms(1)] by (simp add: L_def)
  have d: "1048576 + 16384 + 2 * unat (supported_or_512 s) < unat d"
    by (rule layout_nat(3) [OF assms(1)])
  have "0 < L" using assms(1) by (simp add: L_def unat_gt_0)
  show "1048576 + L + 16384 + unat (supported_or_512 s) \<le> unat d"
    using round_down_le [of ?raw 1048576] d by (simp add: L)
  show "unat d < 1048576 + L + 16384 + unat (supported_or_512 s) + 1048576"
    using round_down_gt [of 1048576 ?raw] d by (simp add: L)
  show dvd: "1048576 dvd L" by (simp add: L)
  show "1048576 \<le> L" using dvd \<open>0 < L\<close> by (rule dvd_imp_le)
qed

lemma layout_sector_aligned:
  assumes "layout_length (calculateGptLayout d s) \<noteq> 0"
  shows "unat (supported_or_512 s) dvd unat (startOffset (calculateGptLayout d s))"
    and "unat (supported_or_512 s) dvd unat (layout_length (calculateGptLayout d s))"
  using layout_nat(1) [OF assms] layout_fits(3) [OF assms] supported_dvd_MiB [of s]
  by (auto intro: dvd_trans)

lemma no_layout_start: "layout_length (calculateGptLayout d s) = 0 \<Longrightarrow> calculateGptLayout d s = no_layout"
  by (auto simp: calculateGptLayout_words no_layout_def split: if_splits)

subsection \<open>The signature ranges\<close>

lemma clear_range_nat:
  fixes d :: u64 and s :: u32
  defines "r \<equiv> signatureClearRange d s" and "S \<equiv> unat (supported_or_512 s)"
  defines "n \<equiv> (min (unat d div 4) 4194304 div S) * S"
  shows "unat (clear_bytes r) = n" and "clear_bytes r \<noteq> 0 \<Longrightarrow> unat (tailOffset r) = ((unat d - n) div S) * S"
    and "clear_sectorSize r = supported_or_512 s"
proof -
  let ?c = "if d div 4 < SignatureClearBytes then d div 4 else SignatureClearBytes"
  let ?W = "ucast (supported_or_512 s) :: u64"
  have W: "unat ?W = S" by (simp add: S_def unat_widen)
  have c: "unat ?c = min (unat d div 4) 4194304"
    by (auto simp: SignatureClearBytes_def nat_of min_def)
  have m: "unat ((x div ?W) * ?W) = (unat x div S) * S" for x :: u64
    by (simp add: unat_round_down W)
  have r: "clear_bytes r = (?c div ?W) * ?W"
      "tailOffset r = (if 0 < clear_bytes r then ((d - clear_bytes r) div ?W) * ?W else 0)"
    by (simp_all add: r_def signatureClearRange_def Let_def)
  show n: "unat (clear_bytes r) = n" by (simp only: r(1) m c n_def)
  have "n \<le> min (unat d div 4) 4194304" unfolding n_def by (rule round_down_le)
  then have "n \<le> unat d" by (simp add: min_def split: if_splits)
  then have "unat (d - clear_bytes r) = unat d - n"
    using n by (subst unat_minus_u64) simp_all
  then show "clear_bytes r \<noteq> 0 \<Longrightarrow> unat (tailOffset r) = ((unat d - n) div S) * S"
    by (simp add: r(2) m word_gt_0)
  show "clear_sectorSize r = supported_or_512 s" by (simp add: r_def signatureClearRange_def Let_def)
qed

lemma clear_range_fits:
  assumes "clear_bytes (signatureClearRange d s) \<noteq> 0"
  defines "n \<equiv> unat (clear_bytes (signatureClearRange d s))"
    and "t \<equiv> unat (tailOffset (signatureClearRange d s))" and "S \<equiv> unat (supported_or_512 s)"
  shows "S dvd n" and "S dvd t" and "2 * n \<le> t" and "t + n \<le> unat d" and "unat d < t + n + S"
    and "4 * n \<le> unat d"
proof -
  let ?m = "min (unat d div 4) 4194304"
  have n: "n = (?m div S) * S" and t: "t = ((unat d - n) div S) * S"
    using clear_range_nat [of d s] assms(1) by (simp_all add: n_def t_def S_def)
  have S: "0 < S" using unat_supported_bounds(1) [of s] by (simp add: S_def)
  have pos: "0 < n" using assms(1) by (simp add: n_def unat_gt_0)
  show dvd: "S dvd n" and "S dvd t" by (simp_all add: n t)
  have Sn: "S \<le> n" using dvd pos by (rule dvd_imp_le)
  have "n \<le> ?m" using round_down_le [of ?m S] by (simp add: n)
  then show four: "4 * n \<le> unat d" by linarith
  have up: "t \<le> unat d - n" using round_down_le [of "unat d - n" S] by (simp add: t)
  have lo: "unat d - n < t + S" using round_down_gt [OF S, of "unat d - n"] by (simp add: t)
  show "t + n \<le> unat d" "unat d < t + n + S" using up lo four by linarith+
  show "2 * n \<le> t" using lo four Sn by linarith
qed

lemma clear_range_nonzero:
  assumes "16384 \<le> unat d" shows "clear_bytes (signatureClearRange d s) \<noteq> 0"
proof -
  let ?S = "unat (supported_or_512 s)"
  have "?S \<le> min (unat d div 4) 4194304"
    using assms unat_supported_bounds(2) [of s] by linarith
  then have "1 \<le> min (unat d div 4) 4194304 div ?S"
    using unat_supported_bounds(1) [of s] by (simp add: div_greater_zero_iff Suc_le_eq)
  then have "0 < (min (unat d div 4) 4194304 div ?S) * ?S"
    using unat_supported_bounds(1) [of s] by simp
  then show ?thesis using clear_range_nat(1) [of d s] by (metis less_irrefl unat_0)
qed

subsection \<open>Ranges and counts\<close>

lemma isValidDeviceRange_iff:
  "isValidDeviceRange size' offset len s \<longleftrightarrow>
     isSupportedSectorSize s \<and> 0 < unat len \<and> unat offset + unat len \<le> unat size' \<and>
     unat s dvd unat offset \<and> unat s dvd unat len"
proof -
  have "offset \<le> size' \<and> len \<le> size' - offset \<longleftrightarrow> unat offset + unat len \<le> unat size'"
    by (auto simp: word_le_nat_alt unat_minus_u64)
  then show ?thesis
    by (auto simp: isValidDeviceRange_def mod_0_dvd_u64 unat_widen word_less_nat_alt)
qed

lemma boundedEntryCount_bounds:
  assumes "entryBytes \<noteq> 0"
  shows "boundedEntryCount n returned header entryBytes \<le> n"
    and "boundedEntryCount n returned header entryBytes \<noteq> 0 \<Longrightarrow>
      unat header + unat (boundedEntryCount n returned header entryBytes) * unat entryBytes \<le> unat returned"
proof -
  let ?fits = "(returned - header) div entryBytes"
  let ?m = "min (ucast n :: u64) ?fits"
  have m: "unat ?m = min (unat n) (unat ?fits)"
    by (simp add: min_def word_le_nat_alt unat_widen)
  have "unat ?m < 2 ^ 32" using unat_u32_bound [of n] by (simp add: m)
  then have c: "unat (ucast ?m :: u32) = min (unat n) (unat ?fits)"
    by (simp add: unsigned_ucast_eq take_bit_nat_eq_self m)
  show "boundedEntryCount n returned header entryBytes \<le> n"
    using c by (auto simp: boundedEntryCount_def Let_def word_le_nat_alt)
  show "unat header + unat (boundedEntryCount n returned header entryBytes) * unat entryBytes \<le> unat returned"
    if "boundedEntryCount n returned header entryBytes \<noteq> 0"
  proof -
    from that assms have le: "header \<le> returned"
      by (auto simp: boundedEntryCount_def split: if_splits)
    have "unat ?fits * unat entryBytes \<le> unat returned - unat header"
      using le by (simp add: unat_div_word unat_minus_u64 word_le_nat_alt)
    then have "min (unat n) (unat ?fits) * unat entryBytes \<le> unat returned - unat header"
      by (rule order_trans [rotated]) (rule mult_le_mono1, simp)
    moreover have "unat header \<le> unat returned" using le by (simp add: word_le_nat_alt)
    ultimately have "unat header + min (unat n) (unat ?fits) * unat entryBytes \<le> unat returned"
      by linarith
    then show ?thesis using assms le c by (simp add: boundedEntryCount_def Let_def)
  qed
qed

subsection \<open>The gates\<close>

lemma isSafeRestoreTarget_None:
  "isSafeRestoreTarget U disk guard = None \<longleftrightarrow>
     trimmed (deviceId disk) \<noteq> [] \<and> busType disk = UsbBusType \<and>
     list_all (\<lambda>d. \<not> bothKnownAndEqual U (deviceId disk) d) (guard_deviceIds guard) \<and>
     \<not> isBoot disk \<and> \<not> isSystem disk \<and>
     list_all (\<lambda>m. \<not> isProtectedMountPoint U m (guard_mountPoints guard)) (mountPoints disk) \<and>
     \<not> isOffline disk \<and> \<not> isReadOnly disk \<and>
     8388608 \<le> unat (disk_size disk) \<and> isSupportedSectorSize (sectorSize disk) \<and>
     layout_length (calculateGptLayout (disk_size disk) (sectorSize disk)) \<noteq> 0"
proof -
  have "MinimumRestoreTargetBytes \<le> disk_size disk \<longleftrightarrow> 8388608 \<le> unat (disk_size disk)"
    by (simp add: MinimumRestoreTargetBytes_def word_le_nat_alt)
  moreover have "disk_size disk = 0 \<Longrightarrow> \<not> 8388608 \<le> unat (disk_size disk)" by simp
  ultimately show ?thesis
    by (auto simp: isSafeRestoreTarget_def containsProtectedMountPoint_def list_ex_iff list_all_iff not_less)
qed

lemma isSameDeviceSequence_iff:
  "isSameDeviceSequence e c \<longleftrightarrow> (\<exists>n. n \<noteq> 0 \<and> e = Some n \<and> c = Some n)"
  by (auto simp: isSameDeviceSequence_def split: option.splits)

lemma bothKnownAndDifferent_irrefl [simp]: "\<not> bothKnownAndDifferent U v v"
  by (simp add: bothKnownAndDifferent_def Let_def)

lemma bothKnown_not_both: "\<not> (bothKnownAndEqual U a b \<and> bothKnownAndDifferent U a b)"
  by (simp add: bothKnownAndEqual_def bothKnownAndDifferent_def Let_def)

lemma isSameRestoreTarget_refl:
  "isSameRestoreTarget U disk disk = None \<longleftrightarrow> deviceSequence disk \<noteq> Some 0"
  by (auto simp: isSameRestoreTarget_def isSameDeviceSequence_iff)

lemma isSameRestoreTarget_NoneD:
  assumes "isSameRestoreTarget U selected current = None"
  shows "normalizedIdentity U (deviceId selected) = normalizedIdentity U (deviceId current)"
    and "disk_size selected = disk_size current"
    and "deviceSequence selected = None \<or>
      (deviceSequence current = deviceSequence selected \<and> deviceSequence selected \<noteq> Some 0)"
    and "sectorSize selected = 0 \<or> sectorSize current = 0 \<or> sectorSize selected = sectorSize current"
    and "\<not> bothKnownAndDifferent U (serialNumber selected) (serialNumber current)"
    and "\<not> bothKnownAndDifferent U (uniqueId selected) (uniqueId current)"
    and "\<not> bothKnownAndDifferent U (disk_path selected) (disk_path current)"
    and "\<not> bothKnownAndDifferent U (disk_name selected) (disk_name current)"
  using assms by (auto simp: isSameRestoreTarget_def isSameDeviceSequence_iff split: if_splits)

text \<open>A safe target always has room for its layout, its signatures and a valid loop mapping.\<close>

lemma safe_target_ranges:
  assumes "isSafeRestoreTarget U disk guard = None"
  defines "layout \<equiv> calculateGptLayout (disk_size disk) (sectorSize disk)"
  shows "isValidDeviceRange (disk_size disk) (startOffset layout) (layout_length layout) (sectorSize disk)"
    and "clear_bytes (signatureClearRange (disk_size disk) (sectorSize disk)) \<noteq> 0"
proof -
  from assms have ok: "isSupportedSectorSize (sectorSize disk)" "layout_length layout \<noteq> 0"
    "8388608 \<le> unat (disk_size disk)"
    by (auto simp: isSafeRestoreTarget_None)
  let ?d = "disk_size disk" and ?s = "sectorSize disk"
  have nz: "layout_length (calculateGptLayout ?d ?s) \<noteq> 0" using ok(2) by (simp add: layout_def)
  have "0 < unat (layout_length layout)" using ok(2) by (simp add: unat_gt_0)
  moreover have "unat (startOffset layout) + unat (layout_length layout) \<le> unat ?d"
    using layout_fits(1) [OF nz] layout_nat(1) [OF nz] by (simp add: layout_def)
  moreover have "unat ?s dvd unat (startOffset layout)" "unat ?s dvd unat (layout_length layout)"
    using layout_sector_aligned [OF nz] ok(1) by (simp_all add: layout_def)
  ultimately show "isValidDeviceRange ?d (startOffset layout) (layout_length layout) ?s"
    using ok(1) by (simp add: isValidDeviceRange_iff)
  show "clear_bytes (signatureClearRange ?d ?s) \<noteq> 0"
    by (rule clear_range_nonzero) (use ok(3) in simp)
qed
subsection \<open>Protected mount points as path components\<close>

text \<open>
  The specification of the guard on POSIX paths: a mount point is protected when its list of
  path components is a prefix of a guarded one. \<open>posix_path\<close> writes such a list the way the
  kernel does.
\<close>

definition slash :: qchar where
  "slash = qc (CHR ''/'')"

definition posix_path :: "qstring list \<Rightarrow> qstring" where
  "posix_path cs = (if cs = [] then [slash] else concat (map ((#) slash) cs))"

definition path_component :: "qstring \<Rightarrow> bool" where
  "path_component c \<longleftrightarrow> c \<noteq> [] \<and> slash \<notin> set c \<and> 0x5C \<notin> set c"

definition plain_path :: "qstring list \<Rightarrow> bool" where
  "plain_path cs \<longleftrightarrow> list_all path_component cs \<and>
     (cs \<noteq> [] \<longrightarrow> hd (hd cs) \<noteq> qc (CHR '':'') \<and> \<not> is_space (last (last cs)))"

lemma starts_with_iff_prefix: "starts_with s p \<longleftrightarrow> prefix p s"
  by (auto simp: starts_with_def prefix_def append_eq_conv_conj) (metis append_take_drop_id)

lemma prefix_until_slash:
  assumes "x \<notin> set c" "x \<notin> set g" "y = [] \<or> hd y = x"
  shows "prefix (c @ x # r) (g @ y) \<longleftrightarrow> c = g \<and> prefix (x # r) y"
  using assms
proof (induction c arbitrary: g)
  case Nil
  then show ?case by (cases g) auto
next
  case (Cons a c)
  then show ?case by (cases g; cases y) auto
qed

lemma prefix_slashed:
  assumes "\<forall>c \<in> set cs \<union> set gs. slash \<notin> set c"
  shows "prefix (concat (map ((#) slash) cs) @ [slash]) (concat (map ((#) slash) gs)) \<longleftrightarrow>
    prefix cs gs \<and> cs \<noteq> gs"
  using assms
proof (induction cs arbitrary: gs)
  case Nil
  then show ?case by (cases gs) auto
next
  case (Cons c cs)
  show ?case
  proof (cases gs)
    case Nil
    then show ?thesis by simp
  next
    case (Cons g gs')
    have "\<exists>r. concat (map ((#) slash) cs) @ [slash] = slash # r" by (cases cs) auto
    then obtain r where r: "concat (map ((#) slash) cs) @ [slash] = slash # r" by blast
    have "concat (map ((#) slash) gs') = [] \<or> hd (concat (map ((#) slash) gs')) = slash"
      by (cases gs') auto
    then have "prefix (c @ slash # r) (g @ concat (map ((#) slash) gs')) \<longleftrightarrow>
        c = g \<and> prefix (slash # r) (concat (map ((#) slash) gs'))"
      using Cons.prems Cons by (intro prefix_until_slash) auto
    with Cons.IH [of gs'] Cons.prems r Cons show ?thesis by auto
  qed
qed

lemma posix_path_inject:
  assumes "list_all path_component cs" "list_all path_component gs"
  shows "posix_path cs = posix_path gs \<longleftrightarrow> cs = gs"
proof
  let ?J = "\<lambda>cs. concat (map ((#) slash) cs)"
  have noslash: "\<forall>c \<in> set cs \<union> set gs. slash \<notin> set c"
    using assms by (auto simp: list_all_iff path_component_def)
  assume "posix_path cs = posix_path gs"
  moreover have "?J xs \<noteq> [slash]" if "list_all path_component xs" for xs
    using that by (cases xs) (auto simp: path_component_def)
  ultimately have eq: "?J cs = ?J gs"
    using assms by (auto simp: posix_path_def split: if_splits)
  have step: "prefix xs ys" if "?J xs = ?J ys" "\<forall>c \<in> set xs \<union> set ys. slash \<notin> set c" for xs ys
  proof -
    have "?J (ys @ [[]]) = ?J ys @ [slash]" by simp
    then have "prefix (?J xs @ [slash]) (?J (ys @ [[]]))" using that(1) by simp
    moreover have "\<forall>c \<in> set xs \<union> set (ys @ [[]]). slash \<notin> set c" using that(2) by auto
    ultimately have "prefix xs (ys @ [[]])" "xs \<noteq> ys @ [[]]"
      using prefix_slashed by blast+
    then show "prefix xs ys" by (cases "prefix xs ys") (simp_all only: prefix_snoc simp_thms)
  qed
  have "prefix cs gs" by (rule step [OF eq noslash])
  moreover have "prefix gs cs"
    by (rule step [OF eq [symmetric]]) (use noslash in blast)
  ultimately show "cs = gs" by (rule prefix_order.antisym)
qed simp

lemma slash_not_space [simp]: "\<not> is_space slash"
  by (simp add: slash_def qc_def is_space_def)

lemma last_posix_path:
  "list_all path_component cs \<Longrightarrow> cs \<noteq> [] \<Longrightarrow> last (posix_path cs) = last (last cs)"
  by (cases cs rule: rev_cases) (auto simp: posix_path_def path_component_def)

lemma dropWhile_hd_id: "s = [] \<or> \<not> P (hd s) \<Longrightarrow> dropWhile P s = s"
  by (cases s) auto

lemma trimmed_id: "s = [] \<or> (\<not> is_space (hd s) \<and> \<not> is_space (last s)) \<Longrightarrow> trimmed s = s"
  using dropWhile_hd_id [of s is_space] dropWhile_hd_id [of "rev s" is_space]
  by (auto simp: trimmed_def trim_front_def hd_rev)

lemma chop_slashes_id: "s = [slash] \<or> s = [] \<or> last s \<noteq> slash \<Longrightarrow> chop_slashes s = s"
  by (cases s rule: rev_cases; cases "butlast s" rule: rev_cases)
    (auto simp: chop_slashes_def slash_def)

lemma length_posix_path: "list_all path_component cs \<Longrightarrow> cs \<noteq> [] \<Longrightarrow> 2 \<le> length (posix_path cs)"
  by (cases cs; cases "hd cs") (auto simp: posix_path_def path_component_def)

lemma posix_not_drive:
  assumes "plain_path cs" "\<not> letter U slash"
  shows "\<not> looksLikeDriveLetter U (posix_path cs)"
proof (cases cs)
  case Nil
  then show ?thesis using assms by (simp add: looksLikeDriveLetter_def posix_path_def)
next
  case (Cons c cs')
  with assms(1) obtain a c' where c: "c = a # c'" by (auto simp: plain_path_def path_component_def neq_Nil_conv)
  then show ?thesis using assms Cons
    by (simp add: looksLikeDriveLetter_def posix_path_def plain_path_def)
qed

lemma normalized_posix_path:
  assumes "plain_path cs" "\<not> letter U slash"
  shows "normalizedMountPoint U (posix_path cs) = posix_path cs"
proof -
  have comps: "list_all path_component cs" using assms(1) by (simp add: plain_path_def)
  have ne: "posix_path cs \<noteq> []" by (cases cs) (simp_all add: posix_path_def)
  have "hd (posix_path cs) = slash" by (cases cs) (simp_all add: posix_path_def)
  moreover have "\<not> is_space (last (posix_path cs))"
    using assms(1) last_posix_path [OF comps]
    by (cases "cs = []") (auto simp: plain_path_def posix_path_def)
  ultimately have trim: "trimmed (posix_path cs) = posix_path cs"
    by (intro trimmed_id) simp
  have "0x5C \<notin> set (posix_path cs)"
    using comps by (auto simp: posix_path_def list_all_iff path_component_def slash_def qc_def)
  then have fwd: "forward_slashes (posix_path cs) = posix_path cs"
    by (auto simp: forward_slashes_def intro: map_idI)
  have "cs \<noteq> [] \<Longrightarrow> last (posix_path cs) \<noteq> slash"
    using comps last_posix_path [OF comps]
    by (metis last_in_set list_all_iff path_component_def)
  then have chop: "chop_slashes (posix_path cs) = posix_path cs"
    by (cases "cs = []") (auto intro!: chop_slashes_id simp: posix_path_def)
  show ?thesis
    using ne posix_not_drive [OF assms] by (simp add: normalizedMountPoint_def trim fwd chop)
qed

lemma isProtectedMountPoint_posix:
  assumes "plain_path cs" "\<forall>gs \<in> set guards. plain_path gs" "\<not> letter U slash"
  shows "isProtectedMountPoint U (posix_path cs) (map posix_path guards) \<longleftrightarrow>
    (\<exists>gs \<in> set guards. prefix cs gs)"
proof -
  let ?J = "\<lambda>cs. concat (map ((#) slash) cs)"
  have comps: "list_all path_component cs" using assms(1) by (simp add: plain_path_def)
  have ne: "posix_path xs \<noteq> []" for xs by (cases xs) (simp_all add: posix_path_def)
  have root: "posix_path cs = qs ''/'' \<longleftrightarrow> cs = []"
    using length_posix_path [OF comps] by (cases "cs = []") (auto simp: posix_path_def slash_def qs_def)
  have one: "posix_path cs = posix_path gs \<or>
      prefix (if posix_path cs = qs ''/'' then posix_path cs else posix_path cs @ qs ''/'') (posix_path gs) \<longleftrightarrow>
      prefix cs gs" if g: "plain_path gs" for gs
  proof (cases "cs = []")
    case True
    then show ?thesis by (cases gs) (auto simp: posix_path_def slash_def qs_def)
  next
    case False
    have gcomps: "list_all path_component gs" using g by (simp add: plain_path_def)
    have noslash: "\<forall>c \<in> set cs \<union> set gs. slash \<notin> set c"
      using comps gcomps by (auto simp: list_all_iff path_component_def)
    have "\<not> prefix (?J cs @ [slash]) [slash]" using False by (cases cs) auto
    then have "prefix (posix_path cs @ [slash]) (posix_path gs) \<longleftrightarrow> prefix cs gs \<and> cs \<noteq> gs"
      using prefix_slashed [OF noslash] False by (cases "gs = []") (simp_all add: posix_path_def)
    then show ?thesis
      using False root posix_path_inject [OF comps gcomps] by (auto simp: qs_def slash_def)
  qed
  show ?thesis
    using assms by (simp add: isProtectedMountPoint_def Let_def normalized_posix_path posix_not_drive
        list_ex_iff ne starts_with_iff_prefix one)
qed


subsection \<open>Properties\<close>

text \<open>C22. \<open>calculateGptLayout\<close> is exactly this: with 1 MiB in front and 16 KiB of entries plus one header
  sector behind, the partition starts at 1 MiB and is the greatest whole number of mebibytes that
  fits; there is no layout when not even one fits. No 64-bit step wraps.\<close>

theorem calculateGptLayout_exact:
  "let reserve = 1048576 + 16384 + unat (supported_or_512 s); layout = calculateGptLayout d s in
   if unat d < reserve + 1048576 then layout = no_layout
   else unat (startOffset layout) = 1048576 \<and>
     unat (layout_length layout) = (unat d - reserve) div 1048576 * 1048576"
proof (cases "layout_length (calculateGptLayout d s) = 0")
  case False
  then have "1048576 + 16384 + unat (supported_or_512 s) + 1048576 \<le> unat d"
    using layout_fits(1,4) [OF False] by linarith
  then show ?thesis using layout_nat [OF False] by (simp add: Let_def diff_diff_eq ac_simps)
next
  case True
  have "unat d < 1048576 + 16384 + unat (supported_or_512 s) + 1048576"
  proof (rule ccontr)
    let ?S = "supported_or_512 s" and ?r = "layout_reserve s"
    assume "\<not> ?thesis"
    then have big: "2 * 1048576 + 16384 + unat ?S \<le> unat d" by simp
    note S = unat_supported_bounds [of s]
    have sum: "unat (1048576 + ?r + ucast ?S) = 1048576 + 16384 + 2 * unat ?S"
    proof -
      have "unat (1048576 + ?r) = 1048576 + 16384 + unat ?S"
        using S by (subst unat_plus_u64) (simp_all add: unat_layout_reserve)
      then show ?thesis using S by (subst unat_plus_u64) (simp_all add: unat_widen)
    qed
    have "unat (d - 1048576 - ?r) = unat d - 1048576 - (16384 + unat ?S)"
      using big by (simp add: unat_minus_u64 unat_layout_reserve)
    then have "1 \<le> unat ((d - 1048576 - ?r) div 1048576)"
      using big by (simp add: unat_div_word div_greater_zero_iff Suc_le_eq)
    then have "unat ((d - 1048576 - ?r) div 1048576 * 1048576) \<noteq> 0"
      by (simp add: unat_round_down unat_div_word)
    then have "(d - 1048576 - ?r) div 1048576 * 1048576 \<noteq> 0" by (metis unat_0)
    moreover have "\<not> d \<le> 1048576 + ?r + ucast ?S"
      using big S by (simp add: word_le_nat_alt sum)
    ultimately show False using True by (simp add: calculateGptLayout_words)
  qed
  then show ?thesis using no_layout_start [OF True] by (simp add: Let_def)
qed

text \<open>C1. What the safety gate guarantees when it accepts a disk: it is a USB disk that is not one of the
  disks of the running system and carries no protected mount point, it is online and writable, and
  the partition and the signature ranges the restore will write are sector-aligned ranges of it.\<close>

theorem accepted_target_is_safe:
  assumes "isSafeRestoreTarget U disk guard = None"
  shows "busType disk = UsbBusType \<and> \<not> isBoot disk \<and> \<not> isSystem disk \<and> \<not> isOffline disk \<and> \<not> isReadOnly disk \<and>
    \<not> list_ex (bothKnownAndEqual U (deviceId disk)) (guard_deviceIds guard) \<and>
    \<not> list_ex (\<lambda>m. isProtectedMountPoint U m (guard_mountPoints guard)) (mountPoints disk) \<and>
    (let layout = calculateGptLayout (disk_size disk) (sectorSize disk);
         clear = signatureClearRange (disk_size disk) (sectorSize disk)
     in isValidDeviceRange (disk_size disk) (startOffset layout) (layout_length layout) (sectorSize disk) \<and>
        isValidDeviceRange (disk_size disk) 0 (clear_bytes clear) (sectorSize disk) \<and>
        isValidDeviceRange (disk_size disk) (tailOffset clear) (clear_bytes clear) (sectorSize disk) \<and>
        unat (clear_bytes clear) \<le> unat (tailOffset clear))"
proof -
  note safe = assms [unfolded isSafeRestoreTarget_None]
  note ranges = safe_target_ranges [OF assms]
  note fits = clear_range_fits [OF ranges(2)]
  have sup: "isSupportedSectorSize (sectorSize disk)" using safe by blast
  have "0 < unat (clear_bytes (signatureClearRange (disk_size disk) (sectorSize disk)))"
    using ranges(2) by (simp add: unat_gt_0)
  with fits sup have
    "isValidDeviceRange (disk_size disk) 0 (clear_bytes (signatureClearRange (disk_size disk) (sectorSize disk)))
       (sectorSize disk)"
    "isValidDeviceRange (disk_size disk) (tailOffset (signatureClearRange (disk_size disk) (sectorSize disk)))
       (clear_bytes (signatureClearRange (disk_size disk) (sectorSize disk))) (sectorSize disk)"
    by (simp_all add: isValidDeviceRange_iff)
  with ranges(1) fits(3) safe show ?thesis
    by (auto simp: Let_def list_all_iff list_ex_iff)
qed

definition ascii_tables :: unicode where
  "ascii_tables = \<lparr>fold_case = (\<lambda>s. s), upper_case = (\<lambda>s. s), letter = is_ascii_alnum,
     digit = is_decimal, contains_ci = (\<lambda>_ _. False)\<rparr>"

definition usb_stick :: DiskInfo where
  "usb_stick = empty_disk\<lparr>deviceId := qs ''/dev/sdb'', busType := UsbBusType,
     disk_size := 16000000000, sectorSize := 512, deviceSequence := Some 7\<rparr>"

definition running_system :: RestoreGuard where
  "running_system = \<lparr>guard_mountPoints = [qs ''/'', qs ''/boot''], guard_deviceIds = [qs ''/dev/sda'']\<rparr>"

lemma usb_stick_safe: "isSafeRestoreTarget ascii_tables usb_stick running_system = None"
  by (simp add: isSafeRestoreTarget_def usb_stick_def running_system_def ascii_tables_def empty_disk_def
      bothKnownAndEqual_def normalizedIdentity_def trimmed_def trim_front_def is_space_def qs_def qc_def
      containsProtectedMountPoint_def isSupportedSectorSize_def MinimumRestoreTargetBytes_def
      calculateGptLayout_words layout_reserve_def supported_or_512_def no_layout_def)

theorem accepted_target_is_safe_witness:
  "isValidDeviceRange (disk_size usb_stick) 1048576
     (layout_length (calculateGptLayout (disk_size usb_stick) (sectorSize usb_stick))) (sectorSize usb_stick)"
  using accepted_target_is_safe [OF usb_stick_safe]
  by (simp add: Let_def usb_stick_def calculateGptLayout_words layout_reserve_def supported_or_512_def
      isSupportedSectorSize_def)



text \<open>The identity gate accepts a refreshed disk exactly when it is at the same address with the same
  size, is the same instance where the system numbers instances, and no other identifier that both
  sides know differs. Unknown identifiers never refuse, known ones never pass by being unequal.\<close>

lemma same_target_characterised:
  "isSameRestoreTarget U selected current = None \<longleftrightarrow>
     normalizedIdentity U (deviceId selected) = normalizedIdentity U (deviceId current) \<and>
     disk_size selected = disk_size current \<and>
     (deviceSequence selected = None \<or>
      isSameDeviceSequence (deviceSequence selected) (deviceSequence current)) \<and>
     (sectorSize selected = 0 \<or> sectorSize current = 0 \<or> sectorSize selected = sectorSize current) \<and>
     list_all (\<lambda>f. \<not> bothKnownAndDifferent U (f selected) (f current))
       [serialNumber, uniqueId, disk_path, disk_name]"
  by (auto simp: isSameRestoreTarget_def)

text \<open>The two signature ranges the wipe zeroes are whole sectors of equal length, the second one the last
  that fits on the disk; they do not overlap, so the wipe never clears more than half of a disk.\<close>

lemma signature_ranges_disjoint:
  assumes "16384 \<le> unat d"
  shows "let r = signatureClearRange d s; n = unat (clear_bytes r); t = unat (tailOffset r);
      S = unat (clear_sectorSize r)
    in S dvd n \<and> S dvd t \<and> 0 < n \<and> n \<le> t \<and> t + n \<le> unat d \<and> unat d < t + n + S \<and> 2 * n \<le> unat d div 2 \<and>
       \<not> unalignedZeroRangeError 0 (clear_bytes r) s \<and> \<not> unalignedZeroRangeError (tailOffset r) (clear_bytes r) s"
proof -
  note nz = clear_range_nonzero [OF assms]
  have "0 < unat (clear_bytes (signatureClearRange d s))" using nz by (simp add: unat_gt_0)
  then show ?thesis
    using clear_range_fits [OF nz, of s] clear_range_nat(3) [of d s]
    by (simp add: Let_def unalignedZeroRangeError_def mod_0_dvd_u64 unat_widen)
qed

lemma signature_ranges_disjoint_witness:
  "unat (tailOffset (signatureClearRange 16000000000 512)) + unat (clear_bytes (signatureClearRange 16000000000 512))
     \<le> 16000000000"
  using signature_ranges_disjoint [of 16000000000 512] by (simp add: Let_def)

end
