(* ===== verification/Action_Monad.thy ===== *)
theory Action_Monad
  imports Restore_Steps Safety
begin

text \<open>
  Programs that act on a world, for both backends.

  \<^item> An action maps an environment and a world to its outcome and the world after it; \<open>None\<close> is a loop that does
    not end. \<open>Failed\<close> is \<open>return false\<close> after an error was set, \<open>Stopped\<close> is \<open>return false\<close> without one, the answer
    to a cancel request.
  \<^item> A world is a \<open>session\<close>, whose \<open>happened\<close> are the interactions with the outside so far, newest first, each
    with its answer; the objects of a backend extend it.
  \<^item> \<open>wp\<close> are weakest preconditions, and \<open>keeps K f\<close> the actions that only add events of a class \<open>K\<close> and leave
    the part \<open>f\<close> of the world alone; both are closed under the ways actions are composed.
\<close>

section \<open>Actions\<close>

datatype ('a, 'e) outcome = Ok 'a | Failed 'e | Stopped

type_synonym ('a, 'e, 'env, 'w) act = "'env \<Rightarrow> 'w \<Rightarrow> (('a, 'e) outcome \<times> 'w) option"

definition give :: "'a \<Rightarrow> ('a, 'e, 'env, 'w) act" where
  "give x S w = Some (Ok x, w)"

definition fail :: "'e \<Rightarrow> ('a, 'e, 'env, 'w) act" where
  "fail e S w = Some (Failed e, w)"

definition stop :: "('a, 'e, 'env, 'w) act" where
  "stop S w = Some (Stopped, w)"

definition andThen :: "('a, 'e, 'env, 'w) act \<Rightarrow> ('a \<Rightarrow> ('b, 'e, 'env, 'w) act) \<Rightarrow> ('b, 'e, 'env, 'w) act" where
  "andThen m k S w =
     (case m S w of
        None \<Rightarrow> None
      | Some (Ok x, w') \<Rightarrow> k x S w'
      | Some (Failed e, w') \<Rightarrow> Some (Failed e, w')
      | Some (Stopped, w') \<Rightarrow> Some (Stopped, w'))"

text \<open>\<open>attempt\<close> makes the outcome a value; \<open>leaving\<close> runs a destructor on every way out; \<open>rewording\<close> changes the
  error of a failure.\<close>

definition attempt :: "('a, 'e, 'env, 'w) act \<Rightarrow> (('a, 'e) outcome, 'f, 'env, 'w) act" where
  "attempt m S w = (case m S w of None \<Rightarrow> None | Some (r, w') \<Rightarrow> Some (Ok r, w'))"

definition leaving :: "('a, 'e, 'env, 'w) act \<Rightarrow> (unit, 'e, 'env, 'w) act \<Rightarrow> ('a, 'e, 'env, 'w) act" where
  "leaving m destructor S w =
     (case m S w of
        None \<Rightarrow> None
      | Some (r, w') \<Rightarrow> (case destructor S w' of None \<Rightarrow> None | Some (_, w'') \<Rightarrow> Some (r, w'')))"

definition rewording :: "('e \<Rightarrow> 'f) \<Rightarrow> ('a, 'e, 'env, 'w) act \<Rightarrow> ('a, 'f, 'env, 'w) act" where
  "rewording f m S w =
     (case m S w of
        None \<Rightarrow> None
      | Some (Ok x, w') \<Rightarrow> Some (Ok x, w')
      | Some (Failed e, w') \<Rightarrow> Some (Failed (f e), w')
      | Some (Stopped, w') \<Rightarrow> Some (Stopped, w'))"

definition change :: "('w \<Rightarrow> 'w) \<Rightarrow> (unit, 'e, 'env, 'w) act" where
  "change f S w = Some (Ok (), f w)"

definition get :: "('w \<Rightarrow> 'a) \<Rightarrow> ('a, 'e, 'env, 'w) act" where
  "get f S w = Some (Ok (f w), w)"

definition check :: "bool \<Rightarrow> 'e \<Rightarrow> (unit, 'e, 'env, 'w) act" where
  "check b e = (if b then give () else fail e)"

text \<open>\<open>checkRestoreError\<close>: a gate that names its refusal.\<close>

definition gate :: "('r \<Rightarrow> 'e) \<Rightarrow> 'r option \<Rightarrow> (unit, 'e, 'env, 'w) act" where
  "gate f r = (case r of None \<Rightarrow> give () | Some e \<Rightarrow> fail (f e))"

text \<open>A loop: the body goes on with a new state or ends with a value.\<close>

partial_function (option) iterate :: "('s \<Rightarrow> ('s + 'a, 'e, 'env, 'w) act) \<Rightarrow> 's \<Rightarrow> ('a, 'e, 'env, 'w) act" where
  "iterate body s S w =
     (case body s S w of
        None \<Rightarrow> None
      | Some (r, w') \<Rightarrow>
          (case r of
             Ok (Inl s') \<Rightarrow> iterate body s' S w'
           | Ok (Inr a) \<Rightarrow> Some (Ok a, w')
           | Failed e \<Rightarrow> Some (Failed e, w')
           | Stopped \<Rightarrow> Some (Stopped, w')))"

section \<open>Sessions\<close>

text \<open>What a backend is asked to do, from \<open>src/platform/disk_service.h\<close>.\<close>

record RestoreRequest =
  request_disk :: DiskInfo
  request_style :: PartitionStyle
  request_fileSystem :: FileSystemType
  volumeLabel :: qstring
  request_guard :: RestoreGuard
  displayLanguage :: Language

record 'ev session =
  happened :: "'ev list"
  steps_counter :: RestoreStepCounter

definition noting :: "'ev \<Rightarrow> ('ev, 'm) session_scheme \<Rightarrow> ('ev, 'm) session_scheme" where
  "noting e w = w\<lparr>happened := e # happened w\<rparr>"

definition ask :: "('env \<Rightarrow> 'ev list \<Rightarrow> 'a) \<Rightarrow> ('a \<Rightarrow> 'ev) \<Rightarrow> ('a, 'e, 'env, ('ev, 'm) session_scheme) act" where
  "ask answer ev S w = (let a = answer S (happened w) in Some (Ok a, noting (ev a) w))"

definition tell :: "'ev \<Rightarrow> (unit, 'e, 'env, ('ev, 'm) session_scheme) act" where
  "tell e = change (noting e)"

text \<open>\<open>reportPlannedStep\<close> of \<open>src/platform/disk_service.h\<close>, over the events that stand for the complaint and the report.\<close>

definition report_with ::
  "(RestoreStep \<Rightarrow> 'ev) \<Rightarrow> (RestoreStep \<Rightarrow> 'ev) \<Rightarrow> RestoreStep \<Rightarrow> (unit, 'e, 'env, ('ev, 'm) session_scheme) act" where
  "report_with complaint report step =
     andThen (get steps_counter) (\<lambda>c.
     let (number, c') = advance c step
     in andThen (change (\<lambda>w. w\<lparr>steps_counter := c'\<rparr>)) (\<lambda>_.
        andThen (if number = 0 then tell (complaint step) else give ()) (\<lambda>_.
        tell (report step))))"

section \<open>Weakest preconditions\<close>

text \<open>
  \<open>wp t m S Q R w\<close>: run from \<open>w\<close>, the action ends with \<open>Q\<close> of its result and world, or leaves early with
  \<open>R\<close> of the error (\<open>None\<close> for a cancelled run) and world. \<open>t\<close> says what a run that does not end counts
  as, so \<open>t = False\<close> is total correctness.
\<close>

definition wp ::
  "bool \<Rightarrow> ('a, 'e, 'env, 'w) act \<Rightarrow> 'env \<Rightarrow> ('a \<Rightarrow> 'w \<Rightarrow> bool) \<Rightarrow> ('e option \<Rightarrow> 'w \<Rightarrow> bool) \<Rightarrow> 'w \<Rightarrow> bool" where
  "wp t m S Q R w =
     (case m S w of
        None \<Rightarrow> t
      | Some (Ok x, w') \<Rightarrow> Q x w'
      | Some (Failed e, w') \<Rightarrow> R (Some e) w'
      | Some (Stopped, w') \<Rightarrow> R None w')"

lemma wp_give [run_simps]: "wp t (give x) S Q R w = Q x w"
  by (simp add: wp_def give_def)

lemma wp_fail [run_simps]: "wp t (fail e) S Q R w = R (Some e) w"
  by (simp add: wp_def fail_def)

lemma wp_stop [run_simps]: "wp t stop S Q R w = R None w"
  by (simp add: wp_def stop_def)

lemma wp_change [run_simps]: "wp t (change f) S Q R w = Q () (f w)"
  by (simp add: wp_def change_def)

lemma wp_get [run_simps]: "wp t (get f) S Q R w = Q (f w) w"
  by (simp add: wp_def get_def)

lemma wp_ask [run_simps]:
  "wp t (ask answer ev) S Q R w = Q (answer S (happened w)) (noting (ev (answer S (happened w))) w)"
  by (simp add: wp_def ask_def Let_def)

lemma wp_tell [run_simps]: "wp t (tell e) S Q R w = Q () (noting e w)"
  by (simp add: tell_def wp_change)

lemma wp_andThen [run_simps]:
  "wp t (andThen m k) S Q R w = wp t m S (\<lambda>x. wp t (k x) S Q R) R w"
  by (simp add: wp_def andThen_def split: option.split outcome.split prod.split)

lemma wp_attempt [run_simps]:
  "wp t (attempt m) S Q R w =
     wp t m S (\<lambda>x. Q (Ok x)) (\<lambda>e. Q (case e of None \<Rightarrow> Stopped | Some e \<Rightarrow> Failed e)) w"
  by (simp add: wp_def attempt_def split: option.split outcome.split prod.split)

lemma wp_leaving [run_simps]:
  "wp t (leaving m d) S Q R w =
     wp t m S (\<lambda>x. wp t d S (\<lambda>_. Q x) (\<lambda>_. Q x)) (\<lambda>e. wp t d S (\<lambda>_. R e) (\<lambda>_. R e)) w"
  by (simp add: wp_def leaving_def split: option.split outcome.split prod.split)

lemma wp_rewording [run_simps]: "wp t (rewording f m) S Q R w = wp t m S Q (\<lambda>r. R (map_option f r)) w"
  by (simp add: wp_def rewording_def split: option.split outcome.split prod.split)

lemma wp_check [run_simps]: "wp t (check b e) S Q R w = (if b then Q () w else R (Some e) w)"
  by (simp add: check_def wp_give wp_fail)

lemma wp_gate [run_simps]:
  "wp t (gate f r) S Q R w = (case r of None \<Rightarrow> Q () w | Some e \<Rightarrow> R (Some (f e)) w)"
  by (simp add: gate_def wp_give wp_fail split: option.split)

lemma wp_if [run_simps]: "wp t (if b then m else n) S Q R w = (if b then wp t m S Q R w else wp t n S Q R w)"
  by simp

lemma wp_mono:
  assumes "wp t m S Q R w" "\<And>x w'. Q x w' \<Longrightarrow> Q' x w'" "\<And>e w'. R e w' \<Longrightarrow> R' e w'"
  shows "wp t m S Q' R' w"
  using assms by (auto simp: wp_def split: option.splits outcome.splits)

lemma wp_conj:
  assumes "wp t m S Q R w" "wp t' m S Q' R' w"
  shows "wp t m S (\<lambda>x w. Q x w \<and> Q' x w) (\<lambda>e w. R e w \<and> R' e w) w"
  using assms by (auto simp: wp_def split: option.splits outcome.splits)

lemma noting_session [simp]:
  "happened (noting e w) = e # happened w" "steps_counter (noting e w) = steps_counter w"
  "session.more (noting e w) = session.more w"
  by (simp_all add: noting_def)

text \<open>What a run adds to the history, event by event.\<close>

definition adds :: "('ev \<Rightarrow> bool) \<Rightarrow> ('ev, 'm) session_scheme \<Rightarrow> ('ev, 'm) session_scheme \<Rightarrow> bool" where
  "adds K w w' \<longleftrightarrow> (\<exists>new. happened w' = new @ happened w \<and> list_all K new)"

lemma adds_refl [simp, intro]: "happened w' = happened w \<Longrightarrow> adds K w w'"
  by (simp add: adds_def)

lemma adds_trans [trans]: "adds K w w' \<Longrightarrow> adds K w' w'' \<Longrightarrow> adds K w w''"
  by (force simp: adds_def)

lemma adds_noting [simp]: "adds K w w' \<Longrightarrow> K e \<Longrightarrow> adds K w (noting e w')"
proof -
  assume "adds K w w'" "K e"
  then obtain new where "happened w' = new @ happened w" "list_all K new" by (auto simp: adds_def)
  then have "happened (noting e w') = (e # new) @ happened w" "list_all K (e # new)" using \<open>K e\<close> by simp_all
  then show ?thesis unfolding adds_def by blast
qed

lemma adds_mono: "adds K w w' \<Longrightarrow> (\<And>e. K e \<Longrightarrow> K' e) \<Longrightarrow> adds K' w w'"
  unfolding adds_def by (auto elim!: list.pred_mono_strong)

lemma adds_set: "adds K w w' \<Longrightarrow> set (happened w) \<subseteq> set (happened w')"
  by (auto simp: adds_def)

text \<open>A loop keeps its invariant; it ends when a measure of its state goes down.\<close>

definition reaches :: "('a \<Rightarrow> 'w \<Rightarrow> bool) \<Rightarrow> ('e option \<Rightarrow> 'w \<Rightarrow> bool) \<Rightarrow> ('a, 'e) outcome \<times> 'w \<Rightarrow> bool" where
  "reaches Q R y = (case y of (Ok a, w) \<Rightarrow> Q a w | (Failed e, w) \<Rightarrow> R (Some e) w | (Stopped, w) \<Rightarrow> R None w)"

lemma wp_reaches: "wp t m S Q R w = (case m S w of None \<Rightarrow> t | Some y \<Rightarrow> reaches Q R y)"
  by (auto simp: wp_def reaches_def split: option.split outcome.split)

lemma wp_iterate:
  assumes body: "\<And>s w. I s w \<Longrightarrow> wp True (body s) S (\<lambda>r w'. case r of Inl s' \<Rightarrow> I s' w' | Inr a \<Rightarrow> Q a w') R w"
    and start: "I s w"
  shows "wp True (iterate body s) S Q R w"
proof -
  have "b = body \<and> T = S \<and> I s w \<longrightarrow> reaches Q R y" if "iterate b s T w = Some y" for b s T w y
    using that
  proof (rule iterate.raw_induct [where P = "\<lambda>b s T w y. b = body \<and> T = S \<and> I s w \<longrightarrow> reaches Q R y", rotated])
    fix it b s T w y
    assume IH: "\<And>b s T w y. it b s T w = Some y \<Longrightarrow> b = body \<and> T = S \<and> I s w \<longrightarrow> reaches Q R y"
      and run: "(case b s T w of None \<Rightarrow> None | Some (r, w') \<Rightarrow>
          (case r of Ok (Inl s') \<Rightarrow> it b s' T w' | Ok (Inr a) \<Rightarrow> Some (Ok a, w')
           | Failed e \<Rightarrow> Some (Failed e, w') | Stopped \<Rightarrow> Some (Stopped, w'))) = Some y"
    show "b = body \<and> T = S \<and> I s w \<longrightarrow> reaches Q R y"
    proof (intro impI)
      assume c: "b = body \<and> T = S \<and> I s w"
      then obtain r w' where r: "body s S w = Some (r, w')" using run by (auto split: option.splits)
      then have "wp True (body s) S (\<lambda>r w'. case r of Inl s' \<Rightarrow> I s' w' | Inr a \<Rightarrow> Q a w') R w" using body c by blast
      then have goes: "case r of Ok (Inl s') \<Rightarrow> I s' w' | Ok (Inr a) \<Rightarrow> Q a w' | Failed e \<Rightarrow> R (Some e) w' | Stopped \<Rightarrow> R None w'"
        using r by (auto simp: wp_def split: outcome.splits sum.splits)
      have rest: "case r of Ok (Inl s') \<Rightarrow> it body s' S w' = Some y | Ok (Inr a) \<Rightarrow> y = (Ok a, w')
          | Failed e \<Rightarrow> y = (Failed e, w') | Stopped \<Rightarrow> y = (Stopped, w')"
        using run c r by (auto split: outcome.splits sum.splits)
      show "reaches Q R y"
      proof (cases r)
        case (Ok x)
        then show ?thesis using goes rest IH by (cases x) (auto simp: reaches_def)
      qed (use goes rest in \<open>simp_all add: reaches_def\<close>)
    qed
  qed
  then show ?thesis using start by (auto simp: wp_reaches split: option.split)
qed

lemma wp_iterate_ends:
  assumes body: "\<And>s w. I s w \<Longrightarrow>
      wp False (body s) S (\<lambda>r w'. case r of Inl s' \<Rightarrow> I s' w' \<and> \<mu> s' w' < (\<mu> s w :: nat) | Inr a \<Rightarrow> Q a w') R w"
    and start: "I s w"
  shows "wp False (iterate body s) S Q R w"
  using start
proof (induction "\<mu> s w" arbitrary: s w rule: less_induct)
  case less
  note step = body [OF less.prems]
  show ?case
  proof (cases "body s S w")
    case None
    then show ?thesis using step by (simp add: wp_def)
  next
    case (Some y)
    obtain r w' where y: "y = (r, w')" by (cases y)
    show ?thesis
    proof (cases r)
      case (Ok x)
      show ?thesis
      proof (cases x)
        case (Inl s')
        then have "I s' w' \<and> \<mu> s' w' < \<mu> s w" using step Some y Ok by (simp add: wp_def)
        then have "wp False (iterate body s') S Q R w'" using less.hyps by blast
        then show ?thesis by (simp add: wp_def Some y Ok Inl iterate.simps [of body s])
      qed (use step in \<open>simp add: wp_def Some y Ok iterate.simps [of body s]\<close>)
    qed (use step in \<open>simp_all add: wp_def Some y iterate.simps [of body s]\<close>)
  qed
qed

section \<open>Actions that add events of a class\<close>

definition keeps ::
  "('ev \<Rightarrow> bool) \<Rightarrow> (('ev, 'm) session_scheme \<Rightarrow> 'b) \<Rightarrow> ('a, 'e, 'env, ('ev, 'm) session_scheme) act \<Rightarrow> bool" where
  "keeps K f m \<longleftrightarrow> (\<forall>S w. wp True m S (\<lambda>_ w'. adds K w w' \<and> f w' = f w) (\<lambda>r w'. r \<noteq> None \<and> adds K w w' \<and> f w' = f w) w)"

lemma keepsD: "keeps K f m \<Longrightarrow>
    wp True m S (\<lambda>_ w'. adds K w w' \<and> f w' = f w) (\<lambda>r w'. r \<noteq> None \<and> adds K w w' \<and> f w' = f w) w"
  by (simp add: keeps_def)

lemma keeps_weaken: "keeps K f m \<Longrightarrow> (\<And>e. K e \<Longrightarrow> K' e) \<Longrightarrow> keeps K' f m"
  unfolding keeps_def by (blast intro: wp_mono adds_mono)

lemma keeps_andThen:
  assumes "keeps K f m" "\<And>x. keeps K f (k x)"
  shows "keeps K f (andThen m k)"
  unfolding keeps_def wp_andThen
proof (intro allI, rule wp_mono [OF keepsD [OF assms(1)]])
  fix S w x w' assume "adds K w w' \<and> f w' = f w"
  then show "wp True (k x) S (\<lambda>_ w'. adds K w w' \<and> f w' = f w) (\<lambda>r w'. r \<noteq> None \<and> adds K w w' \<and> f w' = f w) w'"
    by (intro wp_mono [OF keepsD [OF assms(2)]]) (auto intro: adds_trans)
qed

lemma keeps_attempt:
  assumes "keeps K f m"
  shows "keeps K f (attempt m)"
  unfolding keeps_def wp_attempt by (intro allI wp_mono [OF keepsD [OF assms]]) auto

lemma keeps_rewording: "keeps K f m \<Longrightarrow> keeps K f (rewording g m)"
  unfolding keeps_def wp_rewording by (blast intro: wp_mono)

lemma keeps_basic:
  "keeps K f (give x)" "keeps K f (fail e)" "keeps K f (get g)" "keeps K f (check b e)" "keeps K f (gate h r)"
  by (simp_all add: keeps_def run_simps split: option.split)

lemma keeps_change: "(\<And>w. happened (g w) = happened w) \<Longrightarrow> (\<And>w. f (g w) = f w) \<Longrightarrow> keeps K f (change g)"
  by (simp add: keeps_def wp_change)

lemma keeps_ask: "(\<And>a. K (ev a)) \<Longrightarrow> (\<And>e w. f (noting e w) = f w) \<Longrightarrow> keeps K f (ask answer ev)"
  by (simp add: keeps_def wp_ask)

lemma keeps_tell: "K e \<Longrightarrow> (\<And>e w. f (noting e w) = f w) \<Longrightarrow> keeps K f (tell e)"
  by (simp add: keeps_def wp_tell)

lemma keeps_iterate:
  assumes "\<And>s. keeps K f (body s)"
  shows "keeps K f (iterate body s)"
  unfolding keeps_def
proof (intro allI)
  fix S w
  show "wp True (iterate body s) S (\<lambda>_ w'. adds K w w' \<and> f w' = f w) (\<lambda>r w'. r \<noteq> None \<and> adds K w w' \<and> f w' = f w) w"
  proof (rule wp_iterate [where I = "\<lambda>_ w'. adds K w w' \<and> f w' = f w"])
    show "wp True (body s) S (\<lambda>r w'. case r of Inl s' \<Rightarrow> adds K w w' \<and> f w' = f w | Inr a \<Rightarrow> adds K w w' \<and> f w' = f w)
        (\<lambda>r w'. r \<noteq> None \<and> adds K w w' \<and> f w' = f w) w1" if "adds K w w1 \<and> f w1 = f w" for s w1
      by (rule wp_mono [OF keepsD [OF assms]]) (use that in \<open>auto intro: adds_trans split: sum.split\<close>)
  qed simp
qed

end
