(* ===== verification/Fat32.thy ===== *)
theory Fat32
  imports Safety
begin

text \<open>
  The FAT32 arithmetic of \<open>src/core/safety.cpp\<close>: how many clusters a volume holds, which
  allocation unit the restore formats with, and the volume sizes \<open>mkfs.vfat\<close> accepts.

  \<^item> The binary search of \<open>fat32DataClusterCount\<close> is a \<open>partial_function\<close> over the wrapping 64-bit
    type the code uses, so not returning would be \<open>None\<close>; \<open>fat32DataClusterCount_spec\<close> shows that
    it returns on every supported sector size and finds the greatest count that fits, no step of
    it having wrapped.
  \<^item> The loop over the allocation units is \<open>fat32_pick_unit\<close>; \<open>unit_choice\<close> is its contract.
\<close>

section \<open>The code\<close>

definition fat32RequiredSectors :: "u32 \<Rightarrow> u64 \<Rightarrow> u64 \<Rightarrow> u64" where
  "fat32RequiredSectors sector sectorsPerCluster clusters =
     (let fatBytes = (clusters + 2) * 4;
          fatSectors = (fatBytes + ucast sector - 1) div ucast sector
      in 32 + 2 * fatSectors + clusters * sectorsPerCluster)"

partial_function (option) fat32ClusterSearch :: "u64 \<Rightarrow> u32 \<Rightarrow> u64 \<Rightarrow> u64 \<Rightarrow> u64 \<Rightarrow> u64 option" where
  [code]: "fat32ClusterSearch totalSectors sector sectorsPerCluster low high =
     (if low < high then
        let clusters = low + (high - low + 1) div 2
        in if fat32RequiredSectors sector sectorsPerCluster clusters \<le> totalSectors
           then fat32ClusterSearch totalSectors sector sectorsPerCluster clusters high
           else fat32ClusterSearch totalSectors sector sectorsPerCluster low (clusters - 1)
      else Some low)"

definition fat32DataClusterCount :: "u64 \<Rightarrow> u32 \<Rightarrow> u32 \<Rightarrow> u64 option" where
  "fat32DataClusterCount volumeSize sector allocationUnitSize =
     (if sector = 0 \<or> allocationUnitSize < sector \<or> allocationUnitSize mod sector \<noteq> 0 \<or>
         volumeSize mod ucast sector \<noteq> 0 then Some 0
      else
        let totalSectors = volumeSize div ucast sector
        in if totalSectors \<le> 32 then Some 0
           else
             let sectorsPerCluster = ucast (allocationUnitSize div sector)
             in fat32ClusterSearch totalSectors sector sectorsPerCluster 0
                  ((totalSectors - 32) div sectorsPerCluster))"

definition fat32AllocationUnitSizes :: "u32 list" where
  "fat32AllocationUnitSizes =
     [512, 1024, 2048, 4096, 8192, 16 * 1024, 32 * 1024, 64 * 1024, 128 * 1024, 256 * 1024]"

definition fat32PreferredUnit :: "u64 \<Rightarrow> u32" where
  "fat32PreferredUnit volumeSize =
     (let oneMiB = 1024 * 1024; oneGiB = 1024 * oneMiB
      in if volumeSize \<le> 64 * oneMiB then 512
         else if volumeSize \<le> 128 * oneMiB then 1024
         else if volumeSize \<le> 256 * oneMiB then 2048
         else if volumeSize \<le> 8 * oneGiB then 4096
         else if volumeSize \<le> 16 * oneGiB then 8 * 1024
         else if volumeSize \<le> 32 * oneGiB then 16 * 1024
         else 32 * 1024)"

definition fat32_unit_skipped :: "u32 \<Rightarrow> u32 \<Rightarrow> bool" where
  "fat32_unit_skipped sector unit \<longleftrightarrow>
     (unit > 64 * 1024 \<and> sector = 512) \<or> unit < sector \<or> unit mod sector \<noteq> 0"

primrec fat32_pick_unit :: "u64 \<Rightarrow> u32 \<Rightarrow> u32 \<Rightarrow> u32 list \<Rightarrow> u32 \<Rightarrow> u32 option" where
  "fat32_pick_unit volumeSize sector preferred [] best = Some best"
| "fat32_pick_unit volumeSize sector preferred (unit # units) best =
     (if fat32_unit_skipped sector unit
      then fat32_pick_unit volumeSize sector preferred units best
      else
        case fat32DataClusterCount volumeSize sector unit of
          None \<Rightarrow> None
        | Some clusterCount \<Rightarrow>
            if clusterCount < 65527 \<or> clusterCount > 4177917
            then fat32_pick_unit volumeSize sector preferred units best
            else fat32_pick_unit volumeSize sector preferred units
                   (if best = 0 \<or> unit \<le> preferred then unit else best))"

definition fat32AllocationUnitSize :: "u64 \<Rightarrow> u32 \<Rightarrow> u64 \<Rightarrow> u32 option" where
  "fat32AllocationUnitSize volumeSize sector maximumVolumeSize =
     (if \<not> isSupportedSectorSize sector \<or> volumeSize = 0 \<or> volumeSize > maximumVolumeSize
      then Some 0
      else fat32_pick_unit volumeSize sector (fat32PreferredUnit volumeSize)
             fat32AllocationUnitSizes 0)"

definition minimumMkfsFat32VolumeBytes :: "u32 \<Rightarrow> u64" where
  "minimumMkfsFat32VolumeBytes sector =
     (if \<not> isSupportedSectorSize sector then 0
      else
        let fatBytes = (65525 + 2) * 4;
            fatSectors = (fatBytes + ucast sector - 1) div ucast sector;
            bare = (32 + 2 * fatSectors + 65525) * ucast sector;
            oneMiB = 1024 * 1024
        in ((bare + oneMiB - 1) div oneMiB) * oneMiB)"

definition maximumMkfsFat32VolumeBytes :: "u32 \<Rightarrow> u64" where
  "maximumMkfsFat32VolumeBytes sector =
     (if \<not> isSupportedSectorSize sector then 0 else 0xFFFFFFFF * ucast sector)"

section \<open>The specification: the greatest cluster count that fits\<close>

text \<open>
  \<open>fat32_required\<close> is the size of the volume in sectors over the natural numbers, where nothing
  wraps; \<open>fat32_fits\<close> is what the loop searches for.
\<close>

definition fat32_required :: "nat \<Rightarrow> nat \<Rightarrow> nat \<Rightarrow> nat" where
  "fat32_required s k n = 32 + 2 * (((n + 2) * 4 + s - 1) div s) + n * k"

definition fat32_fits :: "nat \<Rightarrow> nat \<Rightarrow> nat \<Rightarrow> nat \<Rightarrow> bool" where
  "fat32_fits t s k n \<longleftrightarrow> fat32_required s k n \<le> t"

lemma fat32_required_mono: "m \<le> n \<Longrightarrow> fat32_required s k m \<le> fat32_required s k n"
  unfolding fat32_required_def
  by (intro add_mono mult_le_mono le_refl div_le_mono diff_le_mono) simp_all

lemma fat32_fits_antimono: "fat32_fits t s k n \<Longrightarrow> m \<le> n \<Longrightarrow> fat32_fits t s k m"
  using fat32_required_mono order_trans unfolding fat32_fits_def by blast

lemma fat32_fits_bound:
  assumes "fat32_fits t s k n" "0 < k"
  shows "n \<le> (t - 32) div k"
proof -
  have "n * k \<le> t - 32" using assms by (simp add: fat32_fits_def fat32_required_def)
  then show ?thesis using assms(2) by (simp add: less_eq_div_iff_mult_less_eq)
qed

text \<open>No step of the computation wraps while the clusters themselves fit on the volume.\<close>

lemma fat32RequiredSectors_nat:
  assumes "512 \<le> unat s" "unat n * unat k < 2 ^ 63" "0 < unat k" "unat n < 2 ^ 60"
  shows "unat (fat32RequiredSectors s k n) = fat32_required (unat s) (unat k) (unat n)"
proof -
  have s: "unat (ucast s :: u64) = unat s" "unat s < 2 ^ 32"
    using unat_u32_bound [of s] by (simp_all add: nat_of)
  have n2: "unat (n + 2) = unat n + 2" using assms(4) by (subst unat_plus_u64) simp_all
  have n4: "unat ((n + 2) * 4) = (unat n + 2) * 4" 
    using assms(4) n2 by (subst unat_times_u64) simp_all
  have n5: "unat ((n + 2) * 4 + ucast s) = (unat n + 2) * 4 + unat s"
    using assms(4) n4 s by (subst unat_plus_u64) simp_all
  have n6: "unat ((n + 2) * 4 + ucast s - 1) = (unat n + 2) * 4 + unat s - 1"
    using n5 by (subst unat_minus_u64) simp_all
  let ?d = "((unat n + 2) * 4 + unat s - 1) div unat s"
  have fs: "unat (((n + 2) * 4 + ucast s - 1) div ucast s) = ?d"
    using n6 s by (simp add: unat_div_word)
  have "?d * 512 \<le> ?d * unat s" using assms(1) by simp
  also have "\<dots> \<le> (unat n + 2) * 4 + unat s - 1" by (rule round_down_le)
  finally have small: "?d < 2 ^ 60" using assms(4) s(2) by simp
  then have fs2: "unat (2 * (((n + 2) * 4 + ucast s - 1) div ucast s)) = 2 * ?d"
    using fs by (subst unat_times_u64) simp_all
  then have fs3: "unat (32 + 2 * (((n + 2) * 4 + ucast s - 1) div ucast s)) = 32 + 2 * ?d"
    using small by (subst unat_plus_u64) simp_all
  have "unat (n * k) = unat n * unat k"
    using assms(2) by (subst unat_times_u64) simp_all
  with fs3 small assms(2) show ?thesis
    unfolding fat32RequiredSectors_def fat32_required_def Let_def
    by (subst unat_plus_u64) simp_all
qed

lemma midpoint_nat:
  assumes "low < (high :: u64)" "unat high < 2 ^ 63"
  shows "unat (low + (high - low + 1) div 2) = unat low + (unat high - unat low + 1) div 2"
proof -
  have lt: "unat low < unat high" using assms(1) by (simp add: nat_of)
  have d: "unat (high - low) = unat high - unat low"
    using lt by (intro unat_minus_u64) simp
  have d1: "unat (high - low + 1) = unat high - unat low + 1"
    using d assms(2) by (subst unat_plus_u64) simp_all
  then show ?thesis
    using lt assms(2) by (subst unat_plus_u64) (simp_all add: unat_div_word)
qed

lemma fat32ClusterSearch_greatest:
  fixes k t :: u64
  assumes s: "512 \<le> unat s" and k: "0 < unat k" and high: "unat high * unat k < 2 ^ 63" "unat high < 2 ^ 60"
    and low: "low \<le> high" "low = 0 \<or> fat32_fits (unat t) (unat s) (unat k) (unat low)"
    and top: "\<And>n. fat32_fits (unat t) (unat s) (unat k) n \<Longrightarrow> n \<le> unat high"
  shows "\<exists>n. fat32ClusterSearch t s k low high = Some n \<and>
    (n = 0 \<or> fat32_fits (unat t) (unat s) (unat k) (unat n)) \<and>
    (\<forall>m. fat32_fits (unat t) (unat s) (unat k) m \<longrightarrow> m \<le> unat n)"
  using high low top
proof (induction "unat high - unat low" arbitrary: low high rule: less_induct)
  case less
  let ?fits = "fat32_fits (unat t) (unat s) (unat k)"
  show ?case
  proof (cases "low < high")
    case False
    then have "low = high" using less.prems(3) by simp
    with False less.prems(4,5) show ?thesis by (simp add: fat32ClusterSearch.simps)
  next
    case True
    define c where "c = low + (high - low + 1) div 2"
    have lt: "unat low < unat high" using True by (simp add: nat_of)
    have c: "unat c = unat low + (unat high - unat low + 1) div 2"
      unfolding c_def by (rule midpoint_nat) (use True less.prems(2) in simp_all)
    have range: "unat low < unat c" "unat c \<le> unat high" using c lt by auto
    have ck: "unat c * unat k < 2 ^ 63"
      using mult_le_mono1 [OF range(2), of "unat k"] less.prems(1) by linarith
    have c60: "unat c < 2 ^ 60" using range(2) less.prems(2) by linarith
    have req: "fat32RequiredSectors s k c \<le> t \<longleftrightarrow> ?fits (unat c)"
      using fat32RequiredSectors_nat [OF s ck k c60] by (simp add: word_le_nat_alt fat32_fits_def)
    have c1: "unat (c - 1) = unat c - 1" using range by (subst unat_minus_u64) simp_all
    show ?thesis
    proof (cases "?fits (unat c)")
      case fits: True
      have "fat32ClusterSearch t s k low high = fat32ClusterSearch t s k c high"
        using True fits req by (subst fat32ClusterSearch.simps) (simp add: c_def Let_def)
      moreover have "\<exists>n. fat32ClusterSearch t s k c high = Some n \<and> (n = 0 \<or> ?fits (unat n)) \<and>
          (\<forall>m. ?fits m \<longrightarrow> m \<le> unat n)"
        by (rule less.hyps) (use range lt less.prems fits in \<open>auto simp: word_le_nat_alt\<close>)
      ultimately show ?thesis by simp
    next
      case fits: False
      have "fat32ClusterSearch t s k low high = fat32ClusterSearch t s k low (c - 1)"
        using True fits req by (subst fat32ClusterSearch.simps) (simp add: c_def Let_def)
      moreover have "m \<le> unat (c - 1)" if "?fits m" for m
        using that fits fat32_fits_antimono [of "unat t" "unat s" "unat k" m "unat c"] c1 by force
      moreover have "unat (c - 1) * unat k < 2 ^ 63"
        using mult_le_mono1 [of "unat (c - 1)" "unat c" "unat k"] c1 ck by linarith
      ultimately show ?thesis
        using less.hyps [of "c - 1" low] less.prems(4) range lt c1 c60
        by (simp add: word_le_nat_alt)
    qed
  qed
qed

lemma fat32_fits_min:
  assumes "0 < s" "fat32_fits t s k m"
  shows "32 < t"
proof -
  have "1 \<le> ((m + 2) * 4 + s - 1) div s"
    using assms(1) by (simp add: Suc_le_eq div_greater_zero_iff)
  then show ?thesis using assms(2) unfolding fat32_fits_def fat32_required_def by linarith
qed

definition fat32_unit_valid :: "u32 \<Rightarrow> u32 \<Rightarrow> u64 \<Rightarrow> bool" where
  "fat32_unit_valid sector unit volume \<longleftrightarrow>
     sector \<le> unit \<and> unat sector dvd unat unit \<and> unat sector dvd unat volume"

lemma supported_unat: "isSupportedSectorSize s \<Longrightarrow> 512 \<le> unat s \<and> unat s \<le> 4096"
  by (auto simp: isSupportedSectorSize_def)

lemma mod_0_dvd_u32: "(a mod b = 0) = (unat b dvd unat (a :: u32))"
  by (simp add: nat_of mod_eq_0_iff_dvd)

text \<open>
  The loop of \<open>fat32DataClusterCount\<close> ends on every volume of a supported sector size and finds
  the greatest cluster count whose reserved area, FATs and data fit.
\<close>

lemma fat32DataClusterCount_spec:
  assumes "isSupportedSectorSize s" "fat32_unit_valid s a v"
  shows "\<exists>n. fat32DataClusterCount v s a = Some n \<and>
    (n = 0 \<or> fat32_fits (unat v div unat s) (unat s) (unat a div unat s) (unat n)) \<and>
    (\<forall>m. fat32_fits (unat v div unat s) (unat s) (unat a div unat s) m \<longrightarrow> m \<le> unat n)"
proof -
  define t where "t = v div ucast s"
  define k where "k = (ucast (a div s) :: u64)"
  have s: "512 \<le> unat s" "s \<noteq> 0" using supported_unat [OF assms(1)] by auto
  have t: "unat t = unat v div unat s" by (simp add: t_def nat_of)
  have k: "unat k = unat a div unat s" by (simp add: k_def nat_of)
  have kpos: "0 < unat k"
    using assms(2) s(1) by (simp add: k div_greater_zero_iff fat32_unit_valid_def word_le_nat_alt)
  have t55: "unat t \<le> 2 ^ 55"
  proof -
    have "unat v div unat s \<le> unat v div 512" by (rule div_le_mono2) (use s in simp_all)
    then show ?thesis using unat_u64_bound [of v] t by simp
  qed
  have guard: "\<not> (s = 0 \<or> a < s \<or> a mod s \<noteq> 0 \<or> v mod ucast s \<noteq> 0)"
    using assms(2) s(2)
    by (auto simp: fat32_unit_valid_def mod_0_dvd_u32 mod_0_dvd_u64 unat_widen not_less)
  have count: "fat32DataClusterCount v s a =
      (if t \<le> 32 then Some 0 else fat32ClusterSearch t s k 0 ((t - 32) div k))"
    unfolding fat32DataClusterCount_def using guard by (simp add: Let_def t_def k_def)
  show ?thesis
  proof (cases "t \<le> 32")
    case True
    then have "\<not> fat32_fits (unat t) (unat s) (unat k) m" for m
      using s(1) fat32_fits_min [of "unat s"] by (force simp: word_le_nat_alt)
    with True count t k show ?thesis by auto
  next
    case False
    then have high: "unat ((t - 32) div k) = (unat t - 32) div unat k"
      by (simp add: unat_div_word unat_minus_u64 word_le_nat_alt)
    have le: "unat ((t - 32) div k) * unat k \<le> unat t - 32"
      unfolding high by (rule round_down_le)
    have le': "unat ((t - 32) div k) \<le> unat t - 32" unfolding high by (rule div_le_dividend)
    have bounds: "unat ((t - 32) div k) * unat k < 2 ^ 63" "unat ((t - 32) div k) < 2 ^ 60"
      by (rule le_less_trans [OF le], use t55 in simp) (rule le_less_trans [OF le'], use t55 in simp)
    then have "\<exists>n. fat32ClusterSearch t s k 0 ((t - 32) div k) = Some n \<and>
      (n = 0 \<or> fat32_fits (unat t) (unat s) (unat k) (unat n)) \<and>
      (\<forall>m. fat32_fits (unat t) (unat s) (unat k) m \<longrightarrow> m \<le> unat n)"
      by (intro fat32ClusterSearch_greatest s(1) kpos bounds)
        (simp_all add: high fat32_fits_bound [OF _ kpos])
    with False count t k show ?thesis by simp
  qed
qed

lemma fat32DataClusterCount_total:
  assumes "isSupportedSectorSize s"
  shows "\<exists>n. fat32DataClusterCount v s a = Some n"
proof (cases "fat32_unit_valid s a v")
  case True
  then show ?thesis using fat32DataClusterCount_spec [OF assms] by blast
next
  case False
  then have "a < s \<or> a mod s \<noteq> 0 \<or> v mod ucast s \<noteq> 0"
    by (auto simp: fat32_unit_valid_def mod_0_dvd_u32 mod_0_dvd_u64 unat_widen not_less)
  then show ?thesis by (auto simp: fat32DataClusterCount_def)
qed

section \<open>The choice of the allocation unit\<close>

definition fat32_unit_legal :: "u64 \<Rightarrow> u32 \<Rightarrow> u32 \<Rightarrow> bool" where
  "fat32_unit_legal volume sector unit \<longleftrightarrow>
     \<not> fat32_unit_skipped sector unit \<and>
     (case fat32DataClusterCount volume sector unit of
        None \<Rightarrow> False | Some n \<Rightarrow> 65527 \<le> n \<and> n \<le> 4177917)"

text \<open>
  \<open>unit_choice\<close> is what the loop promises of its result: 0 when no unit is legal, otherwise a legal
  unit, the greatest one not above the preferred size when there is one, the smallest otherwise.
\<close>

definition unit_no_worse :: "'a \<Rightarrow> 'a \<Rightarrow> 'a::linorder \<Rightarrow> bool" where
  "unit_no_worse preferred u w \<longleftrightarrow>
     (if w \<le> preferred then u \<le> preferred \<and> w \<le> u else u \<le> preferred \<or> u \<le> w)"

definition unit_choice :: "('a \<Rightarrow> bool) \<Rightarrow> 'a \<Rightarrow> 'a list \<Rightarrow> 'a::{linorder,zero} \<Rightarrow> bool" where
  "unit_choice legal preferred units u \<longleftrightarrow>
     (if u = 0 then (\<forall>w \<in> set units. \<not> legal w)
      else u \<in> set units \<and> legal u \<and>
        (\<forall>w \<in> set units. legal w \<longrightarrow> unit_no_worse preferred u w))"

lemma fat32_pick_unit_fold:
  assumes "isSupportedSectorSize s"
  shows "fat32_pick_unit v s p units best =
    Some (fold (\<lambda>a b. if fat32_unit_legal v s a \<and> (b = 0 \<or> a \<le> p) then a else b) units best)"
proof (induction units arbitrary: best)
  case (Cons a units)
  obtain n where "fat32DataClusterCount v s a = Some n"
    using fat32DataClusterCount_total [OF assms] by blast
  with Cons show ?case by (auto simp: fat32_unit_legal_def not_less)
qed simp

lemma unit_choice_snoc:
  assumes choice: "unit_choice legal p units r" and a: "\<forall>w \<in> set units. w < a" "a \<noteq> 0"
  shows "unit_choice legal p (units @ [a]) (if legal a \<and> (r = 0 \<or> a \<le> p) then a else r)"
proof (cases "legal a")
  case False
  then show ?thesis using choice by (auto simp: unit_choice_def)
next
  case True
  consider "r = 0" | "r \<noteq> 0" "a \<le> p" | "r \<noteq> 0" "\<not> a \<le> p" by blast
  then show ?thesis
  proof cases
    case 1
    then have "\<forall>w \<in> set units. \<not> legal w" using choice by (simp add: unit_choice_def)
    then show ?thesis using True a(2) 1 by (simp add: unit_choice_def unit_no_worse_def)
  next
    case 2
    then show ?thesis using True a unfolding unit_choice_def by (simp add: unit_no_worse_def less_imp_le)
  next
    case 3
    have r: "r \<in> set units" "legal r" and all: "\<And>w. w \<in> set units \<Longrightarrow> legal w \<Longrightarrow> unit_no_worse p r w"
      using 3 choice by (simp_all add: unit_choice_def)
    have "r \<le> a" using r(1) a(1) by (simp add: less_imp_le)
    then have "unit_no_worse p r w"
      if "w \<in> set (units @ [a])" "legal w" for w
      using that 3 all by (cases "w = a") (simp_all add: unit_no_worse_def)
    with r have "unit_choice legal p (units @ [a]) r" using 3(1) by (simp add: unit_choice_def)
    then show ?thesis using 3 by simp
  qed
qed

lemma fold_unit_choice:
  assumes "sorted_wrt (<) units" "0 \<notin> set units"
  shows "unit_choice legal p units
    (fold (\<lambda>a b. if legal a \<and> (b = 0 \<or> a \<le> p) then a else b) units 0)"
  using assms
proof (induction units rule: rev_induct)
  case Nil
  then show ?case by (simp add: unit_choice_def)
next
  case (snoc a units)
  then have IH: "unit_choice legal p units
      (fold (\<lambda>a b. if legal a \<and> (b = 0 \<or> a \<le> p) then a else b) units 0)"
    by (simp add: sorted_wrt_append)
  have "\<forall>w \<in> set units. w < a" "a \<noteq> 0" using snoc.prems by (auto simp: sorted_wrt_append)
  from unit_choice_snoc [OF IH this] show ?case by simp
qed

lemma fat32AllocationUnitSize_spec:
  "\<exists>u. fat32AllocationUnitSize v s limit = Some u \<and>
     (if isSupportedSectorSize s \<and> v \<noteq> 0 \<and> v \<le> limit
      then unit_choice (fat32_unit_legal v s) (fat32PreferredUnit v) fat32AllocationUnitSizes u
      else u = 0)"
proof (cases "isSupportedSectorSize s \<and> v \<noteq> 0 \<and> v \<le> limit")
  case True
  have "sorted_wrt (<) fat32AllocationUnitSizes" "0 \<notin> set fat32AllocationUnitSizes"
    by (simp_all add: fat32AllocationUnitSizes_def)
  from fold_unit_choice [OF this] True show ?thesis
    by (auto simp: fat32AllocationUnitSize_def fat32_pick_unit_fold)
qed (auto simp: fat32AllocationUnitSize_def)

section \<open>The volumes mkfs.vfat accepts\<close>

lemma supported_cases:
  "isSupportedSectorSize s \<Longrightarrow> s = 512 \<or> s = 1024 \<or> s = 2048 \<or> s = 4096"
  by (auto simp: isSupportedSectorSize_def)

lemma minimumMkfs_sectors:
  assumes "isSupportedSectorSize s"
  shows "fat32_required (unat s) 1 65525 \<le> unat (minimumMkfsFat32VolumeBytes s) div unat s"
  using supported_cases [OF assms] 
  by (elim disjE) (simp_all add: minimumMkfsFat32VolumeBytes_def isSupportedSectorSize_def Let_def
      fat32_required_def unat_div_word)

text \<open>
  The floor is high enough: every volume of at least that size, in whole sectors, holds the 65525
  clusters mkfs.vfat asks for when a cluster is one sector.
\<close>

lemma minimumMkfs_holds_clusters:
  assumes "isSupportedSectorSize s" "minimumMkfsFat32VolumeBytes s \<le> v" "unat s dvd unat v"
  shows "\<exists>n. fat32DataClusterCount v s s = Some n \<and> 65525 \<le> n"
proof -
  have valid: "fat32_unit_valid s s v" using assms(3) by (simp add: fat32_unit_valid_def)
  have "unat (minimumMkfsFat32VolumeBytes s) div unat s \<le> unat v div unat s"
    using assms(2) by (simp add: div_le_mono word_le_nat_alt)
  then have "fat32_fits (unat v div unat s) (unat s) (unat s div unat s) 65525"
    using minimumMkfs_sectors [OF assms(1)] supported_unat [OF assms(1)] by (simp add: fat32_fits_def)
  with fat32DataClusterCount_spec [OF assms(1) valid] show ?thesis
    by (force simp: word_le_nat_alt)
qed

lemma mkfs_bounds_ordered:
  "isSupportedSectorSize s \<Longrightarrow> minimumMkfsFat32VolumeBytes s \<le> maximumMkfsFat32VolumeBytes s \<and>
     unat (maximumMkfsFat32VolumeBytes s) = (2 ^ 32 - 1) * unat s"
  by (drule supported_cases, elim disjE)
    (simp_all add: minimumMkfsFat32VolumeBytes_def maximumMkfsFat32VolumeBytes_def
      isSupportedSectorSize_def Let_def)


section \<open>Properties\<close>

text \<open>C23. The binary search of \<open>fat32DataClusterCount\<close> returns on every supported sector size. On whole
  sectors and a unit that is a multiple of the sector, the count it returns is the greatest one
  whose reserved area, two FATs and clusters fit on the volume, computed without wrap-around; on
  anything else it is 0.\<close>

theorem fat32_cluster_count_is_greatest:
  assumes "isSupportedSectorSize s"
  shows "\<exists>n. fat32DataClusterCount v s a = Some n \<and>
    (if fat32_unit_valid s a v
     then (n = 0 \<or> fat32_fits (unat v div unat s) (unat s) (unat a div unat s) (unat n)) \<and>
       (\<forall>m. fat32_fits (unat v div unat s) (unat s) (unat a div unat s) m \<longrightarrow> m \<le> unat n)
     else n = 0)"
proof (cases "fat32_unit_valid s a v")
  case True
  then show ?thesis using fat32DataClusterCount_spec [OF assms True] by simp
next
  case False
  then have "a < s \<or> a mod s \<noteq> 0 \<or> v mod ucast s \<noteq> 0"
    by (auto simp: fat32_unit_valid_def mod_0_dvd_u32 mod_0_dvd_u64 unat_widen not_less)
  with False show ?thesis by (auto simp: fat32DataClusterCount_def)
qed

theorem fat32_cluster_count_is_greatest_witness:
  "\<exists>n. fat32DataClusterCount (2 ^ 30) 512 4096 = Some n \<and> 260000 \<le> unat n"
  using fat32_cluster_count_is_greatest [of 512 "2 ^ 30" 4096]
  by (auto simp: isSupportedSectorSize_def fat32_unit_valid_def fat32_fits_def fat32_required_def
      dest!: spec [of _ 260000])

text \<open>C24. \<open>fat32AllocationUnitSize\<close> always returns. It gives 0 exactly for a volume it must refuse: an
  unsupported sector, an empty or too large volume, or no unit with a cluster count in the
  Windows range. Otherwise its unit is legal, not above the preferred size when any legal unit is
  (and then the greatest such), and the smallest legal one when all are above it.\<close>

theorem fat32AllocationUnitSize_correct:
  "\<exists>u. fat32AllocationUnitSize v s limit = Some u \<and>
     (if isSupportedSectorSize s \<and> v \<noteq> 0 \<and> v \<le> limit
      then unit_choice (fat32_unit_legal v s) (fat32PreferredUnit v) fat32AllocationUnitSizes u
      else u = 0)"
  by (rule fat32AllocationUnitSize_spec)

text \<open>The floor \<open>minimumMkfsFat32VolumeBytes\<close> is high enough: every volume of whole sectors at least that
  large holds the 65,525 clusters mkfs.vfat demands, at one sector per cluster; and the floor is
  below the ceiling, which is 2^32 - 1 sectors without wrap-around.\<close>

lemma mkfs_volume_bounds:
  assumes "isSupportedSectorSize s" "minimumMkfsFat32VolumeBytes s \<le> v" "unat s dvd unat v"
  shows "(\<exists>n. fat32DataClusterCount v s s = Some n \<and> 65525 \<le> n) \<and>
    minimumMkfsFat32VolumeBytes s \<le> maximumMkfsFat32VolumeBytes s \<and>
    unat (maximumMkfsFat32VolumeBytes s) = (2 ^ 32 - 1) * unat s"
  using minimumMkfs_holds_clusters [OF assms] mkfs_bounds_ordered [OF assms(1)] by blast

lemma mkfs_volume_bounds_witness:
  "\<exists>n. fat32DataClusterCount 35651584 512 512 = Some n \<and> 65525 \<le> n"
  using mkfs_volume_bounds [of 512 35651584]
  by (simp add: isSupportedSectorSize_def minimumMkfsFat32VolumeBytes_def)

end
