(* ===== verification/Byte_Buffer.thy ===== *)
theory Byte_Buffer
  imports Usb_Prelude
begin

text \<open>
  The little-endian field writers of \<open>src/core/partition_table.cpp\<close> and their contract.

  A \<open>QByteArray\<close> is \<open>bytes\<close> and \<open>buffer[i] = x\<close> is \<open>list_update\<close>. Qt asserts the index; HOL leaves the
  list alone past its end, so every rule about a writer has the range of its field as a
  hypothesis, and the builders prove it at each call. The contract is the locale
  \<open>buffer_field\<close>, interpreted on every writer of the file.
\<close>

section \<open>Writing into a buffer\<close>

definition writeLe16 :: "bytes \<Rightarrow> nat \<Rightarrow> u16 \<Rightarrow> bytes" where
  "writeLe16 buffer offset v =
     buffer[offset := ucast (v AND 0xFF), offset + 1 := ucast (drop_bit 8 v AND 0xFF)]"

definition writeLe32 :: "bytes \<Rightarrow> nat \<Rightarrow> u32 \<Rightarrow> bytes" where
  "writeLe32 buffer offset v =
     fold (\<lambda>i b. b[offset + i := ucast (drop_bit (8 * i) v AND 0xFF)]) [0..<4] buffer"

definition writeLe64 :: "bytes \<Rightarrow> nat \<Rightarrow> u64 \<Rightarrow> bytes" where
  "writeLe64 buffer offset v =
     fold (\<lambda>i b. b[offset + i := ucast (drop_bit (8 * i) v AND 0xFF)]) [0..<8] buffer"

definition writeBytes :: "bytes \<Rightarrow> nat \<Rightarrow> bytes \<Rightarrow> nat \<Rightarrow> bytes" where
  "writeBytes buffer offset v len =
     (let count = min len (length v)
      in fold (\<lambda>i b. b[offset + i := v ! i]) [0..<count] buffer)"

section \<open>The specification: replacing a slice\<close>

text \<open>\<open>patch b k xs\<close> is \<open>b\<close> with \<open>xs\<close> at offset \<open>k\<close>; \<open>field b k n\<close> reads \<open>n\<close> bytes at \<open>k\<close>.\<close>

definition patch :: "'a list \<Rightarrow> nat \<Rightarrow> 'a list \<Rightarrow> 'a list" where
  "patch b k xs = take k b @ xs @ drop (k + length xs) b"

definition field :: "'a list \<Rightarrow> nat \<Rightarrow> nat \<Rightarrow> 'a list" where
  "field b k n = take n (drop k b)"

definition le_bytes :: "nat \<Rightarrow> 'a::len word \<Rightarrow> bytes" where
  "le_bytes n v = map (\<lambda>i. ucast (drop_bit (8 * i) v)) [0..<n]"

fun le_value :: "bytes \<Rightarrow> nat" where
  "le_value [] = 0"
| "le_value (b # bs) = unat b + 256 * le_value bs"

lemma length_patch [simp]: "k + length xs \<le> length b \<Longrightarrow> length (patch b k xs) = length b"
  by (simp add: patch_def)

lemma length_field [simp]: "k + n \<le> length b \<Longrightarrow> length (field b k n) = n"
  by (simp add: field_def)

lemma length_le_bytes [simp]: "length (le_bytes n v) = n"
  by (simp add: le_bytes_def)

lemma nth_patch:
  "k + length xs \<le> length b \<Longrightarrow> i < length b \<Longrightarrow>
   patch b k xs ! i = (if k \<le> i \<and> i < k + length xs then xs ! (i - k) else b ! i)"
  by (auto simp: patch_def nth_append min_def)

lemma nth_field: "k + n \<le> length b \<Longrightarrow> i < n \<Longrightarrow> field b k n ! i = b ! (k + i)"
  by (simp add: field_def)

lemma field_patch_same [buffer_simps]:
  "k + length xs \<le> length b \<Longrightarrow> n = length xs \<Longrightarrow> field (patch b k xs) k n = xs"
  by (simp add: field_def patch_def)

lemma field_patch_other [buffer_simps]:
  "k + length xs \<le> length b \<Longrightarrow> j + n \<le> k \<or> k + length xs \<le> j \<Longrightarrow> j + n \<le> length b \<Longrightarrow>
   field (patch b k xs) j n = field b j n"
  by (intro nth_equalityI) (auto simp: nth_field nth_patch)

lemma field_append_left: "k + n \<le> length xs \<Longrightarrow> field (xs @ ys) k n = field xs k n"
  by (simp add: field_def)

lemma field_append_right: "length xs \<le> k \<Longrightarrow> field (xs @ ys) k n = field ys (k - length xs) n"
  by (simp add: field_def)

lemma field_all: "n = length xs \<Longrightarrow> field xs 0 n = xs"
  by (simp add: field_def)

lemma field_field: "j + m \<le> n \<Longrightarrow> field (field b k n) j m = field b (k + j) m"
  by (simp add: field_def drop_take min_def add.commute)

lemma patch_snoc:
  "k + Suc (length xs) \<le> length b \<Longrightarrow> (patch b k xs)[k + length xs := x] = patch b k (xs @ [x])"
  by (intro nth_equalityI) (auto simp: nth_patch nth_list_update nth_append)

lemma fold_update_patch:
  "k + n \<le> length b \<Longrightarrow> fold (\<lambda>i b. b[k + i := f i]) [0..<n] b = patch b k (map f [0..<n])"
proof (induction n)
  case 0
  then show ?case by (simp add: patch_def)
next
  case (Suc n)
  then show ?case using patch_snoc [of k "map f [0..<n]" b "f n"] by simp
qed

lemma low_byte: "ucast (v AND 0xFF :: 'a::len word) = (ucast v :: u8)"
proof -
  have "v AND 0xFF = v AND mask 8" by (simp add: mask_eq_exp_minus_1)
  then show ?thesis by (simp only:) (auto intro!: bit_word_eqI simp: bit_simps dest: bit_imp_le_length)
qed

lemma writeLe16_patch: "k + 2 \<le> length b \<Longrightarrow> writeLe16 b k v = patch b k (le_bytes 2 v)"
  using fold_update_patch [of k 2 b "\<lambda>i. ucast (drop_bit (8 * i) v)"]
  by (simp add: writeLe16_def le_bytes_def low_byte numeral_2_eq_2 upt_rec)

lemma writeLe32_patch: "k + 4 \<le> length b \<Longrightarrow> writeLe32 b k v = patch b k (le_bytes 4 v)"
  unfolding writeLe32_def low_byte le_bytes_def by (rule fold_update_patch)

lemma writeLe64_patch: "k + 8 \<le> length b \<Longrightarrow> writeLe64 b k v = patch b k (le_bytes 8 v)"
  unfolding writeLe64_def low_byte le_bytes_def by (rule fold_update_patch)

lemma take_map_nth: "n \<le> length v \<Longrightarrow> map ((!) v) [0..<n] = take n v"
  by (intro nth_equalityI) simp_all

lemma writeBytes_patch:
  assumes "k + n \<le> length b" "n \<le> length v"
  shows "writeBytes b k v n = patch b k (take n v)"
  using assms fold_update_patch [of k n b "(!) v"]
  by (simp add: writeBytes_def min_absorb1 take_map_nth)

lemma le_value_append: "le_value (xs @ ys) = le_value xs + 256 ^ length xs * le_value ys"
  by (induction xs) (simp_all add: algebra_simps)

lemma le_value_bytes: "le_value (le_bytes n v) = unat v mod 256 ^ n"
proof (induction n)
  case (Suc n)
  have "unat (ucast (drop_bit (8 * n) v) :: u8) = unat v div 256 ^ n mod 256"
    using unat_drop_bit_eq [of "8 * n" v]
    by (simp add: unsigned_ucast_eq take_bit_eq_mod drop_bit_eq_div power_mult)
  with Suc show ?case
    by (simp add: le_bytes_def le_value_append mod_mult2_eq [of _ "256 ^ n" 256, unfolded mult.commute [of _ 256]]
        del: mult.commute)
qed (simp add: le_bytes_def)

lemma le_value_u16: "le_value (le_bytes 2 (v :: u16)) = unat v"
  using unsigned_less [of v, where 'a = nat] by (simp add: le_value_bytes)

lemma le_value_u32: "le_value (le_bytes 4 (v :: u32)) = unat v"
  using unat_u32_bound [of v] by (simp add: le_value_bytes)

lemma le_value_u64: "le_value (le_bytes 8 (v :: u64)) = unat v"
  using unat_u64_bound [of v] by (simp add: le_value_bytes)
lemma fold_update_length: "length (fold (\<lambda>i b. b[f i := g i]) is b) = length b"
  by (induction "is" arbitrary: b) simp_all

lemma writer_lengths [simp]:
  "length (writeLe16 b k u) = length b" "length (writeLe32 b k v) = length b"
  "length (writeLe64 b k w) = length b" "length (writeBytes b k x n) = length b"
  by (simp_all add: writeLe16_def writeLe32_def writeLe64_def writeBytes_def fold_update_length)

section \<open>The contract of a field writer\<close>

text \<open>
  What the table builders rely on: a writer of \<open>width\<close> bytes never changes the length, and inside the
  buffer it puts the encoding of its value at the offset and leaves every other field alone.
\<close>

locale buffer_field =
  fixes put :: "bytes \<Rightarrow> nat \<Rightarrow> 'v \<Rightarrow> bytes"
    and enc :: "'v \<Rightarrow> bytes"
    and width :: nat
    and accepts :: "'v \<Rightarrow> bool"
  assumes length_put: "length (put b k v) = length b"
    and length_enc: "accepts v \<Longrightarrow> length (enc v) = width"
    and put_patch: "accepts v \<Longrightarrow> k + width \<le> length b \<Longrightarrow> put b k v = patch b k (enc v)"
begin

lemma field_put: "accepts v \<Longrightarrow> k + width \<le> length b \<Longrightarrow> n = width \<Longrightarrow> field (put b k v) k n = enc v"
  by (simp add: put_patch length_enc field_patch_same)

lemma field_put_other:
  "accepts v \<Longrightarrow> k + width \<le> length b \<Longrightarrow> j + n \<le> k \<or> k + width \<le> j \<Longrightarrow> j + n \<le> length b \<Longrightarrow>
   field (put b k v) j n = field b j n"
  by (simp add: put_patch length_enc field_patch_other)

lemma nth_put_other:
  "accepts v \<Longrightarrow> k + width \<le> length b \<Longrightarrow> i < k \<or> k + width \<le> i \<Longrightarrow> i < length b \<Longrightarrow>
   put b k v ! i = b ! i"
  by (auto simp: put_patch length_enc nth_patch)

end

interpretation le16: buffer_field writeLe16 "le_bytes 2" 2 "\<lambda>_. True"
  by unfold_locales (simp_all add: writeLe16_patch)

interpretation le32: buffer_field writeLe32 "le_bytes 4" 4 "\<lambda>_. True"
  by unfold_locales (simp_all add: writeLe32_patch)

interpretation le64: buffer_field writeLe64 "le_bytes 8" 8 "\<lambda>_. True"
  by unfold_locales (simp_all add: writeLe64_patch)

interpretation raw_bytes: buffer_field "\<lambda>b k v. writeBytes b k v n" "take n" n "\<lambda>v. n \<le> length v" for n
  by unfold_locales (simp_all add: writeBytes_patch)

interpretation byte_at: buffer_field "\<lambda>b k v. b[k := v]" "\<lambda>v. [v]" 1 "\<lambda>_. True"
proof unfold_locales
  fix v :: u8 and b :: bytes and k
  assume "k + 1 \<le> length b"
  then show "b[k := v] = patch b k [v]"
    by (intro nth_equalityI) (auto simp: nth_patch nth_list_update)
qed simp_all

lemmas buffer_reads [buffer_simps] =
  le16.field_put [OF TrueI] le32.field_put [OF TrueI] le64.field_put [OF TrueI]
  raw_bytes.field_put byte_at.field_put [OF TrueI]
  le16.field_put_other [OF TrueI] le32.field_put_other [OF TrueI] le64.field_put_other [OF TrueI]
  raw_bytes.field_put_other byte_at.field_put_other [OF TrueI]

end
