(* ===== verification/Partition_Table.thy ===== *)
theory Partition_Table
  imports Safety Fat32 Byte_Buffer
begin

text \<open>
  \<open>src/core/partition_table.cpp\<close>: the bytes of a GPT or MBR partition table and the gate in front of
  them. One definition per function; \<open>buffer[i] = x\<close> is \<open>list_update\<close>, and the proofs about each
  builder discharge the range of every field it writes. The refusal texts of
  \<open>isWritablePartitionRequest\<close> are the constructors of \<open>WriteRefusal\<close>.

  The specification is a reader: \<open>read_gpt_header\<close>, \<open>read_gpt_entry\<close> and \<open>read_mbr_entry\<close> accept what
  the UEFI specification asks of a table (signatures, sizes, both checksums) and return its
  fields as numbers. The checksum of the reader is the remainder of the polynomial
  division that defines CRC-32, not the table of the code.
\<close>

section \<open>The code\<close>

record PartitionTableRequest =
  req_style :: PartitionStyle
  req_fileSystem :: FileSystemType
  req_diskSize :: u64
  req_sectorSize :: u32
  req_layout :: GptLayout
  diskGuid :: bytes
  partitionGuid :: bytes
  partitionName :: qstring

definition GptHeaderSize :: u32 where
  "GptHeaderSize = 92"

definition MbrMaxSectors :: u64 where
  "MbrMaxSectors = 0xFFFFFFFF"

definition MbrHeads :: u32 where
  "MbrHeads = 255"

definition MbrSectorsPerTrack :: u32 where
  "MbrSectorsPerTrack = 63"

definition MbrExFatPartitionType :: u8 where
  "MbrExFatPartitionType = 0x07"

definition MbrFat32LbaPartitionType :: u8 where
  "MbrFat32LbaPartitionType = 0x0C"

definition MbrLinuxPartitionType :: u8 where
  "MbrLinuxPartitionType = 0x83"

definition sectorCount :: "PartitionTableRequest \<Rightarrow> u64" where
  "sectorCount request = req_diskSize request div ucast (effectiveSectorSize (req_sectorSize request))"

record GptGeometry =
  geo_fits :: bool
  arraySectors :: u32
  lastLba :: u64
  primaryEntryLba :: u64
  backupEntryLba :: u64
  firstUsableLba :: u64
  lastUsableLba :: u64

definition gptGeometry :: "PartitionTableRequest \<Rightarrow> GptGeometry" where
  "gptGeometry request =
     (let geometry = \<lparr>geo_fits = False, arraySectors = gptEntryArraySectors (req_sectorSize request),
            lastLba = 0, primaryEntryLba = 2, backupEntryLba = 0, firstUsableLba = 0, lastUsableLba = 0\<rparr>;
          sectors = sectorCount request;
          arr = ucast (arraySectors geometry) :: u64
      in if sectors < arr * 2 + 3 then geometry
         else
           let last' = sectors - 1;
               backup = last' - arr
           in geometry\<lparr>geo_fits := True, lastLba := last', backupEntryLba := backup,
                firstUsableLba := primaryEntryLba geometry + arr, lastUsableLba := backup - 1\<rparr>)"

text \<open>The table of \<open>gptCrc32\<close> and the loop over the data.\<close>

definition crc_step :: "u32 \<Rightarrow> u32" where
  "crc_step v = (if v AND 1 \<noteq> 0 then 0xEDB88320 XOR drop_bit 1 v else drop_bit 1 v)"

definition crc_table :: "u32 list" where
  "crc_table = map (\<lambda>i. (crc_step ^^ 8) (of_nat i)) [0..<256]"

definition gptCrc32 :: "bytes \<Rightarrow> u32" where
  "gptCrc32 data =
     fold (\<lambda>byte crc. crc_table ! unat ((crc XOR ucast byte) AND 0xFF) XOR drop_bit 8 crc) data 0xFFFFFFFF
       XOR 0xFFFFFFFF"

definition basicDataPartitionTypeGuid :: bytes where
  "basicDataPartitionTypeGuid =
     [0xa2, 0xa0, 0xd0, 0xeb, 0xe5, 0xb9, 0x33, 0x44, 0x87, 0xc0, 0x68, 0xb6, 0xb7, 0x26, 0x99, 0xc7]"

definition linuxFilesystemPartitionTypeGuid :: bytes where
  "linuxFilesystemPartitionTypeGuid =
     [0xaf, 0x3d, 0xc6, 0x0f, 0x83, 0x84, 0x72, 0x47, 0x8e, 0x79, 0x3d, 0x69, 0xd8, 0x47, 0x7d, 0xe4]"

definition gptPartitionTypeGuid :: "FileSystemType \<Rightarrow> bytes" where
  "gptPartitionTypeGuid fs =
     (if fs = Ext4 then linuxFilesystemPartitionTypeGuid else basicDataPartitionTypeGuid)"

definition mbrPartitionType :: "FileSystemType \<Rightarrow> u8" where
  "mbrPartitionType fs =
     (case fs of Fat32 \<Rightarrow> MbrFat32LbaPartitionType | Ext4 \<Rightarrow> MbrLinuxPartitionType
      | ExFat \<Rightarrow> MbrExFatPartitionType | Ntfs \<Rightarrow> MbrExFatPartitionType)"

definition buildEntryArray :: "PartitionTableRequest \<Rightarrow> bytes" where
  "buildEntryArray request =
     (let entries = replicate (unat (GptEntryCount * GptEntrySize)) 0;
          sector = ucast (effectiveSectorSize (req_sectorSize request)) :: u64;
          layout = req_layout request;
          firstLba = startOffset layout div sector;
          lastLba' = (startOffset layout + layout_length layout) div sector - 1;
          entries = writeBytes entries 0 (gptPartitionTypeGuid (req_fileSystem request)) 16;
          entries = writeBytes entries 16 (partitionGuid request) 16;
          entries = writeLe64 entries 32 firstLba;
          entries = writeLe64 entries 40 lastLba';
          entries = writeLe64 entries 48 0;
          name = take 36 (partitionName request)
      in fold (\<lambda>i b. writeLe16 b (56 + i * 2) (name ! i)) [0..<length name] entries)"

definition buildHeader :: "PartitionTableRequest \<Rightarrow> bytes \<Rightarrow> bool \<Rightarrow> bytes" where
  "buildHeader request entries primary =
     (let sector = effectiveSectorSize (req_sectorSize request);
          geometry = gptGeometry request;
          last' = lastLba geometry;
          header = replicate (unat sector) 0;
          header = writeBytes header 0 [0x45, 0x46, 0x49, 0x20, 0x50, 0x41, 0x52, 0x54] 8;
          header = writeLe32 header 8 0x00010000;
          header = writeLe32 header 12 GptHeaderSize;
          header = writeLe32 header 16 0;
          header = writeLe32 header 20 0;
          header = writeLe64 header 24 (if primary then 1 else last');
          header = writeLe64 header 32 (if primary then last' else 1);
          header = writeLe64 header 40 (firstUsableLba geometry);
          header = writeLe64 header 48 (lastUsableLba geometry);
          header = writeBytes header 56 (diskGuid request) 16;
          header = writeLe64 header 72 (if primary then primaryEntryLba geometry else backupEntryLba geometry);
          header = writeLe32 header 80 GptEntryCount;
          header = writeLe32 header 84 GptEntrySize;
          header = writeLe32 header 88 (gptCrc32 entries);
          headerCrc = gptCrc32 (take (unat GptHeaderSize) header)
      in writeLe32 header 16 headerCrc)"

definition writeChs :: "bytes \<Rightarrow> nat \<Rightarrow> u64 \<Rightarrow> bytes" where
  "writeChs buffer offset lba =
     (let cylinder = lba div ucast (MbrHeads * MbrSectorsPerTrack)
      in if cylinder > 1023 then buffer[offset := 0xFE, offset + 1 := 0xFF, offset + 2 := 0xFF]
         else
           let head = (lba div ucast MbrSectorsPerTrack) mod ucast MbrHeads;
               sector = (lba mod ucast MbrSectorsPerTrack) + 1
           in buffer[offset := ucast (head AND 0xFF),
                offset + 1 := ucast ((sector AND 0x3F) OR (drop_bit 2 cylinder AND 0xC0)),
                offset + 2 := ucast (cylinder AND 0xFF)])"

definition writeMbrSignature :: "bytes \<Rightarrow> bytes" where
  "writeMbrSignature buffer = buffer[510 := 0x55, 511 := 0xAA]"

datatype WriteRefusal =
    LayoutRefused LayoutError
  | LayoutNotAligned
  | LayoutPastEnd
  | NoRoomForHeaders
  | NeedsIdentifiers
  | OverlapsHeaders
  | NeedsDiskIdentifier

text \<open>\<open>None\<close> is acceptance; otherwise the refusal whose text the source returns.\<close>

definition isWritablePartitionRequest :: "PartitionTableRequest \<Rightarrow> WriteRefusal option" where
  "isWritablePartitionRequest request =
     (case partitionLayoutError (req_style request) (req_layout request) (req_sectorSize request) of
        Some e \<Rightarrow> Some (LayoutRefused e)
      | None \<Rightarrow>
          let sector = ucast (req_sectorSize request) :: u64;
              layout = req_layout request
          in if startOffset layout mod sector \<noteq> 0 \<or> layout_length layout mod sector \<noteq> 0
             then Some LayoutNotAligned
             else
               let sectors = sectorCount request;
                   endLba = (startOffset layout + layout_length layout) div sector
               in if sectors = 0 \<or> endLba > sectors then Some LayoutPastEnd
                  else if req_style request = Gpt then
                    let geometry = gptGeometry request
                    in if \<not> geo_fits geometry then Some NoRoomForHeaders
                       else if length (diskGuid request) \<noteq> 16 \<or> length (partitionGuid request) \<noteq> 16
                       then Some NeedsIdentifiers
                       else
                         let firstLba = startOffset layout div sector;
                             lastLba' = endLba - 1
                         in if firstLba < firstUsableLba geometry \<or> lastLba' > lastUsableLba geometry
                            then Some OverlapsHeaders else None
                  else if length (diskGuid request) < 4 then Some NeedsDiskIdentifier
                  else None)"

definition arrayPadding :: "u32 \<Rightarrow> bytes \<Rightarrow> bytes" where
  "arrayPadding sector entries =
     replicate (unat (gptEntryArraySectors sector * sector) - length entries) 0"

definition buildGptPrimary :: "PartitionTableRequest \<Rightarrow> bytes" where
  "buildGptPrimary request =
     (let sector = effectiveSectorSize (req_sectorSize request);
          sectors = sectorCount request;
          entries = buildEntryArray request;
          header = buildHeader request entries True;
          mbr = replicate (unat sector) 0;
          mbr = mbr[446 := 0x00, 447 := 0x00, 448 := 0x02, 449 := 0x00, 450 := 0xEE,
                    451 := 0xFF, 452 := 0xFF, 453 := 0xFF];
          mbr = writeLe32 mbr 454 1;
          mbr = writeLe32 mbr 458 (ucast (min (sectors - 1) MbrMaxSectors));
          mbr = writeMbrSignature mbr
      in mbr @ header @ entries @ arrayPadding sector entries)"

definition buildGptBackup :: "PartitionTableRequest \<Rightarrow> bytes" where
  "buildGptBackup request =
     (let sector = effectiveSectorSize (req_sectorSize request);
          entries = buildEntryArray request;
          header = buildHeader request entries False
      in entries @ arrayPadding sector entries @ header)"

definition gptBackupOffset :: "PartitionTableRequest \<Rightarrow> u64" where
  "gptBackupOffset request =
     (let sector = ucast (effectiveSectorSize (req_sectorSize request));
          geometry = gptGeometry request
      in if \<not> geo_fits geometry then 0 else backupEntryLba geometry * sector)"

definition buildMbr :: "PartitionTableRequest \<Rightarrow> bytes" where
  "buildMbr request =
     (let sector = effectiveSectorSize (req_sectorSize request);
          firstLba = startOffset (req_layout request) div ucast sector;
          sectorSpan = layout_length (req_layout request) div ucast sector;
          lastLba' = firstLba + sectorSpan - 1;
          mbr = replicate (unat sector) 0;
          mbr = (if 4 \<le> length (diskGuid request)
                 then writeBytes mbr 440 (take 4 (diskGuid request)) 4 else mbr);
          mbr = mbr[446 := 0x00];
          mbr = writeChs mbr 447 firstLba;
          mbr = mbr[450 := mbrPartitionType (req_fileSystem request)];
          mbr = writeChs mbr 451 lastLba';
          mbr = writeLe32 mbr 454 (ucast (min firstLba MbrMaxSectors));
          mbr = writeLe32 mbr 458 (ucast (min sectorSpan MbrMaxSectors))
      in writeMbrSignature mbr)"
section \<open>The checksum: the table and the polynomial division\<close>

text \<open>
  The reference is the definition of CRC-32 in IEEE 802.3, which UEFI takes over: a message is a polynomial over the
  field of two elements, its coefficients from the highest power down, every byte giving its least significant bit
  first. The first 32 coefficients are complemented, the message is multiplied by \<open>x ^ 32\<close> and divided by the
  generator, and the complement of the remainder is the checksum, its highest power in the least significant bit.
\<close>

definition generator_powers :: "nat list" where
  "generator_powers = [32, 26, 23, 22, 16, 12, 11, 10, 8, 7, 5, 4, 2, 1, 0]"

text \<open>The coefficients below the leading one.\<close>

definition generator_tail :: "bool list" where
  "generator_tail = map (\<lambda>k. 31 - k \<in> set generator_powers) [0..<32]"

fun xor_onto :: "bool list \<Rightarrow> bool list \<Rightarrow> bool list" where
  "xor_onto (a # as) (p # ps) = (a \<noteq> p) # xor_onto as ps"
| "xor_onto _ ps = ps"

text \<open>Long division: the remainder, of less than 33 coefficients.\<close>

lemma length_xor_onto [simp]: "length (xor_onto as ps) = length ps"
  by (induction as ps rule: xor_onto.induct) simp_all

function poly_remainder :: "bool list \<Rightarrow> bool list" where
  "poly_remainder ps =
     (if length ps \<le> 32 then ps
      else poly_remainder (if hd ps then xor_onto generator_tail (tl ps) else tl ps))"
  by auto

termination
  by (relation "measure length") auto

declare poly_remainder.simps [simp del]

definition message_bits :: "bytes \<Rightarrow> bool list" where
  "message_bits data = concat (map (\<lambda>byte. map (bit byte) [0..<8]) data)"

definition crc32_reference :: "bytes \<Rightarrow> u32" where
  "crc32_reference data =
     horner_sum of_bool 2
       (map Not (poly_remainder (xor_onto (replicate 32 True) (message_bits data @ replicate 32 False))))"

text \<open>Between the two stands the register, one bit at a time, without a table.\<close>

definition crc32_bitwise :: "bytes \<Rightarrow> u32" where
  "crc32_bitwise data =
     fold (\<lambda>byte crc. (crc_step ^^ 8) (crc XOR ucast byte)) data 0xFFFFFFFF XOR 0xFFFFFFFF"

lemma and_1_bit: "(v AND 1 \<noteq> 0) = bit (v :: u32) 0"
  by (simp add: bit_0 and_one_eq mod_2_eq_odd)

lemma crc_step_xor: "crc_step (a XOR b) = crc_step a XOR crc_step b"
proof -
  have "drop_bit 1 (a XOR b) = drop_bit 1 a XOR drop_bit 1 b" by simp
  then show ?thesis
    unfolding crc_step_def and_1_bit by (auto simp: bit_xor_iff ac_simps xor.left_commute)
qed

lemma crc_steps_xor: "(crc_step ^^ n) (a XOR b) = (crc_step ^^ n) a XOR (crc_step ^^ n) b"
  by (induction n) (simp_all add: crc_step_xor)

lemma crc_steps_shift: "\<forall>i < n. \<not> bit v i \<Longrightarrow> (crc_step ^^ n) v = drop_bit n v"
proof (induction n)
  case (Suc n)
  then have "(crc_step ^^ n) v = drop_bit n v" "\<not> bit (drop_bit n v) 0"
    by (simp_all add: bit_drop_bit_eq)
  then show ?case unfolding crc_step_def and_1_bit funpow.simps o_apply
    by (simp add: drop_bit_drop_bit)
qed simp

lemma low_mask: "0xFF = (mask 8 :: u32)"
  by (simp add: mask_eq_exp_minus_1)

lemma split_low_byte: "v = (v AND mask 8) XOR (v AND NOT (mask 8 :: u32))"
  by (rule bit_word_eqI) (auto simp: bit_simps)

lemma crc_table_entry: "crc_table ! unat (v AND mask 8) = (crc_step ^^ 8) (v AND mask 8)"
proof -
  have "v AND 0xFF \<le> 0xFF" by (rule word_and_le1)
  then have "unat (v AND mask 8) < 256" unfolding low_mask [symmetric] by (simp add: word_le_nat_alt)
  then show ?thesis by (simp add: crc_table_def)
qed

lemma crc_byte: "crc_table ! unat ((crc XOR ucast byte) AND 0xFF) XOR drop_bit 8 crc =
    (crc_step ^^ 8) (crc XOR ucast (byte :: u8))"
proof -
  let ?v = "crc XOR ucast byte"
  have "(crc_step ^^ 8) ?v = (crc_step ^^ 8) (?v AND mask 8) XOR (crc_step ^^ 8) (?v AND NOT (mask 8))"
    by (subst split_low_byte) (rule crc_steps_xor)
  moreover have "(crc_step ^^ 8) (?v AND NOT (mask 8)) = drop_bit 8 (?v AND NOT (mask 8))"
    by (rule crc_steps_shift) (auto simp: bit_simps)
  moreover have "drop_bit 8 (?v AND NOT (mask 8)) = drop_bit 8 crc"
    by (rule bit_word_eqI) (auto simp: bit_simps dest: bit_imp_le_length)
  ultimately show ?thesis unfolding low_mask by (simp only: crc_table_entry)
qed

lemma gptCrc32_bitwise: "gptCrc32 data = crc32_bitwise data"
  unfolding gptCrc32_def crc32_bitwise_def crc_byte ..

text \<open>The register holds the coefficients in front of the message, the highest power in its lowest bit.\<close>

abbreviation bits_of :: "u32 \<Rightarrow> bool list" where
  "bits_of v \<equiv> map (bit v) [0..<32]"

lemma nth_xor_onto: "i < length as \<Longrightarrow> i < length ps \<Longrightarrow> xor_onto as ps ! i = (as ! i \<noteq> ps ! i)"
proof (induction as ps arbitrary: i rule: xor_onto.induct)
  case (1 a as p ps)
  then show ?case by (cases i) simp_all
qed simp_all

lemma xor_onto_zeros: "xor_onto as (replicate (length as) False) = as"
  by (induction as) simp_all

lemma xor_onto_snoc: "xor_onto (as @ [False]) ps = xor_onto as ps"
proof (induction as arbitrary: ps)
  case Nil
  then show ?case by (cases ps) simp_all
next
  case (Cons a as)
  then show ?case by (cases ps) simp_all
qed

lemma xor_onto_twice: "length as = length cs \<Longrightarrow> xor_onto as (xor_onto cs ps) = xor_onto (xor_onto as cs) ps"
proof (induction cs ps arbitrary: as rule: xor_onto.induct)
  case (1 b cs p ps)
  then show ?case by (cases as) auto
qed (auto simp: neq_Nil_conv)

lemma generator_bits: "generator_tail = bits_of 0xEDB88320"
  by code_simp

lemma all_ones: "replicate 32 True = bits_of 0xFFFFFFFF"
  by code_simp

lemma register_bits: "bits_of v = bit v 0 # map (bit v) [1..<32]"
  by (simp add: upt_conv_Cons)

lemma shifted_bits: "bits_of (drop_bit 1 v) = map (bit v) [1..<32] @ [False]"
  by (rule nth_equalityI) (auto simp: nth_append bit_drop_bit_eq less_Suc_eq dest: bit_imp_le_length)

lemma bits_of_step:
  "bits_of (crc_step v) = (if bit v 0 then xor_onto generator_tail (map (bit v) [1..<32] @ [False])
     else map (bit v) [1..<32] @ [False])"
proof -
  have "bits_of (0xEDB88320 XOR drop_bit 1 v) = xor_onto generator_tail (bits_of (drop_bit 1 v))"
    unfolding generator_bits by (rule nth_equalityI) (simp_all add: nth_xor_onto bit_xor_iff)
  then show ?thesis unfolding crc_step_def and_1_bit shifted_bits [symmetric] by simp
qed

lemma remainder_register:
  "poly_remainder (xor_onto (bits_of v) (msg @ replicate 32 False)) =
     bits_of (fold (\<lambda>m v. crc_step (v XOR of_bool m)) msg v)"
proof (induction msg arbitrary: v)
  case Nil
  then show ?case using xor_onto_zeros [of "bits_of v"] by (simp add: poly_remainder.simps)
next
  case (Cons m msg)
  let ?rest = "msg @ replicate 32 False" and ?bs = "map (bit v) [1..<32] @ [False]" and ?v = "v XOR of_bool m"
  have same: "map (bit ?v) [1..<32] = map (bit v) [1..<32]" by (simp add: bit_simps)
  have head: "bit ?v 0 = (bit v 0 \<noteq> m)" by (simp add: bit_simps)
  have "xor_onto (bits_of v) (m # ?rest) = (bit v 0 \<noteq> m) # xor_onto ?bs ?rest"
    unfolding register_bits xor_onto_snoc by simp
  then have "poly_remainder (xor_onto (bits_of v) (m # ?rest)) =
      poly_remainder (if bit ?v 0 then xor_onto generator_tail (xor_onto ?bs ?rest) else xor_onto ?bs ?rest)"
    by (simp add: poly_remainder.simps [of "_ # _"] head)
  also have "\<dots> = poly_remainder (xor_onto (bits_of (crc_step ?v)) ?rest)"
    unfolding bits_of_step same by (simp add: xor_onto_twice generator_bits)
  finally show ?case using Cons.IH [of "crc_step ?v"] by simp
qed

lemma register_byte:
  assumes "n \<le> 8"
  shows "fold (\<lambda>m v. crc_step (v XOR of_bool m)) (map (bit byte) [0..<n]) v =
    (crc_step ^^ n) (v XOR take_bit n (ucast (byte :: u8)))"
  using assms
proof (induction n)
  case (Suc n)
  let ?w = "ucast byte :: u32"
  have "take_bit (Suc n) ?w = take_bit n ?w XOR push_bit n (of_bool (bit byte n))"
    using Suc.prems by (intro bit_word_eqI) (auto simp: bit_simps less_Suc_eq)
  then have "(crc_step ^^ n) (v XOR take_bit (Suc n) ?w) =
      (crc_step ^^ n) (v XOR take_bit n ?w) XOR (crc_step ^^ n) (push_bit n (of_bool (bit byte n)))"
    by (simp add: crc_steps_xor xor.assoc)
  moreover have "(crc_step ^^ n) (push_bit n (of_bool (bit byte n))) = of_bool (bit byte n)"
  proof -
    have "(crc_step ^^ n) (push_bit n (of_bool (bit byte n))) = drop_bit n (push_bit n (of_bool (bit byte n)))"
      by (rule crc_steps_shift) (auto simp: bit_simps)
    also have "\<dots> = (of_bool (bit byte n) :: u32)" using Suc.prems by (intro bit_word_eqI) (auto simp: bit_simps)
    finally show ?thesis .
  qed
  ultimately show ?case using Suc by simp
qed simp

lemma register_message:
  "fold (\<lambda>m v. crc_step (v XOR of_bool m)) (message_bits data) v = fold (\<lambda>byte crc. (crc_step ^^ 8) (crc XOR ucast byte)) data v"
proof (induction data arbitrary: v)
  case (Cons byte data)
  have "take_bit 8 (ucast byte :: u32) = ucast byte" by (intro bit_word_eqI) (auto simp: bit_simps dest: bit_imp_le_length)
  then show ?case using Cons register_byte [of 8 byte v] by (simp add: message_bits_def)
qed (simp add: message_bits_def)

lemma complement_of_bits: "horner_sum of_bool 2 (map Not (bits_of v)) = v XOR 0xFFFFFFFF"
proof (rule bit_word_eqI)
  fix i assume "i < LENGTH(32)"
  moreover have "bit (0xFFFFFFFF :: u32) i" if "i < 32" for i
    using arg_cong [OF all_ones, of "\<lambda>bs. bs ! i"] that by simp
  ultimately show "bit (horner_sum of_bool 2 (map Not (bits_of v)) :: u32) i = bit (v XOR 0xFFFFFFFF) i"
    by (simp add: bit_horner_sum_bit_word_iff bit_xor_iff)
qed

lemma gptCrc32_reference: "gptCrc32 data = crc32_reference data"
  unfolding gptCrc32_bitwise crc32_bitwise_def crc32_reference_def all_ones remainder_register complement_of_bits
    register_message ..

text \<open>The check value published for CRC-32: the ASCII digits from 1 to 9 have the checksum \<open>0xCBF43926\<close>.\<close>

abbreviation check_message :: bytes where
  "check_message \<equiv> [0x31, 0x32, 0x33, 0x34, 0x35, 0x36, 0x37, 0x38, 0x39]"

lemma check_remainder: "poly_remainder (xor_onto (replicate 32 True) (message_bits check_message @ replicate 32 False)) =
    bits_of (0xCBF43926 XOR 0xFFFFFFFF)"
  by code_simp

lemma check_value: "crc32_reference check_message = 0xCBF43926"
  unfolding crc32_reference_def check_remainder complement_of_bits by simp

section \<open>Reading a table back\<close>

record gpt_header_view =
  self_lba :: nat
  other_lba :: nat
  first_usable :: nat
  last_usable :: nat
  disk_guid :: bytes
  entries_lba :: nat

definition gpt_signature :: bytes where
  "gpt_signature = [0x45, 0x46, 0x49, 0x20, 0x50, 0x41, 0x52, 0x54]"

definition read_gpt_header :: "bytes \<Rightarrow> bytes \<Rightarrow> gpt_header_view option" where
  "read_gpt_header h entries =
     (if field h 0 8 = gpt_signature \<and> le_value (field h 8 4) = 0x10000 \<and>
         le_value (field h 12 4) = 92 \<and> le_value (field h 20 4) = 0 \<and>
         le_value (field h 16 4) = unat (crc32_reference (patch (take 92 h) 16 (replicate 4 0))) \<and>
         le_value (field h 80 4) = 128 \<and> le_value (field h 84 4) = 128 \<and>
         le_value (field h 88 4) = unat (crc32_reference entries)
      then Some \<lparr>self_lba = le_value (field h 24 8), other_lba = le_value (field h 32 8),
             first_usable = le_value (field h 40 8), last_usable = le_value (field h 48 8),
             disk_guid = field h 56 16, entries_lba = le_value (field h 72 8)\<rparr>
      else None)"

lemma effective_512:
  "isSupportedSectorSize s \<Longrightarrow> 512 \<le> unat (effectiveSectorSize s)"
  by (auto simp: isSupportedSectorSize_def effectiveSectorSize_def)

lemma take_patch: "k + length xs \<le> m \<Longrightarrow> m \<le> length b \<Longrightarrow> take m (patch b k xs) = patch (take m b) k xs"
  by (intro nth_equalityI) (auto simp: nth_patch)

lemma patch_patch: "k + length xs \<le> length b \<Longrightarrow> length ys = length xs \<Longrightarrow> patch (patch b k ys) k xs = patch b k xs"
  by (intro nth_equalityI) (auto simp: nth_patch)

lemma patch_field: "k + length xs \<le> length b \<Longrightarrow> field b k (length xs) = xs \<Longrightarrow> patch b k xs = b"
  by (metis append_take_drop_id field_def patch_def take_add append.assoc)

text \<open>Writing the checksum last leaves the checksummed bytes recoverable.\<close>

lemma checksum_recovers:
  assumes "92 \<le> length h" "field h 16 4 = replicate 4 0"
  shows "patch (take 92 (writeLe32 h 16 crc)) 16 (replicate 4 0) = take 92 h"
proof -
  have "take 92 (writeLe32 h 16 crc) = patch (take 92 h) 16 (le_bytes 4 crc)"
    using assms(1) by (simp add: writeLe32_patch take_patch)
  moreover have "patch (take 92 h) 16 (replicate 4 0) = take 92 h"
    using assms by (intro patch_field) (simp_all add: field_def drop_take)
  ultimately show ?thesis using assms(1) by (simp add: patch_patch)
qed

lemma le_bytes_0 [simp]: "le_bytes n 0 = replicate n 0"
  by (simp add: le_bytes_def map_replicate_trivial)

lemma le_value_replicate_0 [simp]: "le_value (replicate n 0) = 0"
  by (induction n) simp_all

lemma buildHeader_read:
  assumes "isSupportedSectorSize (req_sectorSize r)" "length (diskGuid r) = 16"
  shows "read_gpt_header (buildHeader r entries primary) entries =
    Some \<lparr>self_lba = (if primary then 1 else unat (lastLba (gptGeometry r))),
      other_lba = (if primary then unat (lastLba (gptGeometry r)) else 1),
      first_usable = unat (firstUsableLba (gptGeometry r)),
      last_usable = unat (lastUsableLba (gptGeometry r)),
      disk_guid = diskGuid r,
      entries_lba = unat (if primary then primaryEntryLba (gptGeometry r) else backupEntryLba (gptGeometry r))\<rparr>"
proof -
  note len = effective_512 [OF assms(1)]
  show ?thesis
    using len assms(2)
    unfolding buildHeader_def Let_def read_gpt_header_def
    by (simp add: buffer_simps checksum_recovers gptCrc32_reference [symmetric] le_value_u32 le_value_u64
        GptHeaderSize_def GptEntryCount_def GptEntrySize_def gpt_signature_def)
qed
record gpt_entry_view =
  type_guid :: bytes
  unique_guid :: bytes
  first_lba :: nat
  last_lba :: nat
  attributes :: nat
  name_units :: qstring

definition read_units :: "bytes \<Rightarrow> nat \<Rightarrow> nat \<Rightarrow> qstring" where
  "read_units b k n = map (\<lambda>i. of_nat (le_value (field b (k + i * 2) 2))) [0..<n]"

definition read_gpt_entry :: "bytes \<Rightarrow> gpt_entry_view" where
  "read_gpt_entry b =
     \<lparr>type_guid = field b 0 16, unique_guid = field b 16 16, first_lba = le_value (field b 32 8),
      last_lba = le_value (field b 40 8), attributes = le_value (field b 48 8),
      name_units = read_units b 56 36\<rparr>"

lemma length_concat_units: "length (concat (map (\<lambda>i. le_bytes 2 (f i)) [0..<n])) = n * 2"
  by (induction n) simp_all

lemma fold_writeLe16_patch:
  assumes "k + 2 * n \<le> length b"
  shows "fold (\<lambda>i b. writeLe16 b (k + i * 2) (f i)) [0..<n] b =
    patch b k (concat (map (\<lambda>i. le_bytes 2 (f i)) [0..<n]))"
  using assms
proof (induction n)
  case 0
  then show ?case by (simp add: patch_def)
next
  case (Suc n)
  let ?xs = "concat (map (\<lambda>i. le_bytes 2 (f i)) [0..<n])"
  have len: "length ?xs = n * 2" by (rule length_concat_units)
  have "patch (patch b k ?xs) (k + n * 2) (le_bytes 2 (f n)) = patch b k (?xs @ le_bytes 2 (f n))"
    using Suc.prems len by (intro nth_equalityI) (auto simp: nth_patch nth_append)
  with Suc len show ?case by (simp add: writeLe16_patch)
qed

lemma concat_units_nth:
  assumes "i < n"
  shows "field (concat (map (\<lambda>i. le_bytes 2 (f i)) [0..<n])) (i * 2) 2 = le_bytes 2 (f i)"
  using assms
proof (induction n)
  case (Suc n)
  note len = length_concat_units [of f n]
  show ?case
  proof (cases "i = n")
    case True
    then show ?thesis using len by (simp add: field_append_right field_all)
  next
    case False
    then have "i * 2 + 2 \<le> n * 2" using Suc.prems by linarith
    then show ?thesis using Suc False len by (simp add: field_append_left)
  qed
qed simp

lemma entries_name:
  fixes name :: qstring and b :: bytes
  assumes "56 + 72 \<le> length b" "field b 56 72 = replicate 72 0"
  defines "b' \<equiv> fold (\<lambda>i b. writeLe16 b (56 + i * 2) (take 36 name ! i)) [0..<length (take 36 name)] b"
  shows "read_units b' 56 36 = take 36 name @ replicate (36 - length name) 0"
proof (rule nth_equalityI)
  let ?n = "length (take 36 name)"
  let ?xs = "concat (map (\<lambda>i. le_bytes 2 (take 36 name ! i)) [0..<?n])"
  have len: "length ?xs = ?n * 2" by (rule length_concat_units)
  have "?n \<le> 36" by simp
  then have b': "b' = patch b 56 ?xs"
    unfolding b'_def using assms(1) by (intro fold_writeLe16_patch) linarith
  have zero: "field b (56 + i * 2) 2 = replicate 2 0" if "i < 36" for i
  proof -
    have "field (field b 56 72) (i * 2) 2 = field b (56 + i * 2) 2" using that by (intro field_field) simp
    moreover have "field (replicate 72 (0 :: u8)) (i * 2) 2 = replicate 2 0"
      using that by (intro nth_equalityI) (simp_all add: nth_field)
    ultimately show ?thesis using assms(2) by simp
  qed
  show "length (read_units b' 56 36) = length (take 36 name @ replicate (36 - length name) 0)"
    by (simp add: read_units_def)
  fix i assume "i < length (read_units b' 56 36)"
  then have i: "i < 36" by (simp add: read_units_def)
  have "field b' (56 + i * 2) 2 = (if i < ?n then le_bytes 2 (take 36 name ! i) else replicate 2 0)"
  proof (cases "i < ?n")
    case True
    have "field b' (56 + i * 2) 2 = field ?xs (i * 2) 2"
      unfolding b' using True len assms(1) i
      by (intro nth_equalityI) (auto simp: nth_field nth_patch)
    with True show ?thesis by (simp only: concat_units_nth if_True)
  next
    case False
    then show ?thesis unfolding b' using len assms(1) i zero [OF i]
      by (subst field_patch_other) auto
  qed
  then have "read_units b' 56 36 ! i = (if i < ?n then take 36 name ! i else 0)"
    using i le_value_u16 by (simp add: read_units_def)
  also have "\<dots> = (take 36 name @ replicate (36 - length name) 0) ! i"
    using i by (simp add: nth_append)
  finally show "read_units b' 56 36 ! i = (take 36 name @ replicate (36 - length name) 0) ! i" .
qed

lemma length_gpt_guids [simp]: "length (gptPartitionTypeGuid fs) = 16"
  by (simp add: gptPartitionTypeGuid_def basicDataPartitionTypeGuid_def linuxFilesystemPartitionTypeGuid_def)

lemma fold_name_length [simp]: "length (fold (\<lambda>i b. writeLe16 b (f i) (g i)) is b) = length b"
  by (induction "is" arbitrary: b) simp_all

lemma fold_name_field:
  "\<forall>i \<in> set is. j + n \<le> f i \<and> f i + 2 \<le> length b \<Longrightarrow>
   field (fold (\<lambda>i b. writeLe16 b (f i) (g i)) is b) j n = field b j n"
  by (induction "is" arbitrary: b) (auto simp: le16.field_put_other)

lemma buildEntryArray_length [simp]: "length (buildEntryArray r) = 16384"
  by (simp add: buildEntryArray_def Let_def GptEntryCount_def GptEntrySize_def)

lemma buildEntryArray_read:
  fixes r :: PartitionTableRequest
  defines "S \<equiv> ucast (effectiveSectorSize (req_sectorSize r)) :: u64" and "L \<equiv> req_layout r"
  assumes "length (partitionGuid r) = 16"
  shows "read_gpt_entry (buildEntryArray r) =
    \<lparr>type_guid = gptPartitionTypeGuid (req_fileSystem r), unique_guid = partitionGuid r,
     first_lba = unat (startOffset L div S),
     last_lba = unat ((startOffset L + layout_length L) div S - 1), attributes = 0,
     name_units = take 36 (partitionName r) @ replicate (36 - length (partitionName r)) 0\<rparr>"
proof -
  let ?name = "take 36 (partitionName r)"
  define b where "b = writeLe64 (writeLe64 (writeLe64 (writeBytes (writeBytes (replicate 16384 0)
       0 (gptPartitionTypeGuid (req_fileSystem r)) 16) 16 (partitionGuid r) 16)
       32 (startOffset L div S)) 40 ((startOffset L + layout_length L) div S - 1)) 48 0"
  have len: "length b = 16384" by (simp add: b_def)
  have b: "buildEntryArray r = fold (\<lambda>i b. writeLe16 b (56 + i * 2) (?name ! i)) [0..<length ?name] b"
    by (simp add: buildEntryArray_def b_def S_def L_def Let_def GptEntryCount_def GptEntrySize_def)
  have fields: "field (buildEntryArray r) j n = field b j n" if "j + n \<le> 56" for j n
    unfolding b using that len by (intro fold_name_field) auto
  have zeros: "field b 56 72 = replicate 72 0"
    using assms(3) by (simp add: b_def buffer_simps) (simp add: field_def)
  have "read_units (buildEntryArray r) 56 36 = ?name @ replicate (36 - length (partitionName r)) 0"
    unfolding b by (rule entries_name) (use len zeros in simp_all)
  then show ?thesis
    using assms(3) unfolding read_gpt_entry_def
    by (simp add: fields) (simp add: b_def buffer_simps le_value_u64)
qed

section \<open>The geometry\<close>

definition array_lbas :: "PartitionTableRequest \<Rightarrow> nat" where
  "array_lbas r = unat (gptEntryArraySectors (req_sectorSize r))"

definition sector_bytes :: "PartitionTableRequest \<Rightarrow> nat" where
  "sector_bytes r = unat (req_sectorSize r)"

definition disk_lbas :: "PartitionTableRequest \<Rightarrow> nat" where
  "disk_lbas r = unat (req_diskSize r) div sector_bytes r"

lemma array_lbas_bytes:
  "isSupportedSectorSize (req_sectorSize r) \<Longrightarrow> array_lbas r * sector_bytes r = 16384"
  using array_bytes [of "req_sectorSize r"] by (simp add: array_lbas_def sector_bytes_def)

lemma sector_bytes_bounds:
  "isSupportedSectorSize (req_sectorSize r) \<Longrightarrow> 512 \<le> sector_bytes r \<and> sector_bytes r \<le> 4096"
  using supported_unat by (simp add: sector_bytes_def)

lemma array_lbas_bounds:
  "isSupportedSectorSize (req_sectorSize r) \<Longrightarrow> 4 \<le> array_lbas r \<and> array_lbas r \<le> 32"
  by (drule supported_cases, elim disjE)
    (simp_all add: array_lbas_def gptEntryArraySectors_def supported_or_512_def isSupportedSectorSize_def
      GptEntryCount_def GptEntrySize_def)

lemma unat_sectorCount:
  "isSupportedSectorSize (req_sectorSize r) \<Longrightarrow> unat (sectorCount r) = disk_lbas r"
  by (simp add: sectorCount_def disk_lbas_def sector_bytes_def unat_div_word unat_widen)

lemma geometry_nat:
  assumes "isSupportedSectorSize (req_sectorSize r)"
  shows "geo_fits (gptGeometry r) \<longleftrightarrow> 2 * array_lbas r + 3 \<le> disk_lbas r"
    and "primaryEntryLba (gptGeometry r) = 2"
    and "geo_fits (gptGeometry r) \<Longrightarrow>
      unat (lastLba (gptGeometry r)) = disk_lbas r - 1 \<and>
      unat (backupEntryLba (gptGeometry r)) = disk_lbas r - 1 - array_lbas r \<and>
      unat (firstUsableLba (gptGeometry r)) = 2 + array_lbas r \<and>
      unat (lastUsableLba (gptGeometry r)) = disk_lbas r - 2 - array_lbas r"
proof -
  let ?a = "ucast (gptEntryArraySectors (req_sectorSize r)) :: u64" and ?n = "sectorCount r"
  have a: "unat ?a = array_lbas r" by (simp add: array_lbas_def unat_widen)
  have n: "unat ?n = disk_lbas r" by (rule unat_sectorCount [OF assms])
  have bound: "array_lbas r \<le> 32" using array_lbas_bounds [OF assms] by simp
  have sum: "unat (?a * 2 + 3) = 2 * array_lbas r + 3"
    using a bound by (subst unat_plus_u64; simp add: unat_times_u64)
  then have lt: "?n < ?a * 2 + 3 \<longleftrightarrow> \<not> 2 * array_lbas r + 3 \<le> disk_lbas r"
    by (simp add: word_less_nat_alt n not_le)
  show "geo_fits (gptGeometry r) \<longleftrightarrow> 2 * array_lbas r + 3 \<le> disk_lbas r"
    using lt by (simp add: gptGeometry_def Let_def)
  show "primaryEntryLba (gptGeometry r) = 2" by (simp add: gptGeometry_def Let_def)
  assume "geo_fits (gptGeometry r)"
  then have fits: "\<not> ?n < ?a * 2 + 3" by (auto simp: gptGeometry_def Let_def split: if_splits)
  then have big: "2 * array_lbas r + 3 \<le> disk_lbas r" using lt by simp
  have last: "unat (?n - 1) = disk_lbas r - 1" using big n by (subst unat_minus_u64) simp_all
  have backup: "unat (?n - 1 - ?a) = disk_lbas r - 1 - array_lbas r"
    using big last a by (subst unat_minus_u64) simp_all
  have "unat (?n - 1 - ?a - 1) = disk_lbas r - 2 - array_lbas r"
    using big backup by (subst unat_minus_u64) simp_all
  moreover have "unat (2 + ?a) = 2 + array_lbas r" using a bound by (subst unat_plus_u64) simp_all
  ultimately show "unat (lastLba (gptGeometry r)) = disk_lbas r - 1 \<and>
      unat (backupEntryLba (gptGeometry r)) = disk_lbas r - 1 - array_lbas r \<and>
      unat (firstUsableLba (gptGeometry r)) = 2 + array_lbas r \<and>
      unat (lastUsableLba (gptGeometry r)) = disk_lbas r - 2 - array_lbas r"
    using fits last backup by (simp add: gptGeometry_def Let_def)
qed

section \<open>What an accepted request promises\<close>

definition layout_end :: "PartitionTableRequest \<Rightarrow> nat" where
  "layout_end r = unat (startOffset (req_layout r)) + unat (layout_length (req_layout r))"

definition layout_start :: "PartitionTableRequest \<Rightarrow> nat" where
  "layout_start r = unat (startOffset (req_layout r))"

lemma writable_basics:
  assumes "isWritablePartitionRequest r = None"
  shows "isSupportedSectorSize (req_sectorSize r)" and "layout_length (req_layout r) \<noteq> 0"
    and "req_style r = Mbr \<or> req_style r = Gpt"
    and "sector_bytes r dvd layout_start r" and "sector_bytes r dvd unat (layout_length (req_layout r))"
    and "layout_end r < 2 ^ 64 \<Longrightarrow> layout_end r div sector_bytes r \<le> disk_lbas r"
    and "layout_end r < 2 ^ 64 \<Longrightarrow> layout_end r \<le> unat (req_diskSize r)"
proof -
  let ?s = "req_sectorSize r" and ?L = "req_layout r"
  have ok: "partitionLayoutError (req_style r) ?L ?s = None"
    and al: "startOffset ?L mod ucast ?s = 0" "layout_length ?L mod ucast ?s = 0"
    and fit: "\<not> (startOffset ?L + layout_length ?L) div ucast ?s > sectorCount r"
    using assms by (auto simp: isWritablePartitionRequest_def Let_def split: option.splits if_splits)
  show sup: "isSupportedSectorSize ?s" and "layout_length ?L \<noteq> 0" and "req_style r = Mbr \<or> req_style r = Gpt"
    using ok by (auto simp: partitionLayoutError_def split: if_splits)
  show d1: "sector_bytes r dvd layout_start r" and d2: "sector_bytes r dvd unat (layout_length ?L)"
    using al by (simp_all add: mod_0_dvd_u64 unat_widen sector_bytes_def layout_start_def)
  assume "layout_end r < 2 ^ 64"
  then have "unat (startOffset ?L + layout_length ?L) = layout_end r"
    by (subst unat_plus_u64) (simp_all add: layout_end_def)
  with fit show le: "layout_end r div sector_bytes r \<le> disk_lbas r"
    by (simp add: not_less word_le_nat_alt unat_sectorCount [OF sup] unat_div_word unat_widen sector_bytes_def)
  have "sector_bytes r dvd layout_end r"
    using d1 d2 by (simp add: layout_end_def layout_start_def)
  then have "layout_end r = layout_end r div sector_bytes r * sector_bytes r" by simp
  also have "\<dots> \<le> disk_lbas r * sector_bytes r" using le by (rule mult_le_mono1)
  also have "\<dots> \<le> unat (req_diskSize r)" unfolding disk_lbas_def by (rule round_down_le)
  finally show "layout_end r \<le> unat (req_diskSize r)" .
qed

lemma writable_gpt:
  assumes "isWritablePartitionRequest r = None" "req_style r = Gpt" "layout_end r < 2 ^ 64"
  shows "geo_fits (gptGeometry r)" and "length (diskGuid r) = 16" and "length (partitionGuid r) = 16"
    and "2 + array_lbas r \<le> layout_start r div sector_bytes r"
    and "layout_end r div sector_bytes r \<le> disk_lbas r - 1 - array_lbas r"
proof -
  let ?s = "req_sectorSize r" and ?L = "req_layout r"
  note sup = writable_basics(1) [OF assms(1)]
  have sum: "unat (startOffset ?L + layout_length ?L) = layout_end r"
    using assms(3) by (subst unat_plus_u64) (simp_all add: layout_end_def)
  show fits: "geo_fits (gptGeometry r)" and "length (diskGuid r) = 16" and "length (partitionGuid r) = 16"
    using assms by (auto simp: isWritablePartitionRequest_def Let_def split: option.splits if_splits)
  have first: "\<not> startOffset ?L div ucast ?s < firstUsableLba (gptGeometry r)"
    and last: "\<not> (startOffset ?L + layout_length ?L) div ucast ?s - 1 > lastUsableLba (gptGeometry r)"
    using assms by (auto simp: isWritablePartitionRequest_def Let_def split: option.splits if_splits)
  note geo = geometry_nat(3) [OF sup fits]
  show start: "2 + array_lbas r \<le> layout_start r div sector_bytes r"
    using first geo by (simp add: not_less word_le_nat_alt unat_div_word unat_widen layout_start_def sector_bytes_def)
  have "layout_start r div sector_bytes r \<le> layout_end r div sector_bytes r"
    by (rule div_le_mono) (simp add: layout_start_def layout_end_def)
  then have pos: "1 \<le> layout_end r div sector_bytes r" using start by linarith
  have "unat ((startOffset ?L + layout_length ?L) div ucast ?s) = layout_end r div sector_bytes r"
    by (simp add: unat_div_word unat_widen sum sector_bytes_def)
  then have "unat ((startOffset ?L + layout_length ?L) div ucast ?s - 1) = layout_end r div sector_bytes r - 1"
    using pos by (subst unat_minus_u64) simp_all
  with last geo have "layout_end r div sector_bytes r - 1 \<le> disk_lbas r - 2 - array_lbas r"
    by (simp add: not_less word_le_nat_alt)
  then show "layout_end r div sector_bytes r \<le> disk_lbas r - 1 - array_lbas r"
    using pos geometry_nat(1) [OF sup] fits by linarith
qed
section \<open>The images\<close>

lemma buildHeader_length [simp]:
  "length (buildHeader r entries p) = unat (effectiveSectorSize (req_sectorSize r))"
  by (simp add: buildHeader_def Let_def)

lemma no_padding:
  assumes "isSupportedSectorSize (req_sectorSize r)"
  shows "arrayPadding (req_sectorSize r) (buildEntryArray r) = []"
  using supported_cases [OF assms]
  by (elim disjE) (simp_all add: arrayPadding_def array_sectors supported_or_512_def isSupportedSectorSize_def)

text \<open>What a reader of the disk finds in a sector holding an MBR.\<close>

record mbr_entry_view =
  entry_status :: u8
  entry_type :: u8
  entry_first :: nat
  entry_count :: nat

definition read_mbr_entry :: "bytes \<Rightarrow> mbr_entry_view option" where
  "read_mbr_entry b =
     (if 512 \<le> length b \<and> b ! 510 = 0x55 \<and> b ! 511 = 0xAA
      then Some \<lparr>entry_status = b ! 446, entry_type = b ! 450, entry_first = le_value (field b 454 4),
             entry_count = le_value (field b 458 4)\<rparr>
      else None)"

lemma nth_writeLe32 [buffer_simps]:
  "k + 4 \<le> length b \<Longrightarrow> i < length b \<Longrightarrow> i < k \<or> k + 4 \<le> i \<Longrightarrow> writeLe32 b k v ! i = b ! i"
  using le32.nth_put_other [OF TrueI] by blast

lemma min_lba_narrow: "unat (ucast (min n MbrMaxSectors) :: u32) = min (unat n) 0xFFFFFFFF"
proof -
  have m: "unat (min n MbrMaxSectors) = min (unat n) 0xFFFFFFFF"
    by (simp add: min_def MbrMaxSectors_def word_le_nat_alt)
  then have "unat (min n MbrMaxSectors) < 2 ^ 32" by simp
  then have "unat (ucast (min n MbrMaxSectors) :: u32) = unat (min n MbrMaxSectors)"
    by (simp add: unsigned_ucast_eq take_bit_nat_eq_self)
  with m show ?thesis by simp
qed

lemma gpt_primary_parts:
  assumes "isSupportedSectorSize (req_sectorSize r)"
  shows "\<exists>mbr. buildGptPrimary r = mbr @ buildHeader r (buildEntryArray r) True @ buildEntryArray r \<and>
    length mbr = sector_bytes r \<and>
    read_mbr_entry mbr = Some \<lparr>entry_status = 0, entry_type = 0xEE, entry_first = 1,
      entry_count = min (unat (sectorCount r - 1)) 0xFFFFFFFF\<rparr>"
proof -
  let ?z = "replicate (sector_bytes r) 0 :: bytes"
  let ?b = "?z[446 := 0x00, 447 := 0x00, 448 := 0x02, 449 := 0x00, 450 := 0xEE,
    451 := 0xFF, 452 := 0xFF, 453 := 0xFF]"
  let ?m = "writeMbrSignature (writeLe32 (writeLe32 ?b 454 1) 458 (ucast (min (sectorCount r - 1) MbrMaxSectors)))"
  have S: "512 \<le> sector_bytes r" using sector_bytes_bounds [OF assms] by simp
  have "buildGptPrimary r = ?m @ buildHeader r (buildEntryArray r) True @ buildEntryArray r"
    using assms by (simp add: buildGptPrimary_def Let_def no_padding sector_bytes_def)
  moreover have "length ?m = sector_bytes r" by (simp add: writeMbrSignature_def)
  moreover have "read_mbr_entry ?m = Some \<lparr>entry_status = 0, entry_type = 0xEE, entry_first = 1,
      entry_count = min (unat (sectorCount r - 1)) 0xFFFFFFFF\<rparr>"
    using S by (simp add: read_mbr_entry_def writeMbrSignature_def buffer_simps le_value_u32 min_lba_narrow)
  ultimately show ?thesis by blast
qed

definition gpt_entry_of :: "PartitionTableRequest \<Rightarrow> gpt_entry_view" where
  "gpt_entry_of r =
    \<lparr>type_guid = gptPartitionTypeGuid (req_fileSystem r), unique_guid = partitionGuid r,
     first_lba = layout_start r div sector_bytes r,
     last_lba = layout_end r div sector_bytes r - 1, attributes = 0,
     name_units = take 36 (partitionName r) @ replicate (36 - length (partitionName r)) 0\<rparr>"

lemma accepted_entry:
  assumes "isWritablePartitionRequest r = None" "req_style r = Gpt" "layout_end r < 2 ^ 64"
  shows "read_gpt_entry (buildEntryArray r) = gpt_entry_of r"
proof -
  let ?L = "req_layout r"
  note sup = writable_basics(1) [OF assms(1)] and g = writable_gpt [OF assms]
  have sum: "unat (startOffset ?L + layout_length ?L) = layout_end r"
    using assms(3) by (subst unat_plus_u64) (simp_all add: layout_end_def)
  have "layout_start r div sector_bytes r \<le> layout_end r div sector_bytes r"
    by (rule div_le_mono) (simp add: layout_start_def layout_end_def)
  then have pos: "1 \<le> layout_end r div sector_bytes r" using g(4) by linarith
  have "unat ((startOffset ?L + layout_length ?L) div ucast (req_sectorSize r)) = layout_end r div sector_bytes r"
    by (simp add: unat_div_word unat_widen sum sector_bytes_def)
  then have "unat ((startOffset ?L + layout_length ?L) div ucast (req_sectorSize r) - 1) =
      layout_end r div sector_bytes r - 1"
    using pos by (subst unat_minus_u64) simp_all
  then show ?thesis
    using sup g(3) by (simp add: buildEntryArray_read gpt_entry_of_def unat_div_word unat_widen
        layout_start_def sector_bytes_def)
qed

lemma unat_gptBackupOffset:
  assumes "isSupportedSectorSize (req_sectorSize r)" "geo_fits (gptGeometry r)"
  shows "unat (gptBackupOffset r) = (disk_lbas r - 1 - array_lbas r) * sector_bytes r"
proof -
  let ?b = "backupEntryLba (gptGeometry r)"
  have b: "unat ?b = disk_lbas r - 1 - array_lbas r" using geometry_nat(3) [OF assms] by simp
  have "(disk_lbas r - 1 - array_lbas r) * sector_bytes r \<le> disk_lbas r * sector_bytes r"
    by (rule mult_le_mono1) simp
  also have "\<dots> \<le> unat (req_diskSize r)" unfolding disk_lbas_def by (rule round_down_le)
  also have "\<dots> < 2 ^ 64" using unat_u64_bound [of "req_diskSize r"] by simp
  finally have "unat (?b * ucast (req_sectorSize r)) = unat ?b * sector_bytes r"
    using b by (subst unat_times_u64) (simp_all add: unat_widen sector_bytes_def)
  then show ?thesis using assms b by (simp add: gptBackupOffset_def Let_def)
qed
lemma buildGptBackup_parts:
  "isSupportedSectorSize (req_sectorSize r) \<Longrightarrow>
   buildGptBackup r = buildEntryArray r @ buildHeader r (buildEntryArray r) False"
  by (simp add: buildGptBackup_def Let_def no_padding)

lemma image_lengths:
  assumes "isSupportedSectorSize (req_sectorSize r)"
  shows "length (buildGptPrimary r) = (2 + array_lbas r) * sector_bytes r"
    and "length (buildGptBackup r) = (array_lbas r + 1) * sector_bytes r"
proof -
  note arr = array_lbas_bytes [OF assms]
  show "length (buildGptPrimary r) = (2 + array_lbas r) * sector_bytes r"
    using gpt_primary_parts [OF assms] assms arr
    by (auto simp: sector_bytes_def [symmetric] algebra_simps)
  show "length (buildGptBackup r) = (array_lbas r + 1) * sector_bytes r"
    using arr assms by (simp add: buildGptBackup_parts sector_bytes_def [symmetric] algebra_simps)
qed

text \<open>The partition lies strictly between the two copies of the table, and both are on the disk.\<close>

lemma accepted_gpt_regions:
  assumes "isWritablePartitionRequest r = None" "req_style r = Gpt" "layout_end r < 2 ^ 64"
  shows "length (buildGptPrimary r) \<le> layout_start r" and "layout_start r < layout_end r"
    and "layout_end r \<le> unat (gptBackupOffset r)"
    and "unat (gptBackupOffset r) + length (buildGptBackup r) = disk_lbas r * sector_bytes r"
    and "unat (gptBackupOffset r) + length (buildGptBackup r) \<le> unat (req_diskSize r)"
proof -
  let ?S = "sector_bytes r" and ?a = "array_lbas r" and ?N = "disk_lbas r"
  note sup = writable_basics(1) [OF assms(1)]
  note b = writable_basics [OF assms(1)] and g = writable_gpt [OF assms]
  note off = unat_gptBackupOffset [OF sup g(1)]
  note fits = geometry_nat(1) [OF sup, THEN iffD1, OF g(1)]
  have "(2 + ?a) * ?S \<le> layout_start r div ?S * ?S" using g(4) by (rule mult_le_mono1)
  then show "length (buildGptPrimary r) \<le> layout_start r"
    using b(4) by (simp add: image_lengths(1) [OF sup])
  have "0 < unat (layout_length (req_layout r))" using b(2) by (simp add: unat_gt_0)
  then show "layout_start r < layout_end r" by (simp add: layout_start_def layout_end_def)
  have "?S dvd layout_end r" using b(4,5) by (simp add: layout_start_def layout_end_def)
  then have "layout_end r = layout_end r div ?S * ?S" by simp
  also have "\<dots> \<le> (?N - 1 - ?a) * ?S" using g(5) by (rule mult_le_mono1)
  finally show "layout_end r \<le> unat (gptBackupOffset r)" using off by simp
  have "(?N - 1 - ?a) * ?S + (?a + 1) * ?S = (?N - 1 - ?a + (?a + 1)) * ?S"
    by (rule add_mult_distrib [symmetric])
  also have "?N - 1 - ?a + (?a + 1) = ?N" using fits by simp
  finally show sum: "unat (gptBackupOffset r) + length (buildGptBackup r) = ?N * ?S"
    by (simp only: off image_lengths(2) [OF sup])
  show "unat (gptBackupOffset r) + length (buildGptBackup r) \<le> unat (req_diskSize r)"
    unfolding sum disk_lbas_def by (rule round_down_le)
qed

lemma supported_sector_bytes:
  "isSupportedSectorSize (req_sectorSize r) \<Longrightarrow> unat (effectiveSectorSize (req_sectorSize r)) = sector_bytes r"
  by (simp add: sector_bytes_def)

lemma primary_fields:
  assumes "isSupportedSectorSize (req_sectorSize r)"
  shows "field (buildGptPrimary r) (sector_bytes r) (sector_bytes r) = buildHeader r (buildEntryArray r) True"
    and "field (buildGptPrimary r) (2 * sector_bytes r) 16384 = buildEntryArray r"
    and "read_mbr_entry (field (buildGptPrimary r) 0 (sector_bytes r)) =
      Some \<lparr>entry_status = 0, entry_type = 0xEE, entry_first = 1,
        entry_count = min (unat (sectorCount r - 1)) 0xFFFFFFFF\<rparr>"
  using gpt_primary_parts [OF assms] supported_sector_bytes [OF assms]
  by (auto simp: field_append_right field_append_left field_all)

lemma backup_fields:
  assumes "isSupportedSectorSize (req_sectorSize r)"
  shows "field (buildGptBackup r) 16384 (sector_bytes r) = buildHeader r (buildEntryArray r) False"
    and "field (buildGptBackup r) 0 16384 = buildEntryArray r"
  using supported_sector_bytes [OF assms]
  by (auto simp: buildGptBackup_parts [OF assms] field_append_right field_append_left field_all)

section \<open>Cylinder, head and sector of an MBR entry\<close>

definition chs_bytes :: "u64 \<Rightarrow> bytes" where
  "chs_bytes lba = writeChs [0, 0, 0] 0 lba"

definition chs_decode :: "bytes \<Rightarrow> nat" where
  "chs_decode b =
     (let head = unat (b ! 0); sector = unat (b ! 1) mod 64; cylinder = unat (b ! 1) div 64 * 256 + unat (b ! 2)
      in (cylinder * 255 + head) * 63 + sector - 1)"

lemma writeChs_patch:
  assumes "k + 3 \<le> length b"
  shows "writeChs b k lba = patch b k (chs_bytes lba)"
  by (intro nth_equalityI)
    (use assms in \<open>auto simp: writeChs_def chs_bytes_def Let_def nth_patch nth_list_update nth_Cons'\<close>)

lemma length_chs_bytes [simp]: "length (chs_bytes lba) = 3"
  by (simp add: chs_bytes_def writeChs_def Let_def)

lemma writeChs_length [simp]: "length (writeChs b k lba) = length b"
  by (simp add: writeChs_def Let_def)

interpretation chs: buffer_field writeChs chs_bytes 3 "\<lambda>_. True"
  by unfold_locales (simp_all add: writeChs_patch)

lemma chs_middle_byte:
  fixes s c :: u64
  assumes "unat s < 64" "unat c < 1024"
  shows "unat (ucast ((s AND 0x3F) OR (drop_bit 2 c AND 0xC0)) :: u8) = unat s + unat c div 256 * 64"
proof -
  have low: "s AND 0x3F = take_bit 6 s" by (simp add: take_bit_eq_mask mask_eq_exp_minus_1)
  have "drop_bit 2 c AND 0xC0 = drop_bit 2 c AND push_bit 6 (mask 2)"
    by (simp add: mask_eq_exp_minus_1 push_bit_eq_mult)
  also have "\<dots> = push_bit 6 (take_bit 2 (drop_bit 8 c))"
    by (rule bit_word_eqI) (auto simp: bit_simps)
  finally have high: "drop_bit 2 c AND 0xC0 = push_bit 6 (take_bit 2 (drop_bit 8 c))" .
  have "take_bit 6 s OR push_bit 6 (take_bit 2 (drop_bit 8 c)) =
      take_bit 6 s + push_bit 6 (take_bit 2 (drop_bit 8 c))"
    by (rule disjunctive_add [symmetric]) (auto simp: bit_simps)
  moreover have "unat (take_bit 6 s) = unat s"
    using assms(1) by (simp add: unsigned_take_bit_eq take_bit_nat_eq_self)
  moreover have "unat (push_bit 6 (take_bit 2 (drop_bit 8 c))) = unat c div 256 * 64"
  proof -
    have "unat (take_bit 2 (drop_bit 8 c)) = unat c div 256"
      using assms(2) by (simp only: unsigned_take_bit_eq unat_drop_bit_eq)
        (simp add: drop_bit_eq_div take_bit_nat_eq_self)
    then show ?thesis using assms(2)
      by (simp add: push_bit_eq_mult unat_times_u64 mult.commute)
  qed
  ultimately have sum: "unat ((s AND 0x3F) OR (drop_bit 2 c AND 0xC0)) = unat s + unat c div 256 * 64"
    using assms unfolding low high by (simp add: unat_plus_u64)
  have "unat c div 256 < 4" using assms(2) by (simp add: less_mult_imp_div_less)
  then have "unat ((s AND 0x3F) OR (drop_bit 2 c AND 0xC0)) < 256" using sum assms(1) by linarith
  with sum show ?thesis by (simp add: unsigned_ucast_eq take_bit_nat_eq_self)
qed

lemma six_bits:
  "(a :: nat) < 64 \<Longrightarrow> (a + b * 64) mod 64 = a" "a < 64 \<Longrightarrow> (a + b * 64) div 64 = b"
  by simp_all

lemma chs_decode_bytes:
  "unat m = a + b * 64 \<Longrightarrow> a < 64 \<Longrightarrow>
   chs_decode [h, m, l] = ((b * 256 + unat l) * 255 + unat h) * 63 + a - 1"
  by (simp add: chs_decode_def Let_def six_bits)

lemma unat_ucast_low_byte: "unat (ucast (v AND 0xFF :: u64) :: u8) = unat v mod 256"
  by (simp add: low_byte unsigned_ucast_eq take_bit_eq_mod)

text \<open>Within reach of the geometry the three bytes name the sector; beyond it they say "use LBA".\<close>

lemma chs_bytes_decode:
  "if unat lba div 16065 \<le> 1023 then chs_decode (chs_bytes lba) = unat lba
   else chs_bytes lba = [0xFE, 0xFF, 0xFF]"
proof (cases "unat lba div 16065 \<le> 1023")
  case False
  then show ?thesis
    by (simp add: chs_bytes_def writeChs_def MbrHeads_def MbrSectorsPerTrack_def word_less_nat_alt
        unat_div_word not_le)
next
  case True
  define L where "L = unat lba"
  let ?c = "lba div 16065" and ?s = "lba mod 63 + 1"
  have c: "unat ?c = L div 16065" by (simp add: unat_div_word L_def)
  have s: "unat ?s = L mod 63 + 1"
  proof -
    have "unat (lba mod 63) = L mod 63" by (simp add: unat_mod_word L_def)
    moreover have "L mod 63 < 63" by simp
    ultimately show ?thesis by (subst unat_plus_u64) simp_all
  qed
  have h: "unat ((lba div 63) mod 255) = L div 63 mod 255"
    by (simp add: unat_div_word unat_mod_word L_def)
  have bytes: "chs_bytes lba = [ucast ((lba div 63) mod 255 AND 0xFF),
      ucast ((?s AND 0x3F) OR (drop_bit 2 ?c AND 0xC0)), ucast (?c AND 0xFF)]"
    using True by (simp add: chs_bytes_def writeChs_def MbrHeads_def MbrSectorsPerTrack_def
        word_less_nat_alt unat_div_word not_le Let_def)
  have s64: "unat ?s < 64" unfolding s by (simp add: less_Suc_eq_le Suc_le_eq)
  have c1024: "unat ?c < 1024" using True c by (simp add: L_def)
  have mid: "unat (ucast ((?s AND 0x3F) OR (drop_bit 2 ?c AND 0xC0)) :: u8) =
      L mod 63 + 1 + L div 16065 div 256 * 64"
    using chs_middle_byte [OF s64 c1024] s c by simp
  have "L mod 63 + 1 < 64" using s64 s by simp
  from chs_decode_bytes [OF mid this] have dec: "chs_decode (chs_bytes lba) =
      ((L div 16065 div 256 * 256 + L div 16065 mod 256) * 255 + L div 63 mod 255 mod 256) * 63 + (L mod 63 + 1) - 1"
    unfolding bytes by (simp only: unat_ucast_low_byte c h)
  have "L div 63 mod 255 < 255" by simp
  then have small: "L div 63 mod 255 mod 256 = L div 63 mod 255" by (intro mod_less) linarith
  have "L div 16065 = L div 63 div 255" by (simp add: div_mult2_eq [symmetric])
  then have "chs_decode (chs_bytes lba) = (L div 63 div 255 * 255 + L div 63 mod 255) * 63 + L mod 63"
    using dec small by simp
  also have "\<dots> = L" by simp
  finally show ?thesis using True by (simp add: L_def)
qed

section \<open>The MBR\<close>

lemma mbrPartitionType_nth:
  "length (buildMbr r) = unat (effectiveSectorSize (req_sectorSize r))"
  by (simp add: buildMbr_def Let_def writeMbrSignature_def)

lemma take_take_same: "length (take n v) = n \<Longrightarrow> take n (take n v) = take n v"
  by simp

lemma chs_nth [buffer_simps]:
  "k + 3 \<le> length b \<Longrightarrow> i < length b \<Longrightarrow> i < k \<or> k + 3 \<le> i \<Longrightarrow> writeChs b k v ! i = b ! i"
  using chs.nth_put_other [OF TrueI] by blast

lemmas chs_reads [buffer_simps] = chs.field_put [OF TrueI] chs.field_put_other [OF TrueI]

lemma buildMbr_read:
  fixes r :: PartitionTableRequest
  defines "S \<equiv> ucast (req_sectorSize r) :: u64" and "L \<equiv> req_layout r"
  assumes "isSupportedSectorSize (req_sectorSize r)" "4 \<le> length (diskGuid r)"
  shows "read_mbr_entry (buildMbr r) =
      Some \<lparr>entry_status = 0, entry_type = mbrPartitionType (req_fileSystem r),
        entry_first = min (unat (startOffset L div S)) 0xFFFFFFFF,
        entry_count = min (unat (layout_length L div S)) 0xFFFFFFFF\<rparr>"
    and "field (buildMbr r) 440 4 = take 4 (diskGuid r)"
    and "field (buildMbr r) 447 3 = chs_bytes (startOffset L div S)"
    and "field (buildMbr r) 451 3 = chs_bytes (startOffset L div S + layout_length L div S - 1)"
proof -
  have len: "512 \<le> unat (req_sectorSize r)" using supported_unat [OF assms(3)] by simp
  let ?f = "startOffset L div S" and ?n = "layout_length L div S"
  have mbr: "buildMbr r = writeMbrSignature (writeLe32 (writeLe32 (writeChs ((writeChs
      ((writeBytes (replicate (unat (req_sectorSize r)) 0) 440 (take 4 (diskGuid r)) 4)[446 := 0])
      447 ?f)[450 := mbrPartitionType (req_fileSystem r)]) 451 (?f + ?n - 1)) 454 (ucast (min ?f MbrMaxSectors)))
      458 (ucast (min ?n MbrMaxSectors)))"
    using assms(3,4) by (simp add: buildMbr_def Let_def S_def L_def)
  show "read_mbr_entry (buildMbr r) =
      Some \<lparr>entry_status = 0, entry_type = mbrPartitionType (req_fileSystem r),
        entry_first = min (unat ?f) 0xFFFFFFFF, entry_count = min (unat ?n) 0xFFFFFFFF\<rparr>"
    unfolding mbr using len assms(4)
    by (simp add: read_mbr_entry_def writeMbrSignature_def buffer_simps le_value_u32 min_lba_narrow)
  show "field (buildMbr r) 440 4 = take 4 (diskGuid r)"
    and "field (buildMbr r) 447 3 = chs_bytes ?f" and "field (buildMbr r) 451 3 = chs_bytes (?f + ?n - 1)"
    unfolding mbr using len assms(4)
    by (simp_all add: writeMbrSignature_def buffer_simps min_absorb1)
qed

lemma accepted_mbr_guid:
  assumes "isWritablePartitionRequest r = None" "req_style r = Mbr"
  shows "4 \<le> length (diskGuid r)"
  using assms by (auto simp: isWritablePartitionRequest_def Let_def split: option.splits if_splits)

text \<open>Whatever the request, the entry holds two 32-bit numbers: a layout it describes does not wrap around.\<close>

lemma read_back_bounds_end:
  assumes "isWritablePartitionRequest r = None" "req_style r = Mbr"
    and "read_mbr_entry (buildMbr r) = Some entry"
    and "layout_end r div sector_bytes r \<le> entry_first entry + entry_count entry"
  shows "layout_end r < 2 ^ 64"
proof -
  note sup = writable_basics(1) [OF assms(1)]
  have "entry_first entry + entry_count entry \<le> 2 * 0xFFFFFFFF"
    using assms(3) buildMbr_read(1) [OF sup accepted_mbr_guid [OF assms(1,2)]] by auto
  with assms(4) have "layout_end r div sector_bytes r < 2 ^ 33" by simp
  then have "layout_end r < 2 ^ 33 * sector_bytes r"
    using sector_bytes_bounds [OF sup] by (simp add: div_less_iff_less_mult)
  also have "\<dots> \<le> 2 ^ 33 * 4096" using sector_bytes_bounds [OF sup] by simp
  also have "\<dots> < 2 ^ 64" by simp
  finally show ?thesis .
qed

lemma accepted_mbr:
  assumes "isWritablePartitionRequest r = None" "req_style r = Mbr" "layout_end r < 2 ^ 64"
  shows "4 \<le> length (diskGuid r)" and "layout_end r div sector_bytes r \<le> 0xFFFFFFFF"
proof -
  let ?s = "req_sectorSize r" and ?L = "req_layout r"
  show "4 \<le> length (diskGuid r)" by (rule accepted_mbr_guid [OF assms(1,2)])
  have ok: "partitionLayoutError (req_style r) ?L ?s = None"
    using assms(1) by (auto simp: isWritablePartitionRequest_def split: option.splits)
  have "\<not> (startOffset ?L + layout_length ?L) div ucast ?s > 0xFFFFFFFF"
    using ok assms(2) by (auto simp: partitionLayoutError_def split: if_splits)
  moreover have "unat (startOffset ?L + layout_length ?L) = layout_end r"
    using assms(3) by (subst unat_plus_u64) (simp_all add: layout_end_def)
  ultimately show "layout_end r div sector_bytes r \<le> 0xFFFFFFFF"
    by (simp add: not_less word_le_nat_alt unat_div_word unat_widen sector_bytes_def)
qed

lemma accepted_mbr_numbers:
  assumes "isWritablePartitionRequest r = None" "req_style r = Mbr" "layout_end r < 2 ^ 64"
  defines "S \<equiv> ucast (req_sectorSize r) :: u64" and "L \<equiv> req_layout r"
  shows "unat (startOffset L div S) = layout_start r div sector_bytes r"
    and "unat (layout_length L div S) = layout_end r div sector_bytes r - layout_start r div sector_bytes r"
    and "unat (startOffset L div S + layout_length L div S - 1) = layout_end r div sector_bytes r - 1"
    and "layout_start r div sector_bytes r < layout_end r div sector_bytes r"
proof -
  note b = writable_basics [OF assms(1)]
  have Spos: "0 < sector_bytes r" using sector_bytes_bounds [OF b(1)] by simp
  show first: "unat (startOffset L div S) = layout_start r div sector_bytes r"
    by (simp add: S_def L_def unat_div_word unat_widen layout_start_def sector_bytes_def)
  have len: "unat (layout_length L div S) = unat (layout_length L) div sector_bytes r"
    by (simp add: S_def unat_div_word unat_widen sector_bytes_def)
  have "sector_bytes r dvd layout_start r" "sector_bytes r dvd unat (layout_length L)"
    using b(4,5) by (simp_all add: L_def)
  moreover have "layout_end r = layout_start r + unat (layout_length L)"
    by (simp add: layout_end_def layout_start_def L_def)
  ultimately have sum: "layout_end r div sector_bytes r =
      layout_start r div sector_bytes r + unat (layout_length L) div sector_bytes r"
    using div_plus_div_distrib_dvd_left by metis
  then show "unat (layout_length L div S) = layout_end r div sector_bytes r - layout_start r div sector_bytes r"
    using len by simp
  have "0 < unat (layout_length L)" using b(2) by (simp add: unat_gt_0 L_def)
  with \<open>sector_bytes r dvd unat (layout_length L)\<close> have "0 < unat (layout_length L) div sector_bytes r"
    using Spos by (simp add: div_greater_zero_iff dvd_imp_le)
  with sum show lt: "layout_start r div sector_bytes r < layout_end r div sector_bytes r" by simp
  have "layout_end r div sector_bytes r \<le> 0xFFFFFFFF" by (rule accepted_mbr(2) [OF assms(1-3)])
  then have "unat (startOffset L div S + layout_length L div S) = layout_end r div sector_bytes r"
    using first len sum by (subst unat_plus_u64) simp_all
  then show "unat (startOffset L div S + layout_length L div S - 1) = layout_end r div sector_bytes r - 1"
    using lt by (subst unat_minus_u64) simp_all
qed

section \<open>The two gates agree\<close>

text \<open>
  The request the restore builds for a disk. The gate the user interface asks,
  \<open>canCreatePartitionLayout\<close>, accepts only what the gate in front of the write accepts.
\<close>

definition request_for :: "PartitionStyle \<Rightarrow> FileSystemType \<Rightarrow> DiskInfo \<Rightarrow> bytes \<Rightarrow> bytes \<Rightarrow> qstring \<Rightarrow>
    PartitionTableRequest" where
  "request_for style fs disk g1 g2 name =
     \<lparr>req_style = style, req_fileSystem = fs, req_diskSize = disk_size disk,
      req_sectorSize = sectorSize disk,
      req_layout = calculateGptLayout (disk_size disk) (sectorSize disk),
      diskGuid = g1, partitionGuid = g2, partitionName = name\<rparr>"

lemma request_for_layout:
  assumes "canCreatePartitionLayout style disk = None" and r_def: "r = request_for style fs disk g1 g2 name"
  shows "layout_start r = 1048576" and "layout_end r \<le> unat (disk_size disk)"
    and "layout_end r + 16384 + sector_bytes r \<le> unat (disk_size disk)" and "layout_end r < 2 ^ 64"
    and "isSupportedSectorSize (sectorSize disk)"
    and "layout_length (calculateGptLayout (disk_size disk) (sectorSize disk)) \<noteq> 0"
proof -
  show sup: "isSupportedSectorSize (sectorSize disk)"
    and nz: "layout_length (calculateGptLayout (disk_size disk) (sectorSize disk)) \<noteq> 0"
    using assms(1) by (auto simp: canCreatePartitionLayout_def partitionLayoutError_def split: if_splits)
  show "layout_start r = 1048576"
    using layout_nat(1) [OF nz] by (simp add: layout_start_def r_def request_for_def)
  show fit: "layout_end r + 16384 + sector_bytes r \<le> unat (disk_size disk)"
    using layout_nat(1) [OF nz] layout_fits(1) [OF nz] sup
    by (simp add: layout_end_def r_def request_for_def sector_bytes_def)
  then show "layout_end r \<le> unat (disk_size disk)" by simp
  then show "layout_end r < 2 ^ 64" using unat_u64_bound [of "disk_size disk"] by simp
qed

lemma gates_agree:
  assumes "canCreatePartitionLayout style disk = None" "length g1 = 16" "length g2 = 16"
  shows "isWritablePartitionRequest (request_for style fs disk g1 g2 name) = None"
proof -
  define r where "r = request_for style fs disk g1 g2 name"
  let ?S = "sector_bytes r" and ?L = "req_layout r" and ?s = "req_sectorSize r"
  note l = request_for_layout [OF assms(1) r_def]
  have sel: "req_layout r = calculateGptLayout (disk_size disk) (sectorSize disk)" "?s = sectorSize disk"
    "req_style r = style" "req_diskSize r = disk_size disk" "diskGuid r = g1" "partitionGuid r = g2"
    by (simp_all add: r_def request_for_def)
  have sup: "isSupportedSectorSize ?s" using l(5) sel by simp
  have S: "512 \<le> ?S" "?S \<le> 4096" using sector_bytes_bounds [OF sup] by simp_all
  have err: "partitionLayoutError style ?L ?s = None"
    using assms(1) by (simp add: sel canCreatePartitionLayout_def)
  have aligned: "startOffset ?L mod ucast ?s = 0" "layout_length ?L mod ucast ?s = 0"
    using layout_sector_aligned [OF l(6)] sup sel by (simp_all add: mod_0_dvd_u64 unat_widen)
  have sum: "unat (startOffset ?L + layout_length ?L) = layout_end r"
    using l(4) by (subst unat_plus_u64) (simp_all add: layout_end_def)
  have end_le: "layout_end r div ?S + array_lbas r + 1 \<le> disk_lbas r"
  proof -
    have "(array_lbas r + 1) * ?S = 16384 + ?S" using array_lbas_bytes [OF sup] by simp
    moreover have "?S dvd layout_end r"
      using aligned by (simp add: layout_end_def mod_0_dvd_u64 unat_widen sector_bytes_def)
    ultimately have "(layout_end r div ?S + array_lbas r + 1) * ?S = layout_end r + 16384 + ?S"
      by (simp add: add_mult_distrib)
    then show ?thesis
      unfolding disk_lbas_def sel using l(3) S(1) by (simp add: less_eq_div_iff_mult_less_eq)
  qed
  have first: "2 + array_lbas r \<le> layout_start r div ?S"
  proof -
    have "(2 + array_lbas r) * ?S = 2 * ?S + 16384" using array_lbas_bytes [OF sup] by (simp add: add_mult_distrib)
    then show ?thesis using S l(1) by (simp add: less_eq_div_iff_mult_less_eq)
  qed
  have mono: "layout_start r div ?S \<le> layout_end r div ?S"
    by (rule div_le_mono) (simp add: layout_start_def layout_end_def)
  have endw: "unat ((startOffset ?L + layout_length ?L) div ucast ?s) = layout_end r div ?S"
    by (simp add: unat_div_word unat_widen sum sector_bytes_def)
  have endw1: "unat ((startOffset ?L + layout_length ?L) div ucast ?s - 1) = layout_end r div ?S - 1"
    using first mono endw by (subst unat_minus_u64) simp_all
  have fits: "geo_fits (gptGeometry r)"
    using geometry_nat(1) [OF sup] first mono end_le by linarith
  note geo = geometry_nat(3) [OF sup fits]
  have startw: "unat (startOffset ?L div ucast ?s) = layout_start r div ?S"
    by (simp add: unat_div_word unat_widen layout_start_def sector_bytes_def)
  have count: "sectorCount r \<noteq> 0"
    using end_le unat_sectorCount [OF sup] by (metis add_is_0 le_zero_eq one_neq_zero unat_0)
  have nopast: "\<not> (startOffset ?L + layout_length ?L) div ucast ?s > sectorCount r"
    using end_le unat_sectorCount [OF sup] endw by (simp add: word_less_nat_alt)
  have clear: "\<not> startOffset ?L div ucast ?s < firstUsableLba (gptGeometry r)"
      "\<not> (startOffset ?L + layout_length ?L) div ucast ?s - 1 > lastUsableLba (gptGeometry r)"
    using geo first end_le startw endw1 by (simp_all add: word_less_nat_alt) 
  show ?thesis
    using err aligned count nopast fits clear assms(2,3)
    unfolding r_def [symmetric] isWritablePartitionRequest_def Let_def sel(3)
    by (simp add: sel(5,6))
qed

section \<open>Properties\<close>

definition sample_request :: "PartitionStyle \<Rightarrow> PartitionTableRequest" where
  "sample_request style =
     request_for style ExFat usb_stick (replicate 16 0xAB) (replicate 16 0xCD) (qs ''USB'')"

lemma sample_gate: "style = Mbr \<or> style = Gpt \<Longrightarrow> canCreatePartitionLayout style usb_stick = None"
  by (auto simp: canCreatePartitionLayout_def partitionLayoutError_def usb_stick_def isSupportedSectorSize_def
      calculateGptLayout_words layout_reserve_def supported_or_512_def no_layout_def)

lemma sample_accepted:
  assumes "style = Mbr \<or> style = Gpt"
  shows "isWritablePartitionRequest (sample_request style) = None" and "req_style (sample_request style) = style"
    and "layout_end (sample_request style) < 2 ^ 64"
  using gates_agree [OF sample_gate [OF assms], of "replicate 16 0xAB" "replicate 16 0xCD" ExFat "qs ''USB''"]
    request_for_layout(4) [OF sample_gate [OF assms] refl, of ExFat "replicate 16 0xAB" "replicate 16 0xCD" "qs ''USB''"]
  by (simp_all add: sample_request_def) (simp add: request_for_def)

lemmas sample_gpt = sample_accepted [OF disjI2 [OF refl]]
lemmas sample_mbr = sample_accepted [OF disjI1 [OF refl]]

text \<open>C16. The primary image of an accepted GPT request whose layout does not wrap around 2 ^ 64 reads back: a protective MBR over the whole disk,
  then a header with valid signature and checksums that names itself at LBA 1, its copy on the last
  sector of the disk and the usable range between the two tables, then an entry array whose first
  entry is exactly the requested partition, type, name and all.\<close>

theorem gpt_primary_reads_back:
  assumes "isWritablePartitionRequest r = None" "req_style r = Gpt" "layout_end r < 2 ^ 64"
  shows "let img = buildGptPrimary r; S = sector_bytes r; entries = field img (2 * S) 16384 in
    length img = (2 + array_lbas r) * S \<and>
    read_mbr_entry (field img 0 S) = Some \<lparr>entry_status = 0, entry_type = 0xEE, entry_first = 1,
      entry_count = min (disk_lbas r - 1) 0xFFFFFFFF\<rparr> \<and>
    read_gpt_header (field img S S) entries = Some \<lparr>self_lba = 1, other_lba = disk_lbas r - 1,
      first_usable = 2 + array_lbas r, last_usable = disk_lbas r - 2 - array_lbas r,
      disk_guid = diskGuid r, entries_lba = 2\<rparr> \<and>
    read_gpt_entry entries = gpt_entry_of r"
proof -
  note sup = writable_basics(1) [OF assms(1)] and g = writable_gpt [OF assms]
  note geo = geometry_nat [OF sup]
  have "unat (sectorCount r - 1) = disk_lbas r - 1"
    using geo(1) g(1) unat_sectorCount [OF sup] by (subst unat_minus_u64) simp_all
  then show ?thesis
    using geo(2) geo(3) [OF g(1)] image_lengths(1) [OF sup] primary_fields [OF sup] g(2) sup
      accepted_entry [OF assms]
    by (simp add: Let_def buildHeader_read)
qed

theorem gpt_primary_reads_back_witness:
  "read_gpt_entry (field (buildGptPrimary (sample_request Gpt)) (2 * sector_bytes (sample_request Gpt)) 16384) =
     gpt_entry_of (sample_request Gpt)"
  using gpt_primary_reads_back [OF sample_gpt]
  by (simp add: Let_def)

text \<open>C17. The backup image of an accepted GPT request whose layout does not wrap around 2 ^ 64 is the mirror of the primary: the same entry array, and a header on the last
  sector that names itself there, points back at LBA 1 and locates its entries where the image is
  written; the offset and the image end exactly at the end of the last whole sector.\<close>

theorem gpt_backup_reads_back:
  assumes "isWritablePartitionRequest r = None" "req_style r = Gpt" "layout_end r < 2 ^ 64"
  shows "let img = buildGptBackup r; S = sector_bytes r; entries = field img 0 16384 in
    unat (gptBackupOffset r) + length img = disk_lbas r * S \<and>
    read_gpt_header (field img (length img - S) S) entries =
      Some \<lparr>self_lba = disk_lbas r - 1, other_lba = 1,
        first_usable = 2 + array_lbas r, last_usable = disk_lbas r - 2 - array_lbas r,
        disk_guid = diskGuid r, entries_lba = unat (gptBackupOffset r) div S\<rparr> \<and>
    entries = field (buildGptPrimary r) (2 * S) 16384"
proof -
  note sup = writable_basics(1) [OF assms(1)] and g = writable_gpt [OF assms]
  note geo = geometry_nat [OF sup]
  have S: "0 < sector_bytes r" using sector_bytes_bounds [OF sup] by simp
  have "length (buildGptBackup r) - sector_bytes r = 16384"
    using array_lbas_bytes [OF sup] by (simp add: image_lengths(2) [OF sup])
  moreover have "unat (gptBackupOffset r) div sector_bytes r = disk_lbas r - 1 - array_lbas r"
    using S unat_gptBackupOffset [OF sup g(1)] by simp
  ultimately show ?thesis
    using geo(2) geo(3) [OF g(1)] accepted_gpt_regions(4) [OF assms] backup_fields [OF sup]
      primary_fields(2) [OF sup] g(2) sup
    by (simp add: Let_def buildHeader_read)
qed

theorem gpt_backup_reads_back_witness:
  "unat (gptBackupOffset (sample_request Gpt)) + length (buildGptBackup (sample_request Gpt)) =
     disk_lbas (sample_request Gpt) * sector_bytes (sample_request Gpt)"
  using gpt_backup_reads_back [OF sample_gpt]
  by (simp add: Let_def)

text \<open>C18. The gate in front of the write adds the end of the layout in 64 bits. On a disk an accepted GPT request
  lays out, the primary table, the partition and the backup table are disjoint, in this order, and all
  inside the disk, exactly when that sum does not wrap around.\<close>

theorem gpt_regions_disjoint:
  assumes "isWritablePartitionRequest r = None" "req_style r = Gpt"
  shows "(length (buildGptPrimary r) \<le> layout_start r \<and> layout_start r < layout_end r \<and>
    layout_end r \<le> unat (gptBackupOffset r) \<and>
    unat (gptBackupOffset r) + length (buildGptBackup r) \<le> unat (req_diskSize r)) \<longleftrightarrow> layout_end r < 2 ^ 64"
  using accepted_gpt_regions [OF assms] unat_u64_bound [of "gptBackupOffset r"] by auto

theorem gpt_regions_disjoint_witness:
  "layout_end (sample_request Gpt) \<le> unat (gptBackupOffset (sample_request Gpt))"
  using gpt_regions_disjoint [OF sample_gpt(1,2)] sample_gpt(3) by simp

text \<open>C19. The sector of an accepted MBR request reads back, exactly when the end of its layout does not wrap around
  2 ^ 64: a signed boot sector whose disk signature is the first four bytes of the disk identifier and
  whose first entry has the type of the file system and exactly the first sector and sector count of
  the layout, with the CHS fields of its first and last sector.\<close>

theorem mbr_reads_back:
  assumes "isWritablePartitionRequest r = None" "req_style r = Mbr"
  shows "(let mbr = buildMbr r; first = layout_start r div sector_bytes r; end' = layout_end r div sector_bytes r in
    length mbr = sector_bytes r \<and>
    read_mbr_entry mbr = Some \<lparr>entry_status = 0, entry_type = mbrPartitionType (req_fileSystem r),
      entry_first = first, entry_count = end' - first\<rparr> \<and>
    field mbr 440 4 = take 4 (diskGuid r) \<and>
    (if first div 16065 \<le> 1023 then chs_decode (field mbr 447 3) = first
     else field mbr 447 3 = [0xFE, 0xFF, 0xFF]) \<and>
    (if (end' - 1) div 16065 \<le> 1023 then chs_decode (field mbr 451 3) = end' - 1
     else field mbr 451 3 = [0xFE, 0xFF, 0xFF])) \<longleftrightarrow> layout_end r < 2 ^ 64" (is "?reads \<longleftrightarrow> _")
proof
  assume ?reads
  then show "layout_end r < 2 ^ 64" unfolding Let_def by (intro read_back_bounds_end [OF assms]) auto
next
  assume fits: "layout_end r < 2 ^ 64"
  note sup = writable_basics(1) [OF assms(1)] and m = accepted_mbr [OF assms fits]
  note n = accepted_mbr_numbers [OF assms fits] and read = buildMbr_read [OF sup m(1)]
  have "layout_start r div sector_bytes r \<le> 0xFFFFFFFF"
    "layout_end r div sector_bytes r - layout_start r div sector_bytes r \<le> 0xFFFFFFFF"
    using n(4) m(2) by linarith+
  then show ?reads
    using read n chs_bytes_decode [of "startOffset (req_layout r) div ucast (req_sectorSize r)"]
      chs_bytes_decode [of "startOffset (req_layout r) div ucast (req_sectorSize r) +
        layout_length (req_layout r) div ucast (req_sectorSize r) - 1"]
      supported_sector_bytes [OF sup]
    by (simp add: Let_def mbrPartitionType_nth min_absorb1)
qed

theorem mbr_reads_back_witness:
  "read_mbr_entry (buildMbr (sample_request Mbr)) =
     Some \<lparr>entry_status = 0, entry_type = 0x07,
       entry_first = layout_start (sample_request Mbr) div sector_bytes (sample_request Mbr),
       entry_count = layout_end (sample_request Mbr) div sector_bytes (sample_request Mbr) -
         layout_start (sample_request Mbr) div sector_bytes (sample_request Mbr)\<rparr>"
  using mbr_reads_back [OF sample_mbr(1,2)] sample_mbr(3)
  by (simp add: Let_def) (simp add: sample_request_def request_for_def mbrPartitionType_def MbrExFatPartitionType_def)

text \<open>C20. The gate the window and the helper ask, \<open>canCreatePartitionLayout\<close>, accepts only disks whose
  partition request the gate in front of the write accepts, on either style and any file system.\<close>

theorem layout_gate_implies_write_gate:
  assumes "canCreatePartitionLayout style disk = None" "length g1 = 16" "length g2 = 16"
  shows "isWritablePartitionRequest (request_for style fs disk g1 g2 name) = None \<and>
    layout_end (request_for style fs disk g1 g2 name) \<le> unat (disk_size disk)"
  using gates_agree [OF assms] request_for_layout(2) [OF assms(1) refl] by blast

theorem layout_gate_implies_write_gate_witness:
  "isWritablePartitionRequest (request_for Mbr Ext4 usb_stick (replicate 16 1) (replicate 16 2) []) = None"
  using layout_gate_implies_write_gate [OF sample_gate [of Mbr], of "replicate 16 1" "replicate 16 2" Ext4 "[]"]
  by simp

text \<open>C25. The table-driven checksum of the headers is CRC-32: on every input it equals the complemented remainder of
  the polynomial division that defines CRC-32 in IEEE 802.3, and on the ASCII digits from 1 to 9 it is
  the published check value.\<close>

theorem gptCrc32_is_crc32:
  "gptCrc32 data = crc32_reference data \<and>
   gptCrc32 [0x31, 0x32, 0x33, 0x34, 0x35, 0x36, 0x37, 0x38, 0x39] = 0xCBF43926"
  unfolding gptCrc32_reference check_value by simp

definition wrapping_request :: PartitionTableRequest where
  "wrapping_request = (sample_request Gpt)\<lparr>req_layout :=
     \<lparr>startOffset = - 512, layout_length = 2 * 1048576 + 512\<rparr>\<rparr>"

text \<open>C30. The gate compares the end of the layout after a 64-bit addition, so a layout whose end wraps is
  accepted: here a start on the last sector of the 64-bit range and a length that brings the sum
  back to a mebibyte lies far past the end of the disk. \<open>calculateGptLayout\<close> never produces one.\<close>

theorem wrapping_layout_accepted:
  "isWritablePartitionRequest wrapping_request = None \<and>
   unat (req_diskSize wrapping_request) < layout_start wrapping_request"
  by (simp add: wrapping_request_def sample_request_def request_for_def isWritablePartitionRequest_def
      partitionLayoutError_def isSupportedSectorSize_def usb_stick_def Let_def sectorCount_def
      effectiveSectorSize_def gptGeometry_def array_sectors supported_or_512_def layout_start_def)

end
