(* ===== verification/Restore_Arguments.thy ===== *)
theory Restore_Arguments
  imports Safety
begin

text \<open>
  The command line of the privileged helper, \<open>src/core/restore_protocol.cpp\<close>: what the window passes,
  \<open>buildRestoreArguments\<close>, and what the helper accepts, \<open>parseRestoreArguments\<close>. The helper's loop over
  the flags is \<open>parse_flags\<close> on the record \<open>ParseState\<close> of the function's local variables; a usage
  text is a constructor of \<open>UsageError\<close>.
\<close>

section \<open>Device names, labels and numbers\<close>

definition MaxDeviceNameLength :: nat where
  "MaxDeviceNameLength = 64"

definition MaxVolumeLabelLength :: nat where
  "MaxVolumeLabelLength = 11"

definition DeviceNodePrefix :: qstring where
  "DeviceNodePrefix = qs ''/dev/''"

definition isDeviceNameCharacter :: "qchar \<Rightarrow> bool" where
  "isDeviceNameCharacter c \<longleftrightarrow> c \<le> 0x7F \<and> (is_ascii_alnum c \<or> c = qc (CHR ''_'') \<or> c = qc (CHR ''-''))"

definition isVolumeLabelCharacter :: "qchar \<Rightarrow> bool" where
  "isVolumeLabelCharacter c \<longleftrightarrow>
     c \<le> 0x7F \<and> (is_ascii_alnum c \<or> c = qc (CHR '' '') \<or> c = qc (CHR ''_'') \<or> c = qc (CHR ''-''))"

definition isPlausibleDeviceNodePath :: "qstring \<Rightarrow> bool" where
  "isPlausibleDeviceNodePath path \<longleftrightarrow>
     starts_with path DeviceNodePrefix \<and>
     (let name = drop (length DeviceNodePrefix) path
      in name \<noteq> [] \<and> length name \<le> MaxDeviceNameLength \<and> list_all isDeviceNameCharacter name)"

definition isValidVolumeLabel :: "qstring \<Rightarrow> bool" where
  "isValidVolumeLabel label \<longleftrightarrow>
     label \<noteq> [] \<and> length label \<le> MaxVolumeLabelLength \<and> \<not> starts_with label (qs ''-'') \<and>
     trimmed label = label \<and> list_all isVolumeLabelCharacter label"

text \<open>The loop of \<open>parseDecimal\<close>, on the 64-bit type; \<open>None\<close> is failure.\<close>

fun parse_digits :: "u64 \<Rightarrow> qstring \<Rightarrow> u64 \<Rightarrow> u64 option" where
  "parse_digits maximum [] result = Some result"
| "parse_digits maximum (c # cs) result =
     (if c < 0x30 \<or> 0x39 < c then None
      else
        let digit = ucast (c - 0x30)
        in if (maximum - digit) div 10 < result then None
           else parse_digits maximum cs (result * 10 + digit))"

definition parseDecimal :: "qstring \<Rightarrow> u64 \<Rightarrow> u64 option" where
  "parseDecimal text maximum = (if text = [] then None else parse_digits maximum text 0)"

section \<open>The flags\<close>

definition DeviceFlag :: qstring where "DeviceFlag = qs ''--device''"
definition StyleFlag :: qstring where "StyleFlag = qs ''--style''"
definition FileSystemFlag :: qstring where "FileSystemFlag = qs ''--filesystem''"
definition LabelFlag :: qstring where "LabelFlag = qs ''--label''"
definition ExpectSizeFlag :: qstring where "ExpectSizeFlag = qs ''--expect-size''"
definition ExpectSectorSizeFlag :: qstring where "ExpectSectorSizeFlag = qs ''--expect-sector-size''"
definition ExpectSequenceFlag :: qstring where "ExpectSequenceFlag = qs ''--expect-sequence''"
definition ExpectSerialFlag :: qstring where "ExpectSerialFlag = qs ''--expect-serial''"
definition ExpectUniqueIdFlag :: qstring where "ExpectUniqueIdFlag = qs ''--expect-unique-id''"
definition ExpectPathFlag :: qstring where "ExpectPathFlag = qs ''--expect-path''"
definition ExpectNameFlag :: qstring where "ExpectNameFlag = qs ''--expect-name''"
definition LanguageFlag :: qstring where "LanguageFlag = qs ''--language''"

lemmas flag_defs = DeviceFlag_def StyleFlag_def FileSystemFlag_def LabelFlag_def ExpectSizeFlag_def
  ExpectSectorSizeFlag_def ExpectSequenceFlag_def ExpectSerialFlag_def ExpectUniqueIdFlag_def
  ExpectPathFlag_def ExpectNameFlag_def LanguageFlag_def

section \<open>Building and parsing\<close>

definition appendIfKnown :: "qstring \<Rightarrow> qstring \<Rightarrow> qstring list" where
  "appendIfKnown flag v = (if trimmed v \<noteq> [] then [flag, v] else [])"

definition buildRestoreArguments ::
  "(qstring \<Rightarrow> LocaleLanguage) \<Rightarrow> qstring list \<Rightarrow> DiskInfo \<Rightarrow> PartitionStyle \<Rightarrow> FileSystemType \<Rightarrow> qstring \<Rightarrow>
   Language \<Rightarrow> qstring list" where
  "buildRestoreArguments locale_of uiLanguages disk style fs volumeLabel language =
     [DeviceFlag, deviceId disk, StyleFlag, if style = Mbr then qs ''mbr'' else qs ''gpt'',
      FileSystemFlag, fileSystemTypeToken fs, LabelFlag, volumeLabel,
      ExpectSizeFlag, number (unat (disk_size disk)),
      ExpectSectorSizeFlag, number (unat (sectorSize disk))] @
     (case deviceSequence disk of None \<Rightarrow> [] | Some n \<Rightarrow> [ExpectSequenceFlag, number (unat n)]) @
     appendIfKnown ExpectSerialFlag (serialNumber disk) @
     appendIfKnown ExpectUniqueIdFlag (uniqueId disk) @
     appendIfKnown ExpectPathFlag (disk_path disk) @
     appendIfKnown ExpectNameFlag (disk_name disk) @
     [LanguageFlag, if resolveLanguage locale_of language uiLanguages = German then qs ''de'' else qs ''en'']"

record RestoreArguments =
  arg_expected :: DiskInfo
  arg_style :: PartitionStyle
  arg_fileSystem :: FileSystemType
  arg_volumeLabel :: qstring
  arg_displayLanguage :: Language

record ParseState =
  parsed_result :: RestoreArguments
  parsed_device :: qstring
  parsed_style :: qstring
  parsed_fileSystem :: qstring
  parsed_size :: qstring
  parsed_sectorSize :: qstring
  parsed_seen :: "qstring list"
  parsed_sawLanguage :: bool

datatype UsageError =
    FlagWithoutValue qstring
  | FlagRepeated qstring
  | SequenceNotPositive
  | LanguageUsage
  | FlagNotRecognised qstring
  | DeviceNotUnderDev
  | StyleNotKnown
  | FileSystemNotKnown
  | LabelNotValid
  | SizeNotGiven
  | SectorSizeNotGiven

definition empty_parse :: ParseState where
  "empty_parse =
     \<lparr>parsed_result = \<lparr>arg_expected = empty_disk, arg_style = Gpt, arg_fileSystem = ExFat,
        arg_volumeLabel = [], arg_displayLanguage = English\<rparr>,
      parsed_device = [], parsed_style = [], parsed_fileSystem = [], parsed_size = [],
      parsed_sectorSize = [], parsed_seen = [], parsed_sawLanguage = False\<rparr>"

definition update_expected :: "(DiskInfo \<Rightarrow> DiskInfo) \<Rightarrow> ParseState \<Rightarrow> ParseState" where
  "update_expected f st =
     st\<lparr>parsed_result := (parsed_result st)\<lparr>arg_expected := f (arg_expected (parsed_result st))\<rparr>\<rparr>"

definition parse_flag :: "qstring \<Rightarrow> qstring \<Rightarrow> ParseState \<Rightarrow> UsageError + ParseState" where
  "parse_flag flag v st =
     (if flag = DeviceFlag then Inr (st\<lparr>parsed_device := v\<rparr>)
      else if flag = StyleFlag then Inr (st\<lparr>parsed_style := v\<rparr>)
      else if flag = FileSystemFlag then Inr (st\<lparr>parsed_fileSystem := v\<rparr>)
      else if flag = LabelFlag then
        Inr (st\<lparr>parsed_result := (parsed_result st)\<lparr>arg_volumeLabel := v\<rparr>\<rparr>)
      else if flag = ExpectSizeFlag then Inr (st\<lparr>parsed_size := v\<rparr>)
      else if flag = ExpectSectorSizeFlag then Inr (st\<lparr>parsed_sectorSize := v\<rparr>)
      else if flag = ExpectSequenceFlag then
        (case parseDecimal v 0xFFFFFFFFFFFFFFFF of
           None \<Rightarrow> Inl SequenceNotPositive
         | Some n \<Rightarrow> if n = 0 then Inl SequenceNotPositive
                     else Inr (update_expected (\<lambda>d. d\<lparr>deviceSequence := Some n\<rparr>) st))
      else if flag = ExpectSerialFlag then Inr (update_expected (\<lambda>d. d\<lparr>serialNumber := v\<rparr>) st)
      else if flag = ExpectUniqueIdFlag then Inr (update_expected (\<lambda>d. d\<lparr>uniqueId := v\<rparr>) st)
      else if flag = ExpectPathFlag then Inr (update_expected (\<lambda>d. d\<lparr>disk_path := v\<rparr>) st)
      else if flag = ExpectNameFlag then Inr (update_expected (\<lambda>d. d\<lparr>disk_name := v\<rparr>) st)
      else if flag = LanguageFlag then
        (if v = qs ''en'' then
           Inr (st\<lparr>parsed_result := (parsed_result st)\<lparr>arg_displayLanguage := English\<rparr>, parsed_sawLanguage := True\<rparr>)
         else if v = qs ''de'' then
           Inr (st\<lparr>parsed_result := (parsed_result st)\<lparr>arg_displayLanguage := German\<rparr>, parsed_sawLanguage := True\<rparr>)
         else Inl LanguageUsage)
      else Inl (FlagNotRecognised flag))"

fun parse_flags :: "qstring list \<Rightarrow> ParseState \<Rightarrow> UsageError + ParseState" where
  "parse_flags [] st = Inr st"
| "parse_flags [flag] st = Inl (FlagWithoutValue flag)"
| "parse_flags (flag # v # rest) st =
     (if flag \<in> set (parsed_seen st) then Inl (FlagRepeated flag)
      else case parse_flag flag v (st\<lparr>parsed_seen := parsed_seen st @ [flag]\<rparr>) of
             Inl e \<Rightarrow> Inl e
           | Inr st' \<Rightarrow> parse_flags rest st')"

definition finish_arguments :: "ParseState \<Rightarrow> UsageError + RestoreArguments" where
  "finish_arguments st =
     (let result = parsed_result st
      in if \<not> isPlausibleDeviceNodePath (parsed_device st) then Inl DeviceNotUnderDev
         else if parsed_style st \<noteq> qs ''gpt'' \<and> parsed_style st \<noteq> qs ''mbr'' then Inl StyleNotKnown
         else case parseFileSystemType (parsed_fileSystem st) of
           None \<Rightarrow> Inl FileSystemNotKnown
         | Some fs \<Rightarrow>
             if \<not> isValidVolumeLabel (arg_volumeLabel result) then Inl LabelNotValid
             else case parseDecimal (parsed_size st) 0xFFFFFFFFFFFFFFFF of
               None \<Rightarrow> Inl SizeNotGiven
             | Some size' \<Rightarrow>
                 if size' = 0 then Inl SizeNotGiven
                 else case parseDecimal (parsed_sectorSize st) 0xFFFFFFFF of
                   None \<Rightarrow> Inl SectorSizeNotGiven
                 | Some sector \<Rightarrow>
                     if sector = 0 then Inl SectorSizeNotGiven
                     else if \<not> parsed_sawLanguage st then Inl LanguageUsage
                     else Inr (result\<lparr>arg_style := (if parsed_style st = qs ''gpt'' then Gpt else Mbr),
                            arg_fileSystem := fs,
                            arg_expected := (arg_expected result)\<lparr>disk_size := size', sectorSize := ucast sector,
                              deviceId := parsed_device st, displayId := parsed_device st\<rparr>\<rparr>))"

definition parseRestoreArguments :: "qstring list \<Rightarrow> UsageError + RestoreArguments" where
  "parseRestoreArguments arguments =
     (case parse_flags arguments empty_parse of Inl e \<Rightarrow> Inl e | Inr st \<Rightarrow> finish_arguments st)"

section \<open>Decimal numbers\<close>

lemma decimal_digit:
  assumes "n < 10"
  shows "is_decimal (0x30 + of_nat n)" and "unat (0x30 + of_nat n - 0x30 :: qchar) = n"
proof -
  have n: "unat (of_nat n :: qchar) = n" using assms by (simp add: unat_of_nat)
  then have "unat (0x30 + of_nat n :: qchar) = 48 + n" using assms by (simp add: unat_word_ariths)
  then show "is_decimal (0x30 + of_nat n)" using assms by (simp add: is_decimal_def word_le_nat_alt)
  show "unat (0x30 + of_nat n - 0x30 :: qchar) = n" using n by simp
qed

lemma digits_value_snoc: "digits_value (s @ [c]) = digits_value s * 10 + unat (c - 0x30)"
  by (simp add: digits_value_def)

lemma number_not_Nil [simp]: "number n \<noteq> []"
  by (subst number.simps) simp

lemma number_digits: "list_all is_decimal (number n) \<and> digits_value (number n) = n"
proof (induction n rule: number.induct)
  case (1 n)
  show ?case
  proof (cases "n < 10")
    case True
    then show ?thesis
      using decimal_digit [of n] by (subst (1 2) number.simps) (simp add: digits_value_def)
  next
    case False
    then show ?thesis
      using 1 decimal_digit [of "n mod 10"] by (subst (1 2) number.simps) (simp add: digits_value_snoc)
  qed
qed

lemma foldl_digits:
  "foldl (\<lambda>v c. v * 10 + f c) (a :: nat) cs = a * 10 ^ length cs + foldl (\<lambda>v c. v * 10 + f c) 0 cs"
proof (induction cs arbitrary: a)
  case (Cons c cs)
  let ?g = "\<lambda>v c. v * 10 + f c"
  have "foldl ?g a (c # cs) = (a * 10 + f c) * 10 ^ length cs + foldl ?g 0 cs"
    using Cons [of "a * 10 + f c"] by simp
  moreover have "foldl ?g 0 (c # cs) = f c * 10 ^ length cs + foldl ?g 0 cs"
    using Cons [of "f c"] by simp
  ultimately show ?case by (simp only: list.size power_add add_mult_distrib power_Suc mult.assoc) simp
qed simp

lemma digits_value_Cons:
  "digits_value (c # cs) = unat (c - 0x30) * 10 ^ length cs + digits_value cs"
  using foldl_digits [of "\<lambda>c. unat (c - 0x30)" "unat (c - 0x30)" cs] by (simp add: digits_value_def)

lemma parse_digits_value:
  assumes "9 \<le> maximum" "unat maximum < 2 ^ 64" "unat result \<le> unat maximum"
  shows "parse_digits maximum cs result =
    (if list_all is_decimal cs \<and> unat result * 10 ^ length cs + digits_value cs \<le> unat maximum
     then Some (of_nat (unat result * 10 ^ length cs + digits_value cs)) else None)"
  using assms(3)
proof (induction cs arbitrary: result)
  case Nil
  then show ?case by (simp add: digits_value_def)
next
  case (Cons c cs)
  show ?case
  proof (cases "is_decimal c")
    case False
    then show ?thesis by (auto simp: is_decimal_def not_le)
  next
    case True
    define d where "d = (ucast (c - 0x30) :: u64)"
    have c: "unat (c - 0x30) = unat c - 48" "unat c \<le> 57" "48 \<le> unat c"
      using True by (simp_all add: is_decimal_def word_le_nat_alt unat_sub)
    then have d: "unat d = unat (c - 0x30)" "unat d \<le> 9"
      by (simp_all add: d_def unsigned_ucast_eq take_bit_nat_eq_self)
    have room: "unat ((maximum - d) div 10) = (unat maximum - unat d) div 10"
      using assms(1) d(2) by (simp add: unat_div_word unat_minus_u64 word_le_nat_alt)
    have fits: "\<not> (maximum - d) div 10 < result \<longleftrightarrow> unat result * 10 + unat d \<le> unat maximum"
      using assms(1) d(2) by (simp add: word_less_nat_alt room not_less less_eq_div_iff_mult_less_eq word_le_nat_alt)
        linarith
    have step: "parse_digits maximum (c # cs) result =
        (if (maximum - d) div 10 < result then None else parse_digits maximum cs (result * 10 + d))"
      using True by (auto simp: is_decimal_def d_def Let_def)
    have grow: "unat result * 10 ^ length (c # cs) + digits_value (c # cs) =
        (unat result * 10 + unat d) * 10 ^ length cs + digits_value cs"
      by (simp add: digits_value_Cons d(1) algebra_simps)
    show ?thesis
    proof (cases "unat result * 10 + unat d \<le> unat maximum")
      case False
      have "unat result * 10 + unat d \<le> (unat result * 10 + unat d) * 10 ^ length cs" by simp
      with False have "\<not> (unat result * 10 + unat d) * 10 ^ length cs + digits_value cs \<le> unat maximum"
        by linarith
      with False step fits grow show ?thesis by simp
    next
      case le: True
      have r10: "unat (result * 10) = unat result * 10"
        using le assms(2) by (subst unat_times_u64) simp_all
      have nx: "unat (result * 10 + d) = unat result * 10 + unat d"
        using le assms(2) r10 by (subst unat_plus_u64) simp_all
      then have "unat (result * 10 + d) \<le> unat maximum" using le by simp
      from Cons.IH [OF this] step fits le grow True nx show ?thesis by simp
    qed
  qed
qed

lemma parseDecimal_spec:
  assumes "9 \<le> maximum"
  shows "parseDecimal text maximum =
    (if text \<noteq> [] \<and> list_all is_decimal text \<and> digits_value text \<le> unat maximum
     then Some (of_nat (digits_value text)) else None)"
  using parse_digits_value [OF assms, of 0 "text"] unat_u64_bound [of maximum]
  by (simp add: parseDecimal_def)

lemma parseDecimal_number:
  "9 \<le> maximum \<Longrightarrow> n \<le> unat maximum \<Longrightarrow> parseDecimal (number n) maximum = Some (of_nat n)"
  using number_digits [of n] by (simp add: parseDecimal_spec)

section \<open>Across the privilege boundary\<close>

text \<open>What the helper is told about the selected disk: its address, size and the identifiers that are known.\<close>

definition known :: "qstring \<Rightarrow> qstring" where
  "known v = (if trimmed v \<noteq> [] then v else [])"

definition claimed_disk :: "DiskInfo \<Rightarrow> DiskInfo" where
  "claimed_disk disk = empty_disk
     \<lparr>deviceId := deviceId disk, displayId := deviceId disk, disk_size := disk_size disk,
      sectorSize := sectorSize disk, deviceSequence := deviceSequence disk,
      serialNumber := known (serialNumber disk), uniqueId := known (uniqueId disk),
      disk_path := known (disk_path disk), disk_name := known (disk_name disk)\<rparr>"

definition restorable_selection :: "DiskInfo \<Rightarrow> PartitionStyle \<Rightarrow> qstring \<Rightarrow> bool" where
  "restorable_selection disk style label \<longleftrightarrow>
     isPlausibleDeviceNodePath (deviceId disk) \<and> (style = Mbr \<or> style = Gpt) \<and> isValidVolumeLabel label \<and>
     disk_size disk \<noteq> 0 \<and> sectorSize disk \<noteq> 0 \<and> deviceSequence disk \<noteq> Some 0"

lemma parse_flag_simps:
  "parse_flag DeviceFlag v st = Inr (st\<lparr>parsed_device := v\<rparr>)"
  "parse_flag StyleFlag v st = Inr (st\<lparr>parsed_style := v\<rparr>)"
  "parse_flag FileSystemFlag v st = Inr (st\<lparr>parsed_fileSystem := v\<rparr>)"
  "parse_flag LabelFlag v st = Inr (st\<lparr>parsed_result := (parsed_result st)\<lparr>arg_volumeLabel := v\<rparr>\<rparr>)"
  "parse_flag ExpectSizeFlag v st = Inr (st\<lparr>parsed_size := v\<rparr>)"
  "parse_flag ExpectSectorSizeFlag v st = Inr (st\<lparr>parsed_sectorSize := v\<rparr>)"
  "n \<noteq> 0 \<Longrightarrow> parse_flag ExpectSequenceFlag (number (unat n)) st =
     Inr (update_expected (\<lambda>d. d\<lparr>deviceSequence := Some n\<rparr>) st)"
  "parse_flag ExpectSerialFlag v st = Inr (update_expected (\<lambda>d. d\<lparr>serialNumber := v\<rparr>) st)"
  "parse_flag ExpectUniqueIdFlag v st = Inr (update_expected (\<lambda>d. d\<lparr>uniqueId := v\<rparr>) st)"
  "parse_flag ExpectPathFlag v st = Inr (update_expected (\<lambda>d. d\<lparr>disk_path := v\<rparr>) st)"
  "parse_flag ExpectNameFlag v st = Inr (update_expected (\<lambda>d. d\<lparr>disk_name := v\<rparr>) st)"
  "parse_flag LanguageFlag (qs ''de'') st =
     Inr (st\<lparr>parsed_result := (parsed_result st)\<lparr>arg_displayLanguage := German\<rparr>, parsed_sawLanguage := True\<rparr>)"
  "parse_flag LanguageFlag (qs ''en'') st =
     Inr (st\<lparr>parsed_result := (parsed_result st)\<lparr>arg_displayLanguage := English\<rparr>, parsed_sawLanguage := True\<rparr>)"
proof -
  assume "n \<noteq> 0"
  moreover have "unat n \<le> unat (0xFFFFFFFFFFFFFFFF :: u64)" using unat_u64_bound [of n] by simp
  ultimately show "parse_flag ExpectSequenceFlag (number (unat n)) st =
     Inr (update_expected (\<lambda>d. d\<lparr>deviceSequence := Some n\<rparr>) st)"
    by (simp add: parse_flag_def flag_defs parseDecimal_number)
qed (simp_all add: parse_flag_def flag_defs)

text \<open>One flag with its value is one step of the loop; an identifier that is not known is none.\<close>

lemma parse_flags_step:
  "flag \<notin> set (parsed_seen st) \<Longrightarrow>
   parse_flag flag v (st\<lparr>parsed_seen := parsed_seen st @ [flag]\<rparr>) = Inr st' \<Longrightarrow>
   parse_flags (flag # v # rest) st = parse_flags rest st'"
  by simp

lemma parse_flags_known:
  assumes "flag \<notin> set (parsed_seen st)"
    and step: "\<And>st. parse_flag flag v st = Inr (update_expected (f v) st)"
    and skip: "f [] (arg_expected (parsed_result st)) = arg_expected (parsed_result st)"
  shows "parse_flags (appendIfKnown flag v @ rest) st =
    parse_flags rest (update_expected (f (known v))
      (st\<lparr>parsed_seen := parsed_seen st @ (if trimmed v \<noteq> [] then [flag] else [])\<rparr>))"
proof (cases "trimmed v = []")
  case True
  then show ?thesis using skip by (simp add: appendIfKnown_def known_def update_expected_def)
next
  case False
  then show ?thesis using assms(1) by (simp add: appendIfKnown_def known_def step)
qed
text \<open>The helper only looks at whether a flag has been seen, so the order of the rest does not matter to it.\<close>

text \<open>The whole command line, flag by flag.\<close>

definition told_disk :: "DiskInfo \<Rightarrow> DiskInfo" where
  "told_disk disk = empty_disk\<lparr>deviceSequence := deviceSequence disk,
     serialNumber := known (serialNumber disk), uniqueId := known (uniqueId disk),
     disk_path := known (disk_path disk), disk_name := known (disk_name disk)\<rparr>"

definition told_state :: "DiskInfo \<Rightarrow> PartitionStyle \<Rightarrow> FileSystemType \<Rightarrow> qstring \<Rightarrow> DiskInfo \<Rightarrow> qstring list \<Rightarrow> ParseState" where
  "told_state disk style fs label expected seen =
     \<lparr>parsed_result = \<lparr>arg_expected = expected, arg_style = Gpt, arg_fileSystem = ExFat,
        arg_volumeLabel = label, arg_displayLanguage = English\<rparr>,
      parsed_device = deviceId disk, parsed_style = (if style = Mbr then qs ''mbr'' else qs ''gpt''),
      parsed_fileSystem = fileSystemTypeToken fs, parsed_size = number (unat (disk_size disk)),
      parsed_sectorSize = number (unat (sectorSize disk)), parsed_seen = seen, parsed_sawLanguage = False\<rparr>"

lemma told_update [simp]:
  "update_expected f (told_state disk style fs label e seen) = told_state disk style fs label (f e) seen"
  "arg_expected (parsed_result (told_state disk style fs label e seen)) = e"
  "parsed_seen (told_state disk style fs label e seen) = seen"
  "(told_state disk style fs label e seen)\<lparr>parsed_seen := seen'\<rparr> = told_state disk style fs label e seen'"
  by (simp_all add: told_state_def update_expected_def)

lemma flag_neqs:
  "StyleFlag \<noteq> DeviceFlag" "FileSystemFlag \<noteq> DeviceFlag" "FileSystemFlag \<noteq> StyleFlag"
  "LabelFlag \<noteq> DeviceFlag" "LabelFlag \<noteq> StyleFlag" "LabelFlag \<noteq> FileSystemFlag"
  "ExpectSizeFlag \<noteq> DeviceFlag" "ExpectSizeFlag \<noteq> StyleFlag" "ExpectSizeFlag \<noteq> FileSystemFlag"
  "ExpectSizeFlag \<noteq> LabelFlag"
  "ExpectSectorSizeFlag \<noteq> DeviceFlag" "ExpectSectorSizeFlag \<noteq> StyleFlag" "ExpectSectorSizeFlag \<noteq> FileSystemFlag"
  "ExpectSectorSizeFlag \<noteq> LabelFlag" "ExpectSectorSizeFlag \<noteq> ExpectSizeFlag"
  by (simp_all add: flag_defs)

lemma parse_required:
  "parse_flags ([DeviceFlag, deviceId disk, StyleFlag, if style = Mbr then qs ''mbr'' else qs ''gpt'',
      FileSystemFlag, fileSystemTypeToken fs, LabelFlag, label,
      ExpectSizeFlag, number (unat (disk_size disk)),
      ExpectSectorSizeFlag, number (unat (sectorSize disk))] @ rest) empty_parse =
   parse_flags rest (told_state disk style fs label empty_disk
     [DeviceFlag, StyleFlag, FileSystemFlag, LabelFlag, ExpectSizeFlag, ExpectSectorSizeFlag])"
  by (simp add: parse_flag_simps empty_parse_def told_state_def flag_neqs)

lemma parse_sequence:
  assumes "deviceSequence disk \<noteq> Some 0" "ExpectSequenceFlag \<notin> set seen" "deviceSequence e = None"
  shows "parse_flags ((case deviceSequence disk of None \<Rightarrow> [] | Some n \<Rightarrow> [ExpectSequenceFlag, number (unat n)]) @ rest)
      (told_state disk style fs label e seen) =
    parse_flags rest (told_state disk style fs label (e\<lparr>deviceSequence := deviceSequence disk\<rparr>)
      (seen @ (if deviceSequence disk = None then [] else [ExpectSequenceFlag])))"
proof (cases "deviceSequence disk")
  case None
  moreover have "e\<lparr>deviceSequence := None\<rparr> = e" using assms(3) by (cases e) simp
  ultimately show ?thesis by simp
next
  case (Some n)
  then show ?thesis using assms by (simp add: parse_flag_simps)
qed

lemma parse_known:
  assumes "flag \<notin> set seen" "\<And>st. parse_flag flag v st = Inr (update_expected (f v) st)" "f [] e = e"
  shows "parse_flags (appendIfKnown flag v @ rest) (told_state disk style fs label e seen) =
    parse_flags rest (told_state disk style fs label (f (known v) e)
      (seen @ (if trimmed v \<noteq> [] then [flag] else [])))"
  using parse_flags_known [of flag "told_state disk style fs label e seen" v f rest] assms by simp

lemma empty_disk_fields:
  "deviceSequence empty_disk = None"
  "empty_disk\<lparr>deviceSequence := q, serialNumber := []\<rparr> = empty_disk\<lparr>deviceSequence := q\<rparr>"
  "empty_disk\<lparr>deviceSequence := q, serialNumber := a, uniqueId := []\<rparr> = empty_disk\<lparr>deviceSequence := q, serialNumber := a\<rparr>"
  "empty_disk\<lparr>deviceSequence := q, serialNumber := a, uniqueId := b, disk_path := []\<rparr> =
     empty_disk\<lparr>deviceSequence := q, serialNumber := a, uniqueId := b\<rparr>"
  "empty_disk\<lparr>deviceSequence := q, serialNumber := a, uniqueId := b, disk_path := c, disk_name := []\<rparr> =
     empty_disk\<lparr>deviceSequence := q, serialNumber := a, uniqueId := b, disk_path := c\<rparr>"
  by (simp_all add: empty_disk_def)

lemma parse_flags_build:
  assumes "restorable_selection disk style label"
  shows "\<exists>seen. parse_flags (buildRestoreArguments lo ui disk style fs label lang) empty_parse =
    Inr ((told_state disk style fs label (told_disk disk) seen)
      \<lparr>parsed_result := \<lparr>arg_expected = told_disk disk, arg_style = Gpt, arg_fileSystem = ExFat,
         arg_volumeLabel = label, arg_displayLanguage = resolveLanguage lo lang ui\<rparr>,
       parsed_sawLanguage := True\<rparr>)"
proof -
  let ?lang = "resolveLanguage lo lang ui"
  have lang: "?lang = German \<or> ?lang = English"
    using resolveLanguage_resolved [of lo lang ui] by (cases ?lang) simp_all
  have seq: "deviceSequence disk \<noteq> Some 0" using assms by (simp add: restorable_selection_def)
  let ?s0 = "[DeviceFlag, StyleFlag, FileSystemFlag, LabelFlag, ExpectSizeFlag, ExpectSectorSizeFlag]"
  let ?s1 = "?s0 @ (if deviceSequence disk = None then [] else [ExpectSequenceFlag])"
  let ?s2 = "?s1 @ (if trimmed (serialNumber disk) \<noteq> [] then [ExpectSerialFlag] else [])"
  let ?s3 = "?s2 @ (if trimmed (uniqueId disk) \<noteq> [] then [ExpectUniqueIdFlag] else [])"
  let ?s4 = "?s3 @ (if trimmed (disk_path disk) \<noteq> [] then [ExpectPathFlag] else [])"
  let ?s5 = "?s4 @ (if trimmed (disk_name disk) \<noteq> [] then [ExpectNameFlag] else [])"
  have "ExpectSequenceFlag \<notin> set ?s0" "ExpectSerialFlag \<notin> set ?s1" "ExpectUniqueIdFlag \<notin> set ?s2"
    "ExpectPathFlag \<notin> set ?s3" "ExpectNameFlag \<notin> set ?s4" "LanguageFlag \<notin> set ?s5"
    by (simp_all add: flag_defs)
  note fresh = this
  have "parse_flags (buildRestoreArguments lo ui disk style fs label lang) empty_parse =
      parse_flags [LanguageFlag, if ?lang = German then qs ''de'' else qs ''en'']
        (told_state disk style fs label (told_disk disk) ?s5)"
    unfolding buildRestoreArguments_def append_assoc
    unfolding parse_required
      parse_sequence [OF seq fresh(1) empty_disk_fields(1)]
      parse_known [OF fresh(2), where f = "\<lambda>v d. d\<lparr>serialNumber := v\<rparr>", OF parse_flag_simps(8) empty_disk_fields(2)]
      parse_known [OF fresh(3), where f = "\<lambda>v d. d\<lparr>uniqueId := v\<rparr>", OF parse_flag_simps(9) empty_disk_fields(3)]
      parse_known [OF fresh(4), where f = "\<lambda>v d. d\<lparr>disk_path := v\<rparr>", OF parse_flag_simps(10) empty_disk_fields(4)]
      parse_known [OF fresh(5), where f = "\<lambda>v d. d\<lparr>disk_name := v\<rparr>", OF parse_flag_simps(11) empty_disk_fields(5)]
    by (simp only: told_disk_def append_assoc)
  also have "\<dots> = Inr ((told_state disk style fs label (told_disk disk) (?s5 @ [LanguageFlag]))
      \<lparr>parsed_result := \<lparr>arg_expected = told_disk disk, arg_style = Gpt, arg_fileSystem = ExFat,
         arg_volumeLabel = label, arg_displayLanguage = ?lang\<rparr>, parsed_sawLanguage := True\<rparr>)"
    using lang fresh(6) by (auto simp: parse_flag_simps told_state_def)
  finally show ?thesis by blast
qed
lemma parse_build:
  assumes "restorable_selection disk style label"
  shows "parseRestoreArguments (buildRestoreArguments lo ui disk style fs label lang) =
    Inr \<lparr>arg_expected = claimed_disk disk, arg_style = style, arg_fileSystem = fs, arg_volumeLabel = label,
      arg_displayLanguage = resolveLanguage lo lang ui\<rparr>"
proof -
  note sel = assms [unfolded restorable_selection_def]
  obtain seen where flags: "parse_flags (buildRestoreArguments lo ui disk style fs label lang) empty_parse =
    Inr ((told_state disk style fs label (told_disk disk) seen)
      \<lparr>parsed_result := \<lparr>arg_expected = told_disk disk, arg_style = Gpt, arg_fileSystem = ExFat,
         arg_volumeLabel = label, arg_displayLanguage = resolveLanguage lo lang ui\<rparr>,
       parsed_sawLanguage := True\<rparr>)"
    using parse_flags_build [OF assms] by blast
  have size: "parseDecimal (number (unat (disk_size disk))) 0xFFFFFFFFFFFFFFFF = Some (disk_size disk)"
    using unat_u64_bound [of "disk_size disk"] by (subst parseDecimal_number) simp_all
  have "unat (sectorSize disk) \<le> 0xFFFFFFFF" using unat_u32_bound [of "sectorSize disk"] by simp
  then have sector: "parseDecimal (number (unat (sectorSize disk))) 0xFFFFFFFF = Some (ucast (sectorSize disk))"
    by (subst parseDecimal_number) (simp_all add: unsigned_ucast_eq)
  have nz: "(ucast (sectorSize disk) :: u64) \<noteq> 0"
  proof
    assume "(ucast (sectorSize disk) :: u64) = 0"
    then have "unat (sectorSize disk) = 0" by (metis unat_widen unat_0)
    then have "sectorSize disk = 0" by (metis unat_eq_zero)
    then show False using sel by blast
  qed
  have narrow: "ucast (ucast (sectorSize disk) :: u64) = sectorSize disk"
    by (rule bit_word_eqI) (auto simp: bit_simps)
  show ?thesis
    using sel size sector nz narrow unfolding parseRestoreArguments_def flags
    by (auto simp: finish_arguments_def told_state_def claimed_disk_def told_disk_def Let_def empty_disk_def)
qed

text \<open>Identity is compared after trimming, so an identifier of blanks counts as unknown on both sides.\<close>

lemma normalizedIdentity_known:
  assumes "fold_case U [] = []"
  shows "normalizedIdentity U (known v) = normalizedIdentity U v"
  using assms by (simp add: normalizedIdentity_def known_def) (simp add: trimmed_def trim_front_def)

lemma bothKnown_known:
  "fold_case U [] = [] \<Longrightarrow> bothKnownAndDifferent U (known v) x = bothKnownAndDifferent U v x"
  by (simp add: bothKnownAndDifferent_def normalizedIdentity_known)

lemma same_target_claimed:
  assumes "fold_case U [] = []"
  shows "isSameRestoreTarget U (claimed_disk disk) current = isSameRestoreTarget U disk current"
  using assms by (simp add: isSameRestoreTarget_def claimed_disk_def bothKnown_known)

lemma parsed_expected_bus:
  "parse_flag flag v st = Inr st' \<Longrightarrow>
   busType (arg_expected (parsed_result st')) = busType (arg_expected (parsed_result st))"
  by (auto simp: parse_flag_def update_expected_def split: if_splits option.splits)

lemma parse_flags_bus:
  "parse_flags args st = Inr st' \<Longrightarrow>
   busType (arg_expected (parsed_result st')) = busType (arg_expected (parsed_result st))"
proof (induction args st rule: parse_flags.induct)
  case (3 flag v rest st)
  then show ?case by (auto dest: parsed_expected_bus split: if_splits sum.splits)
qed simp_all

lemma parseRestoreArguments_bus:
  assumes "parseRestoreArguments args = Inr parsed"
  shows "busType (arg_expected parsed) = 0"
proof -
  obtain st where st: "parse_flags args empty_parse = Inr st" "finish_arguments st = Inr parsed"
    using assms by (auto simp: parseRestoreArguments_def split: sum.splits)
  have "busType (arg_expected (parsed_result st)) = 0"
    using parse_flags_bus [OF st(1)] by (simp add: empty_parse_def empty_disk_def)
  then show ?thesis using st(2)
    by (auto simp: finish_arguments_def Let_def split: if_splits option.splits)
qed

lemma finish_accepts:
  assumes "finish_arguments st = Inr parsed"
  shows "isPlausibleDeviceNodePath (deviceId (arg_expected parsed)) \<and> isValidVolumeLabel (arg_volumeLabel parsed) \<and>
    (arg_style parsed = Gpt \<or> arg_style parsed = Mbr) \<and> disk_size (arg_expected parsed) \<noteq> 0"
  using assms by (auto simp: finish_arguments_def Let_def split: if_splits option.splits)

section \<open>Properties\<close>

text \<open>C26. The command line round-trips: for every disk the window can offer, with a valid label, the helper
  parses back exactly the style, file system, label and resolved language that were chosen and the
  claim about the disk, with identifiers of blanks dropped.\<close>

theorem restore_arguments_round_trip:
  assumes "restorable_selection disk style label"
  shows "parseRestoreArguments (buildRestoreArguments lo ui disk style fs label lang) =
    Inr \<lparr>arg_expected = claimed_disk disk, arg_style = style, arg_fileSystem = fs, arg_volumeLabel = label,
      arg_displayLanguage = resolveLanguage lo lang ui\<rparr>"
  by (rule parse_build [OF assms])

theorem restore_arguments_round_trip_witness:
  "parseRestoreArguments (buildRestoreArguments (\<lambda>_. LocaleOther) [] usb_stick Gpt ExFat (qs ''USB'') German) =
    Inr \<lparr>arg_expected = claimed_disk usb_stick, arg_style = Gpt, arg_fileSystem = ExFat,
      arg_volumeLabel = qs ''USB'', arg_displayLanguage = German\<rparr>"
  by (subst restore_arguments_round_trip)
    (simp_all add: restorable_selection_def usb_stick_def empty_disk_def isPlausibleDeviceNodePath_def
      DeviceNodePrefix_def starts_with_def MaxDeviceNameLength_def isDeviceNameCharacter_def isValidVolumeLabel_def
      MaxVolumeLabelLength_def isVolumeLabelCharacter_def trimmed_def trim_front_def is_space_def is_ascii_alnum_def
      is_decimal_def qs_def qc_def resolveLanguage_def)

text \<open>Nothing is lost for the decision that matters: comparing the disk the helper finds with the parsed
  claim gives, refusal and all, the same answer as comparing it with the disk the user selected.
  (\<open>fold_case U [] = []\<close>: case folding keeps the empty string empty.)\<close>

lemma helper_compares_like_the_window:
  assumes "restorable_selection disk style label" "fold_case U [] = []"
  shows "\<exists>parsed. parseRestoreArguments (buildRestoreArguments lo ui disk style fs label lang) = Inr parsed \<and>
    isSameRestoreTarget U (arg_expected parsed) current = isSameRestoreTarget U disk current"
  using parse_build [OF assms(1)] same_target_claimed [OF assms(2)] by auto

lemma helper_compares_like_the_window_witness:
  "\<exists>parsed. parseRestoreArguments (buildRestoreArguments (\<lambda>_. LocaleOther) [] usb_stick Mbr Ntfs (qs ''A'') English) =
     Inr parsed \<and>
   isSameRestoreTarget ascii_tables (arg_expected parsed) usb_stick =
     isSameRestoreTarget ascii_tables usb_stick usb_stick"
  by (rule helper_compares_like_the_window)
    (simp_all add: restorable_selection_def usb_stick_def empty_disk_def isPlausibleDeviceNodePath_def
      DeviceNodePrefix_def starts_with_def MaxDeviceNameLength_def isDeviceNameCharacter_def isValidVolumeLabel_def
      MaxVolumeLabelLength_def isVolumeLabelCharacter_def trimmed_def trim_front_def is_space_def is_ascii_alnum_def
      is_decimal_def qs_def qc_def ascii_tables_def)

text \<open>The arguments are claims, not grants: whatever command line the helper accepts, it names a plausible
  device node, a valid label and one of the two styles, and the disk description made of it is
  refused by the safety gate under every guard, so only what the helper reads itself can pass.\<close>

lemma parsed_claim_is_never_a_target:
  assumes "parseRestoreArguments args = Inr parsed"
  shows "isSafeRestoreTarget U (arg_expected parsed) guard \<noteq> None \<and>
    isPlausibleDeviceNodePath (deviceId (arg_expected parsed)) \<and> isValidVolumeLabel (arg_volumeLabel parsed) \<and>
    (arg_style parsed = Gpt \<or> arg_style parsed = Mbr)"
proof -
  obtain st where "finish_arguments st = Inr parsed"
    using assms by (auto simp: parseRestoreArguments_def split: sum.splits)
  from finish_accepts [OF this] parseRestoreArguments_bus [OF assms] show ?thesis
    by (auto simp: isSafeRestoreTarget_None UsbBusType_def)
qed

lemma parsed_claim_is_never_a_target_witness:
  "isSafeRestoreTarget ascii_tables (claimed_disk usb_stick) running_system \<noteq> None"
proof -
  have "restorable_selection usb_stick Gpt (qs ''USB'')"
    by (simp add: restorable_selection_def usb_stick_def empty_disk_def isPlausibleDeviceNodePath_def
      DeviceNodePrefix_def starts_with_def MaxDeviceNameLength_def isDeviceNameCharacter_def isValidVolumeLabel_def
      MaxVolumeLabelLength_def isVolumeLabelCharacter_def trimmed_def trim_front_def is_space_def is_ascii_alnum_def
      is_decimal_def qs_def qc_def)
  from parsed_claim_is_never_a_target [OF parse_build [OF this, of "\<lambda>_. LocaleOther" "[]" ExFat English],
      of ascii_tables running_system]
  show ?thesis by simp
qed

end
