(* ===== verification/Restore_Protocol.thy ===== *)
theory Restore_Protocol
  imports Restore_Steps Restore_Arguments
begin

text \<open>
  The lines the helper writes and how the window judges a run, \<open>src/core/restore_protocol.cpp\<close>.

  \<^item> Lines: \<open>sanitizeProtocolText\<close>, the encoders and \<open>parseProtocolLine\<close>. The contract between the two
    ends is the locale \<open>line_protocol\<close> at the end of the theory.
  \<^item> Verdicts: \<open>describeRestoreExit\<close>, \<open>judgeHelperRun\<close> and \<open>acceptHelperAnnouncement\<close>. A text of the
    window is a constructor of \<open>HelperText\<close> carrying the values it is filled with; \<open>text_empty\<close> says
    when the string would be empty. Whether the catalog has the "Details" wording is the argument
    \<open>has_details\<close>.
\<close>

section \<open>Exit codes and verdicts\<close>

definition RestoreProtocolVersion :: int where "RestoreProtocolVersion = 5"
definition RestoreExitSuccess :: int where "RestoreExitSuccess = 0"
definition RestoreExitFailed :: int where "RestoreExitFailed = 1"
definition RestoreExitUsage :: int where "RestoreExitUsage = 2"
definition RestoreExitCancelled :: int where "RestoreExitCancelled = 3"

lemmas exit_defs = RestoreExitSuccess_def RestoreExitFailed_def RestoreExitUsage_def RestoreExitCancelled_def

definition ProtocolVersionFlag :: qstring where "ProtocolVersionFlag = qs ''--protocol-version''"
definition CancelRequestToken :: bytes where "CancelRequestToken = bs ''cancel''"

definition MaxProtocolTextLength :: nat where
  "MaxProtocolTextLength = 2000"

text \<open>The loop of \<open>sanitizeProtocolText\<close> over the input, with its buffer and the pending space.\<close>

fun sanitize_loop :: "qstring \<Rightarrow> bool \<Rightarrow> qstring \<Rightarrow> qstring" where
  "sanitize_loop sanitized pendingSpace [] = sanitized"
| "sanitize_loop sanitized pendingSpace (c # cs) =
     (if is_space c \<or> is_control c then sanitize_loop sanitized (sanitized \<noteq> []) cs
      else if MaxProtocolTextLength < length sanitized + (if pendingSpace then 2 else 1) then sanitized
      else sanitize_loop ((if pendingSpace then sanitized @ [0x20] else sanitized) @ [c]) False cs)"

definition sanitizeProtocolText :: "qstring \<Rightarrow> qstring" where
  "sanitizeProtocolText t =
     (let s = sanitize_loop [] False t;
          s = (if s \<noteq> [] \<and> is_high_surrogate (last s) then butlast s else s)
      in if s \<noteq> [] \<and> last s = 0x20 then butlast s else s)"

datatype Theirs = OlderVersion | DifferentBuild qstring | OtherVersion qstring

datatype HelperText =
    NoText
  | RestoreFailedText
  | ReportedText qstring
  | FailedWithDetails qstring
  | DisagreeText qstring
  | AuthenticationCancelled
  | HelperNotStarted
  | StoppedUnexpectedly int
  | StoppedUnexpectedlySaying int qstring
  | HelperCrashed
  | NoLocationReported
  | VersionsDiffer qstring Theirs

fun text_empty :: "HelperText \<Rightarrow> bool" where
  "text_empty NoText = True"
| "text_empty (ReportedText t) = (t = [])"
| "text_empty _ = False"

definition describeRestoreExit :: "bool \<Rightarrow> int \<Rightarrow> qstring \<Rightarrow> TextMode \<Rightarrow> HelperText" where
  "describeRestoreExit has_details exitCode helperStderr mode =
     (let reported = sanitizeProtocolText helperStderr
      in if exitCode = RestoreExitSuccess \<or> exitCode = RestoreExitCancelled then NoText
         else if exitCode = RestoreExitFailed then
           (if reported = [] \<or> mode = EnglishText
            then (if reported = [] then RestoreFailedText else ReportedText reported)
            else if \<not> has_details then ReportedText reported else FailedWithDetails reported)
         else if exitCode = RestoreExitUsage then DisagreeText reported
         else if exitCode = 126 then AuthenticationCancelled
         else if exitCode = 127 then HelperNotStarted
         else if reported = [] then StoppedUnexpectedly exitCode
         else StoppedUnexpectedlySaying exitCode reported)"

record HelperRunObservation =
  run_crashed :: bool
  run_exitCode :: int
  run_sawVersion :: bool
  run_versionAccepted :: bool
  run_versionError :: HelperText
  run_killRequested :: bool
  run_location :: qstring
  run_helperStderr :: qstring
  run_displayFailure :: qstring

datatype HelperRunVerdict = Succeeded | Cancelled | Failed

text \<open>The verdict and the text stored through \<open>error\<close>, \<open>None\<close> when nothing is stored.\<close>

definition judgeHelperRun :: "bool \<Rightarrow> HelperRunObservation \<Rightarrow> TextMode \<Rightarrow> HelperRunVerdict \<times> HelperText option" where
  "judgeHelperRun has_details run mode =
     (let failWith = (\<lambda>t. (Failed, Some t));
          describe = (\<lambda>code. describeRestoreExit has_details code (run_helperStderr run) mode)
      in if run_killRequested run \<and> \<not> run_sawVersion run \<and> (run_crashed run \<or> run_exitCode run = 126)
         then (Cancelled, None)
         else if run_crashed run then failWith HelperCrashed
         else if run_sawVersion run \<and> \<not> run_versionAccepted run then
           failWith (if text_empty (run_versionError run) then describe RestoreExitUsage else run_versionError run)
         else if \<not> run_sawVersion run then
           (let claimsFinished = (run_exitCode run = RestoreExitSuccess \<or> run_exitCode run = RestoreExitCancelled)
            in failWith (describe (if claimsFinished then RestoreExitUsage else run_exitCode run)))
         else if run_exitCode run = RestoreExitCancelled then (Cancelled, None)
         else if run_exitCode run \<noteq> RestoreExitSuccess then
           (if mode = DisplayText \<and> run_versionAccepted run \<and> run_displayFailure run \<noteq> []
            then failWith (ReportedText (run_displayFailure run))
            else failWith (describe (run_exitCode run)))
         else if run_location run = [] then failWith NoLocationReported
         else (Succeeded, None))"

section \<open>Lines\<close>

definition encodeVersionLine :: "int \<Rightarrow> qstring \<Rightarrow> RestoreStep list \<Rightarrow> qstring" where
  "encodeVersionLine version appVersion plan =
     (let app = sanitizeProtocolText appVersion
      in qs ''version '' @ number_int version @
         (if app \<noteq> [] \<and> 0x20 \<notin> set app then qs '' app '' @ app else []) @
         qs '' steps '' @ number (length plan) @ qs '' destructive '' @ number (firstDestructiveStepOf plan))"

definition encodeStepLine :: "int \<Rightarrow> int \<Rightarrow> qstring \<Rightarrow> qstring" where
  "encodeStepLine step totalSteps message =
     qs ''step '' @ number_int step @ qs ''/'' @ number_int totalSteps @ qs '' '' @ sanitizeProtocolText message"

definition encodeDetailLine :: "qstring \<Rightarrow> qstring" where
  "encodeDetailLine message = qs ''detail '' @ sanitizeProtocolText message"

definition encodeFailureLine :: "qstring \<Rightarrow> qstring" where
  "encodeFailureLine message = qs ''failure '' @ sanitizeProtocolText message"

definition encodeResultLine :: "qstring \<Rightarrow> qstring" where
  "encodeResultLine location = qs ''result '' @ sanitizeProtocolText location"

datatype ProtocolLineKind = UnknownLine | VersionLine | StepLine | DetailLine | FailureLine | ResultLine

record ProtocolLine =
  line_kind :: ProtocolLineKind
  line_version :: int
  line_appVersion :: qstring
  line_firstDestructiveStep :: int
  line_step :: int
  line_totalSteps :: int
  line_text :: qstring

definition empty_line :: ProtocolLine where
  "empty_line = \<lparr>line_kind = UnknownLine, line_version = 0, line_appVersion = [],
     line_firstDestructiveStep = 0, line_step = 0, line_totalSteps = 0, line_text = []\<rparr>"

text \<open>
  The loop over the fields of a version line. \<open>parsed\<close> is returned as soon as a field is malformed,
  \<open>details\<close> when the line ends.
\<close>

fun version_details :: "ProtocolLine \<Rightarrow> qstring list \<Rightarrow> ProtocolLine \<Rightarrow> qstring list \<Rightarrow> ProtocolLine" where
  "version_details parsed seen details [] = details"
| "version_details parsed seen details [key] = parsed"
| "version_details parsed seen details (key # v # rest) =
     (if v = [] \<or> key \<in> set seen then parsed
      else if key = qs ''app'' then
        version_details parsed (seen @ [key]) (details\<lparr>line_appVersion := v\<rparr>) rest
      else if key = qs ''steps'' then
        (case to_int v of None \<Rightarrow> parsed
         | Some n \<Rightarrow> version_details parsed (seen @ [key]) (details\<lparr>line_totalSteps := n\<rparr>) rest)
      else if key = qs ''destructive'' then
        (case to_int v of None \<Rightarrow> parsed
         | Some n \<Rightarrow> version_details parsed (seen @ [key]) (details\<lparr>line_firstDestructiveStep := n\<rparr>) rest)
      else parsed)"

definition cut_at_space :: "qstring \<Rightarrow> qstring \<times> qstring" where
  "cut_at_space t = (case index_of 0x20 t of None \<Rightarrow> (t, []) | Some i \<Rightarrow> (take i t, drop (i + 1) t))"

definition parse_version_line :: "qstring \<Rightarrow> ProtocolLine" where
  "parse_version_line remainder =
     (case split_skip 0x20 remainder of
        [] \<Rightarrow> empty_line
      | f # fs \<Rightarrow>
          (case to_int f of
             None \<Rightarrow> empty_line
           | Some v \<Rightarrow>
               let parsed = empty_line\<lparr>line_kind := VersionLine, line_version := v\<rparr>
               in version_details parsed [] parsed fs))"

definition parse_step_line :: "qstring \<Rightarrow> ProtocolLine" where
  "parse_step_line remainder =
     (let countEnd = index_of 0x20 remainder
      in if countEnd = Some 0 \<or> remainder = [] then empty_line
         else
           case split_keep 0x2F (case countEnd of None \<Rightarrow> remainder | Some i \<Rightarrow> take i remainder) of
             [a, b] \<Rightarrow>
               (case to_int a of
                  None \<Rightarrow> empty_line
                | Some step \<Rightarrow>
                    (case to_int b of
                       None \<Rightarrow> empty_line
                     | Some totalSteps \<Rightarrow>
                         empty_line\<lparr>line_kind := StepLine, line_step := step, line_totalSteps := totalSteps,
                           line_text := (case countEnd of None \<Rightarrow> [] | Some i \<Rightarrow> drop (i + 1) remainder)\<rparr>))
           | _ \<Rightarrow> empty_line)"

definition parseProtocolLine :: "qstring \<Rightarrow> ProtocolLine" where
  "parseProtocolLine line =
     (let t = trimmed line
      in if t = [] then empty_line
         else
           let (keyword, remainder) = cut_at_space t
           in if keyword = qs ''version'' then parse_version_line remainder
              else if keyword = qs ''step'' then parse_step_line remainder
              else if keyword = qs ''detail'' then empty_line\<lparr>line_kind := DetailLine, line_text := remainder\<rparr>
              else if keyword = qs ''failure'' then empty_line\<lparr>line_kind := FailureLine, line_text := remainder\<rparr>
              else if keyword = qs ''result'' then empty_line\<lparr>line_kind := ResultLine, line_text := remainder\<rparr>
              else empty_line)"

text \<open>\<open>None\<close> is acceptance.\<close>

definition acceptHelperAnnouncement ::
  "bool \<Rightarrow> ProtocolLine \<Rightarrow> qstring \<Rightarrow> RestoreStep list \<Rightarrow> TextMode \<Rightarrow> HelperText option" where
  "acceptHelperAnnouncement has_details announcement ourAppVersion plan mode =
     (if line_kind announcement \<noteq> VersionLine then
        Some (describeRestoreExit has_details RestoreExitUsage [] mode)
      else
        let samePlan = (line_totalSteps announcement = int (length plan) \<and>
              line_firstDestructiveStep announcement = int (firstDestructiveStepOf plan))
        in if line_version announcement = RestoreProtocolVersion \<and> samePlan then None
           else Some (VersionsDiffer ourAppVersion
             (if line_appVersion announcement = [] then OlderVersion
              else if line_appVersion announcement = ourAppVersion
              then DifferentBuild (line_appVersion announcement)
              else OtherVersion (line_appVersion announcement))))"

section \<open>What sanitized text looks like\<close>

definition is_low_surrogate :: "qchar \<Rightarrow> bool" where
  "is_low_surrogate c \<longleftrightarrow> 0xDC00 \<le> c \<and> c \<le> 0xDFFF"

fun utf16_ok :: "qstring \<Rightarrow> bool" where
  "utf16_ok [] \<longleftrightarrow> True"
| "utf16_ok [c] \<longleftrightarrow> \<not> is_high_surrogate c \<and> \<not> is_low_surrogate c"
| "utf16_ok (c # d # cs) \<longleftrightarrow>
     (if is_high_surrogate c then is_low_surrogate d \<and> utf16_ok cs
      else \<not> is_low_surrogate c \<and> utf16_ok (d # cs))"

definition separator :: "qchar \<Rightarrow> bool" where
  "separator c \<longleftrightarrow> is_space c \<or> is_control c"

text \<open>
  Clean text: bounded, free of control characters, words separated by single blanks, none at the
  ends. \<open>blanks b s\<close> scans \<open>s\<close>, \<open>b\<close> telling that a blank may not come next.
\<close>

fun blanks :: "bool \<Rightarrow> qstring \<Rightarrow> bool" where
  "blanks b [] \<longleftrightarrow> True"
| "blanks b (c # cs) \<longleftrightarrow> (if c = 0x20 then \<not> b \<and> blanks True cs else \<not> separator c \<and> blanks False cs)"

definition after_blank :: "bool \<Rightarrow> qstring \<Rightarrow> bool" where
  "after_blank b s = (if s = [] then b else last s = 0x20)"

definition clean :: "qstring \<Rightarrow> bool" where
  "clean s \<longleftrightarrow> length s \<le> MaxProtocolTextLength \<and> blanks True s \<and> (s = [] \<or> last s \<noteq> 0x20)"

lemma separator_blank [simp]: "separator 0x20"
  by (simp add: separator_def is_space_def)

lemma clean_Nil [simp]: "clean []"
  by (simp add: clean_def)

lemma blanks_append: "blanks b (s @ t) \<longleftrightarrow> blanks b s \<and> blanks (after_blank b s) t"
proof (induction s arbitrary: b)
  case Nil
  then show ?case by (simp add: after_blank_def)
next
  case (Cons c s)
  have "after_blank b (c # s) = after_blank (c = 0x20) s" by (simp add: after_blank_def)
  with Cons show ?case by simp
qed

lemma clean_snoc:
  "clean s \<Longrightarrow> \<not> separator c \<Longrightarrow> length s < MaxProtocolTextLength \<Longrightarrow> clean (s @ [c])"
  unfolding clean_def blanks_append by (cases "c = 0x20") simp_all

lemma clean_snoc_blank:
  assumes "clean s" "s \<noteq> []" "\<not> separator c" "length s + 2 \<le> MaxProtocolTextLength"
  shows "clean (s @ [0x20, c])"
proof -
  have "c \<noteq> 0x20" using assms(3) by (rule contrapos_nn) simp
  moreover have "\<not> after_blank True s" using assms(1,2) by (simp add: clean_def after_blank_def)
  ultimately show ?thesis using assms unfolding clean_def blanks_append by simp
qed

lemma sanitize_loop_clean: "clean s \<Longrightarrow> (p \<longrightarrow> s \<noteq> []) \<Longrightarrow> clean (sanitize_loop s p t)"
proof (induction s p t rule: sanitize_loop.induct)
  case (2 s p c cs)
  show ?case
  proof (cases "separator c")
    case True
    then show ?thesis using 2(1) 2(3) by (simp add: separator_def)
  next
    case False
    show ?thesis
    proof (cases "MaxProtocolTextLength < length s + (if p then 2 else 1)")
      case True
      then show ?thesis using False 2(3) by (simp add: separator_def)
    next
      case short: False
      have "clean ((if p then s @ [0x20] else s) @ [c])"
        using clean_snoc [OF 2(3) False] clean_snoc_blank [OF 2(3) _ False] short 2(4)
        by (cases p) simp_all
      then show ?thesis using 2(2) False short by (simp add: separator_def)
    qed
  qed
qed simp

definition chop_ends :: "qstring \<Rightarrow> qstring" where
  "chop_ends s =
     (let s = (if s \<noteq> [] \<and> is_high_surrogate (last s) then butlast s else s)
      in if s \<noteq> [] \<and> last s = 0x20 then butlast s else s)"

lemma sanitize_chop: "sanitizeProtocolText t = chop_ends (sanitize_loop [] False t)"
  by (simp add: sanitizeProtocolText_def chop_ends_def)

lemma blanks_butlast: "blanks b s \<Longrightarrow> blanks b (butlast s)"
  using blanks_append [of b "butlast s" "[last s]"] by (cases s rule: rev_cases) simp_all

lemma butlast_blank:
  assumes "blanks True s" "s \<noteq> []" "last s = 0x20"
  shows "butlast s \<noteq> [] \<and> last (butlast s) \<noteq> 0x20"
proof -
  obtain u where u: "s = u @ [0x20]" using assms(2,3) by (metis append_butlast_last_id)
  then have "\<not> after_blank True u" using assms(1) by (simp add: blanks_append)
  then show ?thesis using u by (simp add: after_blank_def split: if_splits)
qed

lemma chop_ends_clean:
  assumes "clean s"
  shows "clean (chop_ends s)"
proof -
  define u where "u = (if s \<noteq> [] \<and> is_high_surrogate (last s) then butlast s else s)"
  have u: "blanks True u" "length u \<le> MaxProtocolTextLength"
    using assms blanks_butlast by (auto simp: u_def clean_def)
  have "clean (if u \<noteq> [] \<and> last u = 0x20 then butlast u else u)"
  proof (cases "u \<noteq> [] \<and> last u = 0x20")
    case True
    then show ?thesis using u butlast_blank [OF u(1)] blanks_butlast [OF u(1)] by (simp add: clean_def)
  next
    case False
    then show ?thesis using u by (auto simp: clean_def)
  qed
  then show ?thesis by (simp only: chop_ends_def u_def Let_def)
qed

lemma sanitize_clean: "clean (sanitizeProtocolText t)"
  by (simp add: sanitize_chop chop_ends_clean sanitize_loop_clean)

lemma sanitize_loop_id:
  "blanks True (s @ (if p then [0x20] else []) @ t) \<Longrightarrow>
   length (s @ (if p then [0x20] else []) @ t) \<le> MaxProtocolTextLength \<Longrightarrow>
   (p \<longrightarrow> s \<noteq> [] \<and> t \<noteq> []) \<Longrightarrow> t = [] \<or> last t \<noteq> 0x20 \<Longrightarrow>
   sanitize_loop s p t = s @ (if p then [0x20] else []) @ t"
proof (induction t arbitrary: s p)
  case (Cons c t)
  show ?case
  proof (cases "c = 0x20")
    case True
    then have t: "t \<noteq> [] \<and> last t \<noteq> 0x20" using Cons.prems(4) by (cases t) simp_all
    have "\<not> after_blank True (s @ (if p then [0x20] else []))"
      using Cons.prems(1) True by (simp add: blanks_append append_assoc [symmetric] del: append_assoc)
    then have "\<not> p" "s \<noteq> []" by (auto simp: after_blank_def split: if_splits)
    then show ?thesis
      using Cons.IH [of s True] Cons.prems t True by (simp add: separator_def [symmetric])
  next
    case False
    have sep: "\<not> separator c"
      using Cons.prems(1) False by (simp add: blanks_append append_assoc [symmetric] del: append_assoc)
    have "length s + (if p then 2 else 1) \<le> MaxProtocolTextLength" using Cons.prems(2) by auto
    then have "sanitize_loop s p (c # t) =
        sanitize_loop ((if p then s @ [0x20] else s) @ [c]) False t"
      using sep by (simp add: separator_def)
    also have "\<dots> = ((if p then s @ [0x20] else s) @ [c]) @ t"
      using Cons.IH [of "(if p then s @ [0x20] else s) @ [c]" False] Cons.prems
      by (cases p; cases t) simp_all
    finally show ?thesis by simp
  qed
qed simp

lemma sanitize_id: "clean s \<Longrightarrow> s = [] \<or> \<not> is_high_surrogate (last s) \<Longrightarrow> sanitizeProtocolText s = s"
  using sanitize_loop_id [of "[]" False s] by (auto simp: sanitize_chop chop_ends_def clean_def)

lemma surrogate_not_separator:
  "is_high_surrogate c \<or> is_low_surrogate c \<Longrightarrow> \<not> separator c \<and> c \<noteq> 0x20"
  by (auto simp: is_high_surrogate_def is_low_surrogate_def separator_def is_space_def is_control_def
      word_le_nat_alt word_less_nat_alt word_unat_eq_iff)

lemma high_not_low: "is_high_surrogate c \<Longrightarrow> \<not> is_low_surrogate c"
  by (auto simp: is_high_surrogate_def is_low_surrogate_def word_le_nat_alt)

lemma utf16_append: "utf16_ok s \<Longrightarrow> utf16_ok t \<Longrightarrow> utf16_ok (s @ t)"
proof (induction s rule: utf16_ok.induct)
  case (2 c)
  then show ?case by (cases t) auto
qed (auto split: if_splits)

lemma utf16_append_iff: "utf16_ok s \<Longrightarrow> utf16_ok (s @ t) \<longleftrightarrow> utf16_ok t"
proof (induction s rule: utf16_ok.induct)
  case (2 c)
  then show ?case by (cases t) auto
qed (auto split: if_splits)

lemma utf16_last: "utf16_ok s \<Longrightarrow> s \<noteq> [] \<Longrightarrow> \<not> is_high_surrogate (last s)"
  by (induction s rule: utf16_ok.induct) (auto simp: high_not_low dest: high_not_low split: if_splits)

definition half_open :: "qstring \<Rightarrow> qstring \<Rightarrow> bool" where
  "half_open s t \<longleftrightarrow> utf16_ok s \<and> utf16_ok t \<or>
     (\<exists>v h l r. s = v @ [h] \<and> utf16_ok v \<and> is_high_surrogate h \<and> t = l # r \<and> is_low_surrogate l \<and> utf16_ok r)"

definition closed_or_open :: "qstring \<Rightarrow> bool" where
  "closed_or_open s \<longleftrightarrow> utf16_ok s \<or> (\<exists>v h. s = v @ [h] \<and> utf16_ok v \<and> is_high_surrogate h)"

lemma sanitize_loop_utf16:
  "half_open s t \<Longrightarrow> (p \<longrightarrow> utf16_ok s) \<Longrightarrow> closed_or_open (sanitize_loop s p t)"
proof (induction s p t rule: sanitize_loop.induct)
  case (1 s p)
  then show ?case by (auto simp: half_open_def closed_or_open_def)
next
  case (2 s p c cs)
  have stop: "closed_or_open s" using 2(3) by (auto simp: half_open_def closed_or_open_def)
  show ?case
  proof (cases "separator c")
    case True
    then have "\<not> is_high_surrogate c" "\<not> is_low_surrogate c" using surrogate_not_separator by blast+
    with 2(3) have "utf16_ok s" "utf16_ok cs" by (auto simp: half_open_def split: if_splits) (cases cs; auto)
    then have "half_open s cs" "utf16_ok s" by (simp_all add: half_open_def)
    then show ?thesis using 2(1) True by (simp add: separator_def)
  next
    case False
    let ?s = "if p then s @ [0x20] else s"
    have blank: "utf16_ok s \<Longrightarrow> utf16_ok (s @ [0x20])"
      by (rule utf16_append) (simp_all add: is_high_surrogate_def is_low_surrogate_def)
    have "half_open (?s @ [c]) cs"
    proof (cases "utf16_ok s \<and> utf16_ok (c # cs)")
      case True
      then have s: "utf16_ok ?s" using blank by simp
      show ?thesis
      proof (cases "is_high_surrogate c")
        case True
        with \<open>utf16_ok s \<and> utf16_ok (c # cs)\<close> obtain l r where "cs = l # r" "is_low_surrogate l" "utf16_ok r"
          by (cases cs) auto
        with s True show ?thesis by (auto simp: half_open_def)
      next
        case c: False
        with True have "utf16_ok [c]" "utf16_ok cs" by (cases cs; simp)+
        with s show ?thesis using utf16_append by (simp add: half_open_def)
      qed
    next
      case False
      with 2(3) obtain v h where v: "s = v @ [h]" "utf16_ok v" "is_high_surrogate h" "is_low_surrogate c" "utf16_ok cs"
        by (auto simp: half_open_def)
      have "\<not> utf16_ok s" using v(1-3) utf16_last [of s] by auto
      then have "\<not> p" using 2(4) by simp
      moreover have "utf16_ok (v @ [h, c])" using v by (intro utf16_append) auto
      ultimately show ?thesis using v by (simp add: half_open_def)
    qed
    then show ?thesis using 2(2) stop False by (simp add: separator_def)
  qed
qed

lemma utf16_snoc_blank: "utf16_ok (u @ [0x20]) \<Longrightarrow> utf16_ok u"
proof (induction u rule: utf16_ok.induct)
  case (2 c)
  then show ?case by (simp add: is_low_surrogate_def split: if_splits)
next
  case (3 c d cs)
  then show ?case by (simp split: if_splits)
qed simp

lemma chop_ends_utf16:
  assumes "closed_or_open s"
  shows "utf16_ok (chop_ends s)"
proof -
  define u where "u = (if s \<noteq> [] \<and> is_high_surrogate (last s) then butlast s else s)"
  have u: "utf16_ok u" using assms utf16_last by (auto simp: u_def closed_or_open_def)
  have "utf16_ok (if u \<noteq> [] \<and> last u = 0x20 then butlast u else u)"
  proof (cases "u \<noteq> [] \<and> last u = 0x20")
    case True
    then have "u = butlast u @ [0x20]" by (metis append_butlast_last_id)
    then have "utf16_ok (butlast u)" using u utf16_snoc_blank by metis
    with True show ?thesis by simp
  next
    case False
    show ?thesis unfolding if_not_P [OF False] by (rule u)
  qed
  then show ?thesis by (simp only: chop_ends_def u_def Let_def)
qed

lemma sanitize_utf16: "utf16_ok t \<Longrightarrow> utf16_ok (sanitizeProtocolText t)"
  unfolding sanitize_chop by (intro chop_ends_utf16 sanitize_loop_utf16) (simp_all add: half_open_def)
section \<open>Reading a line back\<close>

lemma blanks_separator: "blanks b s \<Longrightarrow> c \<in> set s \<Longrightarrow> separator c \<Longrightarrow> c = 0x20"
  by (induction s arbitrary: b) (auto split: if_splits)

lemma clean_no_space: "clean s \<Longrightarrow> c \<in> set s \<Longrightarrow> is_space c \<Longrightarrow> c = 0x20"
  using blanks_separator [of True s c] by (simp add: clean_def separator_def)

lemma clean_ends:
  assumes "clean s" "s \<noteq> []"
  shows "\<not> is_space (hd s) \<and> \<not> is_space (last s)"
proof -
  have "hd s \<noteq> 0x20" "last s \<noteq> 0x20" using assms by (cases s; simp add: clean_def split: if_splits)+
  then show ?thesis using clean_no_space [OF assms(1)] assms(2) by (metis hd_in_set last_in_set)
qed

lemma trimmed_blank_end: "s \<noteq> [] \<Longrightarrow> \<not> is_space (hd s) \<Longrightarrow> \<not> is_space (last s) \<Longrightarrow> trimmed (s @ [0x20]) = s"
proof -
  assume s: "s \<noteq> []" "\<not> is_space (hd s)" "\<not> is_space (last s)"
  have "dropWhile is_space (s @ [0x20]) = s @ [0x20]" using s by (cases s) auto
  moreover have "dropWhile is_space (rev s) = rev s" using s by (intro dropWhile_hd_id) (simp add: hd_rev)
  ultimately show "trimmed (s @ [0x20]) = s" by (simp add: trimmed_def trim_front_def is_space_def)
qed

text \<open>The reader trims the line, which only an empty message can notice.\<close>

lemma trimmed_message:
  assumes "k \<noteq> []" "\<forall>c \<in> set k. \<not> is_space c" "clean s"
  shows "trimmed (k @ 0x20 # s) = (if s = [] then k else k @ 0x20 # s)"
proof (cases "s = []")
  case True
  then show ?thesis using assms trimmed_blank_end [of k] by simp
next
  case False
  then show ?thesis using assms clean_ends [of s] by (simp add: trimmed_id)
qed

lemma index_of_append: "c \<notin> set k \<Longrightarrow> index_of c (k @ c # s) = Some (length k)"
  by (induction k) auto

lemma index_of_None: "c \<notin> set k \<Longrightarrow> index_of c k = None"
  by (induction k) auto

lemma cut_at_space_message:
  assumes "0x20 \<notin> set k"
  shows "cut_at_space (if s = [] then k else k @ 0x20 # s) = (k, s)"
  using assms by (simp add: cut_at_space_def index_of_append index_of_None)

lemma qs_keyword: "qs (w @ '' '') = qs w @ [0x20]"
  by (simp add: qs_append) (simp add: qs_def qc_def)

lemma keyword_chars:
  "\<forall>c \<in> set (qs ''version''). \<not> is_space c" "\<forall>c \<in> set (qs ''step''). \<not> is_space c"
  "\<forall>c \<in> set (qs ''detail''). \<not> is_space c" "\<forall>c \<in> set (qs ''failure''). \<not> is_space c"
  "\<forall>c \<in> set (qs ''result''). \<not> is_space c"
  by (simp_all add: qs_def qc_def is_space_def)

lemma no_space_blank: "\<forall>c \<in> set k. \<not> is_space c \<Longrightarrow> 0x20 \<notin> set k"
  by (auto simp: is_space_def)

lemma parse_keyword:
  assumes "k \<noteq> []" "\<forall>c \<in> set k. \<not> is_space c" "clean s" "t = trimmed (k @ 0x20 # s)"
  shows "t \<noteq> [] \<and> cut_at_space t = (k, s)"
  using trimmed_message [OF assms(1-3)] cut_at_space_message [OF no_space_blank [OF assms(2)], of s] assms(1,4)
  by (auto split: if_splits)

lemma parse_text_line:
  assumes "clean s" "w = ''detail'' \<or> w = ''failure'' \<or> w = ''result''"
  shows "parseProtocolLine (qs w @ 0x20 # s) = empty_line\<lparr>line_kind :=
    (if w = ''detail'' then DetailLine else if w = ''failure'' then FailureLine else ResultLine), line_text := s\<rparr>"
proof -
  have "qs w \<noteq> []" "\<forall>c \<in> set (qs w). \<not> is_space c" using assms(2) keyword_chars by auto
  from parse_keyword [OF this assms(1) refl] show ?thesis
    using assms(2) by (auto simp: parseProtocolLine_def Let_def)
qed

subsection \<open>Numbers and words\<close>

lemma number_chars: "c \<in> set (number n) \<Longrightarrow> is_decimal c"
  using number_digits [of n] by (auto simp: list_all_iff)

lemma decimal_not: "is_decimal c \<Longrightarrow> \<not> is_space c \<and> c \<noteq> 0x2D \<and> c \<noteq> 0x2B \<and> c \<noteq> 0x2F"
  by (auto simp: is_decimal_def is_space_def word_le_nat_alt word_less_nat_alt word_unat_eq_iff)

lemma number_int_chars: "c \<in> set (number_int i) \<Longrightarrow> \<not> is_space c \<and> c \<noteq> 0x2F"
  using decimal_not number_chars by (auto simp: number_int_def is_space_def split: if_splits)

lemma number_int_not_Nil [simp]: "number_int i \<noteq> []"
  by (simp add: number_int_def)

lemma trimmed_solid: "\<forall>c \<in> set s. \<not> is_space c \<Longrightarrow> trimmed s = s"
  by (rule trimmed_id) (cases s; auto)

lemma to_int_number_int:
  assumes "- (2 ^ 31) \<le> i" "i < 2 ^ 31"
  shows "to_int (number_int i) = Some i"
proof -
  have trim: "trimmed (number_int i) = number_int i" using number_int_chars by (intro trimmed_solid) blast
  have digits: "unsigned_digits (number n) = Some n" for n
    using number_digits [of n] by (simp add: unsigned_digits_def)
  have "signed_digits (number_int i) = Some i"
  proof (cases "i < 0")
    case True
    then show ?thesis using digits [of "nat (- i)"] by (simp add: number_int_def signed_digits_def)
  next
    case False
    obtain c cs where n: "number (nat i) = c # cs" by (cases "number (nat i)") simp_all
    then have "is_decimal c" using number_chars [of c "nat i"] by simp
    then show ?thesis using False n digits [of "nat i"] decimal_not [of c]
      by (simp add: number_int_def signed_digits_def)
  qed
  then show ?thesis using assms trim by (simp add: to_int_def)
qed

lemma number_as_int: "number n = number_int (int n)"
  by (simp add: number_int_def)

lemma split_keep_solid: "c \<notin> set s \<Longrightarrow> split_keep c s = [s]"
  by (induction s) auto

lemma split_keep_append: "c \<notin> set s \<Longrightarrow> split_keep c (s @ c # t) = s # split_keep c t"
  by (induction s) auto

fun unwords :: "qstring list \<Rightarrow> qstring" where
  "unwords [] = []"
| "unwords [w] = w"
| "unwords (w # ws) = w @ 0x20 # unwords ws"

definition solid :: "qstring \<Rightarrow> bool" where
  "solid w \<longleftrightarrow> w \<noteq> [] \<and> (\<forall>c \<in> set w. \<not> is_space c)"

lemma split_unwords: "list_all solid ws \<Longrightarrow> ws \<noteq> [] \<Longrightarrow> split_skip 0x20 (unwords ws) = ws"
proof -
  have "split_keep 0x20 (unwords ws) = ws" if "list_all solid ws" "ws \<noteq> []" for ws
    using that
    by (induction ws rule: unwords.induct)
      (auto simp: solid_def no_space_blank split_keep_solid split_keep_append)
  moreover have "list_all solid ws \<Longrightarrow> filter (\<lambda>p. p \<noteq> []) ws = ws"
    by (induction ws) (auto simp: solid_def)
  ultimately show "list_all solid ws \<Longrightarrow> ws \<noteq> [] \<Longrightarrow> split_skip 0x20 (unwords ws) = ws"
    by (simp add: split_skip_def)
qed

lemma unwords_ends:
  "list_all solid ws \<Longrightarrow> ws \<noteq> [] \<Longrightarrow>
   unwords ws \<noteq> [] \<and> \<not> is_space (hd (unwords ws)) \<and> \<not> is_space (last (unwords ws))"
  by (induction ws rule: unwords.induct) (auto simp: solid_def last_append split: if_splits)

subsection \<open>Step and version lines\<close>

definition int32 :: "int \<Rightarrow> bool" where
  "int32 i \<longleftrightarrow> - (2 ^ 31) \<le> i \<and> i < 2 ^ 31"

lemma parse_step_line:
  assumes "int32 a" "int32 b"
  shows "parseProtocolLine (encodeStepLine a b m) =
    empty_line\<lparr>line_kind := StepLine, line_step := a, line_totalSteps := b, line_text := sanitizeProtocolText m\<rparr>"
proof -
  let ?s = "sanitizeProtocolText m" and ?c = "number_int a @ 0x2F # number_int b"
  have blank: "qs ''step '' = qs ''step'' @ [0x20]" "qs ''/'' = [0x2F]" "qs '' '' = [0x20]"
    by (simp_all add: qs_def qc_def)
  have chars: "\<forall>c \<in> set ?c. \<not> is_space c" using number_int_chars by (auto simp: is_space_def)
  have line: "encodeStepLine a b m = qs ''step'' @ 0x20 # (?c @ 0x20 # ?s)"
    by (simp add: encodeStepLine_def blank)
  define r where "r = (if ?s = [] then ?c else ?c @ 0x20 # ?s)"
  have "trimmed (encodeStepLine a b m) = qs ''step'' @ 0x20 # r"
  proof -
    have k: "\<not> is_space (hd (qs ''step''))" by (simp add: qs_def qc_def is_space_def)
    have last: "\<not> is_space (last ?c)" using chars by auto
    show ?thesis
    proof (cases "?s = []")
      case True
      have "trimmed ((qs ''step'' @ 0x20 # ?c) @ [0x20]) = qs ''step'' @ 0x20 # ?c"
        by (rule trimmed_blank_end) (use k last in simp_all)
      then show ?thesis using True by (simp add: line r_def)
    next
      case False
      then show ?thesis using clean_ends [OF sanitize_clean False] k
        unfolding line by (subst trimmed_id) (simp_all add: r_def)
    qed
  qed
  moreover have "cut_at_space (qs ''step'' @ 0x20 # r) = (qs ''step'', r)"
    using cut_at_space_message [OF no_space_blank [OF keyword_chars(2)], of r] by (simp add: r_def split: if_splits)
  ultimately have parse: "parseProtocolLine (encodeStepLine a b m) = parse_step_line r"
    by (simp add: parseProtocolLine_def)
  have idx: "index_of 0x20 r = (if ?s = [] then None else Some (length ?c))"
  proof (cases "?s = []")
    case True
    then show ?thesis using index_of_None [OF no_space_blank [OF chars]] by (simp add: r_def)
  next
    case False
    have "index_of 0x20 (?c @ 0x20 # ?s) = Some (length ?c)"
      by (rule index_of_append [OF no_space_blank [OF chars]])
    with False show ?thesis by (simp only: r_def if_False)
  qed
  have split: "split_keep 0x2F ?c = [number_int a, number_int b]"
  proof -
    have "0x2F \<notin> set (number_int i)" for i using number_int_chars by blast
    then show ?thesis by (simp add: split_keep_append split_keep_solid)
  qed
  have ints: "to_int (number_int a) = Some a" "to_int (number_int b) = Some b"
    using assms to_int_number_int by (simp_all add: int32_def)
  have counts: "(case index_of 0x20 r of None \<Rightarrow> r | Some i \<Rightarrow> take i r) = ?c"
    and message: "(case index_of 0x20 r of None \<Rightarrow> [] | Some i \<Rightarrow> drop (i + 1) r) = ?s"
    and nonempty: "\<not> (index_of 0x20 r = Some 0 \<or> r = [])"
    unfolding idx by (simp_all add: r_def)
  show ?thesis
    unfolding parse parse_step_line_def Let_def counts message if_not_P [OF nonempty] split by (simp add: ints)
qed

definition shown_version :: "qstring \<Rightarrow> qstring" where
  "shown_version appVersion =
     (let app = sanitizeProtocolText appVersion in if app \<noteq> [] \<and> 0x20 \<notin> set app then app else [])"

definition version_words :: "int \<Rightarrow> qstring \<Rightarrow> RestoreStep list \<Rightarrow> qstring list" where
  "version_words v app plan =
     number_int v # (if shown_version app = [] then [] else [qs ''app'', shown_version app]) @
       [qs ''steps'', number_int (int (length plan)), qs ''destructive'', number_int (int (firstDestructiveStepOf plan))]"

lemma shown_version_solid: "shown_version app \<noteq> [] \<Longrightarrow> solid (shown_version app)"
  using clean_no_space [OF sanitize_clean, of _ app]
  by (auto simp: shown_version_def solid_def Let_def split: if_splits)

lemma version_words_solid: "list_all solid (version_words v app plan)"
proof -
  have "solid (number_int i)" for i using number_int_chars by (simp add: solid_def)
  moreover have "solid (qs ''app'')" "solid (qs ''steps'')" "solid (qs ''destructive'')"
    by (simp_all add: solid_def qs_def qc_def is_space_def)
  ultimately show ?thesis using shown_version_solid by (simp add: version_words_def)
qed

lemma encodeVersionLine_words: "encodeVersionLine v app plan = qs ''version'' @ 0x20 # unwords (version_words v app plan)"
proof -
  have blank: "qs ''version '' = qs ''version'' @ [0x20]" "qs '' app '' = [0x20] @ qs ''app'' @ [0x20]"
    "qs '' steps '' = [0x20] @ qs ''steps'' @ [0x20]" "qs '' destructive '' = [0x20] @ qs ''destructive'' @ [0x20]"
    by (simp_all add: qs_def qc_def)
  show ?thesis
    by (simp add: encodeVersionLine_def version_words_def shown_version_def blank number_as_int Let_def)
qed

lemma version_details_words:
  assumes "length plan < 2 ^ 31 - 1"
  shows "version_details p [] p (tl (version_words v app plan)) =
    p\<lparr>line_appVersion := (if shown_version app = [] then line_appVersion p else shown_version app),
      line_totalSteps := int (length plan), line_firstDestructiveStep := int (firstDestructiveStepOf plan)\<rparr>"
proof -
  have "to_int (number_int (int (length plan))) = Some (int (length plan))"
    "to_int (number_int (int (firstDestructiveStepOf plan))) = Some (int (firstDestructiveStepOf plan))"
    using assms firstDestructive_bounds [of plan] by (auto intro!: to_int_number_int)
  then show ?thesis by (simp add: version_words_def)
qed

lemma parse_version:
  assumes "int32 v" "length plan < 2 ^ 31 - 1"
  shows "parseProtocolLine (encodeVersionLine v app plan) =
    empty_line\<lparr>line_kind := VersionLine, line_version := v, line_appVersion := shown_version app,
      line_totalSteps := int (length plan), line_firstDestructiveStep := int (firstDestructiveStepOf plan)\<rparr>"
proof -
  let ?ws = "version_words v app plan" and ?p = "empty_line\<lparr>line_kind := VersionLine, line_version := v\<rparr>"
  have ne: "?ws \<noteq> []" by (simp add: version_words_def)
  note ends = unwords_ends [OF version_words_solid ne]
  have "\<not> is_space (hd (qs ''version''))" by (simp add: qs_def qc_def is_space_def)
  then have "trimmed (encodeVersionLine v app plan) = qs ''version'' @ 0x20 # unwords ?ws"
    using ends unfolding encodeVersionLine_words by (intro trimmed_id) simp
  moreover have "cut_at_space (qs ''version'' @ 0x20 # unwords ?ws) = (qs ''version'', unwords ?ws)"
    using cut_at_space_message [OF no_space_blank [OF keyword_chars(1)], of "unwords ?ws"] ends by simp
  ultimately have "parseProtocolLine (encodeVersionLine v app plan) = parse_version_line (unwords ?ws)"
    by (simp add: parseProtocolLine_def)
  also have "\<dots> = version_details ?p [] ?p (tl ?ws)"
    using split_unwords [OF version_words_solid ne] assms(1) to_int_number_int [of v]
    by (simp add: parse_version_line_def version_words_def int32_def Let_def)
  also have "\<dots> = empty_line\<lparr>line_kind := VersionLine, line_version := v, line_appVersion := shown_version app,
      line_totalSteps := int (length plan), line_firstDestructiveStep := int (firstDestructiveStepOf plan)\<rparr>"
    unfolding version_details_words [OF assms(2)] by (simp add: empty_line_def)
  finally show ?thesis .
qed

section \<open>The contract of the two ends\<close>

text \<open>
  What the reader of a stream needs: an encoded message is one line, and decoding it gives back what
  the writer meant.
\<close>

locale line_protocol =
  fixes encode :: "'m \<Rightarrow> qstring"
    and decode :: "qstring \<Rightarrow> 'v"
    and meaning :: "'m \<Rightarrow> 'v"
    and sendable :: "'m \<Rightarrow> bool"
  assumes decode_encode: "sendable m \<Longrightarrow> decode (encode m) = meaning m"
    and single_line: "sendable m \<Longrightarrow> 10 \<notin> set (encode m)"
begin

definition transcript :: "'m list \<Rightarrow> qstring" where
  "transcript ms = concat (map (\<lambda>m. encode m @ [10]) ms)"

lemma transcript_split:
  "list_all sendable ms \<Longrightarrow> split_keep 10 (transcript ms) = map encode ms @ [[]]"
  by (induction ms) (simp_all add: transcript_def split_keep_append single_line)

lemma transcript_read:
  assumes "list_all sendable ms"
  shows "map decode (butlast (split_keep 10 (transcript ms))) = map meaning ms"
  using assms transcript_split [OF assms] decode_encode by (auto simp: list_all_iff)

end

datatype HelperMessage =
    AnnounceMessage int qstring "RestoreStep list"
  | StepMessage int int qstring
  | DetailMessage qstring
  | FailureMessage qstring
  | ResultMessage qstring

fun encode_message :: "HelperMessage \<Rightarrow> qstring" where
  "encode_message (AnnounceMessage v app plan) = encodeVersionLine v app plan"
| "encode_message (StepMessage a b m) = encodeStepLine a b m"
| "encode_message (DetailMessage m) = encodeDetailLine m"
| "encode_message (FailureMessage m) = encodeFailureLine m"
| "encode_message (ResultMessage m) = encodeResultLine m"

fun message_meaning :: "HelperMessage \<Rightarrow> ProtocolLine" where
  "message_meaning (AnnounceMessage v app plan) =
     empty_line\<lparr>line_kind := VersionLine, line_version := v, line_appVersion := shown_version app,
       line_totalSteps := int (length plan), line_firstDestructiveStep := int (firstDestructiveStepOf plan)\<rparr>"
| "message_meaning (StepMessage a b m) =
     empty_line\<lparr>line_kind := StepLine, line_step := a, line_totalSteps := b, line_text := sanitizeProtocolText m\<rparr>"
| "message_meaning (DetailMessage m) = empty_line\<lparr>line_kind := DetailLine, line_text := sanitizeProtocolText m\<rparr>"
| "message_meaning (FailureMessage m) = empty_line\<lparr>line_kind := FailureLine, line_text := sanitizeProtocolText m\<rparr>"
| "message_meaning (ResultMessage m) = empty_line\<lparr>line_kind := ResultLine, line_text := sanitizeProtocolText m\<rparr>"

fun message_sendable :: "HelperMessage \<Rightarrow> bool" where
  "message_sendable (AnnounceMessage v app plan) = (int32 v \<and> length plan < 2 ^ 31 - 1)"
| "message_sendable (StepMessage a b m) = (int32 a \<and> int32 b)"
| "message_sendable _ = True"

lemma text_line_words:
  "encodeDetailLine m = qs ''detail'' @ 0x20 # sanitizeProtocolText m"
  "encodeFailureLine m = qs ''failure'' @ 0x20 # sanitizeProtocolText m"
  "encodeResultLine m = qs ''result'' @ 0x20 # sanitizeProtocolText m"
  by (simp_all add: encodeDetailLine_def encodeFailureLine_def encodeResultLine_def) (simp_all add: qs_def qc_def)

lemma parse_text_lines:
  "parseProtocolLine (encodeDetailLine m) = empty_line\<lparr>line_kind := DetailLine, line_text := sanitizeProtocolText m\<rparr>"
  "parseProtocolLine (encodeFailureLine m) = empty_line\<lparr>line_kind := FailureLine, line_text := sanitizeProtocolText m\<rparr>"
  "parseProtocolLine (encodeResultLine m) = empty_line\<lparr>line_kind := ResultLine, line_text := sanitizeProtocolText m\<rparr>"
  unfolding text_line_words by (subst parse_text_line; simp add: sanitize_clean)+

lemma no_newline:
  "10 \<notin> set (sanitizeProtocolText m)" "10 \<notin> set (number_int i)" "10 \<notin> set (unwords (version_words v app plan))"
proof -
  have newline: "is_space 10" "(10 :: qchar) \<noteq> 0x20" by (simp_all add: is_space_def)
  show "10 \<notin> set (sanitizeProtocolText m)"
    using clean_no_space [OF sanitize_clean _ newline(1)] newline(2) by blast
  show "10 \<notin> set (number_int i)" using number_int_chars newline(1) by blast
  have solid: "solid w \<Longrightarrow> 10 \<notin> set w" for w using newline(1) by (auto simp: solid_def)
  have "list_all solid ws \<Longrightarrow> 10 \<notin> set (unwords ws)" for ws
    using newline(2) by (induction ws rule: unwords.induct) (simp_all add: solid)
  then show "10 \<notin> set (unwords (version_words v app plan))" using version_words_solid by blast
qed

lemma newline_free:
  "10 \<notin> set (encodeVersionLine v app plan)" "10 \<notin> set (encodeStepLine a b m)"
  "10 \<notin> set (encodeDetailLine m)" "10 \<notin> set (encodeFailureLine m)" "10 \<notin> set (encodeResultLine m)"
proof -
  have "10 \<notin> set (qs ''version'')" "10 \<notin> set (qs ''step '')" "10 \<notin> set (qs ''/'')" "10 \<notin> set (qs '' '')"
    "10 \<notin> set (qs ''detail'')" "10 \<notin> set (qs ''failure'')" "10 \<notin> set (qs ''result'')"
    by (simp_all add: qs_def qc_def)
  then show "10 \<notin> set (encodeVersionLine v app plan)" "10 \<notin> set (encodeStepLine a b m)"
    "10 \<notin> set (encodeDetailLine m)" "10 \<notin> set (encodeFailureLine m)" "10 \<notin> set (encodeResultLine m)"
    using no_newline by (simp_all only: text_line_words encodeVersionLine_words encodeStepLine_def
        set_append set_simps Un_iff insert_iff) simp_all
qed

interpretation helper_lines: line_protocol encode_message parseProtocolLine message_meaning message_sendable
proof unfold_locales
  fix m assume ok: "message_sendable m"
  show "parseProtocolLine (encode_message m) = message_meaning m"
    using ok by (cases m) (simp_all add: parse_version parse_step_line parse_text_lines)
  show "10 \<notin> set (encode_message m)"
    by (cases m) (simp_all add: newline_free)
qed
section \<open>Properties\<close>

text \<open>C27. What the helper writes is what the window reads: a stream of encoded messages, split at newlines and
  parsed line by line, gives the meanings of the messages in order. No text a helper passes on, of
  mkfs or anyone else, can split a line or be read as another message.\<close>

theorem protocol_stream_round_trip:
  assumes "list_all message_sendable ms"
  shows "map parseProtocolLine (butlast (split_keep 10 (concat (map (\<lambda>m. encode_message m @ [10]) ms)))) =
    map message_meaning ms"
  using helper_lines.transcript_read [OF assms] by (simp only: helper_lines.transcript_def)

theorem protocol_stream_round_trip_witness:
  "map line_kind (map parseProtocolLine (butlast (split_keep 10 (concat (map (\<lambda>m. encode_message m @ [10])
     [AnnounceMessage 5 (qs ''1.0'') linuxRestorePlan, StepMessage 1 10 (qs ''a''), FailureMessage [10, 10]]))))) =
   [VersionLine, StepLine, FailureLine]"
  by (subst protocol_stream_round_trip) (simp_all add: int32_def linuxRestorePlan_def)

text \<open>C28. \<open>sanitizeProtocolText\<close> bounds any text to 2,000 units of words separated by single blanks, without
  control characters and without blanks at the ends; well-formed UTF-16 stays well-formed, cut pairs
  included, and sanitizing again changes nothing.\<close>

theorem sanitized_text_is_clean:
  assumes "utf16_ok t"
  shows "length (sanitizeProtocolText t) \<le> 2000 \<and> clean (sanitizeProtocolText t) \<and>
    utf16_ok (sanitizeProtocolText t) \<and>
    sanitizeProtocolText (sanitizeProtocolText t) = sanitizeProtocolText t"
proof -
  let ?s = "sanitizeProtocolText t"
  have "utf16_ok ?s" by (rule sanitize_utf16 [OF assms])
  then have "?s = [] \<or> \<not> is_high_surrogate (last ?s)" using utf16_last by blast
  then show ?thesis using sanitize_clean [of t] sanitize_id [OF sanitize_clean] \<open>utf16_ok ?s\<close>
    by (simp add: clean_def MaxProtocolTextLength_def)
qed

theorem sanitized_text_is_clean_witness:
  "sanitizeProtocolText (sanitizeProtocolText [0x41, 10, 10, 0xD83D, 0xDE00]) =
     sanitizeProtocolText [0x41, 10, 10, 0xD83D, 0xDE00]"
  using sanitized_text_is_clean [of "[0x41, 10, 10, 0xD83D, 0xDE00]"]
  by (simp add: is_high_surrogate_def is_low_surrogate_def)

text \<open>C29. The verdict on a run: success is believed only from a process that spoke our version, exited with 0
  and named a location; cancellation only from one that was killed before it spoke or that spoke
  our version and exited with 3; everything else is a failure, and a failure always has a text while
  the other verdicts have none.\<close>

theorem helper_verdict:
  "let (verdict, error) = judgeHelperRun has_details run mode in
   (verdict = Succeeded \<longleftrightarrow> \<not> run_crashed run \<and> run_sawVersion run \<and> run_versionAccepted run \<and>
      run_exitCode run = 0 \<and> run_location run \<noteq> []) \<and>
   (verdict = Cancelled \<longleftrightarrow>
      (run_killRequested run \<and> \<not> run_sawVersion run \<and> (run_crashed run \<or> run_exitCode run = 126)) \<or>
      (\<not> run_crashed run \<and> run_sawVersion run \<and> run_versionAccepted run \<and> run_exitCode run = 3)) \<and>
   (verdict = Failed \<longleftrightarrow> (\<exists>t. error = Some t)) \<and> error \<noteq> Some NoText \<and> error \<noteq> Some (ReportedText [])"
  by (auto simp: judgeHelperRun_def Let_def describeRestoreExit_def exit_defs split: if_splits)

text \<open>The window starts a restore only with a helper of its own protocol: the announcement it accepts is
  exactly the version line of protocol 5 with the length and the destructive step of its own plan,
  which is what a helper built with the same plan sends.\<close>

lemma announcement_accepted_iff:
  assumes "int32 v" "length plan < 2 ^ 31 - 1"
  shows "acceptHelperAnnouncement has_details (parseProtocolLine (encodeVersionLine v app plan)) ours plan' mode = None \<longleftrightarrow>
    v = 5 \<and> length plan = length plan' \<and> firstDestructiveStepOf plan = firstDestructiveStepOf plan'"
  using parse_version [OF assms, of app]
  by (auto simp: acceptHelperAnnouncement_def RestoreProtocolVersion_def Let_def empty_line_def)

lemma announcement_accepted_iff_witness:
  "acceptHelperAnnouncement True (parseProtocolLine (encodeVersionLine 5 (qs ''1.2'') linuxRestorePlan)) (qs ''1.3'')
     linuxRestorePlan EnglishText = None \<and>
   acceptHelperAnnouncement True (parseProtocolLine (encodeVersionLine 5 (qs ''1.2'') windowsRestorePlan)) (qs ''1.2'')
     linuxRestorePlan EnglishText \<noteq> None"
  using announcement_accepted_iff [of 5 linuxRestorePlan True "qs ''1.2''" "qs ''1.3''" linuxRestorePlan EnglishText]
    announcement_accepted_iff [of 5 windowsRestorePlan True "qs ''1.2''" "qs ''1.2''" linuxRestorePlan EnglishText]
  by (simp add: int32_def linuxRestorePlan_def windowsRestorePlan_def)

end
