(* ===== verification/Linux_Sysfs.thy ===== *)
theory Linux_Sysfs
  imports Safety "HOL-Library.List_Lexorder"
begin

text \<open>
  What the Linux backend reads from the kernel, \<open>src/linux/sysfs.cpp\<close> and
  \<open>src/linux/linux_enumerate.cpp\<close>.

  The file system is the parameter \<open>view\<close>, one snapshot of \<open>/sys\<close>, \<open>/proc\<close>, \<open>/dev\<close> and
  \<open>/run/udev\<close> at the time of a call; the functions of the source are functions of it. A file that
  cannot be opened is \<open>None\<close>. \<open>QDir::entryList\<close>, \<open>canonicalFilePath\<close> and \<open>exists\<close> are its fields.
\<close>

section \<open>The snapshot\<close>

record device_view =
  read_at :: "nat \<Rightarrow> nat \<Rightarrow> bytes"
  seek_ok :: "nat \<Rightarrow> bool"

record view =
  read_text :: "qstring \<Rightarrow> qstring option"
  read_raw :: "qstring \<Rightarrow> bytes option"
  open_device :: "qstring \<Rightarrow> device_view option"
  list_dirs :: "qstring \<Rightarrow> qstring list"
  list_system_dirs :: "qstring \<Rightarrow> qstring list"
  list_entries :: "qstring \<Rightarrow> qstring list"
  path_exists :: "qstring \<Rightarrow> bool"
  dir_exists :: "qstring \<Rightarrow> bool"
  is_executable :: "qstring \<Rightarrow> bool"
  is_directory :: "qstring \<Rightarrow> bool"
  canonical :: "qstring \<Rightarrow> qstring"

definition SysBlock :: qstring where
  "SysBlock = qs ''/sys/block''"

definition join_path :: "qstring \<Rightarrow> qstring \<Rightarrow> qstring" where
  "join_path a b = a @ qs ''/'' @ b"

section \<open>Attributes, devices and mounts\<close>

record DeviceNumber =
  dev_major :: u32
  dev_minor :: u32

definition no_device :: DeviceNumber where
  "no_device = \<lparr>dev_major = 0, dev_minor = 0\<rparr>"

definition isValid :: "DeviceNumber \<Rightarrow> bool" where
  "isValid n \<longleftrightarrow> dev_major n \<noteq> 0 \<or> dev_minor n \<noteq> 0"

record MountEntry =
  mount_device :: DeviceNumber
  mount_point :: qstring
  mount_source :: qstring

definition isExcludedDeviceName :: "qstring \<Rightarrow> bool" where
  "isExcludedDeviceName name =
     list_ex (\<lambda>p. starts_with name (qs p))
       [''loop'', ''ram'', ''dm-'', ''md'', ''zram'', ''nbd'', ''zd'', ''sr'', ''fd'']"

text \<open>The index loop: an octal escape takes four characters, anything else one.\<close>

fun unescapeMountField :: "qstring \<Rightarrow> qstring" where
  "unescapeMountField (c # x # y # z # rest) =
     (if c = 0x5C then
        (case to_octal [x, y, z] of
           Some code \<Rightarrow> word_of_int code # unescapeMountField rest
         | None \<Rightarrow> c # unescapeMountField (x # y # z # rest))
      else c # unescapeMountField (x # y # z # rest))"
| "unescapeMountField s = s"

definition parseDeviceNumber :: "qstring \<Rightarrow> DeviceNumber" where
  "parseDeviceNumber t =
     (case split_keep 0x3A (trimmed t) of
        [a, b] \<Rightarrow> \<lparr>dev_major = (case to_uint a of Some n \<Rightarrow> n | None \<Rightarrow> 0),
                   dev_minor = (case to_uint b of Some n \<Rightarrow> n | None \<Rightarrow> 0)\<rparr>
      | _ \<Rightarrow> no_device)"

definition readSysfsAttribute :: "view \<Rightarrow> qstring \<Rightarrow> qstring" where
  "readSysfsAttribute v path = (case read_text v path of None \<Rightarrow> [] | Some t \<Rightarrow> trimmed t)"

definition listBlockDeviceNames :: "view \<Rightarrow> qstring list" where
  "listBlockDeviceNames v = sort (filter (\<lambda>n. \<not> isExcludedDeviceName n) (list_system_dirs v SysBlock))"

definition listPartitionNames :: "view \<Rightarrow> qstring \<Rightarrow> qstring list" where
  "listPartitionNames v diskName =
     (let dir = join_path SysBlock diskName
      in sort (filter (\<lambda>e. path_exists v (join_path (join_path dir e) (qs ''partition''))) (list_dirs v dir)))"

definition readDeviceNumber :: "view \<Rightarrow> qstring \<Rightarrow> DeviceNumber" where
  "readDeviceNumber v sysfsPath = parseDeviceNumber (readSysfsAttribute v (join_path sysfsPath (qs ''dev'')))"

definition deviceNumbersOnDisk :: "view \<Rightarrow> qstring \<Rightarrow> DeviceNumber list" where
  "deviceNumbersOnDisk v diskName =
     (let disk = join_path SysBlock diskName
      in filter isValid
           (readDeviceNumber v disk #
            map (\<lambda>p. readDeviceNumber v (join_path disk p)) (listPartitionNames v diskName)))"

fun index_of_word :: "qstring \<Rightarrow> qstring list \<Rightarrow> nat option" where
  "index_of_word w [] = None"
| "index_of_word w (x # xs) = (if x = w then Some 0 else map_option Suc (index_of_word w xs))"

definition parseMountLine :: "qstring \<Rightarrow> MountEntry option" where
  "parseMountLine line =
     (let fields = split_skip 0x20 line
      in if length fields < 6 then None
         else Some \<lparr>mount_device = parseDeviceNumber (fields ! 2),
                mount_point = unescapeMountField (fields ! 4),
                mount_source =
                  (case index_of_word (qs ''-'') fields of
                     None \<Rightarrow> []
                   | Some i \<Rightarrow> if i + 2 < length fields then unescapeMountField (fields ! (i + 2)) else [])\<rparr>)"

definition readMounts :: "view \<Rightarrow> MountEntry list" where
  "readMounts v =
     (case read_text v (qs ''/proc/self/mountinfo'') of
        None \<Rightarrow> []
      | Some t \<Rightarrow> List.map_filter parseMountLine (split_skip 10 t))"

text \<open>\<open>^usb[0-9]+$\<close>, which also matches before one final newline.\<close>

definition isUsbController :: "qstring \<Rightarrow> bool" where
  "isUsbController component =
     (let body = (if component \<noteq> [] \<and> last component = 10 then butlast component else component)
      in starts_with body (qs ''usb'') \<and> drop 3 body \<noteq> [] \<and> list_all is_decimal (drop 3 body))"

definition isUsbBlockDevice :: "view \<Rightarrow> qstring \<Rightarrow> bool" where
  "isUsbBlockDevice v diskName =
     (let resolved = canonical v (join_path SysBlock diskName)
      in resolved \<noteq> [] \<and> list_ex isUsbController (split_skip (qc (CHR ''/'')) resolved))"

text \<open>The loop of \<open>linkTo\<close> over the directory, with the fallback found so far.\<close>

fun linkTo_loop :: "view \<Rightarrow> qstring \<Rightarrow> qstring \<Rightarrow> qstring \<Rightarrow> qstring list \<Rightarrow> qstring \<Rightarrow> qstring" where
  "linkTo_loop v directory target preferredPrefix [] fallback = fallback"
| "linkTo_loop v directory target preferredPrefix (entry # entries) fallback =
     (let preferred = starts_with entry preferredPrefix
      in if \<not> preferred \<and> fallback \<noteq> []
         then linkTo_loop v directory target preferredPrefix entries fallback
         else if canonical v (join_path directory entry) \<noteq> target
         then linkTo_loop v directory target preferredPrefix entries fallback
         else if preferred then entry
         else linkTo_loop v directory target preferredPrefix entries entry)"

definition linkTo :: "view \<Rightarrow> qstring \<Rightarrow> qstring \<Rightarrow> qstring \<Rightarrow> qstring" where
  "linkTo v directory deviceName preferredPrefix =
     (if \<not> dir_exists v directory then []
      else linkTo_loop v directory (qs ''/dev/'' @ deviceName) preferredPrefix (list_entries v directory) [])"

definition stableDeviceIdLink :: "view \<Rightarrow> qstring \<Rightarrow> qstring" where
  "stableDeviceIdLink v diskName = linkTo v (qs ''/dev/disk/by-id'') diskName (qs ''usb-'')"

definition labelForPartition :: "view \<Rightarrow> qstring \<Rightarrow> qstring" where
  "labelForPartition v partitionName =
     unescapeMountField (linkTo v (qs ''/dev/disk/by-label'') partitionName [])"

definition parentDiskName :: "view \<Rightarrow> qstring \<Rightarrow> qstring" where
  "parentDiskName v partitionName =
     (case find (\<lambda>disk. partitionName \<noteq> disk \<and>
              path_exists v (join_path (join_path (join_path SysBlock disk) partitionName) (qs ''partition'')))
            (list_dirs v SysBlock) of
        None \<Rightarrow> []
      | Some disk \<Rightarrow> disk)"

section \<open>udev records and partition styles\<close>

text \<open>The inner loop: the first key whose prefix the line has takes the value.\<close>

fun udev_line :: "bytes list \<Rightarrow> bytes \<Rightarrow> bytes list \<Rightarrow> bytes list" where
  "udev_line (key # keys) line (v # vs) =
     (let p = bs ''E:'' @ key @ bs ''=''
      in if take (length p) line = p then drop (length p) line # vs
         else v # udev_line keys line vs)"
| "udev_line _ line vs = vs"

definition udevProperties :: "view \<Rightarrow> DeviceNumber \<Rightarrow> bytes list \<Rightarrow> bytes list" where
  "udevProperties v n keys =
     (let none = replicate (length keys) []
      in if \<not> isValid n then none
         else case read_raw v (qs ''/run/udev/data/b'' @ number (unat (dev_major n)) @ qs '':'' @
                number (unat (dev_minor n))) of
           None \<Rightarrow> none
         | Some content \<Rightarrow>
             fold (\<lambda>line. udev_line keys (trimmed_bytes line)) (split_keep 10 content) none)"

definition udevProperty :: "view \<Rightarrow> DeviceNumber \<Rightarrow> bytes \<Rightarrow> bytes" where
  "udevProperty v n key = hd (udevProperties v n [key])"

definition partitionStyleFromUdevDatabase :: "view \<Rightarrow> qstring \<Rightarrow> PartitionStyle" where
  "partitionStyleFromUdevDatabase v devicePath =
     (let n = readDeviceNumber v (join_path SysBlock (file_name devicePath));
          value = udevProperty v n (bs ''ID_PART_TABLE_TYPE'')
      in if value = bs ''gpt'' then Gpt else if value = bs ''dos'' then Mbr else Unknown)"

definition fileSystemTypeForDevice :: "view \<Rightarrow> qstring \<Rightarrow> qstring" where
  "fileSystemTypeForDevice v sysfsPath =
     (let values = udevProperties v (readDeviceNumber v sysfsPath) [bs ''ID_FS_TYPE'', bs ''ID_FS_VERSION''];
          type = values ! 0; version = values ! 1
      in if type = bs ''vfat'' \<and> version \<noteq> [] then from_latin1 version else from_latin1 type)"

definition detectPartitionStyle :: "view \<Rightarrow> qstring \<Rightarrow> u32 \<Rightarrow> PartitionStyle" where
  "detectPartitionStyle v devicePath s =
     (case open_device v devicePath of
        None \<Rightarrow> partitionStyleFromUdevDatabase v devicePath
      | Some device \<Rightarrow>
          let sector = unat (effectiveSectorSize s);
              first = read_at device 0 sector
          in if length first < 512 then Unknown
             else if seek_ok device sector \<and> read_at device sector 8 = bs ''EFI PART'' then Gpt
             else if first ! 510 = 0x55 \<and> first ! 511 = 0xAA then Mbr
             else Unknown)"

definition findSystemExecutable :: "view \<Rightarrow> qstring \<Rightarrow> qstring" where
  "findSystemExecutable v name =
     (case find (\<lambda>c. path_exists v c \<and> is_executable v c \<and> \<not> is_directory v c)
            (map (\<lambda>d. join_path (qs d) name)
               [''/usr/sbin'', ''/sbin'', ''/usr/bin'', ''/bin'', ''/usr/local/sbin'', ''/usr/local/bin'']) of
        None \<Rightarrow> []
      | Some c \<Rightarrow> c)"

section \<open>Enumeration\<close>

definition SysfsSectorUnit :: u64 where
  "SysfsSectorUnit = 512"

definition protectedSystemMounts :: "qstring list" where
  "protectedSystemMounts = map qs [''/'', ''/boot'', ''/boot/efi'', ''/efi'', ''/etc'', ''/home'', ''/nix'',
     ''/opt'', ''/srv'', ''/usr'', ''/var'']"

definition devicePathFor :: "qstring \<Rightarrow> qstring" where
  "devicePathFor kernelName = qs ''/dev/'' @ kernelName"

definition append_new :: "qstring \<Rightarrow> qstring list \<Rightarrow> qstring list" where
  "append_new x xs = (if x \<in> set xs then xs else xs @ [x])"

definition display_partition :: "view \<Rightarrow> qstring \<Rightarrow> qstring \<Rightarrow> DiskInfo \<Rightarrow> DiskInfo" where
  "display_partition v sysfs part disk =
     (let label = labelForPartition v part;
          disk = (if label \<noteq> [] then disk\<lparr>labels := append_new label (labels disk)\<rparr> else disk);
          fs = fileSystemTypeForDevice v (join_path sysfs part)
      in if fs \<noteq> [] then disk\<lparr>fileSystems := append_new fs (fileSystems disk)\<rparr> else disk)"

text \<open>The attributes of the disk, then the display-only facts, then its mount points.\<close>

definition disk_attributes :: "unicode \<Rightarrow> view \<Rightarrow> qstring \<Rightarrow> DiskInfo" where
  "disk_attributes U v diskName =
     (let sysfs = qs ''/sys/block/'' @ diskName;
          attribute = (\<lambda>a. readSysfsAttribute v (sysfs @ qs a));
          device = devicePathFor diskName;
          joined = trimmed (attribute ''/device/vendor'' @ qs '' '' @ attribute ''/device/model'');
          name = (if joined = [] then qs ''USB disk'' else joined);
          link = stableDeviceIdLink v diskName;
          size' = (case to_ulonglong (attribute ''/size'') of Some n \<Rightarrow> n | None \<Rightarrow> 0) * SysfsSectorUnit;
          sector = (case to_uint (attribute ''/queue/logical_block_size'') of Some n \<Rightarrow> n | None \<Rightarrow> 0)
      in empty_disk
           \<lparr>deviceId := device, displayId := device,
            busType := (if isUsbBlockDevice v diskName then UsbBusType else 0),
            disk_name := name, uniqueId := link, serialNumber := serialFromUsbByIdLink U link name,
            disk_path := canonical v sysfs,
            deviceSequence := (case to_ulonglong (attribute ''/diskseq'') of
              Some n \<Rightarrow> if n \<noteq> 0 then Some n else None | None \<Rightarrow> None),
            disk_size := size', sectorSize := (if sector = 0 then 512 else sector),
            isReadOnly := (attribute ''/ro'' = qs ''1''), isOffline := (size' = 0)\<rparr>)"

definition display_facts :: "view \<Rightarrow> qstring \<Rightarrow> DiskInfo \<Rightarrow> DiskInfo" where
  "display_facts v diskName disk =
     (let sysfs = qs ''/sys/block/'' @ diskName;
          disk = disk\<lparr>partitionStyle := partition_style_code (detectPartitionStyle v (deviceId disk) (sectorSize disk))\<rparr>;
          whole = fileSystemTypeForDevice v sysfs;
          disk = (if whole \<noteq> [] then disk\<lparr>fileSystems := fileSystems disk @ [whole]\<rparr> else disk)
      in fold (display_partition v sysfs) (listPartitionNames v diskName) disk)"

definition diskInfoWithMounts :: "unicode \<Rightarrow> view \<Rightarrow> qstring \<Rightarrow> MountEntry list \<Rightarrow> DiskDetails \<Rightarrow> DiskInfo" where
  "diskInfoWithMounts U v diskName mounts details =
     (let disk = disk_attributes U v diskName;
          disk = (if details = DisplayDetails then display_facts v diskName disk else disk);
          owned = deviceNumbersOnDisk v diskName
      in disk\<lparr>mountPoints :=
           fold (\<lambda>m. if mount_device m \<in> set owned then append_new (mount_point m) else id) mounts
             (mountPoints disk)\<rparr>)"

definition diskInfoFor :: "unicode \<Rightarrow> view \<Rightarrow> qstring \<Rightarrow> DiskDetails \<Rightarrow> DiskInfo" where
  "diskInfoFor U v diskName details = diskInfoWithMounts U v diskName (readMounts v) details"

datatype EnumerateError =
    SysBlockNotAvailable
  | NoLongerPresent qstring
  | NoLongerOnUsb qstring

definition listUsbDiskInfos :: "unicode \<Rightarrow> view \<Rightarrow> EnumerateError + DiskInfo list" where
  "listUsbDiskInfos U v =
     (let names = listBlockDeviceNames v
      in if names = [] \<and> \<not> dir_exists v SysBlock then Inl SysBlockNotAvailable
         else Inr (map (\<lambda>n. diskInfoWithMounts U v n (readMounts v) DisplayDetails)
                (filter (isUsbBlockDevice v) names)))"

definition refreshUsbDisk :: "unicode \<Rightarrow> view \<Rightarrow> qstring \<Rightarrow> DiskDetails \<Rightarrow> EnumerateError + DiskInfo" where
  "refreshUsbDisk U v devId details =
     (let name = file_name devId
      in if name = [] \<or> \<not> dir_exists v (qs ''/sys/block/'' @ name) then Inl (NoLongerPresent devId)
         else if \<not> isUsbBlockDevice v name then Inl (NoLongerOnUsb devId)
         else Inr (diskInfoFor U v name details))"

definition guard_mount :: "unicode \<Rightarrow> view \<Rightarrow> MountEntry \<Rightarrow> qstring list \<Rightarrow> qstring list" where
  "guard_mount U v mount ids =
     (if \<not> isProtectedMountPoint U (mount_point mount) protectedSystemMounts then ids
      else if \<not> starts_with (mount_source mount) (qs ''/dev/'') then ids
      else
        let name = file_name (mount_source mount);
            disk = parentDiskName v name
        in append_new (devicePathFor (if disk = [] then name else disk)) ids)"

definition linuxRestoreGuard :: "unicode \<Rightarrow> view \<Rightarrow> RestoreGuard" where
  "linuxRestoreGuard U v =
     \<lparr>guard_mountPoints = protectedSystemMounts,
      guard_deviceIds = fold (guard_mount U v) (readMounts v) []\<rparr>"

section \<open>What the guard and a described disk contain\<close>

lemma set_append_new [simp]: "set (append_new x xs) = insert x (set xs)"
  by (auto simp: append_new_def)

lemma distinct_append_new [intro]: "distinct xs \<Longrightarrow> distinct (append_new x xs)"
  by (simp add: append_new_def)

lemma fold_append_new:
  "set (fold (\<lambda>m. if P m then append_new (f m) else id) ms xs) = set xs \<union> f ` {m \<in> set ms. P m} \<and>
   (distinct xs \<longrightarrow> distinct (fold (\<lambda>m. if P m then append_new (f m) else id) ms xs))"
proof (induction ms arbitrary: xs)
  case (Cons m ms)
  show ?case using Cons.IH [of "append_new (f m) xs"] Cons.IH [of xs]
    by (auto simp: distinct_append_new)
qed simp

definition whole_disk_node :: "view \<Rightarrow> qstring \<Rightarrow> qstring" where
  "whole_disk_node v src =
     (let disk = parentDiskName v (file_name src)
      in devicePathFor (if disk = [] then file_name src else disk))"

lemma guard_mount_pins:
  "set (fold (guard_mount U v) ms ids) = set ids \<union>
     (whole_disk_node v \<circ> mount_source) `
       {m \<in> set ms. isProtectedMountPoint U (mount_point m) protectedSystemMounts \<and>
          starts_with (mount_source m) (qs ''/dev/'')}"
  by (induction ms arbitrary: ids) (auto simp: guard_mount_def whole_disk_node_def Let_def)

lemma display_partition_keeps [simp]:
  "mountPoints (display_partition v p n d) = mountPoints d" "deviceId (display_partition v p n d) = deviceId d"
  "busType (display_partition v p n d) = busType d"
  by (simp_all add: display_partition_def Let_def)

lemma fold_display_partition_keeps [simp]:
  "mountPoints (fold (display_partition v p) ns d) = mountPoints d"
  "deviceId (fold (display_partition v p) ns d) = deviceId d"
  "busType (fold (display_partition v p) ns d) = busType d"
  by (induction ns arbitrary: d) simp_all

lemma disk_attributes_fields [simp]:
  "deviceId (disk_attributes U v n) = devicePathFor n"
  "busType (disk_attributes U v n) = (if isUsbBlockDevice v n then UsbBusType else 0)"
  "mountPoints (disk_attributes U v n) = []"
  unfolding disk_attributes_def Let_def
  by (simp_all only: DiskInfo.simps DiskInfo.update_convs DiskInfo.select_convs empty_disk_def)

lemma display_facts_keeps [simp]:
  "mountPoints (display_facts v n d) = mountPoints d" "deviceId (display_facts v n d) = deviceId d"
  "busType (display_facts v n d) = busType d"
  by (simp_all add: display_facts_def Let_def)

lemma diskInfo_identity:
  "deviceId (diskInfoWithMounts U v n ms details) = devicePathFor n"
  "busType (diskInfoWithMounts U v n ms details) = (if isUsbBlockDevice v n then UsbBusType else 0)"
  by (simp_all add: diskInfoWithMounts_def Let_def)

lemma diskInfo_mountPoints:
  "set (mountPoints (diskInfoWithMounts U v n ms details)) =
     mount_point ` {m \<in> set ms. mount_device m \<in> set (deviceNumbersOnDisk v n)} \<and>
   distinct (mountPoints (diskInfoWithMounts U v n ms details))"
  using fold_append_new [of "\<lambda>m. mount_device m \<in> set (deviceNumbersOnDisk v n)" mount_point ms "[]"]
  by (auto simp: diskInfoWithMounts_def Let_def)

lemma devicePathFor_inject [simp]: "devicePathFor a = devicePathFor b \<longleftrightarrow> a = b"
  by (simp add: devicePathFor_def)

lemma dropWhile_eq_Nil_last: "xs \<noteq> [] \<Longrightarrow> \<not> P (hd xs) \<Longrightarrow> dropWhile P xs \<noteq> []"
  by (cases xs) auto

lemma trimmed_devicePathFor: "trimmed (devicePathFor n) \<noteq> []"
proof -
  have front: "trim_front (devicePathFor n) = devicePathFor n"
    by (simp add: trim_front_def devicePathFor_def qs_def qc_def is_space_def)
  have "\<exists>c \<in> set (devicePathFor n). \<not> is_space c"
    by (rule bexI [of _ "qc (CHR ''/'')"]) (simp_all add: devicePathFor_def qs_def qc_def is_space_def)
  then have "dropWhile is_space (rev (devicePathFor n)) \<noteq> []" by (simp add: dropWhile_eq_Nil_conv)
  then show ?thesis unfolding trimmed_def front by (simp add: trim_front_def)
qed

text \<open>C32. A disk of the running system is never restored, however its mount is spelled: when the live mount
  table has a protected mount whose device belongs to the disk, or whose source is a node of the disk,
  the guard taken from that table makes the safety gate refuse the disk.\<close>

theorem system_disk_is_refused:
  assumes "m \<in> set (readMounts v)" "isProtectedMountPoint U (mount_point m) protectedSystemMounts"
    and "mount_device m \<in> set (deviceNumbersOnDisk v n) \<or>
      (starts_with (mount_source m) (qs ''/dev/'') \<and> whole_disk_node v (mount_source m) = devicePathFor n)"
    and "\<forall>s. fold_case U s = [] \<longrightarrow> s = []"
  shows "isSafeRestoreTarget U (diskInfoFor U v n details) (linuxRestoreGuard U v) \<noteq> None"
proof
  let ?d = "diskInfoFor U v n details"
  assume "isSafeRestoreTarget U ?d (linuxRestoreGuard U v) = None"
  note safe = this [unfolded isSafeRestoreTarget_None]
  from assms(3) show False
  proof
    assume "mount_device m \<in> set (deviceNumbersOnDisk v n)"
    then have "mount_point m \<in> set (mountPoints ?d)"
      using assms(1) diskInfo_mountPoints [of U v n "readMounts v" details] by (auto simp: diskInfoFor_def)
    with safe assms(2) show False by (auto simp: linuxRestoreGuard_def list_all_iff)
  next
    assume "starts_with (mount_source m) (qs ''/dev/'') \<and> whole_disk_node v (mount_source m) = devicePathFor n"
    then have "devicePathFor n \<in> set (guard_deviceIds (linuxRestoreGuard U v))"
      using assms(1,2) guard_mount_pins [of U v "readMounts v" "[]"] by (force simp: linuxRestoreGuard_def)
    moreover have "bothKnownAndEqual U (devicePathFor n) (devicePathFor n)"
      using assms(4) trimmed_devicePathFor [of n] by (auto simp: bothKnownAndEqual_def normalizedIdentity_def)
    ultimately show False using safe by (auto simp: list_all_iff diskInfoFor_def diskInfo_identity)
  qed
qed

text \<open>The mount points of a described disk are exactly the mounts of the kernel's table whose device
  number is the disk's or one of its partitions', each once; a disk that cannot be refreshed is not described.\<close>

lemma refreshed_disk_mounts:
  "case refreshUsbDisk U v devId details of
     Inl _ \<Rightarrow> \<not> (isUsbBlockDevice v (file_name devId) \<and> file_name devId \<noteq> [] \<and>
       dir_exists v (qs ''/sys/block/'' @ file_name devId))
   | Inr disk \<Rightarrow> deviceId disk = devicePathFor (file_name devId) \<and> busType disk = UsbBusType \<and>
       set (mountPoints disk) = mount_point ` {m \<in> set (readMounts v).
         mount_device m \<in> set (deviceNumbersOnDisk v (file_name devId))} \<and>
       distinct (mountPoints disk)"
  using diskInfo_mountPoints [of U v "file_name devId" "readMounts v" details]
  by (auto simp: refreshUsbDisk_def Let_def diskInfoFor_def diskInfo_identity)

section \<open>Escapes\<close>

text \<open>How the kernel writes a path field: space, tab, newline and backslash as three octal digits.\<close>

fun escapeMountField :: "qstring \<Rightarrow> qstring" where
  "escapeMountField [] = []"
| "escapeMountField (c # s) =
     (if c \<in> {0x20, 9, 10, 0x5C} then
        0x5C # (0x30 + c div 64) # (0x30 + c div 8 mod 8) # (0x30 + c mod 8) # escapeMountField s
      else c # escapeMountField s)"

lemma unescape_plain: "c \<noteq> 0x5C \<Longrightarrow> unescapeMountField (c # s) = c # unescapeMountField s"
  by (cases s; cases "tl s"; cases "tl (tl s)") auto

lemma to_octal_escape:
  "c \<in> {0x20, 9, 10, 0x5C :: qchar} \<Longrightarrow>
   to_octal [0x30 + c div 64, 0x30 + c div 8 mod 8, 0x30 + c mod 8] = Some (uint c)"
  by (elim insertE emptyE; hypsubst)
    (simp_all add: to_octal_def trimmed_def trim_front_def is_space_def is_octal_def octal_value_def Let_def)

text \<open>Reading a mount field gives back the path the kernel escaped into it.\<close>

lemma mount_field_round_trip: "unescapeMountField (escapeMountField s) = s"
proof (induction s)
  case (Cons c s)
  show ?case
  proof (cases "c \<in> {0x20, 9, 10, 0x5C}")
    case True
    then have "escapeMountField (c # s) =
        0x5C # (0x30 + c div 64) # (0x30 + c div 8 mod 8) # (0x30 + c mod 8) # escapeMountField s"
      by (simp only: escapeMountField.simps if_True)
    then show ?thesis by (simp only: unescapeMountField.simps to_octal_escape [OF True]) (simp add: Cons.IH)
  next
    case False
    then show ?thesis by (simp add: unescape_plain Cons.IH)
  qed
qed simp

definition running_stick :: view where
  "running_stick =
     \<lparr>read_text = (\<lambda>p. if p = qs ''/proc/self/mountinfo'' then Some (qs ''1 1 8:17 / / - e /dev/sdb1'') else None),
      read_raw = (\<lambda>_. None), open_device = (\<lambda>_. None),
      list_dirs = (\<lambda>p. if p = SysBlock then [qs ''sda'', qs ''sdb''] else []),
      list_system_dirs = (\<lambda>_. []), list_entries = (\<lambda>_. []),
      path_exists = (\<lambda>p. p = qs ''/sys/block/sdb/sdb1/partition''), dir_exists = (\<lambda>_. True),
      is_executable = (\<lambda>_. False), is_directory = (\<lambda>_. False), canonical = (\<lambda>p. p)\<rparr>"

definition root_mount :: MountEntry where
  "root_mount = \<lparr>mount_device = \<lparr>dev_major = 8, dev_minor = 17\<rparr>, mount_point = qs ''/'', mount_source = qs ''/dev/sdb1''\<rparr>"

lemma running_stick_line: "parseMountLine (qs ''1 1 8:17 / / - e /dev/sdb1'') = Some root_mount"
  by (simp add: parseMountLine_def split_skip_def qs_def qc_def root_mount_def parseDeviceNumber_def Let_def
      trimmed_def trim_front_def is_space_def to_uint_def to_unsigned_def unsigned_digits_def digits_value_def
      is_decimal_def)

lemma running_stick_mounts: "readMounts running_stick = [root_mount]"
proof -
  have "split_skip 10 (qs ''1 1 8:17 / / - e /dev/sdb1'') = [qs ''1 1 8:17 / / - e /dev/sdb1'']"
    by (simp add: split_skip_def qs_def qc_def)
  then show ?thesis by (simp add: readMounts_def running_stick_def running_stick_line List.map_filter_def)
qed

lemma running_stick_disk: "whole_disk_node running_stick (mount_source root_mount) = devicePathFor (qs ''sdb'')"
  by code_simp

lemma root_mount_protected: "isProtectedMountPoint ascii_tables (mount_point root_mount) protectedSystemMounts"
  by code_simp

lemma root_mount_source: "starts_with (mount_source root_mount) (qs ''/dev/'')"
  by code_simp

lemma fold_case_ascii: "fold_case ascii_tables s = s"
  by (simp add: ascii_tables_def)

theorem system_disk_is_refused_witness:
  "isSafeRestoreTarget ascii_tables (diskInfoFor ascii_tables running_stick (qs ''sdb'') RestoreDetails)
     (linuxRestoreGuard ascii_tables running_stick) \<noteq> None"
  by (rule system_disk_is_refused [of root_mount])
    (simp_all add: running_stick_mounts running_stick_disk root_mount_protected root_mount_source fold_case_ascii)

end
