(* ===== verification/Restore_Session.thy ===== *)
theory Restore_Session
  imports Linux_Sysfs Action_Monad Partition_Table
begin

text \<open>
  The world a Linux restore runs in: the operating system, the reporter of
  \<open>src/platform/disk_service.h\<close>, and the objects of one call of \<open>performLinuxRestore\<close>.

  \<^item> An \<open>event\<close> is one interaction with the outside together with its answer: a system call, an
    \<open>ioctl\<close>, a look at the file system, a report, a question to the reporter.
  \<^item> An \<open>os\<close> answers each kind of interaction from the interactions so far, newest first, so two reads
    of the same thing may differ. Nothing is assumed of the answers; theorems that need more of the
    kernel name it.
  \<^item> A Linux restore is an \<open>action\<close>: an action of \<open>Action_Monad\<close> over this \<open>os\<close> and \<open>world\<close>.
  \<^item> Objects with a destructor live in the world, so that a destructor runs on every way out of its scope.
\<close>

section \<open>Errors\<close>

type_synonym errno = nat
type_synonym descriptor = nat

definition EINTR :: errno where "EINTR = 4"
definition EBUSY :: errno where "EBUSY = 16"
definition EINVAL :: errno where "EINVAL = 22"
definition ENOENT :: errno where "ENOENT = 2"

datatype DeviceContext =
    OpeningDevice | ReadingInformation | WritingDevice | SavingChanges | RescanningTable | UnmountingVolume

datatype LoopContext =
    ReadingThroughLoop | ReachingLoopDriver | SettingUpLoop | PreparingPartition | FinishingVolume | ClosingLoop

text \<open>What could not be done with a device that is not open.\<close>

datatype ClosedUse = NothingChecked | PartitionNotChecked | NothingWritten | TableNotReread

datatype FileSystemRefusal =
    NoFat32ForSector u32
  | TooLargeForFat32 u64 u32
  | TooSmallForFat32 u64

datatype RestoreError =
    NotSafe SafetyRefusal
  | NotTheSelectedDisk IdentityRefusal
  | NoLayout LayoutError
  | TableRefused WriteRefusal
  | FileSystemRefused FileSystemRefusal
  | NotEnumerated EnumerateError
  | DeviceError DeviceContext qstring errno
  | LoopError LoopContext errno
  | StillInUse qstring
  | NotADiskDevice qstring
  | NotOpen ClosedUse qstring
  | NoInstanceNumber qstring
  | AnotherInstance qstring
  | NotAWholeDisk qstring
  | NodeMoved qstring
  | NoMediaReported qstring
  | HoldsAnotherDrive qstring u64 u64
  | AnotherSectorSize qstring u32 u32
  | WriteProtected qstring
  | NotOnTheUsbBus qstring
  | NotAPartitionOf qstring qstring
  | DiskReplaced qstring
  | StoppedAccepting qstring
  | UnalignedZeroRange u64 u64 u32
  | LoopAlreadySetUp
  | NotReadableForFormatting
  | OutsideTheDrive
  | HoldsSystemMount qstring qstring
  | ToolMissing FileSystemType
  | ToolNotStarted qstring
  | ToolTimedOut qstring
  | ToolFailed qstring qstring qstring
  | NothingToClear qstring
  | NotReidentified qstring
  | PartitionDidNotAppear qstring

section \<open>Interactions\<close>

datatype Access = Inspect | Exclusive | ReadWrite | ExclusiveClaim

datatype node = BlockNode DeviceNumber | RegularFile u64 | OtherNode

record loop_config =
  config_fd :: descriptor
  block_size :: u32
  lo_offset :: u64
  lo_sizelimit :: u64
  autoclear :: bool

text \<open>\<open>Finished ok output\<close>: whether it was a normal exit with code 0, and its trimmed output.\<close>

datatype tool_result =
    NotStarted
  | TimedOut
  | Finished bool qstring

datatype detail =
    OutOfPlanOrder RestoreStep
  | Unmounting qstring
  | TryingAgain nat
  | OwnerWillBe u32 u32
  | OwnerWillBeRoot
  | ToolRan qstring "qstring list"
  | ToolOutput qstring
  | ToolRefused qstring "qstring list" qstring
  | RereadProblem RestoreError
  | StillWaiting qstring nat

text \<open>The three \<open>BlockDevice\<close> objects of a restore; a handle of the loop driver is closed as \<open>None\<close>.\<close>

datatype object = Inspected | Restored | NewPartition

datatype event =
    StepReported RestoreStep
  | DetailReported detail
  | CancelAsked bool
  | Looked view
  | Opened qstring Access "errno + descriptor"
  | Closed "object option" descriptor
  | NodeRead descriptor "errno + node"
  | SizeRead descriptor "u64 option"
  | SectorSizeRead descriptor "u32 option"
  | SequenceRead descriptor "u64 option"
  | Wrote descriptor u64 bytes "errno + nat"
  | Synced descriptor "errno option"
  | BuffersDropped descriptor "errno option"
  | TableReread descriptor "errno option"
  | Unmounted qstring "errno option"
  | LoopNumber bool "errno + nat"
  | LoopConfigured qstring descriptor loop_config "errno option"
  | LoopCleared descriptor "errno option"
  | RandomRead "u32 \<times> u32 \<times> u32 \<times> u32"
  | EnvironmentRead string bytes
  | PasswdRead u32 "u32 option"
  | ToolStarted qstring "qstring list" tool_result
  | PathChecked qstring bool
  | ClockRead nat
  | Slept nat

type_synonym history = "event list"

text \<open>\<open>deepest_first\<close> is \<open>std::sort\<close> by descending length of the mount point, which leaves the order of
  equally long ones open; paths are passed to the system calls as they are. \<open>stale_errno\<close> is what \<open>errno\<close> holds when no call
  set it.\<close>

record os =
  tables :: unicode
  view_of :: "history \<Rightarrow> view"
  cancel_answer :: "history \<Rightarrow> bool"
  open_answer :: "history \<Rightarrow> qstring \<Rightarrow> Access \<Rightarrow> errno + descriptor"
  fstat_answer :: "history \<Rightarrow> descriptor \<Rightarrow> errno + node"
  size_answer :: "history \<Rightarrow> descriptor \<Rightarrow> u64 option"
  sector_answer :: "history \<Rightarrow> descriptor \<Rightarrow> u32 option"
  sequence_answer :: "history \<Rightarrow> descriptor \<Rightarrow> u64 option"
  pwrite_answer :: "history \<Rightarrow> descriptor \<Rightarrow> u64 \<Rightarrow> bytes \<Rightarrow> errno + nat"
  fsync_answer :: "history \<Rightarrow> descriptor \<Rightarrow> errno option"
  flsbuf_answer :: "history \<Rightarrow> descriptor \<Rightarrow> errno option"
  rrpart_answer :: "history \<Rightarrow> descriptor \<Rightarrow> errno option"
  umount_answer :: "history \<Rightarrow> qstring \<Rightarrow> errno option"
  loop_number_answer :: "history \<Rightarrow> bool \<Rightarrow> errno + nat"
  loop_configure_answer :: "history \<Rightarrow> descriptor \<Rightarrow> loop_config \<Rightarrow> errno option"
  loop_clear_answer :: "history \<Rightarrow> descriptor \<Rightarrow> errno option"
  random_answer :: "history \<Rightarrow> u32 \<times> u32 \<times> u32 \<times> u32"
  environment_answer :: "history \<Rightarrow> string \<Rightarrow> bytes"
  passwd_answer :: "history \<Rightarrow> u32 \<Rightarrow> u32 option"
  tool_answer :: "history \<Rightarrow> qstring \<Rightarrow> qstring list \<Rightarrow> tool_result"
  exists_answer :: "history \<Rightarrow> qstring \<Rightarrow> bool"
  clock_answer :: "history \<Rightarrow> nat"
  stale_errno :: "history \<Rightarrow> errno"
  deepest_first :: "MountEntry list \<Rightarrow> MountEntry list"

section \<open>The world and its actions\<close>

record BlockDevice =
  devicePath :: qstring
  device_fd :: "descriptor option"

record LoopDevice =
  loop_fd :: "descriptor option"
  loop_claim :: "descriptor option"
  loop_path :: qstring

record world = "event session" +
  devices :: "object \<Rightarrow> BlockDevice"
  formatter :: LoopDevice

definition no_loop :: LoopDevice where
  "no_loop = \<lparr>loop_fd = None, loop_claim = None, loop_path = []\<rparr>"

definition new_world :: world where
  "new_world = \<lparr>happened = [], steps_counter = new_counter linuxRestorePlan,
     devices = (\<lambda>_. \<lparr>devicePath = [], device_fd = None\<rparr>), formatter = no_loop\<rparr>"

type_synonym 'a ending = "('a, RestoreError) outcome"

type_synonym 'a action = "('a, RestoreError, os, world) act"

definition unicode_tables :: "unicode action" where
  "unicode_tables S w = Some (Ok (tables S), w)"

definition errno_left :: "errno action" where
  "errno_left S w = Some (Ok (stale_errno S (happened w)), w)"

definition look :: "view action" where
  "look = ask view_of Looked"

definition detail :: "detail \<Rightarrow> unit action" where
  "detail d = tell (DetailReported d)"

definition stop_if_cancelled :: "unit action" where
  "stop_if_cancelled = andThen (ask cancel_answer CancelAsked) (\<lambda>c. if c then stop else give ())"

definition reportPlannedStep :: "RestoreStep \<Rightarrow> unit action" where
  "reportPlannedStep = report_with (\<lambda>s. DetailReported (OutOfPlanOrder s)) StepReported"

lemma wp_unicode_tables [run_simps]: "wp t unicode_tables S Q R w = Q (tables S) w"
  by (simp add: wp_def unicode_tables_def)

lemma wp_errno_left [run_simps]: "wp t errno_left S Q R w = Q (stale_errno S (happened w)) w"
  by (simp add: wp_def errno_left_def)

lemma noting_simps [simp]: "devices (noting e w) = devices w" "formatter (noting e w) = formatter w"
  by (simp_all add: noting_def)

end
