(* ===== verification/Block_Device.thy ===== *)
theory Block_Device
  imports Restore_Session
begin

text \<open>
  \<open>src/linux/block_device.cpp\<close>: the handle of a disk device and the loop device the formatter writes
  through. A method is an action on the object named by its first argument; \<open>LoopDevice\<close> has one object.
  Errors are constructors with the arguments of their texts, which are in \<open>Linux_Messages\<close>.
\<close>

section \<open>BlockDevice\<close>

definition WriteChunkBytes :: u64 where
  "WriteChunkBytes = 4 * 1024 * 1024"

definition EBADF :: errno where "EBADF = 9"

definition the_device :: "object \<Rightarrow> BlockDevice action" where
  "the_device x = get (\<lambda>w. devices w x)"

definition set_device :: "object \<Rightarrow> BlockDevice \<Rightarrow> unit action" where
  "set_device x d = change (\<lambda>w. w\<lparr>devices := (devices w)(x := d)\<rparr>)"

definition construct :: "object \<Rightarrow> qstring \<Rightarrow> unit action" where
  "construct x path = set_device x \<lparr>devicePath = path, device_fd = None\<rparr>"

definition closeDevice :: "object \<Rightarrow> unit action" where
  "closeDevice x =
     andThen (the_device x) (\<lambda>d.
     case device_fd d of
       None \<Rightarrow> give ()
     | Some fd \<Rightarrow>
         andThen (tell (Closed (Some x) fd)) (\<lambda>_. set_device x (d\<lparr>device_fd := None\<rparr>)))"

definition openDevice :: "object \<Rightarrow> Access \<Rightarrow> unit action" where
  "openDevice x access =
     andThen (closeDevice x) (\<lambda>_.
     andThen (the_device x) (\<lambda>d.
     andThen (ask (\<lambda>S h. open_answer S h (devicePath d) access) (Opened (devicePath d) access)) (\<lambda>r.
     case r of
       Inr fd \<Rightarrow> set_device x (d\<lparr>device_fd := Some fd\<rparr>)
     | Inl e \<Rightarrow> if access = Exclusive \<and> e = EBUSY then fail (StillInUse (devicePath d))
                else fail (DeviceError OpeningDevice (devicePath d) e))))"

definition sizeInBytes :: "object \<Rightarrow> u64 action" where
  "sizeInBytes x =
     andThen (the_device x) (\<lambda>d.
     case device_fd d of
       None \<Rightarrow> give 0
     | Some fd \<Rightarrow>
         andThen (ask (\<lambda>S h. size_answer S h fd) (SizeRead fd)) (\<lambda>r.
         give (case r of Some n \<Rightarrow> n | None \<Rightarrow> 0)))"

definition logicalSectorSize :: "object \<Rightarrow> u32 action" where
  "logicalSectorSize x =
     andThen (the_device x) (\<lambda>d.
     case device_fd d of
       None \<Rightarrow> give 0
     | Some fd \<Rightarrow>
         andThen (ask (\<lambda>S h. sector_answer S h fd) (SectorSizeRead fd)) (\<lambda>r.
         give (case r of Some n \<Rightarrow> n | None \<Rightarrow> 0)))"

text \<open>\<open>fstat(-1)\<close> fails with \<open>EBADF\<close>.\<close>

definition blockDeviceNumber :: "object \<Rightarrow> DeviceNumber action" where
  "blockDeviceNumber x =
     andThen (the_device x) (\<lambda>d.
     case device_fd d of
       None \<Rightarrow> fail (DeviceError ReadingInformation (devicePath d) EBADF)
     | Some fd \<Rightarrow>
         andThen (ask (\<lambda>S h. fstat_answer S h fd) (NodeRead fd)) (\<lambda>r.
         case r of
           Inl e \<Rightarrow> fail (DeviceError ReadingInformation (devicePath d) e)
         | Inr (BlockNode n) \<Rightarrow> give n
         | Inr _ \<Rightarrow> fail (NotADiskDevice (devicePath d))))"

definition diskSequence :: "object \<Rightarrow> u64 option action" where
  "diskSequence x =
     andThen (the_device x) (\<lambda>d.
     case device_fd d of
       None \<Rightarrow> give None
     | Some fd \<Rightarrow>
         andThen (ask (\<lambda>S h. sequence_answer S h fd) (SequenceRead fd)) (\<lambda>r.
         give (case r of Some n \<Rightarrow> if n = 0 then None else Some n | None \<Rightarrow> None)))"

text \<open>\<open>verifyIdentity\<close> in the order of its refusals: the handle, then what sysfs says now.\<close>

definition verifyHandle :: "object \<Rightarrow> DiskInfo \<Rightarrow> unit action" where
  "verifyHandle x expected =
     andThen (the_device x) (\<lambda>d.
     andThen (check (device_fd d \<noteq> None) (NotOpen NothingChecked (devicePath d))) (\<lambda>_.
     andThen (blockDeviceNumber x) (\<lambda>actual.
     andThen (if deviceSequence expected = None then give None else diskSequence x) (\<lambda>seq.
     andThen (check (seq \<noteq> None) (NoInstanceNumber (devicePath d))) (\<lambda>_.
     andThen (check (isSameDeviceSequence (deviceSequence expected) seq) (AnotherInstance (devicePath d))) (\<lambda>_.
     andThen look (\<lambda>v.
     let expectedNumber = readDeviceNumber v (join_path SysBlock (file_name (devicePath d)))
     in andThen (check (isValid expectedNumber) (NotAWholeDisk (devicePath d))) (\<lambda>_.
        check (actual = expectedNumber) (NodeMoved (devicePath d))))))))))"

definition verifyMedia :: "object \<Rightarrow> DiskInfo \<Rightarrow> unit action" where
  "verifyMedia x expected =
     andThen (the_device x) (\<lambda>d.
     andThen (sizeInBytes x) (\<lambda>reportedSize.
     andThen (check (reportedSize \<noteq> 0) (NoMediaReported (devicePath d))) (\<lambda>_.
     andThen (check (disk_size expected = 0 \<or> reportedSize = disk_size expected)
       (HoldsAnotherDrive (devicePath d) reportedSize (disk_size expected))) (\<lambda>_.
     andThen (logicalSectorSize x) (\<lambda>reportedSector.
     check (reportedSector \<noteq> 0 \<and> reportedSector = sectorSize expected)
       (AnotherSectorSize (devicePath d) reportedSector (sectorSize expected)))))))"

definition verifySysfs :: "object \<Rightarrow> DiskInfo \<Rightarrow> unit action" where
  "verifySysfs x expected =
     andThen (the_device x) (\<lambda>d.
     let diskName = file_name (devicePath d)
     in andThen look (\<lambda>v.
        andThen (check (readSysfsAttribute v (qs ''/sys/block/'' @ diskName @ qs ''/ro'') \<noteq> qs ''1'')
          (WriteProtected (devicePath d))) (\<lambda>_.
        andThen look (\<lambda>v.
        andThen (check (isUsbBlockDevice v diskName) (NotOnTheUsbBus (devicePath d))) (\<lambda>_.
        andThen look (\<lambda>v.
        andThen unicode_tables (\<lambda>U.
        gate NotTheSelectedDisk (isSameRestoreTarget U expected (diskInfoFor U v diskName RestoreDetails)))))))))"

definition verifyIdentity :: "object \<Rightarrow> DiskInfo \<Rightarrow> unit action" where
  "verifyIdentity x expected =
     andThen (verifyHandle x expected) (\<lambda>_.
     andThen (verifyMedia x expected) (\<lambda>_.
     verifySysfs x expected))"

definition verifyPartitionOf :: "object \<Rightarrow> qstring \<Rightarrow> u64 option \<Rightarrow> unit action" where
  "verifyPartitionOf x diskName expectedSequence =
     andThen (the_device x) (\<lambda>d.
     andThen (check (device_fd d \<noteq> None) (NotOpen PartitionNotChecked (devicePath d))) (\<lambda>_.
     andThen (blockDeviceNumber x) (\<lambda>actual.
     andThen look (\<lambda>v.
     let expectedNumber = readDeviceNumber v
           (join_path (join_path SysBlock diskName) (file_name (devicePath d)))
     in andThen (check (isValid expectedNumber \<and> actual = expectedNumber)
          (NotAPartitionOf (devicePath d) diskName)) (\<lambda>_.
        case expectedSequence of
          None \<Rightarrow> give ()
        | Some expected \<Rightarrow>
            andThen (diskSequence x) (\<lambda>actualSequence.
            check (actualSequence = Some expected) (DiskReplaced (devicePath d))))))))"

subsection \<open>Writing\<close>

text \<open>The \<open>pwrite\<close> loop. A kernel that answers \<open>EINTR\<close> for ever keeps it running for ever.\<close>

partial_function (option) writeAt_loop ::
    "qstring \<Rightarrow> descriptor \<Rightarrow> u64 \<Rightarrow> bytes \<Rightarrow> nat \<Rightarrow> os \<Rightarrow> world \<Rightarrow> (unit ending \<times> world) option" where
  "writeAt_loop path fd off buf written S w =
     (if written < length buf then
        (let at = off + of_nat written;
             rest = drop written buf;
             r = pwrite_answer S (happened w) fd at rest;
             w' = noting (Wrote fd at rest r) w
         in case r of
              Inl e \<Rightarrow> if e = EINTR then writeAt_loop path fd off buf written S w'
                       else Some (Failed (DeviceError WritingDevice path e), w')
            | Inr n \<Rightarrow> if n = 0 then Some (Failed (StoppedAccepting path), w')
                       else writeAt_loop path fd off buf (written + n) S w')
      else Some (Ok (), w))"

definition writeAt :: "object \<Rightarrow> u64 \<Rightarrow> bytes \<Rightarrow> unit action" where
  "writeAt x off buf =
     andThen (the_device x) (\<lambda>d.
     case device_fd d of
       None \<Rightarrow> fail (NotOpen NothingWritten (devicePath d))
     | Some fd \<Rightarrow> writeAt_loop (devicePath d) fd off buf 0)"

lemma count_down: "0 < n \<Longrightarrow> n \<le> unat r \<Longrightarrow> unat (r - of_nat n :: u64) = unat r - n"
proof -
  assume "0 < n" "n \<le> unat r"
  moreover from this have "unat (of_nat n :: u64) = n"
    using le_unat_uoi by blast
  ultimately show ?thesis by (simp add: unat_minus_u64)
qed

text \<open>The chunk loop; \<open>chunk\<close> is the size of the zero buffer and never 0.\<close>

function writeZeros_loop :: "object \<Rightarrow> nat \<Rightarrow> u64 \<Rightarrow> u64 \<Rightarrow> unit action" where
  "writeZeros_loop x chunk cursor remaining =
     (if remaining = 0 \<or> chunk = 0 then give ()
      else let count = min (unat remaining) chunk
           in andThen (writeAt x cursor (replicate count 0)) (\<lambda>_.
              writeZeros_loop x chunk (cursor + of_nat count) (remaining - of_nat count)))"
  by pat_completeness auto

termination
  by (relation "measure (\<lambda>(x, chunk, cursor, remaining). unat remaining)")
    (auto simp: count_down unat_gt_0)

declare writeZeros_loop.simps [simp del]

definition zero_chunk :: "u64 \<Rightarrow> u32 \<Rightarrow> nat" where
  "zero_chunk n s =
     (let sector = ucast (supported_or_512 s) :: u64;
          chunk = (min WriteChunkBytes n div sector) * sector
      in if chunk > 0 then unat chunk else unat sector)"

definition writeZeros :: "object \<Rightarrow> u64 \<Rightarrow> u64 \<Rightarrow> u32 \<Rightarrow> unit action" where
  "writeZeros x off n s =
     (if n = 0 then give ()
      else andThen (check (\<not> unalignedZeroRangeError off n s) (UnalignedZeroRange off n s)) (\<lambda>_.
           writeZeros_loop x (zero_chunk n s) off n))"

definition flush :: "object \<Rightarrow> unit action" where
  "flush x =
     andThen (the_device x) (\<lambda>d.
     case device_fd d of
       None \<Rightarrow> give ()
     | Some fd \<Rightarrow>
         andThen (ask (\<lambda>S h. fsync_answer S h fd) (Synced fd)) (\<lambda>r.
         case r of
           Some e \<Rightarrow> fail (DeviceError SavingChanges (devicePath d) e)
         | None \<Rightarrow> andThen (ask (\<lambda>S h. flsbuf_answer S h fd) (BuffersDropped fd)) (\<lambda>_. give ())))"

definition rereadPartitionTable :: "object \<Rightarrow> unit action" where
  "rereadPartitionTable x =
     andThen (the_device x) (\<lambda>d.
     case device_fd d of
       None \<Rightarrow> fail (NotOpen TableNotReread (devicePath d))
     | Some fd \<Rightarrow>
         andThen (ask (\<lambda>S h. rrpart_answer S h fd) (TableReread fd)) (\<lambda>r.
         case r of
           Some e \<Rightarrow> fail (DeviceError RescanningTable (devicePath d) e)
         | None \<Rightarrow> give ()))"

section \<open>LoopDevice\<close>

definition set_loop :: "(LoopDevice \<Rightarrow> LoopDevice) \<Rightarrow> unit action" where
  "set_loop f = change (\<lambda>w. w\<lparr>formatter := f (formatter w)\<rparr>)"

definition LoopControl :: qstring where
  "LoopControl = qs ''/dev/loop-control''"

definition loop_node :: "nat \<Rightarrow> qstring" where
  "loop_node n = qs ''/dev/loop'' @ number n"

text \<open>
  The eight attempts. The answer is \<open>None\<close> when the mapping is set up and else the \<open>errno\<close> the loop
  left behind; the last argument but one is the \<open>errno\<close> of the attempt before.
\<close>

fun configure_attempts :: "nat \<Rightarrow> bool \<Rightarrow> errno \<Rightarrow> loop_config \<Rightarrow> errno option action" where
  "configure_attempts 0 busy err config = give (Some err)"
| "configure_attempts (Suc n) busy err config =
     andThen (ask (\<lambda>S h. loop_number_answer S h busy) (LoopNumber busy)) (\<lambda>r.
     case r of
       Inl e \<Rightarrow> give (Some e)
     | Inr k \<Rightarrow>
         let path = loop_node k
         in andThen (set_loop (\<lambda>l. l\<lparr>loop_path := path\<rparr>)) (\<lambda>_.
            andThen (ask (\<lambda>S h. open_answer S h path ExclusiveClaim) (Opened path ExclusiveClaim)) (\<lambda>claim.
            case claim of
              Inl e \<Rightarrow> if e = EBUSY then configure_attempts n True e config else give (Some e)
            | Inr c \<Rightarrow>
                andThen (set_loop (\<lambda>l. l\<lparr>loop_claim := Some c\<rparr>)) (\<lambda>_.
                andThen (ask (\<lambda>S h. loop_configure_answer S h c config) (LoopConfigured path c config)) (\<lambda>conf.
                case conf of
                  None \<Rightarrow>
                    andThen (ask (\<lambda>S h. open_answer S h path ReadWrite) (Opened path ReadWrite)) (\<lambda>f.
                    case f of
                      Inr fd \<Rightarrow> andThen (set_loop (\<lambda>l. l\<lparr>loop_fd := Some fd\<rparr>)) (\<lambda>_. give None)
                    | Inl e \<Rightarrow>
                        andThen (ask (\<lambda>S h. loop_clear_answer S h c) (LoopCleared c)) (\<lambda>_.
                        andThen (tell (Closed None c)) (\<lambda>_.
                        andThen (set_loop (\<lambda>l. l\<lparr>loop_claim := None\<rparr>)) (\<lambda>_. give (Some e)))))
                | Some e \<Rightarrow>
                    andThen (tell (Closed None c)) (\<lambda>_.
                    andThen (set_loop (\<lambda>l. l\<lparr>loop_claim := None\<rparr>)) (\<lambda>_.
                    if e = EBUSY then configure_attempts n True e config else give (Some e))))))))"

declare configure_attempts.simps [simp del]

definition backing_size :: "descriptor \<Rightarrow> u64 action" where
  "backing_size backing =
     andThen (ask (\<lambda>S h. fstat_answer S h backing) (NodeRead backing)) (\<lambda>r.
     case r of
       Inl e \<Rightarrow> fail (LoopError ReadingThroughLoop e)
     | Inr (RegularFile n) \<Rightarrow> give n
     | Inr OtherNode \<Rightarrow> fail NotReadableForFormatting
     | Inr (BlockNode _) \<Rightarrow>
         andThen (ask (\<lambda>S h. size_answer S h backing) (SizeRead backing)) (\<lambda>s.
         case s of Some n \<Rightarrow> give n | None \<Rightarrow> fail NotReadableForFormatting))"

definition configureLoop :: "descriptor \<Rightarrow> u64 \<Rightarrow> u64 \<Rightarrow> u32 \<Rightarrow> unit action" where
  "configureLoop backing off n s =
     andThen (get formatter) (\<lambda>l.
     andThen (check (loop_fd l = None \<and> loop_claim l = None) LoopAlreadySetUp) (\<lambda>_.
     andThen (backing_size backing) (\<lambda>size'.
     andThen (check (isValidDeviceRange size' off n s) OutsideTheDrive) (\<lambda>_.
     andThen (ask (\<lambda>S h. open_answer S h LoopControl ReadWrite) (Opened LoopControl ReadWrite)) (\<lambda>r.
     case r of
       Inl e \<Rightarrow> fail (LoopError ReachingLoopDriver e)
     | Inr control \<Rightarrow>
         andThen (configure_attempts 8 False 0
           \<lparr>config_fd = backing, block_size = s, lo_offset = off, lo_sizelimit = n, autoclear = True\<rparr>) (\<lambda>err.
         andThen (tell (Closed None control)) (\<lambda>_.
         case err of
           None \<Rightarrow> give ()
         | Some e \<Rightarrow> andThen (set_loop (\<lambda>l. l\<lparr>loop_path := []\<rparr>)) (\<lambda>_. fail (LoopError SettingUpLoop e)))))))))"

definition releaseClaim :: "unit action" where
  "releaseClaim =
     andThen (get formatter) (\<lambda>l.
     case loop_claim l of
       None \<Rightarrow> give ()
     | Some c \<Rightarrow> andThen (tell (Closed None c)) (\<lambda>_. set_loop (\<lambda>l. l\<lparr>loop_claim := None\<rparr>)))"

definition prepareForFormatting :: "unit action" where
  "prepareForFormatting =
     andThen (get formatter) (\<lambda>l.
     case loop_fd l of
       None \<Rightarrow> andThen errno_left (\<lambda>e. fail (LoopError PreparingPartition e))
     | Some fd \<Rightarrow>
         andThen (ask (\<lambda>S h. flsbuf_answer S h fd) (BuffersDropped fd)) (\<lambda>r.
         case r of Some e \<Rightarrow> fail (LoopError PreparingPartition e) | None \<Rightarrow> releaseClaim))"

definition detachLoop :: "unit action" where
  "detachLoop =
     andThen (get formatter) (\<lambda>l.
     case loop_fd l of
       None \<Rightarrow> releaseClaim
     | Some fd \<Rightarrow>
         andThen (ask (\<lambda>S h. fsync_answer S h fd) (Synced fd)) (\<lambda>synced.
         andThen releaseClaim (\<lambda>_.
         andThen (ask (\<lambda>S h. loop_clear_answer S h fd) (LoopCleared fd)) (\<lambda>cleared.
         andThen (tell (Closed None fd)) (\<lambda>_.
         andThen (set_loop (\<lambda>l. l\<lparr>loop_fd := None, loop_path := []\<rparr>)) (\<lambda>_.
         case synced of
           Some e \<Rightarrow> fail (LoopError FinishingVolume e)
         | None \<Rightarrow> (case cleared of Some e \<Rightarrow> fail (LoopError ClosingLoop e) | None \<Rightarrow> give ())))))))"

end
