(* ===== verification/Linux_Restore.thy ===== *)
theory Linux_Restore
  imports Block_Device Fat32
begin

text \<open>
  \<open>src/linux/linux_restore.cpp\<close>: the restore itself, as an action. Its blocks follow the source: the
  checks before anything is opened, the read-only look, unmounting, the exclusive handle, the formatter
  route, the writes, the formatter, and the wait for the new partition.
\<close>

section \<open>Identifiers and names\<close>

definition NewPartitionTimeoutMs :: nat where
  "NewPartitionTimeoutMs = 30 * 1000"

definition guid_of_words :: "u32 \<times> u32 \<times> u32 \<times> u32 \<Rightarrow> bytes" where
  "guid_of_words ws =
     (let (a, b, c, d) = ws;
          guid = le_bytes 4 a @ le_bytes 4 b @ le_bytes 4 c @ le_bytes 4 d
      in guid[7 := (guid ! 7 AND 0x0F) OR 0x40, 8 := (guid ! 8 AND 0x3F) OR 0x80])"

definition randomGuid :: "bytes action" where
  "randomGuid = andThen (ask random_answer RandomRead) (\<lambda>ws. give (guid_of_words ws))"

definition partitionNameFor :: "unicode \<Rightarrow> qstring \<Rightarrow> nat \<Rightarrow> qstring" where
  "partitionNameFor U diskName index =
     diskName @ (if diskName \<noteq> [] \<and> digit U (last diskName) then qs ''p'' else []) @ number index"

section \<open>Unmounting\<close>

fun unmount_all :: "unicode \<Rightarrow> qstring \<Rightarrow> DeviceNumber list \<Rightarrow> MountEntry list \<Rightarrow> unit action" where
  "unmount_all U devId owned [] = give ()"
| "unmount_all U devId owned (m # ms) =
     (if mount_device m \<notin> set owned then unmount_all U devId owned ms
      else if isProtectedMountPoint U (mount_point m) protectedSystemMounts
      then fail (HoldsSystemMount devId (mount_point m))
      else
        andThen (detail (Unmounting (mount_point m))) (\<lambda>_.
        andThen (ask (\<lambda>S h. umount_answer S h (mount_point m)) (Unmounted (mount_point m))) (\<lambda>r.
        case r of
          None \<Rightarrow> unmount_all U devId owned ms
        | Some e \<Rightarrow> if e = EINVAL \<or> e = ENOENT then unmount_all U devId owned ms
                    else fail (DeviceError UnmountingVolume (mount_point m) e))))"

declare unmount_all.simps [simp del]

definition sort_deepest_first :: "MountEntry list \<Rightarrow> MountEntry list action" where
  "sort_deepest_first ms S w = Some (Ok (deepest_first S ms), w)"

definition unmountDisk :: "DiskInfo \<Rightarrow> unit action" where
  "unmountDisk disk =
     andThen look (\<lambda>v.
     let mounts = readMounts v
     in andThen look (\<lambda>v.
        let owned = deviceNumbersOnDisk v (file_name (deviceId disk))
        in andThen (sort_deepest_first mounts) (\<lambda>ordered.
           andThen unicode_tables (\<lambda>U.
           unmount_all U (deviceId disk) owned ordered))))"

section \<open>The formatter\<close>

record DesktopOwner =
  owner_uid :: u32
  owner_gid :: u32

definition environmentId :: "string \<Rightarrow> u32 option action" where
  "environmentId name =
     andThen (ask (\<lambda>S h. environment_answer S h name) (EnvironmentRead name)) (\<lambda>raw.
     give (if raw = [] then None
           else case to_ulonglong (from_latin1 raw) of
                  None \<Rightarrow> None
                | Some n \<Rightarrow> if n > 0xFFFFFFFF then None else Some (ucast n)))"

definition desktopOwner :: "DesktopOwner option action" where
  "desktopOwner =
     andThen (environmentId ''PKEXEC_UID'') (\<lambda>pkexec.
     andThen (if pkexec = None then environmentId ''SUDO_UID'' else give pkexec) (\<lambda>uid.
     case uid of
       None \<Rightarrow> give None
     | Some u \<Rightarrow>
         if u = 0 then give None
         else
           andThen (ask (\<lambda>S h. passwd_answer S h u) (PasswdRead u)) (\<lambda>entry.
           case entry of
             Some g \<Rightarrow> give (Some \<lparr>owner_uid = u, owner_gid = g\<rparr>)
           | None \<Rightarrow>
               andThen (environmentId ''SUDO_GID'') (\<lambda>gid.
               give (map_option (\<lambda>g. \<lparr>owner_uid = u, owner_gid = g\<rparr>) gid)))))"

definition unknownOptionMarkers :: "qstring list" where
  "unknownOptionMarkers = map qs [''invalid option'', ''unrecognized option'', ''unknown option'', ''illegal option'']"

definition looksLikeWrongFlag :: "unicode \<Rightarrow> qstring \<Rightarrow> bool" where
  "looksLikeWrongFlag U output = list_ex (contains_ci U output) unknownOptionMarkers"

text \<open>The argument lists to try, in order; \<open>Ext4\<close> asks for the owner of the new root directory.\<close>

definition format_attempts :: "FileSystemType \<Rightarrow> qstring \<Rightarrow> qstring \<Rightarrow> u64 \<Rightarrow> qstring list list action" where
  "format_attempts fs partitionPath label startSector =
     (case fs of
        ExFat \<Rightarrow> give [[qs ''-L'', label, partitionPath], [qs ''-n'', label, partitionPath]]
      | Fat32 \<Rightarrow> give [[qs ''-F'', qs ''32'', qs ''-n'', label, qs ''-h'', number (unat startSector), partitionPath]]
      | Ntfs \<Rightarrow> give [[qs ''-Q'', qs ''-L'', label, qs ''-p'', number (unat startSector), partitionPath]]
      | Ext4 \<Rightarrow>
          andThen desktopOwner (\<lambda>found.
          case found of
            Some own \<Rightarrow>
              andThen (detail (OwnerWillBe (owner_uid own) (owner_gid own))) (\<lambda>_.
              give [[qs ''-F'', qs ''-L'', label, qs ''-m'', qs ''0'', qs ''-E'',
                qs ''root_owner='' @ number (unat (owner_uid own)) @ qs '':'' @ number (unat (owner_gid own)),
                partitionPath]])
          | None \<Rightarrow>
              andThen (detail OwnerWillBeRoot) (\<lambda>_.
              give [[qs ''-F'', qs ''-L'', label, qs ''-m'', qs ''0'', partitionPath]])))"

fun run_format_attempts :: "unicode \<Rightarrow> qstring \<Rightarrow> qstring \<Rightarrow> qstring \<Rightarrow> qstring list list \<Rightarrow> unit action" where
  "run_format_attempts U tool partitionPath lastOutput [] =
     fail (ToolFailed (file_name tool) partitionPath lastOutput)"
| "run_format_attempts U tool partitionPath lastOutput (arguments # attempts) =
     andThen (ask (\<lambda>S h. tool_answer S h tool arguments) (ToolStarted tool arguments)) (\<lambda>r.
     case r of
       NotStarted \<Rightarrow> fail (ToolNotStarted (file_name tool))
     | TimedOut \<Rightarrow> fail (ToolTimedOut (file_name tool))
     | Finished ok output \<Rightarrow>
         if ok then
           andThen (detail (ToolRan tool arguments)) (\<lambda>_.
           if output \<noteq> [] then detail (ToolOutput output) else give ())
         else
           andThen (detail (ToolRefused tool arguments output)) (\<lambda>_.
           if looksLikeWrongFlag U output then run_format_attempts U tool partitionPath output attempts
           else fail (ToolFailed (file_name tool) partitionPath output)))"

declare run_format_attempts.simps [simp del]

definition formatLinuxPartition :: "FileSystemType \<Rightarrow> qstring \<Rightarrow> qstring \<Rightarrow> qstring \<Rightarrow> u64 \<Rightarrow> unit action" where
  "formatLinuxPartition fs tool partitionPath label startSector =
     andThen (format_attempts fs partitionPath label startSector) (\<lambda>attempts.
     andThen unicode_tables (\<lambda>U.
     run_format_attempts U tool partitionPath [] attempts))"

fun format_tool_names :: "FileSystemType \<Rightarrow> string list" where
  "format_tool_names ExFat = [''mkfs.exfat'', ''mkexfatfs'']"
| "format_tool_names Fat32 = [''mkfs.vfat'', ''mkfs.fat'']"
| "format_tool_names Ntfs = [''mkfs.ntfs'', ''mkntfs'']"
| "format_tool_names Ext4 = [''mkfs.ext4'']"

fun first_tool :: "string list \<Rightarrow> qstring action" where
  "first_tool [] = give []"
| "first_tool (name # names) =
     andThen look (\<lambda>v.
     let tool = findSystemExecutable v (qs name)
     in if tool \<noteq> [] then give tool else first_tool names)"

definition resolveFormatTool :: "FileSystemType \<Rightarrow> qstring action" where
  "resolveFormatTool fs =
     andThen (first_tool (format_tool_names fs)) (\<lambda>tool.
     andThen (check (tool \<noteq> []) (ToolMissing fs)) (\<lambda>_. give tool))"

definition canCreateFileSystemOn :: "FileSystemType \<Rightarrow> DiskInfo \<Rightarrow> FileSystemRefusal option" where
  "canCreateFileSystemOn fs disk =
     (case fs of
        ExFat \<Rightarrow> None
      | Ntfs \<Rightarrow> None
      | Ext4 \<Rightarrow> None
      | Fat32 \<Rightarrow>
          let n = layout_length (calculateGptLayout (disk_size disk) (sectorSize disk));
              maximum = maximumMkfsFat32VolumeBytes (sectorSize disk);
              minimum = minimumMkfsFat32VolumeBytes (sectorSize disk)
          in if maximum = 0 \<or> minimum = 0 then Some (NoFat32ForSector (sectorSize disk))
             else if n > maximum then Some (TooLargeForFat32 maximum (sectorSize disk))
             else if n < minimum then Some (TooSmallForFat32 minimum)
             else None)"

section \<open>Formatting and re-reading the table\<close>

definition again :: "'a ending \<Rightarrow> 'b action" where
  "again r = (case r of Failed e \<Rightarrow> fail e | _ \<Rightarrow> stop)"

definition format_through_loop :: "RestoreRequest \<Rightarrow> qstring \<Rightarrow> u64 \<Rightarrow> unit action" where
  "format_through_loop req tool startSector =
     andThen prepareForFormatting (\<lambda>_.
     andThen (get (\<lambda>w. loop_path (formatter w))) (\<lambda>path.
     andThen (formatLinuxPartition (request_fileSystem req) tool path (volumeLabel req) startSector) (\<lambda>_.
     detachLoop)))"

definition flush_and_reread :: "unit action" where
  "flush_and_reread = andThen (flush Restored) (\<lambda>_. rereadPartitionTable Restored)"

definition formatAndRereadPartitionTable :: "RestoreRequest \<Rightarrow> qstring \<Rightarrow> u64 \<Rightarrow> u64 action" where
  "formatAndRereadPartitionTable req tool startSector =
     andThen (reportPlannedStep Format) (\<lambda>_.
     andThen (attempt (format_through_loop req tool startSector)) (\<lambda>r.
     case r of
       Ok _ \<Rightarrow>
         andThen (reportPlannedStep RereadPartitionTable) (\<lambda>_.
         andThen flush_and_reread (\<lambda>_.
         andThen (diskSequence Restored) (\<lambda>seq.
         case seq of
           None \<Rightarrow> fail (NotReidentified (deviceId (request_disk req)))
         | Some s \<Rightarrow> give s)))
     | _ \<Rightarrow>
         andThen (attempt detachLoop) (\<lambda>_.
         andThen (attempt flush_and_reread) (\<lambda>q.
         andThen (case q of Failed e \<Rightarrow> detail (RereadProblem e) | _ \<Rightarrow> give ()) (\<lambda>_.
         again r)))))"

section \<open>The restore\<close>

text \<open>Everything that is checked before a handle is opened; the disk is the one sysfs describes now.\<close>

definition restore_checks :: "RestoreRequest \<Rightarrow> (qstring \<times> DiskInfo) action" where
  "restore_checks req =
     andThen unicode_tables (\<lambda>U.
     andThen (gate NotSafe (isSafeRestoreTarget U (request_disk req) (request_guard req))) (\<lambda>_.
     andThen (resolveFormatTool (request_fileSystem req)) (\<lambda>tool.
     andThen (change (\<lambda>w. w\<lparr>steps_counter := new_counter linuxRestorePlan\<rparr>)) (\<lambda>_.
     andThen (reportPlannedStep VerifyDisk) (\<lambda>_.
     andThen look (\<lambda>v.
     case refreshUsbDisk U v (deviceId (request_disk req)) RestoreDetails of
       Inl e \<Rightarrow> fail (NotEnumerated e)
     | Inr current \<Rightarrow>
         andThen (gate NotTheSelectedDisk (isSameRestoreTarget U (request_disk req) current)) (\<lambda>_.
         andThen (gate NotSafe (isSafeRestoreTarget U current (request_guard req))) (\<lambda>_.
         andThen (gate NoLayout (canCreatePartitionLayout (request_style req) current)) (\<lambda>_.
         andThen (gate FileSystemRefused (canCreateFileSystemOn (request_fileSystem req) current)) (\<lambda>_.
         give (tool, current)))))))))))"

definition inspect_device :: "DiskInfo \<Rightarrow> unit action" where
  "inspect_device disk =
     andThen (reportPlannedStep IdentifyDevice) (\<lambda>_.
     andThen (construct Inspected (deviceId disk)) (\<lambda>_.
     leaving
       (andThen (openDevice Inspected Inspect) (\<lambda>_. verifyIdentity Inspected disk))
       (closeDevice Inspected)))"

text \<open>The attempts \<open>0, 1, 2\<close> to open the disk exclusively; the error of the last one is reported.\<close>

fun open_attempts :: "DiskInfo \<Rightarrow> nat list \<Rightarrow> unit action" where
  "open_attempts disk [] = give ()"
| "open_attempts disk (k # ks) =
     andThen
       (if k > 0 then
          andThen (detail (TryingAgain (k + 1))) (\<lambda>_.
          andThen (unmountDisk disk) (\<lambda>_. tell (Slept 500)))
        else give ()) (\<lambda>_.
     andThen (attempt (openDevice Restored Exclusive)) (\<lambda>r.
     case r of
       Ok _ \<Rightarrow> give ()
     | _ \<Rightarrow> if ks = [] then again r else open_attempts disk ks))"

declare open_attempts.simps [simp del]

definition table_request :: "RestoreRequest \<Rightarrow> DiskInfo \<Rightarrow> PartitionTableRequest action" where
  "table_request req disk =
     andThen randomGuid (\<lambda>diskId.
     andThen randomGuid (\<lambda>partitionId.
     give \<lparr>req_style = request_style req, req_fileSystem = request_fileSystem req,
       req_diskSize = disk_size disk, req_sectorSize = sectorSize disk,
       req_layout = calculateGptLayout (disk_size disk) (sectorSize disk),
       diskGuid = diskId, partitionGuid = partitionId, partitionName = volumeLabel req\<rparr>))"

definition configure_formatter :: "DiskInfo \<Rightarrow> PartitionTableRequest \<Rightarrow> unit action" where
  "configure_formatter disk tr =
     andThen (the_device Restored) (\<lambda>d.
     case device_fd d of
       None \<Rightarrow> fail (LoopError ReadingThroughLoop EBADF)
     | Some fd \<Rightarrow>
         configureLoop fd (startOffset (req_layout tr)) (layout_length (req_layout tr)) (sectorSize disk))"

definition clear_signatures :: "DiskInfo \<Rightarrow> unit action" where
  "clear_signatures disk =
     andThen (reportPlannedStep ClearSignatures) (\<lambda>_.
     let clear = signatureClearRange (disk_size disk) (sectorSize disk)
     in andThen (check (clear_bytes clear \<noteq> 0) (NothingToClear (deviceId disk))) (\<lambda>_.
        andThen (writeZeros Restored 0 (clear_bytes clear) (clear_sectorSize clear)) (\<lambda>_.
        writeZeros Restored (tailOffset clear) (clear_bytes clear) (clear_sectorSize clear))))"

definition write_partition_table :: "PartitionTableRequest \<Rightarrow> unit action" where
  "write_partition_table tr =
     andThen (reportPlannedStep WritePartitionTable) (\<lambda>_.
     andThen
       (if req_style tr = Gpt then
          andThen (writeAt Restored 0 (buildGptPrimary tr)) (\<lambda>_.
          writeAt Restored (gptBackupOffset tr) (buildGptBackup tr))
        else writeAt Restored 0 (buildMbr tr)) (\<lambda>_.
     flush Restored))"

text \<open>\<open>QElapsedTimer\<close>: a \<open>ClockRead\<close> is the time since the timer was started.\<close>

partial_function (option) wait_loop ::
    "qstring \<Rightarrow> nat \<Rightarrow> os \<Rightarrow> world \<Rightarrow> (unit ending \<times> world) option" where
  "wait_loop path lastWaitNote S w =
     (let there = exists_answer S (happened w) path;
          w1 = noting (PathChecked path there) w
      in if there then Some (Ok (), w1)
         else
           let t1 = clock_answer S (happened w1);
               w2 = noting (ClockRead t1) w1
           in if NewPartitionTimeoutMs \<le> t1 then Some (Ok (), w2)
              else
                let w3 = noting (Slept 250) w2;
                    t2 = clock_answer S (happened w3);
                    w4 = noting (ClockRead t2) w3
                in if 5000 \<le> t2 - lastWaitNote then
                     let t3 = clock_answer S (happened w4);
                         w5 = noting (DetailReported (StillWaiting path (t3 div 1000))) (noting (ClockRead t3) w4)
                     in wait_loop path t3 S w5
                   else wait_loop path lastWaitNote S w4)"

definition check_new_partition :: "DiskInfo \<Rightarrow> u64 \<Rightarrow> qstring action" where
  "check_new_partition disk seq =
     andThen (reportPlannedStep WaitForPartition) (\<lambda>_.
     andThen unicode_tables (\<lambda>U.
     let diskName = file_name (deviceId disk);
         partitionPath = devicePathFor (partitionNameFor U diskName 1)
     in andThen (wait_loop partitionPath 0) (\<lambda>_.
        andThen (ask (\<lambda>S h. exists_answer S h partitionPath) (PathChecked partitionPath)) (\<lambda>there.
        andThen (check there (PartitionDidNotAppear (deviceId disk))) (\<lambda>_.
        andThen (construct NewPartition partitionPath) (\<lambda>_.
        leaving
          (andThen (openDevice NewPartition Inspect) (\<lambda>_.
           andThen (verifyPartitionOf NewPartition diskName (Some seq)) (\<lambda>_.
           andThen (reportPlannedStep Complete) (\<lambda>_.
           give partitionPath))))
          (closeDevice NewPartition)))))))"

definition restore_through_loop :: "RestoreRequest \<Rightarrow> qstring \<Rightarrow> DiskInfo \<Rightarrow> PartitionTableRequest \<Rightarrow> qstring action" where
  "restore_through_loop req tool disk tr =
     andThen (configure_formatter disk tr) (\<lambda>_.
     andThen stop_if_cancelled (\<lambda>_.
     andThen (verifyIdentity Restored disk) (\<lambda>_.
     andThen (clear_signatures disk) (\<lambda>_.
     andThen (write_partition_table tr) (\<lambda>_.
     andThen (formatAndRereadPartitionTable req tool (startOffset (req_layout tr) div ucast (sectorSize disk))) (\<lambda>seq.
     andThen (closeDevice Restored) (\<lambda>_.
     check_new_partition disk seq)))))))"

definition restore_on_device :: "RestoreRequest \<Rightarrow> qstring \<Rightarrow> DiskInfo \<Rightarrow> qstring action" where
  "restore_on_device req tool disk =
     andThen (open_attempts disk [0, 1, 2]) (\<lambda>_.
     andThen (verifyIdentity Restored disk) (\<lambda>_.
     andThen stop_if_cancelled (\<lambda>_.
     andThen (table_request req disk) (\<lambda>tr.
     andThen (gate TableRefused (isWritablePartitionRequest tr)) (\<lambda>_.
     andThen (set_loop (\<lambda>_. no_loop)) (\<lambda>_.
     leaving (restore_through_loop req tool disk tr) (andThen (attempt detachLoop) (\<lambda>_. give ()))))))))"

definition performLinuxRestore :: "RestoreRequest \<Rightarrow> qstring action" where
  "performLinuxRestore req =
     andThen (restore_checks req) (\<lambda>(tool, disk).
     andThen (inspect_device disk) (\<lambda>_.
     andThen stop_if_cancelled (\<lambda>_.
     andThen (reportPlannedStep Unmount) (\<lambda>_.
     andThen (unmountDisk disk) (\<lambda>_.
     andThen (reportPlannedStep OpenExclusive) (\<lambda>_.
     andThen (construct Restored (deviceId disk)) (\<lambda>_.
     leaving (restore_on_device req tool disk) (closeDevice Restored))))))))"

end
