(* ===== verification/Restore_Runs.thy ===== *)
theory Restore_Runs
  imports Linux_Restore
begin

text \<open>
  What each operation of \<open>Block_Device\<close> and \<open>Linux_Restore\<close> does to the world: which events a run of it
  adds (\<open>adds\<close>, \<open>steady\<close>), which objects it leaves alone, and what it has seen or written when it
  returns. Every lemma is a weakest precondition of one operation; the properties of the restore chain
  them with \<open>wp_andThen\<close> and \<open>wp_mono\<close>.
\<close>

section \<open>What a run adds\<close>

definition steady :: "(event \<Rightarrow> bool) \<Rightarrow> world \<Rightarrow> world \<Rightarrow> bool" where
  "steady K w w' \<longleftrightarrow> adds K w w' \<and> devices w' = devices w \<and> formatter w' = formatter w \<and>
     steps_counter w' = steps_counter w"

lemma steady_refl [simp, intro]: "steady K w w"
  by (simp add: steady_def)

lemma steady_noting [simp, intro]: "steady K w w' \<Longrightarrow> K e \<Longrightarrow> steady K w (noting e w')"
  by (simp add: steady_def)

lemma steady_trans: "steady K w w' \<Longrightarrow> steady K w' w'' \<Longrightarrow> steady K w w''"
  by (auto simp: steady_def intro: adds_trans)

lemma steady_mono: "steady K w w' \<Longrightarrow> (\<And>e. K e \<Longrightarrow> K' e) \<Longrightarrow> steady K' w w'"
  by (auto simp: steady_def intro: adds_mono)

lemma steadyD:
  "steady K w w' \<Longrightarrow> adds K w w'" "steady K w w' \<Longrightarrow> devices w' = devices w"
  "steady K w w' \<Longrightarrow> formatter w' = formatter w" "steady K w w' \<Longrightarrow> steps_counter w' = steps_counter w"
  by (simp_all add: steady_def)

text \<open>A fact about the set of events a run added.\<close>

definition lately :: "(event set \<Rightarrow> bool) \<Rightarrow> world \<Rightarrow> world \<Rightarrow> bool" where
  "lately P w w' \<longleftrightarrow> (\<exists>new. happened w' = new @ happened w \<and> P (set new))"

lemma lately_refl: "P {} \<Longrightarrow> lately P w w"
  by (auto simp: lately_def)

lemma lately_noting: "lately (\<lambda>s. P (insert e s)) w w' \<Longrightarrow> lately P w (noting e w')"
proof -
  assume "lately (\<lambda>s. P (insert e s)) w w'"
  then obtain new where "happened w' = new @ happened w" "P (insert e (set new))" by (auto simp: lately_def)
  then have "happened (noting e w') = (e # new) @ happened w" "P (set (e # new))" by simp_all
  then show ?thesis unfolding lately_def by blast
qed

lemma lately_join:
  assumes "lately P w w'" "lately Q w' w''" "\<And>s t. P s \<Longrightarrow> Q t \<Longrightarrow> R (s \<union> t)"
  shows "lately R w w''"
proof -
  obtain a b where "happened w' = a @ happened w" "P (set a)" "happened w'' = b @ happened w'" "Q (set b)"
    using assms(1,2) by (auto simp: lately_def)
  then have "happened w'' = (b @ a) @ happened w" "R (set (b @ a))"
    using assms(3) [of "set a" "set b"] by (simp_all add: Un_commute)
  then show ?thesis unfolding lately_def by blast
qed

section \<open>Reading a device\<close>

fun reading :: "event \<Rightarrow> bool" where
  "reading (Looked _) = True"
| "reading (NodeRead _ _) = True"
| "reading (SizeRead _ _) = True"
| "reading (SectorSizeRead _ _) = True"
| "reading (SequenceRead _ _) = True"
| "reading _ = False"

text \<open>What \<open>verifyIdentity\<close> has seen when it accepts, as a property of the events it caused.\<close>

definition handle_evidence :: "DiskInfo \<Rightarrow> qstring \<Rightarrow> descriptor \<Rightarrow> event set \<Rightarrow> bool" where
  "handle_evidence disk path fd seen \<longleftrightarrow>
     (\<exists>n v. NodeRead fd (Inr (BlockNode n)) \<in> seen \<and> Looked v \<in> seen \<and> isValid n \<and>
        readDeviceNumber v (join_path SysBlock (file_name path)) = n) \<and>
     (\<exists>s. SequenceRead fd (Some s) \<in> seen \<and> s \<noteq> 0 \<and> deviceSequence disk = Some s)"

definition media_evidence :: "DiskInfo \<Rightarrow> descriptor \<Rightarrow> event set \<Rightarrow> bool" where
  "media_evidence disk fd seen \<longleftrightarrow>
     (\<exists>n. SizeRead fd (Some n) \<in> seen \<and> n \<noteq> 0 \<and> (disk_size disk \<noteq> 0 \<longrightarrow> n = disk_size disk)) \<and>
     SectorSizeRead fd (Some (sectorSize disk)) \<in> seen \<and> sectorSize disk \<noteq> 0"

definition sysfs_evidence :: "unicode \<Rightarrow> DiskInfo \<Rightarrow> qstring \<Rightarrow> event set \<Rightarrow> bool" where
  "sysfs_evidence U disk path seen \<longleftrightarrow>
     (\<exists>v. Looked v \<in> seen \<and> readSysfsAttribute v (qs ''/sys/block/'' @ file_name path @ qs ''/ro'') \<noteq> qs ''1'') \<and>
     (\<exists>v. Looked v \<in> seen \<and> isUsbBlockDevice v (file_name path)) \<and>
     (\<exists>v. Looked v \<in> seen \<and> isSameRestoreTarget U disk (diskInfoFor U v (file_name path) RestoreDetails) = None)"

definition identity_evidence :: "unicode \<Rightarrow> DiskInfo \<Rightarrow> qstring \<Rightarrow> descriptor \<Rightarrow> event set \<Rightarrow> bool" where
  "identity_evidence U disk path fd seen \<longleftrightarrow>
     handle_evidence disk path fd seen \<and> media_evidence disk fd seen \<and> sysfs_evidence U disk path seen"

lemma identity_evidence_mono: "identity_evidence U disk path fd s \<Longrightarrow> s \<subseteq> t \<Longrightarrow> identity_evidence U disk path fd t"
  unfolding identity_evidence_def handle_evidence_def media_evidence_def sysfs_evidence_def by blast

lemma isSameDeviceSequence_Some:
  "isSameDeviceSequence e (Some s) \<Longrightarrow> e = Some s \<and> s \<noteq> 0"
  by (auto simp: isSameDeviceSequence_def split: option.splits)

lemmas device_defs = the_device_def set_device_def look_def detail_def

lemma verifyHandle_wp:
  "wp t (verifyHandle x disk) S
     (\<lambda>_ w'. steady reading w w' \<and> device_fd (devices w x) \<noteq> None \<and>
        lately (handle_evidence disk (devicePath (devices w x)) (the (device_fd (devices w x)))) w w')
     (\<lambda>r w'. r \<noteq> None \<and> steady reading w w') w"
proof (cases "device_fd (devices w x)")
  case None
  then show ?thesis by (simp add: verifyHandle_def device_defs run_simps)
next
  case (Some fd)
  show ?thesis
    apply (simp add: verifyHandle_def device_defs blockDeviceNumber_def diskSequence_def run_simps Some Let_def
        split: sum.split node.split option.split)
    apply (intro conjI allI impI lately_noting lately_refl)
    apply (auto simp: handle_evidence_def dest!: isSameDeviceSequence_Some)
    done
qed

lemma verifyMedia_wp:
  "wp t (verifyMedia x disk) S
     (\<lambda>_ w'. steady reading w w' \<and> device_fd (devices w x) \<noteq> None \<and>
        lately (media_evidence disk (the (device_fd (devices w x)))) w w')
     (\<lambda>r w'. r \<noteq> None \<and> steady reading w w') w"
proof (cases "device_fd (devices w x)")
  case None
  then show ?thesis by (simp add: verifyMedia_def sizeInBytes_def device_defs run_simps)
next
  case (Some fd)
  show ?thesis
    apply (simp add: verifyMedia_def device_defs sizeInBytes_def logicalSectorSize_def run_simps Some
        split: option.split)
    apply (intro conjI allI impI lately_noting lately_refl)
    apply (auto simp: media_evidence_def)
    done
qed

lemma verifySysfs_wp:
  "wp t (verifySysfs x disk) S
     (\<lambda>_ w'. steady reading w w' \<and> lately (sysfs_evidence (tables S) disk (devicePath (devices w x))) w w')
     (\<lambda>r w'. r \<noteq> None \<and> steady reading w w') w"
  apply (simp add: verifySysfs_def device_defs run_simps Let_def split: option.split)
  apply (intro conjI allI impI lately_noting lately_refl)
  apply (auto simp: sysfs_evidence_def)
  done
lemma evidence_Un:
  "handle_evidence d p fd s \<Longrightarrow> handle_evidence d p fd (s \<union> t)"
  "media_evidence d fd s \<Longrightarrow> media_evidence d fd (s \<union> t)"
  "media_evidence d fd t \<Longrightarrow> media_evidence d fd (s \<union> t)"
  "sysfs_evidence U d p t \<Longrightarrow> sysfs_evidence U d p (s \<union> t)"
  unfolding handle_evidence_def media_evidence_def sysfs_evidence_def by blast+

lemma wp_seq_lately:
  assumes "wp t m S (\<lambda>_ w'. steady K w w' \<and> lately P w w') (\<lambda>r w'. r \<noteq> None \<and> steady K w w') w"
    and "\<And>w1. steady K w w1 \<Longrightarrow> wp t n S (\<lambda>_ w'. steady K w1 w' \<and> lately P' w1 w') (\<lambda>r w'. r \<noteq> None \<and> steady K w1 w') w1"
    and "\<And>s u. P s \<Longrightarrow> P' u \<Longrightarrow> T (s \<union> u)"
  shows "wp t (andThen m (\<lambda>_. n)) S (\<lambda>_ w'. steady K w w' \<and> lately T w w') (\<lambda>r w'. r \<noteq> None \<and> steady K w w') w"
  unfolding wp_andThen
proof (rule wp_mono [OF assms(1)], goal_cases)
  case (1 _ w1)
  then have st: "steady K w w1" and l: "lately P w w1" by simp_all
  have "lately T w w'" if "lately P' w1 w'" for w' by (rule lately_join [OF l that]) (rule assms(3))
  then show ?case
    by (intro wp_mono [OF assms(2) [OF st]]) (auto intro: steady_trans [OF st])
qed simp

lemma verifyIdentity_wp:
  assumes fd: "device_fd (devices w x) = Some fd"
  shows "wp t (verifyIdentity x disk) S
     (\<lambda>_ w'. steady reading w w' \<and> lately (identity_evidence (tables S) disk (devicePath (devices w x)) fd) w w')
     (\<lambda>r w'. r \<noteq> None \<and> steady reading w w') w"
  unfolding verifyIdentity_def
proof (rule wp_seq_lately [where P = "handle_evidence disk (devicePath (devices w x)) fd"
      and P' = "\<lambda>s. media_evidence disk fd s \<and> sysfs_evidence (tables S) disk (devicePath (devices w x)) s"])
  show "wp t (verifyHandle x disk) S
      (\<lambda>_ w'. steady reading w w' \<and> lately (handle_evidence disk (devicePath (devices w x)) fd) w w')
      (\<lambda>r w'. r \<noteq> None \<and> steady reading w w') w"
    by (rule wp_mono [OF verifyHandle_wp]) (simp_all add: fd)
next
  fix w1 assume "steady reading w w1"
  then have dev: "devices w1 = devices w" by (rule steadyD)
  show "wp t (andThen (verifyMedia x disk) (\<lambda>_. verifySysfs x disk)) S
      (\<lambda>_ w'. steady reading w1 w' \<and>
        lately (\<lambda>s. media_evidence disk fd s \<and> sysfs_evidence (tables S) disk (devicePath (devices w x)) s) w1 w')
      (\<lambda>r w'. r \<noteq> None \<and> steady reading w1 w') w1"
  proof (rule wp_seq_lately [where P = "media_evidence disk fd"
        and P' = "sysfs_evidence (tables S) disk (devicePath (devices w x))"])
    show "wp t (verifyMedia x disk) S (\<lambda>_ w'. steady reading w1 w' \<and> lately (media_evidence disk fd) w1 w')
        (\<lambda>r w'. r \<noteq> None \<and> steady reading w1 w') w1"
      by (rule wp_mono [OF verifyMedia_wp]) (simp_all add: fd dev)
  next
    fix w2 assume "steady reading w1 w2"
    then have dev2: "devices w2 = devices w" using dev by (simp add: steadyD)
    show "wp t (verifySysfs x disk) S
        (\<lambda>_ w'. steady reading w2 w' \<and> lately (sysfs_evidence (tables S) disk (devicePath (devices w x))) w2 w')
        (\<lambda>r w'. r \<noteq> None \<and> steady reading w2 w') w2"
      by (rule wp_mono [OF verifySysfs_wp]) (simp_all add: dev2)
  qed (simp add: evidence_Un)
qed (simp add: evidence_Un identity_evidence_def)

section \<open>The other operations\<close>

lemma adds_update [simp]:
  "adds K w (w'\<lparr>devices := d\<rparr>) = adds K w w'" "adds K w (w'\<lparr>formatter := l\<rparr>) = adds K w w'"
  "adds K w (w'\<lparr>steps_counter := c\<rparr>) = adds K w w'" "adds K (w\<lparr>devices := d\<rparr>) w' = adds K w w'"
  "adds K (w\<lparr>formatter := l\<rparr>) w' = adds K w w'" "adds K (w\<lparr>steps_counter := c\<rparr>) w' = adds K w w'"
  by (simp_all add: adds_def)

lemma construct_wp:
  "wp t (construct x path) S
     (\<lambda>_ w'. w' = w\<lparr>devices := (devices w)(x := \<lparr>devicePath = path, device_fd = None\<rparr>)\<rparr>) (\<lambda>_ _. False) w"
  by (simp add: construct_def device_defs run_simps)

text \<open>\<open>only x w w'\<close>: a run that changed no object but \<open>x\<close>.\<close>

definition only :: "object \<Rightarrow> world \<Rightarrow> world \<Rightarrow> bool" where
  "only x w w' \<longleftrightarrow> (\<forall>y. y \<noteq> x \<longrightarrow> devices w' y = devices w y) \<and> formatter w' = formatter w \<and>
     steps_counter w' = steps_counter w \<and> devicePath (devices w' x) = devicePath (devices w x)"

lemma closeDevice_wp:
  "wp t (closeDevice x) S
     (\<lambda>_ w'. adds (\<lambda>e. \<exists>fd. e = Closed (Some x) fd) w w' \<and> only x w w' \<and> device_fd (devices w' x) = None \<and>
        (device_fd (devices w x) = None \<longrightarrow> happened w' = happened w))
     (\<lambda>_ _. False) w"
  by (cases "device_fd (devices w x)") (auto simp: closeDevice_def device_defs run_simps only_def)

lemma openDevice_wp:
  assumes closed: "device_fd (devices w x) = None"
  shows "wp t (openDevice x access) S
     (\<lambda>_ w'. \<exists>fd. happened w' = Opened (devicePath (devices w x)) access (Inr fd) # happened w \<and> only x w w' \<and>
        device_fd (devices w' x) = Some fd)
     (\<lambda>r w'. r \<noteq> None \<and> devices w' = devices w \<and> formatter w' = formatter w \<and> steps_counter w' = steps_counter w \<and>
        (\<exists>e. happened w' = Opened (devicePath (devices w x)) access (Inl e) # happened w)) w"
  using closed by (simp add: openDevice_def closeDevice_def device_defs run_simps only_def split: sum.split)

fun stepping :: "event \<Rightarrow> bool" where
  "stepping (StepReported _) = True"
| "stepping (DetailReported _) = True"
| "stepping _ = False"

lemma reportPlannedStep_wp:
  "wp t (reportPlannedStep s) S
     (\<lambda>_ w'. adds stepping w w' \<and> devices w' = devices w \<and> formatter w' = formatter w \<and>
        StepReported s \<in> set (happened w'))
     (\<lambda>_ _. False) w"
  by (simp add: reportPlannedStep_def report_with_def run_simps device_defs split_beta Let_def)

fun unmounting :: "event \<Rightarrow> bool" where
  "unmounting (Looked _) = True"
| "unmounting (DetailReported _) = True"
| "unmounting (Unmounted _ _) = True"
| "unmounting _ = False"

lemma unmount_all_wp:
  "wp t (unmount_all U i owned ms) S (\<lambda>_ w'. steady unmounting w w') (\<lambda>r w'. r \<noteq> None \<and> steady unmounting w w') w"
proof (induction ms arbitrary: w)
  case (Cons m ms)
  have step: "steady unmounting w (noting (Unmounted p r) (noting (DetailReported d) w))" for p r d by simp
  show ?case
    by (auto simp: unmount_all.simps run_simps device_defs split: option.split
      intro!: wp_mono [OF Cons.IH] Cons.IH elim: steady_trans [OF step])
qed (simp add: unmount_all.simps run_simps)

lemma unmountDisk_wp:
  "wp t (unmountDisk disk) S (\<lambda>_ w'. steady unmounting w w') (\<lambda>r w'. r \<noteq> None \<and> steady unmounting w w') w"
proof -
  have step: "steady unmounting w (noting (Looked a) (noting (Looked b) w))" for a b by simp
  have [run_simps]: "wp t (sort_deepest_first ms) S Q R w = Q (deepest_first S ms) w" for ms Q R w
    by (simp add: wp_def sort_deepest_first_def)
  show ?thesis
    by (auto simp: unmountDisk_def run_simps device_defs Let_def
      intro!: wp_mono [OF unmount_all_wp] elim: steady_trans [OF step])
qed
subsection \<open>The write loop\<close>

text \<open>
  The loop rule: an invariant of the bytes written so far, and, for total correctness, a measure an
  interrupted call decreases; a call that writes something makes the rest shorter.
\<close>

lemma writeAt_loop_total:
  assumes inv: "I k w"
    and step: "\<And>k w r. I k w \<Longrightarrow> k < length buf \<Longrightarrow> r = pwrite_answer S (happened w) fd (off + of_nat k) (drop k buf) \<Longrightarrow>
      (case r of
         Inl e \<Rightarrow> if e = EINTR then I k (noting (Wrote fd (off + of_nat k) (drop k buf) r) w) \<and>
                    m (noting (Wrote fd (off + of_nat k) (drop k buf) r) w) < (m w :: nat)
                  else R (Some (DeviceError WritingDevice path e)) (noting (Wrote fd (off + of_nat k) (drop k buf) r) w)
       | Inr n \<Rightarrow> if n = 0 then R (Some (StoppedAccepting path)) (noting (Wrote fd (off + of_nat k) (drop k buf) r) w)
                  else I (k + n) (noting (Wrote fd (off + of_nat k) (drop k buf) r) w))"
    and fin: "\<And>k w. I k w \<Longrightarrow> length buf \<le> k \<Longrightarrow> Q () w"
  shows "wp t (writeAt_loop path fd off buf k) S Q R w"
  using inv
proof (induction "(length buf - k, m w)" arbitrary: k w rule: wf_induct_rule [OF wf_lex_prod [OF wf_less wf_less]])
  case (1 k w)
  show ?case
  proof (cases "k < length buf")
    case True
    let ?r = "pwrite_answer S (happened w) fd (off + of_nat k) (drop k buf)"
    let ?w = "noting (Wrote fd (off + of_nat k) (drop k buf) ?r) w"
    note s = step [OF 1(2) True refl]
    show ?thesis
    proof (cases ?r)
      case (Inl e)
      then show ?thesis
        using s True 1(1) [of k ?w]
        by (cases "e = EINTR") (simp_all add: wp_def writeAt_loop.simps [of path fd off buf k] Let_def)
    next
      case (Inr n)
      then have "n \<noteq> 0 \<Longrightarrow> length buf - (k + n) < length buf - k" using True by simp
      with Inr show ?thesis
        using s True 1(1) [of "k + n" ?w]
        by (cases "n = 0") (simp_all add: wp_def writeAt_loop.simps [of path fd off buf k] Let_def)
    qed
  next
    case False
    then show ?thesis using fin [OF 1(2)] by (simp add: wp_def writeAt_loop.simps)
  qed
qed

lemma writeAt_loop_partial:
  assumes inv: "I k w"
    and step: "\<And>k w r. I k w \<Longrightarrow> k < length buf \<Longrightarrow> r = pwrite_answer S (happened w) fd (off + of_nat k) (drop k buf) \<Longrightarrow>
      (case r of
         Inl e \<Rightarrow> if e = EINTR then I k (noting (Wrote fd (off + of_nat k) (drop k buf) r) w)
                  else R (Some (DeviceError WritingDevice path e)) (noting (Wrote fd (off + of_nat k) (drop k buf) r) w)
       | Inr n \<Rightarrow> if n = 0 then R (Some (StoppedAccepting path)) (noting (Wrote fd (off + of_nat k) (drop k buf) r) w)
                  else I (k + n) (noting (Wrote fd (off + of_nat k) (drop k buf) r) w))"
    and fin: "\<And>k w. I k w \<Longrightarrow> length buf \<le> k \<Longrightarrow> Q () w"
  shows "wp True (writeAt_loop path fd off buf k) S Q R w"
proof -
  define good where "good = (\<lambda>y. case y of (r :: unit ending, w') \<Rightarrow>
    (case r of Ok _ \<Rightarrow> Q () w' | Failed e \<Rightarrow> R (Some e) w' | Stopped \<Rightarrow> R None w'))"
  have "I k w \<longrightarrow> path' = path \<longrightarrow> fd' = fd \<longrightarrow> off' = off \<longrightarrow> buf' = buf \<longrightarrow> S' = S \<longrightarrow> good y"
    if "writeAt_loop path' fd' off' buf' k S' w = Some y" for path' fd' off' buf' k S' w y
    using that
  proof (rule writeAt_loop.raw_induct [where P = "\<lambda>path' fd' off' buf' k S' w y.
      I k w \<longrightarrow> path' = path \<longrightarrow> fd' = fd \<longrightarrow> off' = off \<longrightarrow> buf' = buf \<longrightarrow> S' = S \<longrightarrow> good y", rotated],
      intro impI)
    fix f path' fd' off' buf' k S' w y
    assume IH: "\<And>path' fd' off' buf' k S' w y. f path' fd' off' buf' k S' w = Some y \<Longrightarrow>
        I k w \<longrightarrow> path' = path \<longrightarrow> fd' = fd \<longrightarrow> off' = off \<longrightarrow> buf' = buf \<longrightarrow> S' = S \<longrightarrow> good y"
      and run: "(if k < length buf'
        then let at = off' + of_nat k; rest = drop k buf'; r = pwrite_answer S' (happened w) fd' at rest;
               w' = noting (Wrote fd' at rest r) w
             in case r of Inl e \<Rightarrow> if e = EINTR then f path' fd' off' buf' k S' w'
                    else Some (Failed (DeviceError WritingDevice path' e), w')
                | Inr n \<Rightarrow> if n = 0 then Some (Failed (StoppedAccepting path'), w')
                    else f path' fd' off' buf' (k + n) S' w'
        else Some (Ok (), w)) = Some y"
      and i: "I k w" and eqs: "path' = path" "fd' = fd" "off' = off" "buf' = buf" "S' = S"
    show "good y"
    proof (cases "k < length buf")
      case True
      let ?r = "pwrite_answer S (happened w) fd (off + of_nat k) (drop k buf)"
      let ?w = "noting (Wrote fd (off + of_nat k) (drop k buf) ?r) w"
      note s = step [OF i True refl]
      show ?thesis
      proof (cases ?r)
        case (Inl e)
        then show ?thesis
          using s True run IH [of path fd off buf k S ?w y]
          by (cases "e = EINTR") (auto simp: Let_def eqs good_def)
      next
        case (Inr n)
        then show ?thesis
          using s True run IH [of path fd off buf "k + n" S ?w y]
          by (cases "n = 0") (auto simp: Let_def eqs good_def)
      qed
    next
      case False
      then show ?thesis using fin [OF i] run by (auto simp: eqs good_def)
    qed
  qed
  with inv have "writeAt_loop path fd off buf k S w = Some y \<Longrightarrow> good y" for y by blast
  then show ?thesis by (cases "writeAt_loop path fd off buf k S w") (auto simp: wp_def good_def split: outcome.splits)
qed
subsection \<open>What a disk holds after its writes\<close>

definition put :: "nat \<Rightarrow> bytes \<Rightarrow> (nat \<Rightarrow> u8) \<Rightarrow> nat \<Rightarrow> u8" where
  "put a buf m = (\<lambda>i. if a \<le> i \<and> i < a + length buf then buf ! (i - a) else m i)"

fun image_after :: "descriptor \<Rightarrow> history \<Rightarrow> (nat \<Rightarrow> u8) \<Rightarrow> nat \<Rightarrow> u8" where
  "image_after fd [] m = m"
| "image_after fd (e # h) m =
     (case e of
        Wrote f a rest (Inr n) \<Rightarrow>
          if f = fd then put (unat a) (take n rest) (image_after fd h m) else image_after fd h m
      | _ \<Rightarrow> image_after fd h m)"

lemma put_Nil [simp]: "put a [] m = m"
  by (auto simp: put_def fun_eq_iff)

lemma put_append: "put a (x @ y) m = put (a + length x) y (put a x m)"
  by (auto simp: put_def nth_append fun_eq_iff)

text \<open>Every write of a run lies in one range of one descriptor.\<close>

definition writes_in :: "descriptor \<Rightarrow> nat \<Rightarrow> nat \<Rightarrow> event \<Rightarrow> bool" where
  "writes_in fd lo hi e \<longleftrightarrow>
     (\<exists>a rest r. e = Wrote fd a rest r \<and> rest \<noteq> [] \<and> lo \<le> unat a \<and> unat a + length rest \<le> hi)"

lemma writes_in_mono: "writes_in fd lo hi e \<Longrightarrow> lo' \<le> lo \<Longrightarrow> hi \<le> hi' \<Longrightarrow> writes_in fd lo' hi' e"
  unfolding writes_in_def by fastforce

text \<open>A kernel that does not interrupt more than \<open>N\<close> calls in a row.\<close>

fun interrupted :: "event \<Rightarrow> bool" where
  "interrupted (Wrote _ _ _ (Inl e)) = (e = EINTR)"
| "interrupted _ = False"

definition patient :: "nat \<Rightarrow> os \<Rightarrow> bool" where
  "patient N S \<longleftrightarrow>
     (\<forall>h fd a rest. pwrite_answer S h fd a rest = Inl EINTR \<longrightarrow> length (takeWhile interrupted h) < N)"

lemma unat_plus_of_nat:
  assumes "unat (off :: u64) + k < 18446744073709551616"
  shows "unat (off + of_nat k) = unat off + k"
proof -
  have "unat (of_nat k :: u64) = k" using assms by (simp add: unat_of_nat take_bit_nat_eq_self)
  then show ?thesis using assms by (subst unat_plus_u64) simp_all
qed

definition stored :: "descriptor \<Rightarrow> u64 \<Rightarrow> bytes \<Rightarrow> world \<Rightarrow> world \<Rightarrow> bool" where
  "stored fd off buf w w' \<longleftrightarrow>
     (\<forall>m. image_after fd (happened w') m = put (unat off) buf (image_after fd (happened w) m))"

lemma stored_Nil [simp]: "stored fd off [] w w"
  by (simp add: stored_def)

lemma writeAt_wp:
  assumes fd: "device_fd (devices w x) = Some fd" and room: "unat off + length buf < 18446744073709551616"
    and ends: "t \<or> patient N S"
  shows "wp t (writeAt x off buf) S
     (\<lambda>_ w'. steady (writes_in fd (unat off) (unat off + length buf)) w w' \<and> stored fd off buf w w')
     (\<lambda>r w'. r \<noteq> None \<and> steady (writes_in fd (unat off) (unat off + length buf)) w w' \<and>
        (\<exists>k < length buf. stored fd off (take k buf) w w')) w"
proof -
  let ?K = "writes_in fd (unat off) (unat off + length buf)"
  define Q where "Q = (\<lambda>(_ :: unit) w'. steady ?K w w' \<and> stored fd off buf w w')"
  define R where "R = (\<lambda>r w'. r \<noteq> (None :: RestoreError option) \<and> steady ?K w w' \<and>
    (\<exists>k < length buf. stored fd off (take k buf) w w'))"
  define I where "I = (\<lambda>k w'. steady ?K w w' \<and> stored fd off (take k buf) w w')"
  define ev where "ev = (\<lambda>k r. Wrote fd (off + of_nat k) (drop k buf) r)"
  have init: "I 0 w" by (simp add: I_def)
  have fin: "Q () w'" if "I k w'" "length buf \<le> k" for k w' using that by (simp add: I_def Q_def)
  have at: "unat (off + of_nat k :: u64) = unat off + k" if "k < length buf" for k
    using that room by (intro unat_plus_of_nat) simp
  have steady: "steady ?K w (noting (ev k r) w')" if "I k w'" "k < length buf" for k w' r
    using that at [OF that(2)] by (auto simp: I_def ev_def writes_in_def)
  have fails: "stored fd off (take k buf) w (noting (ev k r) w')" if "I k w'" "r = Inl e \<or> r = Inr 0" for k w' r e
    using that by (auto simp: I_def ev_def stored_def)
  have grows: "stored fd off (take (k + n) buf) w (noting (ev k (Inr n)) w')" if "I k w'" "k < length buf" for k n w'
    using that at [OF that(2)] by (auto simp: I_def ev_def stored_def take_add put_append min_def)
  have step: "case r of
       Inl e \<Rightarrow> if e = EINTR then I k (noting (ev k r) w') else R (Some (DeviceError WritingDevice p e)) (noting (ev k r) w')
     | Inr n \<Rightarrow> if n = 0 then R (Some (StoppedAccepting p)) (noting (ev k r) w') else I (k + n) (noting (ev k r) w')"
    if "I k w'" "k < length buf" for k w' p and r :: "errno + nat"
  proof (cases r)
    case (Inl e)
    then show ?thesis using steady [OF that] fails [OF that(1), of r e] that(2) by (auto simp: I_def R_def)
  next
    case (Inr n)
    then show ?thesis using steady [OF that] fails [OF that(1), of r] grows [OF that, of n] that(2) by (auto simp: I_def R_def)
  qed
  have "wp t (writeAt_loop (devicePath (devices w x)) fd off buf 0) S Q R w"
  proof (cases t)
    case True
    have "wp True (writeAt_loop (devicePath (devices w x)) fd off buf 0) S Q R w"
      by (rule writeAt_loop_partial [where I = I, OF init]) (erule (1) step [unfolded ev_def], erule (1) fin)
    with True show ?thesis by simp
  next
    case False
    with ends have pat: "patient N S" by simp
    define m where "m = (\<lambda>w' :: world. N - length (takeWhile interrupted (happened w')))"
    have m: "m (noting (ev k (Inl EINTR)) w') < m w'" if "Inl EINTR = pwrite_answer S (happened w') fd' a' rest'"
      for k w' fd' a' rest'
    proof -
      have "length (takeWhile interrupted (happened w')) < N" using pat that [symmetric] by (auto simp: patient_def)
      then show ?thesis by (simp add: ev_def m_def)
    qed
    show ?thesis
    proof (rule writeAt_loop_total [where I = I and m = m, OF init])
      fix k w' and r :: "errno + nat"
      assume *: "I k w'" "k < length buf" "r = pwrite_answer S (happened w') fd (off + of_nat k) (drop k buf)"
      show "case r of
         Inl e \<Rightarrow> if e = EINTR then I k (noting (Wrote fd (off + of_nat k) (drop k buf) r) w') \<and>
                    m (noting (Wrote fd (off + of_nat k) (drop k buf) r) w') < m w'
                  else R (Some (DeviceError WritingDevice (devicePath (devices w x)) e))
                    (noting (Wrote fd (off + of_nat k) (drop k buf) r) w')
       | Inr n \<Rightarrow> if n = 0 then R (Some (StoppedAccepting (devicePath (devices w x))))
                    (noting (Wrote fd (off + of_nat k) (drop k buf) r) w')
                  else I (k + n) (noting (Wrote fd (off + of_nat k) (drop k buf) r) w')"
        using step [OF *(1,2), of r "devicePath (devices w x)"] m [of w' fd "off + of_nat k" "drop k buf" k] *(3)
        by (auto simp: ev_def split: sum.splits if_splits)
    qed (erule (1) fin)
  qed
  then show ?thesis by (simp add: writeAt_def device_defs run_simps fd Q_def R_def)
qed

subsection \<open>Clearing a range\<close>

lemma stored_append:
  assumes "stored fd off a w w1" "stored fd (off + of_nat (length a)) b w1 w2"
    "unat off + length a < 18446744073709551616"
  shows "stored fd off (a @ b) w w2"
  using assms(1,2) unat_plus_of_nat [OF assms(3)] by (simp add: stored_def put_append)

lemma writeZeros_loop_wp:
  assumes "device_fd (devices w x) = Some fd" "unat off + unat n < 18446744073709551616" "0 < chunk" "t \<or> patient N S"
  shows "wp t (writeZeros_loop x chunk off n) S
     (\<lambda>_ w'. steady (writes_in fd (unat off) (unat off + unat n)) w w' \<and> stored fd off (replicate (unat n) 0) w w')
     (\<lambda>r w'. r \<noteq> None \<and> steady (writes_in fd (unat off) (unat off + unat n)) w w' \<and>
        (\<exists>k < unat n. stored fd off (replicate k 0) w w')) w"
  using assms
proof (induction x chunk off n arbitrary: w rule: writeZeros_loop.induct)
  case (1 x chunk off n)
  note IH = "1.IH" and prems = "1.prems"
  show ?case
  proof (cases "n = 0")
    case True
    then show ?thesis by (simp add: writeZeros_loop.simps run_simps)
  next
    case False
    define c where "c = min (unat n) chunk"
    let ?K = "writes_in fd (unat off) (unat off + unat n)"
    have c: "0 < c" "c \<le> unat n" using False prems(3) by (simp_all add: c_def unat_gt_0)
    have rest: "unat (n - of_nat c) = unat n - c" using c by (rule count_down)
    have next': "unat (off + of_nat c) = unat off + c" using c prems(2) by (intro unat_plus_of_nat) simp
    have small: "writes_in fd (unat off) (unat off + c) e \<Longrightarrow> ?K e" for e using c(2) by (elim writes_in_mono) auto
    have later: "writes_in fd (unat off + c) (unat off + c + (unat n - c)) e \<Longrightarrow> ?K e" for e
      using c(2) by (elim writes_in_mono) auto
    have split: "replicate (unat n) (0::u8) = replicate c 0 @ replicate (unat n - c) 0"
      using c(2) by (simp add: replicate_add [symmetric])
    have first: "wp t (writeAt x off (replicate c 0)) S
        (\<lambda>_ w'. steady (writes_in fd (unat off) (unat off + c)) w w' \<and> stored fd off (replicate c 0) w w')
        (\<lambda>r w'. r \<noteq> None \<and> steady (writes_in fd (unat off) (unat off + c)) w w' \<and>
          (\<exists>k < c. stored fd off (replicate k 0) w w')) w"
      using writeAt_wp [OF prems(1), of off "replicate c 0" t N S] prems(2,4) c
      by (simp add: take_replicate min_def) (erule wp_mono; force)
    have unfold: "writeZeros_loop x chunk off n = andThen (writeAt x off (replicate c 0)) (\<lambda>_.
        writeZeros_loop x chunk (off + of_nat c) (n - of_nat c))"
      using False prems(3) by (simp add: writeZeros_loop.simps [of x chunk off n] c_def Let_def)
    show ?thesis
      unfolding unfold wp_andThen
    proof (rule wp_mono [OF first], goal_cases)
      case (1 _ w1)
      then have st: "steady ?K w w1" and so: "stored fd off (replicate c 0) w w1"
        using steady_mono [OF _ small] by auto
      have "device_fd (devices w1 x) = Some fd" using prems(1) steadyD(2) [OF st] by simp
      from IH [OF _ c_def this] have rest_wp:
        "wp t (writeZeros_loop x chunk (off + of_nat c) (n - of_nat c)) S
          (\<lambda>_ w'. steady (writes_in fd (unat off + c) (unat off + c + (unat n - c))) w1 w' \<and>
             stored fd (off + of_nat c) (replicate (unat n - c) 0) w1 w')
          (\<lambda>r w'. r \<noteq> None \<and> steady (writes_in fd (unat off + c) (unat off + c + (unat n - c))) w1 w' \<and>
             (\<exists>k < unat n - c. stored fd (off + of_nat c) (replicate k 0) w1 w')) w1"
        using False prems c by (simp add: rest next')
      show ?case
      proof (rule wp_mono [OF rest_wp], goal_cases)
        case (1 _ w2)
        then have "steady ?K w1 w2" using steady_mono [OF _ later] by auto
        moreover have "stored fd off (replicate (unat n) 0) w w2"
          using 1 so c prems(2) unfolding split by (intro stored_append [OF so]) auto
        ultimately show ?case using steady_trans [OF st] by blast
      next
        case (2 r w2)
        then obtain k where k: "k < unat n - c" "stored fd (off + of_nat c) (replicate k 0) w1 w2" by auto
        have "steady ?K w1 w2" using 2 steady_mono [OF _ later] by auto
        moreover have "stored fd off (replicate (c + k) 0) w w2"
          using k so c prems(2) unfolding replicate_add by (intro stored_append [OF so]) auto
        ultimately show ?case using steady_trans [OF st] 2 k(1) by (auto intro!: exI [of _ "c + k"])
      qed
    next
      case (2 r w1)
      then show ?case using steady_mono [OF _ small] c by (auto intro: less_le_trans)
    qed
  qed
qed
lemma zero_chunk_pos: "0 < zero_chunk n s"
proof -
  have "0 < unat (ucast (supported_or_512 s) :: u64)"
    using unat_supported_bounds(1) [of s] by (simp add: unat_widen)
  then show ?thesis unfolding zero_chunk_def Let_def by (split if_split) (simp add: unat_gt_0 word_gt_0)
qed

lemma writeZeros_wp:
  assumes "device_fd (devices w x) = Some fd" "unat off + unat n < 18446744073709551616" "t \<or> patient N S"
  shows "wp t (writeZeros x off n s) S
     (\<lambda>_ w'. steady (writes_in fd (unat off) (unat off + unat n)) w w' \<and> stored fd off (replicate (unat n) 0) w w')
     (\<lambda>r w'. r \<noteq> None \<and> steady (writes_in fd (unat off) (unat off + unat n)) w w' \<and>
        (\<exists>k < unat n. stored fd off (replicate k 0) w w')) w"
proof (cases "n = 0")
  case True
  then show ?thesis by (simp add: writeZeros_def run_simps)
next
  case False
  then have "0 < unat n" by (simp add: unat_gt_0)
  with False writeZeros_loop_wp [OF assms(1,2) zero_chunk_pos assms(3)] show ?thesis
    by (auto simp: writeZeros_def run_simps intro!: exI [of _ 0])
qed

section \<open>Flushing, re-reading and waiting\<close>

fun flushing :: "event \<Rightarrow> bool" where
  "flushing (Synced _ _) = True"
| "flushing (BuffersDropped _ _) = True"
| "flushing (TableReread _ _) = True"
| "flushing _ = False"

lemma flush_wp:
  "wp t (flush x) S
     (\<lambda>_ w'. steady flushing w w' \<and> (\<forall>fd. device_fd (devices w x) = Some fd \<longrightarrow> Synced fd None \<in> set (happened w')))
     (\<lambda>r w'. r \<noteq> None \<and> steady flushing w w') w"
  by (cases "device_fd (devices w x)")
    (simp_all add: flush_def device_defs run_simps split: option.split)

lemma rereadPartitionTable_wp:
  "wp t (rereadPartitionTable x) S
     (\<lambda>_ w'. steady flushing w w' \<and> device_fd (devices w x) \<noteq> None \<and>
        hd (happened w') = TableReread (the (device_fd (devices w x))) None \<and> happened w' \<noteq> [])
     (\<lambda>r w'. r \<noteq> None \<and> steady flushing w w') w"
  by (cases "device_fd (devices w x)")
    (simp_all add: rereadPartitionTable_def device_defs run_simps split: option.split)

lemma diskSequence_wp:
  "wp t (diskSequence x) S
     (\<lambda>r w'. steady reading w w' \<and>
        (\<forall>s. r = Some s \<longrightarrow> s \<noteq> 0 \<and> device_fd (devices w x) \<noteq> None \<and>
           SequenceRead (the (device_fd (devices w x))) (Some s) \<in> set (happened w')))
     (\<lambda>_ _. False) w"
  by (cases "device_fd (devices w x)")
    (simp_all add: diskSequence_def device_defs run_simps split: option.split)

fun waiting :: "event \<Rightarrow> bool" where
  "waiting (PathChecked _ _) = True"
| "waiting (ClockRead _) = True"
| "waiting (Slept _) = True"
| "waiting (DetailReported _) = True"
| "waiting _ = False"

lemma wait_loop_partial: "wp True (wait_loop path noted) S (\<lambda>_ w'. steady waiting w w') (\<lambda>_ _. False) w"
proof -
  have "fst y = Ok () \<and> steady waiting w (snd y)" if "wait_loop path noted S w = Some y" for y
    using that
  proof (rule wait_loop.raw_induct [where P = "\<lambda>_ _ _ w y. fst y = Ok () \<and> steady waiting w (snd y)", rotated])
    fix f path noted S w y
    assume IH: "\<And>path noted S w y. f path noted S w = Some y \<Longrightarrow> fst y = Ok () \<and> steady waiting w (snd y)"
      and run: "(let there = exists_answer S (happened w) path; w1 = noting (PathChecked path there) w
        in if there then Some (Ok (), w1)
           else let t1 = clock_answer S (happened w1); w2 = noting (ClockRead t1) w1
             in if NewPartitionTimeoutMs \<le> t1 then Some (Ok (), w2)
                else let w3 = noting (Slept 250) w2; t2 = clock_answer S (happened w3); w4 = noting (ClockRead t2) w3
                  in if 5000 \<le> t2 - noted
                     then let t3 = clock_answer S (happened w4);
                            w5 = noting (DetailReported (StillWaiting path (t3 div 1000))) (noting (ClockRead t3) w4)
                          in f path t3 S w5
                     else f path noted S w4) = Some y"
    show "fst y = Ok () \<and> steady waiting w (snd y)"
      using run by (auto simp: Let_def split: if_splits dest!: IH elim!: steady_trans [rotated])
  qed
  then show ?thesis by (cases "wait_loop path noted S w") (auto simp: wp_def split: outcome.splits)
qed

section \<open>The loop device\<close>

fun looping :: "event \<Rightarrow> bool" where
  "looping (NodeRead _ _) = True"
| "looping (SizeRead _ _) = True"
| "looping (Opened _ a _) = (a \<noteq> Exclusive \<and> a \<noteq> Inspect)"
| "looping (Closed x _) = (x = None)"
| "looping (LoopNumber _ _) = True"
| "looping (LoopConfigured _ _ _ _) = True"
| "looping (LoopCleared _ _) = True"
| "looping (BuffersDropped _ _) = True"
| "looping (Synced _ _) = True"
| "looping _ = False"

definition loops :: "world \<Rightarrow> world \<Rightarrow> bool" where
  "loops w w' \<longleftrightarrow> adds looping w w' \<and> devices w' = devices w \<and> steps_counter w' = steps_counter w"

lemma loops_refl [simp, intro]: "loops w w"
  by (simp add: loops_def)

lemma loops_noting [simp, intro]: "loops w w' \<Longrightarrow> looping e \<Longrightarrow> loops w (noting e w')"
  by (simp add: loops_def)

lemma loops_formatter [simp]: "loops w (w'\<lparr>formatter := l\<rparr>) = loops w w'"
  by (simp add: loops_def)

lemma loops_trans: "loops w w' \<Longrightarrow> loops w' w'' \<Longrightarrow> loops w w''"
  by (auto simp: loops_def intro: adds_trans)

text \<open>The mapping the formatter works through, as the history shows it.\<close>

definition mapped :: "qstring \<Rightarrow> loop_config \<Rightarrow> history \<Rightarrow> bool" where
  "mapped path config h \<longleftrightarrow> (\<exists>c. LoopConfigured path c config None \<in> set h)"

lemma configure_attempts_wp:
  "wp t (configure_attempts n busy err config) S
     (\<lambda>r w'. loops w w' \<and>
        (r = None \<longrightarrow> loop_fd (formatter w') \<noteq> None \<and> mapped (loop_path (formatter w')) config (happened w')))
     (\<lambda>_ _. False) w"
proof (induction n arbitrary: busy err w)
  case 0
  then show ?case by (simp add: configure_attempts.simps run_simps)
next
  case (Suc n)
  define Q where "Q = (\<lambda>(r :: errno option) w'. loops w w' \<and> (r = None \<longrightarrow>
    loop_fd (formatter w') \<noteq> None \<and> mapped (loop_path (formatter w')) config (happened w')))"
  have IH: "loops w w1 \<Longrightarrow> wp t (configure_attempts n b e config) S Q (\<lambda>_ _. False) w1" for w1 b e
    by (rule wp_mono [OF Suc.IH]) (auto simp: Q_def intro: loops_trans)
  have Q_None: "Q None w'" if "loops w w'" "loop_fd (formatter w') \<noteq> None"
    "mapped (loop_path (formatter w')) config (happened w')" for w'
    using that by (simp add: Q_def)
  have Q_Some: "Q (Some e) w'" if "loops w w'" for w' e using that by (simp add: Q_def)
  have "wp t (configure_attempts (Suc n) busy err config) S Q (\<lambda>_ _. False) w"
    by (simp add: configure_attempts.simps run_simps set_loop_def Let_def split: sum.split option.split)
      (auto intro!: IH Q_Some Q_None simp: mapped_def)
  then show ?case by (simp add: Q_def)
qed

lemma configureLoop_wp:
  "wp t (configureLoop backing off n s) S
     (\<lambda>_ w'. loops w w' \<and> loop_fd (formatter w') \<noteq> None \<and>
        mapped (loop_path (formatter w'))
          \<lparr>config_fd = backing, block_size = s, lo_offset = off, lo_sizelimit = n, autoclear = True\<rparr> (happened w'))
     (\<lambda>r w'. r \<noteq> None \<and> loops w w') w"
proof -
  define config where "config = \<lparr>config_fd = backing, block_size = s, lo_offset = off, lo_sizelimit = n, autoclear = True\<rparr>"
  define Q where "Q = (\<lambda>(_ :: unit) w'. loops w w' \<and> loop_fd (formatter w') \<noteq> None \<and>
    mapped (loop_path (formatter w')) config (happened w'))"
  define R where "R = (\<lambda>r w'. r \<noteq> (None :: RestoreError option) \<and> loops w w')"
  have R: "loops w w' \<Longrightarrow> R (Some e) w'" for e w' by (simp add: R_def)
  have attempts: "wp t (andThen (configure_attempts 8 False 0 config)
      (\<lambda>r. andThen (tell (Closed None control)) (\<lambda>_. case r of
          None \<Rightarrow> give () | Some e \<Rightarrow> andThen (set_loop (\<lambda>l. l\<lparr>loop_path := []\<rparr>)) (\<lambda>_. fail (LoopError SettingUpLoop e))))) S
        Q R w1" if "loops w w1" for w1 control
    unfolding wp_andThen [of t "configure_attempts 8 False 0 config"]
  proof (rule wp_mono [OF configure_attempts_wp], goal_cases)
    case (1 r w2)
    then have "loops w w2" using loops_trans [OF that] by blast
    then show ?case using 1
      by (cases r) (auto simp: run_simps set_loop_def mapped_def Q_def R_def)
  qed simp
  have "wp t (configureLoop backing off n s) S Q R w"
    unfolding configureLoop_def backing_size_def config_def [symmetric]
    by (simp add: run_simps R split: sum.split node.split option.split)
      (simp add: attempts flip: wp_andThen)
  then show ?thesis by (simp add: Q_def R_def config_def)
qed

lemma releaseClaim_wp:
  "wp t releaseClaim S
     (\<lambda>_ w'. loops w w' \<and> loop_path (formatter w') = loop_path (formatter w) \<and>
        loop_fd (formatter w') = loop_fd (formatter w) \<and> loop_claim (formatter w') = None)
     (\<lambda>_ _. False) w"
  by (simp add: releaseClaim_def run_simps set_loop_def split: option.split)

lemma prepareForFormatting_wp:
  "wp t prepareForFormatting S
     (\<lambda>_ w'. loops w w' \<and> loop_path (formatter w') = loop_path (formatter w) \<and>
        loop_fd (formatter w') = loop_fd (formatter w) \<and> loop_claim (formatter w') = None)
     (\<lambda>r w'. r \<noteq> None \<and> loops w w') w"
  by (auto simp: prepareForFormatting_def run_simps split: option.split
    intro!: wp_mono [OF releaseClaim_wp] intro: loops_trans [rotated])

lemma detachLoop_wp:
  "wp t detachLoop S
     (\<lambda>_ w'. loops w w' \<and> loop_fd (formatter w') = None \<and> loop_claim (formatter w') = None \<and>
        (\<forall>fd. loop_fd (formatter w) = Some fd \<longrightarrow> Synced fd None \<in> set (happened w')))
     (\<lambda>r w'. r \<noteq> None \<and> loops w w' \<and> loop_fd (formatter w') = None \<and> loop_claim (formatter w') = None) w"
  by (auto simp: detachLoop_def releaseClaim_def run_simps set_loop_def split: option.split)

section \<open>Formatting\<close>

text \<open>Events of the formatter; it is always given the device node \<open>path\<close> as its last argument.\<close>

fun formatting :: "qstring \<Rightarrow> event \<Rightarrow> bool" where
  "formatting path (ToolStarted _ arguments _) = (arguments \<noteq> [] \<and> last arguments = path)"
| "formatting path (DetailReported _) = True"
| "formatting path (EnvironmentRead _ _) = True"
| "formatting path (PasswdRead _ _) = True"
| "formatting path _ = False"

lemma run_format_attempts_wp:
  "\<forall>arguments \<in> set attempts. arguments \<noteq> [] \<and> last arguments = path \<Longrightarrow>
   wp t (run_format_attempts U tool path out attempts) S
     (\<lambda>_ w'. steady (formatting path) w w' \<and> (\<exists>arguments output. ToolStarted tool arguments (Finished True output) \<in> set (happened w')))
     (\<lambda>r w'. r \<noteq> None \<and> steady (formatting path) w w') w"
proof (induction attempts arbitrary: out w)
  case (Cons a as)
  define Q where "Q = (\<lambda>(_ :: unit) w'. steady (formatting path) w w' \<and>
    (\<exists>arguments output. ToolStarted tool arguments (Finished True output) \<in> set (happened w')))"
  define R where "R = (\<lambda>r w'. r \<noteq> (None :: RestoreError option) \<and> steady (formatting path) w w')"
  have a: "a \<noteq> []" "last a = path" using Cons.prems by simp_all
  have IH: "steady (formatting path) w w1 \<Longrightarrow> wp t (run_format_attempts U tool path o' as) S Q R w1" for w1 o'
    by (rule wp_mono [OF Cons.IH]) (use Cons.prems in \<open>auto simp: Q_def R_def intro: steady_trans\<close>)
  have R: "steady (formatting path) w w1 \<Longrightarrow> R (Some e) w1" for w1 e by (simp add: R_def)
  have Q: "steady (formatting path) w w1 \<Longrightarrow> ToolStarted tool a (Finished True o') \<in> set (happened w1) \<Longrightarrow> Q () w1"
    for w1 o' by (auto simp: Q_def)
  have "wp t (run_format_attempts U tool path out (a # as)) S Q R w"
    by (simp add: run_format_attempts.simps run_simps device_defs a R IH split: tool_result.split)
      (auto simp: a intro!: Q)
  then show ?case by (simp add: Q_def R_def)
qed (simp add: run_format_attempts.simps run_simps)

lemma environmentId_wp:
  "wp t (environmentId name) S (\<lambda>_ w'. steady (formatting path) w w') (\<lambda>_ _. False) w"
  by (simp add: environmentId_def run_simps)

lemma environmentId_then:
  assumes "steady (formatting path) w w1" "\<And>x w2. steady (formatting path) w w2 \<Longrightarrow> wp t (k x) S Q R w2"
  shows "wp t (andThen (environmentId name) k) S Q R w1"
  unfolding wp_andThen by (rule wp_mono [OF environmentId_wp [of _ _ _ path]]) (use assms in \<open>auto intro: steady_trans\<close>)

lemma desktopOwner_wp: "wp t desktopOwner S (\<lambda>_ w'. steady (formatting path) w w') (\<lambda>_ _. False) w"
  unfolding desktopOwner_def
proof (rule environmentId_then [of path, OF steady_refl], goal_cases)
  case (1 pkexec w1)
  define rest :: "u32 option \<Rightarrow> DesktopOwner option action" where "rest = (\<lambda>uid.
    case uid of
       None \<Rightarrow> give None
     | Some u \<Rightarrow>
         if u = 0 then give None
         else
           andThen (ask (\<lambda>S h. passwd_answer S h u) (PasswdRead u)) (\<lambda>entry.
           case entry of
             Some g \<Rightarrow> give (Some \<lparr>owner_uid = u, owner_gid = g\<rparr>)
           | None \<Rightarrow>
               andThen (environmentId ''SUDO_GID'') (\<lambda>gid.
               give (map_option (\<lambda>g. \<lparr>owner_uid = u, owner_gid = g\<rparr>) gid))))"
  have rest: "wp t (rest uid) S (\<lambda>_ w'. steady (formatting path) w w') (\<lambda>_ _. False) w2"
    if "steady (formatting path) w w2" for uid w2
    using that unfolding rest_def
    by (auto simp: wp_ask wp_andThen [of _ "ask _ _"] wp_give wp_if split: option.split
      intro!: environmentId_then [of path w])
  have "wp t (andThen (if pkexec = None then environmentId ''SUDO_UID'' else give pkexec) rest) S
      (\<lambda>_ w'. steady (formatting path) w w') (\<lambda>_ _. False) w1"
    using 1 rest by (cases pkexec) (auto simp: wp_andThen [of _ "give _"] wp_give intro!: environmentId_then [of path w])
  then show ?case unfolding rest_def .
qed

lemma format_attempts_wp:
  "wp t (format_attempts fs path label start) S
     (\<lambda>as w'. steady (formatting path) w w' \<and> (\<forall>a \<in> set as. a \<noteq> [] \<and> last a = path)) (\<lambda>_ _. False) w"
proof (cases "fs = Ext4")
  case True
  show ?thesis
    unfolding format_attempts_def True FileSystemType.case wp_andThen [of _ desktopOwner]
    by (rule wp_mono [OF desktopOwner_wp [of _ _ path]])
      (simp_all add: run_simps device_defs split: option.split)
next
  case False
  then show ?thesis by (cases fs) (simp_all add: format_attempts_def wp_give)
qed

lemma formatLinuxPartition_wp:
  "wp t (formatLinuxPartition fs tool path label start) S
     (\<lambda>_ w'. steady (formatting path) w w' \<and> (\<exists>arguments output. ToolStarted tool arguments (Finished True output) \<in> set (happened w')))
     (\<lambda>r w'. r \<noteq> None \<and> steady (formatting path) w w') w"
  unfolding formatLinuxPartition_def wp_andThen wp_unicode_tables
proof (rule wp_mono [OF format_attempts_wp], goal_cases)
  case (1 as w1)
  then have st: "steady (formatting path) w w1" by simp
  show ?case
    by (rule wp_mono [OF run_format_attempts_wp]) (use 1 in \<open>auto intro: steady_trans [OF st]\<close>)
qed simp

text \<open>A clock the 250 ms naps of the wait add up on: 120 of them are the 30 seconds.\<close>

definition naps :: "history \<Rightarrow> nat" where
  "naps h = length (filter (\<lambda>e. case e of Slept n \<Rightarrow> n = 250 | _ \<Rightarrow> False) h)"

definition punctual :: "os \<Rightarrow> bool" where
  "punctual S \<longleftrightarrow> (\<forall>h. 120 \<le> naps h \<longrightarrow> NewPartitionTimeoutMs \<le> clock_answer S h)"

lemma wait_loop_total:
  assumes "punctual S"
  shows "wp False (wait_loop path noted) S (\<lambda>_ w'. steady waiting w w') (\<lambda>_ _. False) w"
proof (induction "120 - naps (happened w)" arbitrary: noted w rule: less_induct)
  case less
  define w1 where "w1 = noting (PathChecked path (exists_answer S (happened w) path)) w"
  define w2 where "w2 = noting (ClockRead (clock_answer S (happened w1))) w1"
  define w3 where "w3 = noting (Slept 250) w2"
  define w4 where "w4 = noting (ClockRead (clock_answer S (happened w3))) w3"
  define w5 where "w5 = noting (DetailReported (StillWaiting path (clock_answer S (happened w4) div 1000)))
    (noting (ClockRead (clock_answer S (happened w4))) w4)"
  have steadies: "steady waiting w w1" "steady waiting w w2" "steady waiting w w4" "steady waiting w w5"
    by (simp_all add: w1_def w2_def w3_def w4_def w5_def)
  show ?case
  proof (cases "exists_answer S (happened w) path \<or> NewPartitionTimeoutMs \<le> clock_answer S (happened w1)")
    case True
    then show ?thesis
      using steadies by (auto simp: wp_def wait_loop.simps [of path noted S w] Let_def w1_def w2_def)
  next
    case False
    have "naps (happened w1) = naps (happened w)" by (simp add: naps_def w1_def)
    then have few: "naps (happened w) < 120" using False assms by (auto simp: punctual_def not_le [symmetric])
    have "naps (happened w4) = Suc (naps (happened w))" "naps (happened w5) = Suc (naps (happened w))"
      by (simp_all add: naps_def w1_def w2_def w3_def w4_def w5_def)
    then have less4: "120 - naps (happened w4) < 120 - naps (happened w)"
      and less5: "120 - naps (happened w5) < 120 - naps (happened w)" using few by simp_all
    have "wp False (wait_loop path l) S (\<lambda>_ w'. steady waiting w w') (\<lambda>_ _. False) w'"
      if "w' = w4 \<or> w' = w5" for w' l
    proof -
      have "120 - naps (happened w') < 120 - naps (happened w)" and st: "steady waiting w w'"
        using that less4 less5 steadies by auto
      then show ?thesis by (intro wp_mono [OF less(1)]) (auto intro: steady_trans)
    qed
    from this [of w4 noted] this [of w5 "clock_answer S (happened w4)"] False show ?thesis
      by (auto simp: wp_def wait_loop.simps [of path noted S w] Let_def w1_def w2_def w3_def w4_def w5_def)
  qed
qed

lemma wait_loop_wp:
  "t \<or> punctual S \<Longrightarrow> wp t (wait_loop path noted) S (\<lambda>_ w'. steady waiting w w') (\<lambda>_ _. False) w"
  using wait_loop_partial [of path noted S w] wait_loop_total [of S path noted w] by (cases t) simp_all

definition partition_evidence :: "qstring \<Rightarrow> qstring \<Rightarrow> descriptor \<Rightarrow> u64 option \<Rightarrow> event set \<Rightarrow> bool" where
  "partition_evidence diskName path fd seq seen \<longleftrightarrow>
     (\<exists>n v. NodeRead fd (Inr (BlockNode n)) \<in> seen \<and> Looked v \<in> seen \<and> isValid n \<and>
        readDeviceNumber v (join_path (join_path SysBlock diskName) (file_name path)) = n) \<and>
     (case seq of None \<Rightarrow> True | Some s \<Rightarrow> SequenceRead fd (Some s) \<in> seen)"

lemma verifyPartitionOf_wp:
  "wp t (verifyPartitionOf x diskName seq) S
     (\<lambda>_ w'. steady reading w w' \<and> device_fd (devices w x) \<noteq> None \<and>
        lately (partition_evidence diskName (devicePath (devices w x)) (the (device_fd (devices w x))) seq) w w')
     (\<lambda>r w'. r \<noteq> None \<and> steady reading w w') w"
proof (cases "device_fd (devices w x)")
  case None
  then show ?thesis by (simp add: verifyPartitionOf_def device_defs run_simps)
next
  case (Some fd)
  show ?thesis
    apply (simp add: verifyPartitionOf_def device_defs blockDeviceNumber_def diskSequence_def run_simps Some Let_def
        split: sum.split node.split option.split)
    apply (intro conjI allI impI lately_noting lately_refl)
    apply (auto simp: partition_evidence_def)
    done
qed

end
