(* ===== verification/Restore_Safety.thy ===== *)
theory Restore_Safety
  imports Restore_Runs
begin

text \<open>
  The safety of \<open>performLinuxRestore\<close>. An event of a run is \<open>allowed\<close> by what happened before it: a
  write needs both gates passed on the disk sysfs described, the exclusive handle of that disk still
  open, its identity verified on that handle, no cancel request, and a range inside the disk; the
  formatter may only be started on a mapping of exactly the partition of that handle; the reporter is
  not asked about cancelling once something was written. A history is \<open>justified\<close> when every event was
  allowed. The chain of weakest preconditions below shows that every run keeps its history justified.
\<close>

section \<open>When an event is allowed\<close>

text \<open>
  \<open>target_checked\<close>: both gates accepted the disk that sysfs described at some moment of the run.
  \<open>handle_verified\<close>: the descriptor is the exclusive handle of that disk, not closed since, and every
  question of \<open>verifyIdentity\<close> was answered as it should be after the handle was opened.
\<close>

definition target_checked :: "unicode \<Rightarrow> RestoreRequest \<Rightarrow> DiskInfo \<Rightarrow> history \<Rightarrow> bool" where
  "target_checked U req disk h \<longleftrightarrow>
     isSafeRestoreTarget U (request_disk req) (request_guard req) = None \<and>
     (\<exists>v. Looked v \<in> set h \<and> refreshUsbDisk U v (deviceId (request_disk req)) RestoreDetails = Inr disk) \<and>
     isSameRestoreTarget U (request_disk req) disk = None \<and>
     isSafeRestoreTarget U disk (request_guard req) = None \<and>
     canCreatePartitionLayout (request_style req) disk = None \<and>
     canCreateFileSystemOn (request_fileSystem req) disk = None"

definition since_open :: "qstring \<Rightarrow> descriptor \<Rightarrow> history \<Rightarrow> history" where
  "since_open path fd h = takeWhile (\<lambda>e. e \<noteq> Opened path Exclusive (Inr fd)) h"

definition handle_open :: "DiskInfo \<Rightarrow> descriptor \<Rightarrow> history \<Rightarrow> bool" where
  "handle_open disk fd h \<longleftrightarrow>
     Opened (deviceId disk) Exclusive (Inr fd) \<in> set h \<and>
     Closed (Some Restored) fd \<notin> set (since_open (deviceId disk) fd h)"

definition handle_verified :: "unicode \<Rightarrow> DiskInfo \<Rightarrow> descriptor \<Rightarrow> history \<Rightarrow> bool" where
  "handle_verified U disk fd h \<longleftrightarrow>
     handle_open disk fd h \<and>
     identity_evidence U disk (deviceId disk) fd (set (since_open (deviceId disk) fd h))"

definition may_touch :: "unicode \<Rightarrow> RestoreRequest \<Rightarrow> DiskInfo \<Rightarrow> descriptor \<Rightarrow> history \<Rightarrow> bool" where
  "may_touch U req disk fd h \<longleftrightarrow>
     target_checked U req disk h \<and> CancelAsked True \<notin> set h \<and> handle_verified U disk fd h"

definition unwritten :: "history \<Rightarrow> bool" where
  "unwritten h \<longleftrightarrow> (\<forall>fd a rest r. Wrote fd a rest r \<notin> set h)"

fun allowed :: "unicode \<Rightarrow> RestoreRequest \<Rightarrow> event \<Rightarrow> history \<Rightarrow> bool" where
  "allowed U req (Wrote fd a rest r) past \<longleftrightarrow>
     (\<exists>disk. may_touch U req disk fd past \<and> unat a + length rest \<le> unat (disk_size disk) \<and>
        StepReported ClearSignatures \<in> set past)"
| "allowed U req (ToolStarted tool arguments r) past \<longleftrightarrow>
     (\<exists>disk fd config. may_touch U req disk fd past \<and> arguments \<noteq> [] \<and>
        mapped (last arguments) config past \<and> config_fd config = fd \<and>
        lo_offset config = startOffset (calculateGptLayout (disk_size disk) (sectorSize disk)) \<and>
        lo_sizelimit config = layout_length (calculateGptLayout (disk_size disk) (sectorSize disk)) \<and>
        StepReported WritePartitionTable \<in> set past)"
| "allowed U req (CancelAsked _) past \<longleftrightarrow> unwritten past"
| "allowed U req _ past \<longleftrightarrow> True"

primrec justified :: "unicode \<Rightarrow> RestoreRequest \<Rightarrow> history \<Rightarrow> bool" where
  "justified U req [] \<longleftrightarrow> True"
| "justified U req (e # past) \<longleftrightarrow> allowed U req e past \<and> justified U req past"

section \<open>Events that keep what was checked\<close>

fun neutral :: "event \<Rightarrow> bool" where
  "neutral (CancelAsked b) = (\<not> b)"
| "neutral (Opened _ Exclusive (Inr _)) = False"
| "neutral (Closed (Some Restored) _) = False"
| "neutral _ = True"

fun quiet :: "event \<Rightarrow> bool" where
  "quiet (Wrote _ _ _ _) = False"
| "quiet (ToolStarted _ _ _) = False"
| "quiet (CancelAsked _) = False"
| "quiet e = neutral e"

lemma quiet_neutral: "quiet e \<Longrightarrow> neutral e"
  by (induction e rule: quiet.induct) simp_all

lemma quiet_allowed: "quiet e \<Longrightarrow> allowed U req e past"
  by (cases e) simp_all

lemma neutral_Opened: "a \<noteq> Exclusive \<Longrightarrow> neutral (Opened p a r)"
  by (cases a) simp_all

lemma quiet_classes:
  "reading e \<Longrightarrow> quiet e" "stepping e \<Longrightarrow> quiet e" "unmounting e \<Longrightarrow> quiet e" "flushing e \<Longrightarrow> quiet e"
  "waiting e \<Longrightarrow> quiet e" "looping e \<Longrightarrow> quiet e"
proof -
  show "looping e \<Longrightarrow> quiet e"
    by (cases e) (auto simp: neutral_Opened)
qed (cases e; simp)+

lemma since_open_neutral: "neutral e \<Longrightarrow> since_open p fd (e # h) = e # since_open p fd h"
  by (auto simp: since_open_def)

lemma handle_open_neutral: "handle_open disk fd h \<Longrightarrow> neutral e \<Longrightarrow> handle_open disk fd (e # h)"
  by (auto simp: handle_open_def since_open_neutral)

lemma may_touch_neutral: "may_touch U req disk fd h \<Longrightarrow> neutral e \<Longrightarrow> may_touch U req disk fd (e # h)"
  unfolding may_touch_def handle_verified_def
  by (auto simp: handle_open_neutral since_open_neutral target_checked_def elim!: identity_evidence_mono)

lemma target_checked_mono: "target_checked U req disk h \<Longrightarrow> set h \<subseteq> set h' \<Longrightarrow> target_checked U req disk h'"
  by (auto simp: target_checked_def)

lemma quiet_run:
  "list_all quiet new \<Longrightarrow> justified U req h \<Longrightarrow> justified U req (new @ h)"
  "list_all quiet new \<Longrightarrow> handle_open disk fd h \<Longrightarrow> handle_open disk fd (new @ h)"
  "list_all quiet new \<Longrightarrow> CancelAsked b \<notin> set new"
  "list_all quiet new \<Longrightarrow> unwritten h \<Longrightarrow> unwritten (new @ h)"
  "list_all quiet new \<Longrightarrow> since_open p fd (new @ h) = new @ since_open p fd h"
  by (induction new)
    (auto simp: quiet_allowed quiet_neutral handle_open_neutral since_open_neutral unwritten_def)

lemma neutral_run:
  assumes "list_all neutral new" "may_touch U req disk fd h"
    and "\<And>e past. e \<in> set new \<Longrightarrow> may_touch U req disk fd past \<Longrightarrow> set h \<subseteq> set past \<Longrightarrow> allowed U req e past"
    and "justified U req h"
  shows "may_touch U req disk fd (new @ h) \<and> justified U req (new @ h)"
  using assms by (induction new) (auto simp: may_touch_neutral)

section \<open>The stages of a restore\<close>

definition ready :: "unicode \<Rightarrow> RestoreRequest \<Rightarrow> world \<Rightarrow> bool" where
  "ready U req w \<longleftrightarrow>
     justified U req (happened w) \<and> CancelAsked True \<notin> set (happened w) \<and> unwritten (happened w)"

definition held :: "DiskInfo \<Rightarrow> descriptor \<Rightarrow> world \<Rightarrow> bool" where
  "held disk fd w \<longleftrightarrow>
     device_fd (devices w Restored) = Some fd \<and> devicePath (devices w Restored) = deviceId disk \<and>
     handle_open disk fd (happened w)"

lemma justified_quiet: "adds quiet w w' \<Longrightarrow> justified U req (happened w) \<Longrightarrow> justified U req (happened w')"
  by (auto simp: adds_def quiet_run)

lemma ready_quiet: "adds quiet w w' \<Longrightarrow> ready U req w \<Longrightarrow> ready U req w'"
  by (auto simp: ready_def adds_def quiet_run)

lemma ready_justified: "ready U req w \<Longrightarrow> justified U req (happened w)"
  by (simp add: ready_def)

lemma held_quiet: "adds quiet w w' \<Longrightarrow> devices w' Restored = devices w Restored \<Longrightarrow> held disk fd w \<Longrightarrow> held disk fd w'"
  by (auto simp: held_def adds_def quiet_run)

lemma checked_adds: "adds K w w' \<Longrightarrow> target_checked U req disk (happened w) \<Longrightarrow> target_checked U req disk (happened w')"
  by (rule target_checked_mono [OF _ adds_set])

lemma reported_adds: "adds K w w' \<Longrightarrow> e \<in> set (happened w) \<Longrightarrow> e \<in> set (happened w')"
  using adds_set by blast

lemma steady_quiet:
  "steady reading w w' \<Longrightarrow> adds quiet w w'" "steady unmounting w w' \<Longrightarrow> adds quiet w w'"
  "steady flushing w w' \<Longrightarrow> adds quiet w w'" "steady waiting w w' \<Longrightarrow> adds quiet w w'"
  "adds stepping w w' \<Longrightarrow> adds quiet w w'" "loops w w' \<Longrightarrow> adds quiet w w'"
  by (auto simp: steady_def loops_def quiet_classes elim!: adds_mono)

lemma steady_from: "steady K (noting e w) w' \<Longrightarrow> K e \<Longrightarrow> steady K w w'"
  by (rule steady_trans [of _ _ "noting e w"]) simp_all

lemma first_tool_wp:
  "wp t (first_tool names) S (\<lambda>_ w'. steady reading w w') (\<lambda>_ _. False) w"
proof (induction names arbitrary: w)
  case (Cons n names)
  show ?case
    by (auto simp: run_simps device_defs Let_def intro!: wp_mono [OF Cons.IH] elim: steady_from)
qed (simp add: run_simps)

lemma resolveFormatTool_wp:
  "wp t (resolveFormatTool fs) S (\<lambda>tool w'. steady reading w w' \<and> tool \<noteq> []) (\<lambda>r w'. r \<noteq> None \<and> steady reading w w') w"
  unfolding resolveFormatTool_def wp_andThen [of _ "first_tool _"]
  by (rule wp_mono [OF first_tool_wp]) (simp_all add: run_simps)

lemma stop_if_cancelled_wp:
  "wp t stop_if_cancelled S
     (\<lambda>_ w'. w' = noting (CancelAsked False) w) (\<lambda>r w'. r = None \<and> w' = noting (CancelAsked True) w) w"
  by (simp add: stop_if_cancelled_def run_simps)

lemma stop_if_cancelled_ready:
  assumes "ready (tables S) req w"
  shows "wp t stop_if_cancelled S
     (\<lambda>_ w'. w' = noting (CancelAsked False) w \<and> ready (tables S) req w')
     (\<lambda>r w'. r = None \<and> justified (tables S) req (happened w') \<and> unwritten (happened w')) w"
  by (rule wp_mono [OF stop_if_cancelled_wp]) (use assms in \<open>auto simp: ready_def unwritten_def\<close>)

lemma ready_update [simp]:
  "ready U req (w\<lparr>steps_counter := c\<rparr>) = ready U req w" "ready U req (w\<lparr>formatter := l\<rparr>) = ready U req w"
  "ready U req (w\<lparr>devices := d\<rparr>) = ready U req w"
  by (simp_all add: ready_def)

lemma report_quiet:
  "wp t (reportPlannedStep s) S
     (\<lambda>_ w'. adds quiet w w' \<and> devices w' = devices w \<and> formatter w' = formatter w \<and>
        StepReported s \<in> set (happened w'))
     (\<lambda>_ _. False) w"
  by (rule wp_mono [OF reportPlannedStep_wp]) (use steady_quiet(5) in blast)+

lemma restore_checks_wp:
  assumes "ready (tables S) req w"
  shows "wp t (restore_checks req) S
     (\<lambda>(tool, disk) w'. ready (tables S) req w' \<and> target_checked (tables S) req disk (happened w'))
     (\<lambda>r w'. r \<noteq> None \<and> ready (tables S) req w') w"
proof (cases "isSafeRestoreTarget (tables S) (request_disk req) (request_guard req)")
  case safe: None
  let ?U = "tables S"
  have step: "wp t (reportPlannedStep VerifyDisk) S (\<lambda>_ w2. ready ?U req w2) (\<lambda>_ _. False)
      (w1\<lparr>steps_counter := c\<rparr>)" if "ready ?U req w1" for w1 c
    by (rule wp_mono [OF report_quiet]) (use that ready_quiet in \<open>auto\<close>)
  have look: "wp t (case refreshUsbDisk ?U v (deviceId (request_disk req)) RestoreDetails of
       Inl e \<Rightarrow> fail (NotEnumerated e)
     | Inr current \<Rightarrow>
         andThen (gate NotTheSelectedDisk (isSameRestoreTarget ?U (request_disk req) current)) (\<lambda>_.
         andThen (gate NotSafe (isSafeRestoreTarget ?U current (request_guard req))) (\<lambda>_.
         andThen (gate NoLayout (canCreatePartitionLayout (request_style req) current)) (\<lambda>_.
         andThen (gate FileSystemRefused (canCreateFileSystemOn (request_fileSystem req) current)) (\<lambda>_.
         give (tool, current)))))) S
      (\<lambda>(tool, disk) w'. ready ?U req w' \<and> target_checked ?U req disk (happened w'))
      (\<lambda>r w'. r \<noteq> None \<and> ready ?U req w') (noting (Looked v) w2)" if "ready ?U req w2" for tool v w2
  proof -
    have "ready ?U req (noting (Looked v) w2)" using that by (auto simp: ready_def unwritten_def)
    then show ?thesis
      using safe by (auto simp: run_simps target_checked_def split: sum.split option.split)
  qed
  show ?thesis
    unfolding restore_checks_def wp_andThen [of _ unicode_tables] wp_unicode_tables safe
      wp_andThen [of _ "resolveFormatTool _"] wp_andThen [of _ "gate _ None"] wp_gate option.case
  proof (rule wp_mono [OF resolveFormatTool_wp], goal_cases)
    case (1 tool w1)
    then have "ready ?U req w1" using assms ready_quiet steady_quiet(1) by blast
    then show ?case
      unfolding wp_andThen [of _ "change _"] wp_change wp_andThen [of _ "reportPlannedStep _"]
        look_def wp_andThen [of _ "ask _ _"] wp_ask
      by (intro wp_mono [OF step]) (assumption, erule look, simp)
  qed (use assms ready_quiet steady_quiet(1) in blast)
qed (simp add: restore_checks_def run_simps assms)

text \<open>A run of quiet events from a world that is ready, for the stages before the disk is held.\<close>

lemma wp_ready:
  assumes "wp t m S (\<lambda>x w'. adds quiet w w' \<and> Q x w') (\<lambda>r w'. r \<noteq> None \<and> adds quiet w w') w"
    and "ready U req w" "target_checked U req disk (happened w)"
  shows "wp t m S (\<lambda>x w'. ready U req w' \<and> target_checked U req disk (happened w') \<and> Q x w')
     (\<lambda>r w'. r \<noteq> None \<and> ready U req w') w"
  by (rule wp_mono [OF assms(1)]) (use assms(2,3) ready_quiet checked_adds in blast)+

lemma closeDevice_quiet:
  "x \<noteq> Restored \<Longrightarrow> wp t (closeDevice x) S
     (\<lambda>_ w'. adds quiet w w' \<and> only x w w' \<and> device_fd (devices w' x) = None) (\<lambda>_ _. False) w"
  by (rule wp_mono [OF closeDevice_wp]) (cases x; auto elim!: adds_mono)+

lemma inspect_device_wp:
  "wp t (inspect_device disk) S
     (\<lambda>_ w'. adds quiet w w' \<and> devices w' Restored = devices w Restored)
     (\<lambda>r w'. r \<noteq> None \<and> adds quiet w w') w"
proof -
  have body: "wp t (andThen (openDevice Inspected Inspect) (\<lambda>_. verifyIdentity Inspected disk)) S
      (\<lambda>_ w'. adds quiet w1 w' \<and> devices w' Restored = devices w1 Restored)
      (\<lambda>r w'. r \<noteq> None \<and> adds quiet w1 w') w1" if "device_fd (devices w1 Inspected) = None" for w1
    unfolding wp_andThen
  proof (rule wp_mono [OF openDevice_wp [OF that]], goal_cases)
    case (1 _ w2)
    then obtain fd where fd: "device_fd (devices w2 Inspected) = Some fd" and a: "adds quiet w1 w2"
      and d: "devices w2 Restored = devices w1 Restored"
      by (auto simp: adds_def only_def)
    show ?case
      by (rule wp_mono [OF verifyIdentity_wp [OF fd]])
        (use a d in \<open>auto dest: steady_quiet steadyD intro: adds_trans\<close>)
  qed (auto simp: adds_def)
  have leave: "wp t (leaving (andThen (openDevice Inspected Inspect) (\<lambda>_. verifyIdentity Inspected disk))
        (closeDevice Inspected)) S
      (\<lambda>_ w'. adds quiet w1 w' \<and> devices w' Restored = devices w1 Restored)
      (\<lambda>r w'. r \<noteq> None \<and> adds quiet w1 w') w1" if "device_fd (devices w1 Inspected) = None" for w1
    unfolding wp_leaving
    by (rule wp_mono [OF body [OF that]]; rule wp_mono [OF closeDevice_quiet])
      (auto simp: only_def intro: adds_trans)
  show ?thesis
    unfolding inspect_device_def wp_andThen [of _ "reportPlannedStep _"] wp_andThen [of _ "construct _ _"]
  proof (rule wp_mono [OF report_quiet], goal_cases)
    case (1 _ w1)
    show ?case
    proof (rule wp_mono [OF construct_wp], goal_cases)
      case (1 _ w2)
      show ?case
        by (rule wp_mono [OF leave]) (use 1 \<open>adds quiet w w1 \<and> _\<close> in \<open>auto intro: adds_trans\<close>)
    qed simp
  qed simp
qed

lemma open_attempts_wp:
  assumes "device_fd (devices w Restored) = None" "devicePath (devices w Restored) = deviceId disk"
    "ready (tables S) req w" "target_checked (tables S) req disk (happened w)" "ks \<noteq> []"
  shows "wp t (open_attempts disk ks) S
     (\<lambda>_ w'. ready (tables S) req w' \<and> target_checked (tables S) req disk (happened w') \<and> (\<exists>fd. held disk fd w'))
     (\<lambda>r w'. r \<noteq> None \<and> ready (tables S) req w') w"
  using assms
proof (induction ks arbitrary: w)
  case (Cons k ks)
  let ?U = "tables S"
  define Q where "Q = (\<lambda>(_ :: unit) w'. ready ?U req w' \<and> target_checked ?U req disk (happened w') \<and> (\<exists>fd. held disk fd w'))"
  define R where "R = (\<lambda>r w'. r \<noteq> (None :: RestoreError option) \<and> ready ?U req w')"
  define I where "I = (\<lambda>w'. device_fd (devices w' Restored) = None \<and> devicePath (devices w' Restored) = deviceId disk \<and>
    ready ?U req w' \<and> target_checked ?U req disk (happened w'))"
  have I: "I w" using Cons.prems by (simp add: I_def)
  have keep: "I w'" if "adds quiet w w'" "devices w' = devices w" for w'
    using that I ready_quiet [OF that(1)] checked_adds [OF that(1)] by (auto simp: I_def)
  have pre: "wp t (if k > 0 then andThen (detail (TryingAgain (k + 1))) (\<lambda>_.
        andThen (unmountDisk disk) (\<lambda>_. tell (Slept 500))) else give ()) S (\<lambda>_. I) R w"
  proof -
    have start: "adds quiet w (noting (DetailReported (TryingAgain (k + 1))) w)" by simp
    have "wp t (unmountDisk disk) S (\<lambda>_ w'. adds quiet w w' \<and> devices w' = devices w)
        (\<lambda>r w'. r \<noteq> None \<and> adds quiet w w') (noting (DetailReported (TryingAgain (k + 1))) w)"
      by (rule wp_mono [OF unmountDisk_wp])
        (use adds_trans [OF start] steady_quiet(2) in \<open>auto dest: steadyD\<close>)
    then have "wp t (unmountDisk disk) S (\<lambda>_ w'. I (noting (Slept 500) w')) R (noting (DetailReported (TryingAgain (k + 1))) w)"
      by (rule wp_mono) (use I ready_quiet in \<open>auto intro!: keep simp: R_def\<close>, auto simp: I_def)
    then show ?thesis using I by (simp add: detail_def run_simps wp_tell [abs_def])
  qed
  have open': "wp t (attempt (openDevice Restored Exclusive)) S (\<lambda>r. wp t (case r of Ok _ \<Rightarrow> give ()
        | _ \<Rightarrow> if ks = [] then again r else open_attempts disk ks) S Q R) R w1" if I1: "I w1" for w1
  proof -
    have fd: "device_fd (devices w1 Restored) = None" using I1 by (simp add: I_def)
    have path: "devicePath (devices w1 Restored) = deviceId disk" using I1 by (simp add: I_def)
    show ?thesis
      unfolding wp_attempt
    proof (rule wp_mono [OF openDevice_wp [OF fd]], goal_cases)
      case (1 _ w2)
      then obtain d where d: "happened w2 = Opened (deviceId disk) Exclusive (Inr d) # happened w1" "only Restored w1 w2"
        "device_fd (devices w2 Restored) = Some d" by (auto simp: path)
      then have "held disk d w2" using path by (simp add: held_def handle_open_def since_open_def only_def)
      moreover have "ready ?U req w2" using I1 d(1) by (auto simp: I_def ready_def unwritten_def)
      moreover have "target_checked ?U req disk (happened w2)"
        using I1 d(1) by (auto simp: I_def intro: target_checked_mono)
      ultimately show ?case by (auto simp: run_simps Q_def)
    next
      case (2 r w2)
      then obtain e where e: "happened w2 = Opened (deviceId disk) Exclusive (Inl e) # happened w1"
        and dev: "devices w2 = devices w1" by (auto simp: path)
      have ready: "ready ?U req w2" using I1 e by (auto simp: I_def ready_def unwritten_def)
      have chk: "target_checked ?U req disk (happened w2)" using I1 e by (auto simp: I_def intro: target_checked_mono)
      have "wp t (open_attempts disk ks) S Q R w2" if "ks \<noteq> []"
        unfolding Q_def R_def by (rule Cons.IH) (use that ready chk dev I1 in \<open>simp_all add: I_def\<close>)
      then show ?case using 2 ready by (auto simp: again_def run_simps R_def split: option.split)
    qed
  qed
  have "wp t (open_attempts disk (k # ks)) S Q R w"
    unfolding open_attempts.simps wp_andThen [of _ "if _ then _ else _"] wp_andThen [of _ "attempt _"]
    by (rule wp_mono [OF pre open']) 
  then show ?case by (simp add: Q_def R_def)
qed simp

section \<open>Writing\<close>

definition touchable :: "unicode \<Rightarrow> RestoreRequest \<Rightarrow> DiskInfo \<Rightarrow> descriptor \<Rightarrow> world \<Rightarrow> bool" where
  "touchable U req disk fd w \<longleftrightarrow>
     justified U req (happened w) \<and> may_touch U req disk fd (happened w) \<and> held disk fd w"

lemma touchable_justified: "touchable U req disk fd w \<Longrightarrow> justified U req (happened w)"
  by (simp add: touchable_def)

lemma touch_run:
  assumes "touchable U req disk fd w" "adds K w w'" "devices w' Restored = devices w Restored"
    and "\<And>e. K e \<Longrightarrow> neutral e"
    and "\<And>e past. K e \<Longrightarrow> may_touch U req disk fd past \<Longrightarrow> set (happened w) \<subseteq> set past \<Longrightarrow> allowed U req e past"
  shows "touchable U req disk fd w'"
proof -
  obtain new where new: "happened w' = new @ happened w" "list_all K new" using assms(2) by (auto simp: adds_def)
  have may: "may_touch U req disk fd (happened w)" and just: "justified U req (happened w)" and held: "held disk fd w"
    using assms(1) by (simp_all add: touchable_def)
  have K: "\<And>e. e \<in> set new \<Longrightarrow> K e" and neu: "list_all neutral new"
    using new(2) assms(4) by (auto simp: list_all_iff)
  have "may_touch U req disk fd (new @ happened w) \<and> justified U req (new @ happened w)"
    by (rule neutral_run [OF neu may _ just]) (use K assms(5) in blast)
  moreover have "handle_open disk fd (happened w')"
    using calculation by (simp add: new(1) may_touch_def handle_verified_def)
  ultimately show ?thesis using held assms(3) by (simp add: touchable_def held_def new(1))
qed

lemma touch_quiet:
  "touchable U req disk fd w \<Longrightarrow> adds quiet w w' \<Longrightarrow> devices w' Restored = devices w Restored \<Longrightarrow>
   touchable U req disk fd w'"
  by (erule (2) touch_run) (auto simp: quiet_neutral quiet_allowed)

lemma verify_held:
  assumes "ready (tables S) req w" "target_checked (tables S) req disk (happened w)" "held disk fd w"
  shows "wp t (verifyIdentity Restored disk) S
     (\<lambda>_ w'. ready (tables S) req w' \<and> touchable (tables S) req disk fd w' \<and> formatter w' = formatter w)
     (\<lambda>r w'. r \<noteq> None \<and> ready (tables S) req w') w"
proof -
  let ?U = "tables S"
  have fd: "device_fd (devices w Restored) = Some fd" and path: "devicePath (devices w Restored) = deviceId disk"
    and opn: "handle_open disk fd (happened w)" using assms(3) by (simp_all add: held_def)
  show ?thesis
  proof (rule wp_mono [OF verifyIdentity_wp [OF fd]], goal_cases)
    case (1 _ w')
    then have st: "steady reading w w'" by simp
    note q = steady_quiet(1) [OF st]
    obtain new where new: "happened w' = new @ happened w" and ev: "identity_evidence ?U disk (deviceId disk) fd (set new)"
      using 1 by (auto simp: lately_def path)
    have lq: "list_all quiet new" using st new by (auto simp: steady_def adds_def quiet_classes elim!: list.pred_mono_strong)
    have r: "ready ?U req w'" by (rule ready_quiet [OF q assms(1)])
    have "handle_verified ?U disk fd (happened w')"
      unfolding handle_verified_def new
      using quiet_run(2) [OF lq opn] identity_evidence_mono [OF ev] by (simp add: quiet_run(5) [OF lq])
    then have "may_touch ?U req disk fd (happened w')"
      using r checked_adds [OF q assms(2)] by (simp add: may_touch_def ready_def)
    then show ?case
      using r steadyD(2,3) [OF st] held_quiet [OF q _ assms(3)] by (simp add: touchable_def ready_def)
  qed (use ready_quiet steady_quiet(1) assms(1) in blast)
qed

lemma writes_allowed:
  assumes "writes_in fd lo hi e" "hi \<le> unat (disk_size disk)" "may_touch U req disk fd past"
    "StepReported ClearSignatures \<in> set past"
  shows "allowed U req e past"
  using assms by (fastforce simp: writes_in_def)

lemma touch_writes:
  assumes "touchable U req disk fd w" "steady (writes_in fd lo hi) w w'" "hi \<le> unat (disk_size disk)"
    "StepReported ClearSignatures \<in> set (happened w)"
  shows "touchable U req disk fd w'" "StepReported ClearSignatures \<in> set (happened w')"
proof -
  show "touchable U req disk fd w'"
  proof (rule touch_run [OF assms(1) steadyD(1) [OF assms(2)]])
    show "devices w' Restored = devices w Restored" using steadyD(2) [OF assms(2)] by simp
  next
    fix e assume "writes_in fd lo hi e"
    then show "neutral e" by (auto simp: writes_in_def)
  next
    fix e past assume "writes_in fd lo hi e" "may_touch U req disk fd past" "set (happened w) \<subseteq> set past"
    then show "allowed U req e past" by (intro writes_allowed [OF _ assms(3)]) (use assms(4) in auto)
  qed
qed (use reported_adds [OF steadyD(1) [OF assms(2)] assms(4)] in simp)

text \<open>One write of a buffer, or of zeros, inside the disk.\<close>

lemma touch_writeAt:
  assumes "touchable U req disk fd w" "unat off + length buf \<le> unat (disk_size disk)"
    "StepReported ClearSignatures \<in> set (happened w)" "t \<or> patient N S"
  shows "wp t (writeAt Restored off buf) S
     (\<lambda>_ w'. touchable U req disk fd w' \<and> StepReported ClearSignatures \<in> set (happened w') \<and>
        formatter w' = formatter w \<and> adds neutral w w' \<and> stored fd off buf w w')
     (\<lambda>r w'. r \<noteq> None \<and> justified U req (happened w')) w"
proof -
  have fd: "device_fd (devices w Restored) = Some fd" using assms(1) by (simp add: touchable_def held_def)
  have room: "unat off + length buf < 18446744073709551616"
    using assms(2) unat_u64_bound [of "disk_size disk"] by simp
  have neu: "steady (writes_in fd lo hi) w w' \<Longrightarrow> adds neutral w w'" for lo hi w'
    by (auto simp: steady_def writes_in_def elim!: adds_mono)
  show ?thesis
    by (rule wp_mono [OF writeAt_wp [OF fd room assms(4)]])
      (use touch_writes [OF assms(1) _ assms(2,3)] neu in \<open>auto dest: steadyD touchable_justified\<close>)
qed

lemma touch_writeZeros:
  assumes "touchable U req disk fd w" "unat off + unat n \<le> unat (disk_size disk)"
    "StepReported ClearSignatures \<in> set (happened w)" "t \<or> patient N S"
  shows "wp t (writeZeros Restored off n s) S
     (\<lambda>_ w'. touchable U req disk fd w' \<and> StepReported ClearSignatures \<in> set (happened w') \<and>
        formatter w' = formatter w \<and> adds neutral w w' \<and> stored fd off (replicate (unat n) 0) w w')
     (\<lambda>r w'. r \<noteq> None \<and> justified U req (happened w')) w"
proof -
  have fd: "device_fd (devices w Restored) = Some fd" using assms(1) by (simp add: touchable_def held_def)
  have room: "unat off + unat n < 18446744073709551616"
    using assms(2) unat_u64_bound [of "disk_size disk"] by simp
  have neu: "steady (writes_in fd lo hi) w w' \<Longrightarrow> adds neutral w w'" for lo hi w'
    by (auto simp: steady_def writes_in_def elim!: adds_mono)
  show ?thesis
    by (rule wp_mono [OF writeZeros_wp [OF fd room assms(4)]])
      (use touch_writes [OF assms(1) _ assms(2,3)] neu in \<open>auto dest: steadyD touchable_justified\<close>)
qed

lemma clear_signatures_wp:
  assumes "touchable U req disk fd w" "t \<or> patient N S"
  shows "wp t (clear_signatures disk) S
     (\<lambda>_ w'. touchable U req disk fd w' \<and> StepReported ClearSignatures \<in> set (happened w') \<and> formatter w' = formatter w \<and>
        adds neutral w w')
     (\<lambda>r w'. r \<noteq> None \<and> justified U req (happened w')) w"
proof -
  let ?c = "signatureClearRange (disk_size disk) (sectorSize disk)"
  define R where "R = (\<lambda>r (w' :: world). r \<noteq> (None :: RestoreError option) \<and> justified U req (happened w'))"
  define Q where "Q = (\<lambda>(_ :: unit) (w' :: world). touchable U req disk fd w' \<and> StepReported ClearSignatures \<in> set (happened w') \<and>
    formatter w' = formatter w \<and> adds neutral w w')"
  have "wp t (clear_signatures disk) S Q R w"
    unfolding clear_signatures_def wp_andThen [of _ "reportPlannedStep _"] Let_def
  proof (rule wp_mono [OF report_quiet], goal_cases)
    case (1 _ w1)
    then have t1: "touchable U req disk fd w1" and s1: "StepReported ClearSignatures \<in> set (happened w1)"
      and f1: "formatter w1 = formatter w" and n1: "adds neutral w w1"
      using touch_quiet [OF assms(1)] by (auto elim: adds_mono intro: quiet_neutral)
    show ?case
    proof (cases "clear_bytes ?c = 0")
      case True
      then show ?thesis using t1 by (simp add: run_simps R_def touchable_def)
    next
      case False
      note fits = clear_range_fits [OF False]
      have a: "unat (0 :: u64) + unat (clear_bytes ?c) \<le> unat (disk_size disk)"
        and b: "unat (tailOffset ?c) + unat (clear_bytes ?c) \<le> unat (disk_size disk)" using fits by simp_all
      show ?thesis
        using False
        unfolding wp_andThen [of _ "check _ _"] wp_andThen [of _ "writeZeros _ _ _ _"] wp_check
      proof (simp, intro wp_mono [OF touch_writeZeros [OF t1 a s1 assms(2)]], goal_cases)
        case (1 _ w2)
        then show ?case
          by (intro wp_mono [OF touch_writeZeros [OF _ b _ assms(2)]]) (use n1 in \<open>auto simp: Q_def R_def f1 intro: adds_trans\<close>)
      qed (simp add: R_def)
    qed
  qed simp
  then show ?thesis by (simp add: Q_def R_def)
qed

lemma write_partition_table_wp:
  assumes "touchable U req disk fd w" "StepReported ClearSignatures \<in> set (happened w)"
    and tr: "tr = request_for style fs disk g1 g2 name" "canCreatePartitionLayout style disk = None"
      "isWritablePartitionRequest tr = None"
    and ends: "t \<or> patient N S"
  shows "wp t (write_partition_table tr) S
     (\<lambda>_ w'. touchable U req disk fd w' \<and> StepReported WritePartitionTable \<in> set (happened w') \<and> formatter w' = formatter w \<and>
        adds neutral w w')
     (\<lambda>r w'. r \<noteq> None \<and> justified U req (happened w')) w"
proof -
  define R where "R = (\<lambda>r (w' :: world). r \<noteq> (None :: RestoreError option) \<and> justified U req (happened w'))"
  define Q where "Q = (\<lambda>(_ :: unit) (w' :: world). touchable U req disk fd w' \<and>
    StepReported WritePartitionTable \<in> set (happened w') \<and> formatter w' = formatter w \<and> adds neutral w w')"
  define I where "I = (\<lambda>w'. Q () w' \<and> StepReported ClearSignatures \<in> set (happened w'))"
  note lay = request_for_layout [OF tr(2) tr(1)]
  have size': "req_diskSize tr = disk_size disk" and style: "req_style tr = style" and sec: "req_sectorSize tr = sectorSize disk"
    by (simp_all add: tr(1) request_for_def)
  have one: "wp t (writeAt Restored off buf) S (\<lambda>_. I) R w1"
    if "I w1" "unat off + length buf \<le> unat (disk_size disk)" for off buf w1
  proof -
    have t1: "touchable U req disk fd w1" and s1: "StepReported ClearSignatures \<in> set (happened w1)"
      using that(1) by (simp_all add: I_def Q_def)
    show ?thesis
      by (rule wp_mono [OF touch_writeAt [OF t1 that(2) s1 ends]])
        (use that(1) in \<open>auto simp: I_def Q_def R_def dest: reported_adds intro: adds_trans\<close>)
  qed
  have gpt: "unat (0 :: u64) + length (buildGptPrimary tr) \<le> unat (disk_size disk)"
    "unat (gptBackupOffset tr) + length (buildGptBackup tr) \<le> unat (disk_size disk)" if "style = Gpt"
  proof -
    note reg = accepted_gpt_regions [OF tr(3) _ lay(4)]
    show "unat (0 :: u64) + length (buildGptPrimary tr) \<le> unat (disk_size disk)"
      using reg(1,2) lay(2) that style by fastforce
    show "unat (gptBackupOffset tr) + length (buildGptBackup tr) \<le> unat (disk_size disk)"
      using reg(5) that style size' by simp
  qed
  have mbr: "unat (0 :: u64) + length (buildMbr tr) \<le> unat (disk_size disk)"
  proof -
    have "unat (effectiveSectorSize (sectorSize disk)) \<le> 1048576"
      using lay(5) by (auto simp: isSupportedSectorSize_def effectiveSectorSize_def)
    moreover have "layout_start tr \<le> layout_end tr" by (simp add: layout_end_def layout_start_def)
    ultimately show ?thesis using lay(1,2) by (simp add: mbrPartitionType_nth sec)
  qed
  have flushes: "wp t (flush Restored) S Q R w1" if "I w1" for w1
  proof (rule wp_mono [OF flush_wp], goal_cases)
    case (1 _ w2)
    then have st: "steady flushing w1 w2" by simp
    show ?case
      using that steadyD(2,3) [OF st] touch_quiet [OF _ steady_quiet(3) [OF st]] reported_adds [OF steadyD(1) [OF st]]
        adds_mono [OF steadyD(1) [OF st], of neutral] quiet_neutral quiet_classes(4)
      by (auto simp: I_def Q_def intro: adds_trans)
  next
    case (2 r w2)
    have "justified U req (happened w1)" using that by (simp add: I_def Q_def touchable_def)
    with 2 show ?case unfolding R_def using justified_quiet [OF steady_quiet(3)] by blast
  qed
  have "wp t (write_partition_table tr) S Q R w"
    unfolding write_partition_table_def wp_andThen [of _ "reportPlannedStep _"]
  proof (rule wp_mono [OF report_quiet], goal_cases)
    case (1 _ w1)
    then have I: "I w1"
      using touch_quiet [OF assms(1), of w1] reported_adds [of quiet w w1, OF _ assms(2)]
      by (auto simp: I_def Q_def elim: adds_mono intro: quiet_neutral)
    have tables: "wp t (if req_style tr = Gpt then
          andThen (writeAt Restored 0 (buildGptPrimary tr)) (\<lambda>_. writeAt Restored (gptBackupOffset tr) (buildGptBackup tr))
        else writeAt Restored 0 (buildMbr tr)) S (\<lambda>_. I) R w1"
    proof (cases "style = Gpt")
      case True
      show ?thesis
        using True gpt [OF True] style I by (auto simp: wp_andThen intro!: wp_mono [OF one [OF I]] one)
    qed (use one [OF I mbr] style in simp)
    show ?case
      unfolding wp_andThen [of _ "if _ then _ else _"] by (rule wp_mono [OF tables flushes]) 
  qed simp
  then show ?thesis by (simp add: Q_def R_def)
qed

section \<open>Formatting\<close>

definition partition_mapping :: "DiskInfo \<Rightarrow> descriptor \<Rightarrow> loop_config \<Rightarrow> bool" where
  "partition_mapping disk fd config \<longleftrightarrow>
     config_fd config = fd \<and>
     lo_offset config = startOffset (calculateGptLayout (disk_size disk) (sectorSize disk)) \<and>
     lo_sizelimit config = layout_length (calculateGptLayout (disk_size disk) (sectorSize disk))"

lemma mapped_adds: "adds K w w' \<Longrightarrow> mapped p c (happened w) \<Longrightarrow> mapped p c (happened w')"
  using adds_set by (fastforce simp: mapped_def)

lemma touch_formatting:
  assumes "touchable U req disk fd w" "steady (formatting path) w w'" "mapped path config (happened w)"
    "partition_mapping disk fd config" "StepReported WritePartitionTable \<in> set (happened w)"
  shows "touchable U req disk fd w'"
proof (rule touch_run [OF assms(1) steadyD(1) [OF assms(2)]])
  show "devices w' Restored = devices w Restored" using steadyD(2) [OF assms(2)] by simp
next
  fix e assume "formatting path e" then show "neutral e" by (cases e) simp_all
next
  fix e past assume e: "formatting path e" and may: "may_touch U req disk fd past" and sub: "set (happened w) \<subseteq> set past"
  have "mapped path config past" using assms(3) sub by (auto simp: mapped_def)
  then show "allowed U req e past"
    using e may sub assms(4,5) by (cases e) (auto simp: partition_mapping_def)
qed

lemma format_through_loop_wp:
  assumes "touchable U req disk fd w" "mapped (loop_path (formatter w)) config (happened w)"
    "partition_mapping disk fd config" "StepReported WritePartitionTable \<in> set (happened w)"
  shows "wp t (format_through_loop req tool start) S
     (\<lambda>_ w'. touchable U req disk fd w') (\<lambda>r w'. r \<noteq> None \<and> touchable U req disk fd w') w"
proof -
  define R where "R = (\<lambda>r (w' :: world). r \<noteq> (None :: RestoreError option) \<and> touchable U req disk fd w')"
  define Q where "Q = (\<lambda>(_ :: unit) (w' :: world). touchable U req disk fd w')"
  have loops: "touchable U req disk fd w2" if "touchable U req disk fd w1" "loops w1 w2" for w1 w2
    using that touch_quiet [OF that(1) steady_quiet(6) [OF that(2)]] by (auto simp: loops_def)
  have "wp t (format_through_loop req tool start) S Q R w"
    unfolding format_through_loop_def wp_andThen [of _ prepareForFormatting] wp_andThen [of _ "get _"]
      wp_andThen [of _ "formatLinuxPartition _ _ _ _ _"] wp_get
  proof (rule wp_mono [OF prepareForFormatting_wp], goal_cases)
    case (1 _ w1)
    then have t1: "touchable U req disk fd w1" and a: "adds looping w w1" and p: "loop_path (formatter w1) = loop_path (formatter w)"
      using loops [OF assms(1)] by (auto simp: loops_def)
    note m1 = mapped_adds [OF a assms(2)] and s1 = reported_adds [OF a assms(4)]
    show ?case
    proof (rule wp_mono [OF formatLinuxPartition_wp], goal_cases)
      case (1 _ w2)
      then have "touchable U req disk fd w2"
        using touch_formatting [OF t1 _ m1 assms(3) s1] p by simp
      then show ?case by (intro wp_mono [OF detachLoop_wp]) (use loops in \<open>auto simp: Q_def R_def\<close>)
    qed (use touch_formatting [OF t1 _ m1 assms(3) s1] p in \<open>auto simp: R_def\<close>)
  qed (use loops [OF assms(1)] in \<open>auto simp: R_def\<close>)
  then show ?thesis by (simp add: Q_def R_def)
qed

lemma flush_and_reread_quiet:
  "wp t flush_and_reread S (\<lambda>_ w'. steady flushing w w') (\<lambda>r w'. r \<noteq> None \<and> steady flushing w w') w"
  unfolding flush_and_reread_def wp_andThen
proof (rule wp_mono [OF flush_wp], goal_cases)
  case (1 _ w1)
  then have st: "steady flushing w w1" by simp
  show ?case by (rule wp_mono [OF rereadPartitionTable_wp]) (use st in \<open>auto intro: steady_trans\<close>)
qed simp

lemma formatAndReread_wp:
  assumes "touchable U req disk fd w" "mapped (loop_path (formatter w)) config (happened w)"
    "partition_mapping disk fd config" "StepReported WritePartitionTable \<in> set (happened w)"
  shows "wp t (formatAndRereadPartitionTable req tool start) S
     (\<lambda>_ w'. justified U req (happened w')) (\<lambda>r w'. r \<noteq> None \<and> justified U req (happened w')) w"
proof -
  define R where "R = (\<lambda>r (w' :: world). r \<noteq> (None :: RestoreError option) \<and> justified U req (happened w'))"
  define Q where "Q = (\<lambda>(_ :: u64) (w' :: world). justified U req (happened w'))"
  have good: "wp t (andThen (reportPlannedStep RereadPartitionTable) (\<lambda>_.
         andThen flush_and_reread (\<lambda>_.
         andThen (diskSequence Restored) (\<lambda>seq.
         case seq of None \<Rightarrow> fail (NotReidentified (deviceId (request_disk req))) | Some s \<Rightarrow> give s)))) S Q R w1"
    if "justified U req (happened w1)" for w1
    unfolding wp_andThen
  proof (rule wp_mono [OF report_quiet], goal_cases)
    case (1 _ w2)
    then have j2: "justified U req (happened w2)" using that justified_quiet by blast
    show ?case
    proof (rule wp_mono [OF flush_and_reread_quiet], goal_cases)
      case (1 _ w3)
      then have j3: "justified U req (happened w3)" using j2 justified_quiet steady_quiet(3) by blast
      show ?case
      proof (rule wp_mono [OF diskSequence_wp], goal_cases)
        case (1 s w4)
        then have "justified U req (happened w4)" using j3 justified_quiet steady_quiet(1) by blast
        then show ?case by (cases s) (simp_all add: run_simps Q_def R_def)
      qed simp
    qed (use j2 justified_quiet steady_quiet(3) in \<open>unfold R_def, blast\<close>)
  qed simp
  have bad: "wp t (andThen (attempt detachLoop) (\<lambda>_.
         andThen (attempt flush_and_reread) (\<lambda>q.
         andThen (case q of Failed e \<Rightarrow> detail (RereadProblem e) | _ \<Rightarrow> give ()) (\<lambda>_.
         fail err)))) S Q R w1"
    if j1: "justified U req (happened w1)" for w1 err
  proof -
    have rest: "wp t (andThen (attempt flush_and_reread) (\<lambda>q.
         andThen (case q of Failed e \<Rightarrow> detail (RereadProblem e) | _ \<Rightarrow> give ()) (\<lambda>_. fail err))) S Q R w2"
      if "loops w1 w2" for w2
    proof -
      have j2: "justified U req (happened w2)" using justified_quiet [OF steady_quiet(6) [OF that] j1] .
      have j3: "justified U req (happened w3)" if "steady flushing w2 w3" for w3
        using justified_quiet [OF steady_quiet(3) [OF that] j2] .
      show ?thesis
        unfolding wp_andThen wp_attempt
        by (rule wp_mono [OF flush_and_reread_quiet])
          (auto simp: run_simps detail_def R_def j3 split: option.split)
    qed
    show ?thesis
      unfolding wp_andThen [of _ "attempt detachLoop"] wp_attempt
      by (rule wp_mono [OF detachLoop_wp]; rule rest; simp)
  qed
  have "wp t (formatAndRereadPartitionTable req tool start) S Q R w"
    unfolding formatAndRereadPartitionTable_def wp_andThen [of _ "reportPlannedStep Format"]
      wp_andThen [of _ "attempt (format_through_loop _ _ _)"] wp_attempt
  proof (rule wp_mono [OF report_quiet], goal_cases)
    case (1 _ w1)
    then have t1: "touchable U req disk fd w1" and m1: "mapped (loop_path (formatter w1)) config (happened w1)"
      and s1: "StepReported WritePartitionTable \<in> set (happened w1)"
      using touch_quiet [OF assms(1)] mapped_adds [OF _ assms(2)] reported_adds [OF _ assms(4)] by auto
    show ?case
    proof (rule wp_mono [OF format_through_loop_wp [OF t1 m1 assms(3) s1]], goal_cases)
      case (1 _ w2)
      then show ?case using good [OF touchable_justified] by simp
    next
      case (2 r w2)
      then obtain e where "r = Some e" by auto
      then show ?case using bad [OF touchable_justified] 2 by (simp add: again_def)
    qed
  qed simp
  then show ?thesis by (simp add: Q_def R_def)
qed

section \<open>The whole run\<close>

lemma justified_adds:
  assumes "adds K w w'" "\<And>e past. K e \<Longrightarrow> allowed U req e past" "justified U req (happened w)"
  shows "justified U req (happened w')"
proof -
  obtain new where "happened w' = new @ happened w" "list_all K new" using assms(1) by (auto simp: adds_def)
  moreover from this(2) have "justified U req (new @ happened w)" by (induction new) (auto simp: assms(2,3))
  ultimately show ?thesis by simp
qed

lemma check_new_partition_wp:
  assumes "justified U req (happened w)" "t \<or> punctual S"
  shows "wp t (check_new_partition disk seq) S (\<lambda>_ w'. justified U req (happened w'))
    (\<lambda>r w'. r \<noteq> None \<and> justified U req (happened w')) w"
proof -
  define R where "R = (\<lambda>r (w' :: world). r \<noteq> (None :: RestoreError option) \<and> justified U req (happened w'))"
  define Q where "Q = (\<lambda>(_ :: qstring) (w' :: world). justified U req (happened w'))"
  note keep = justified_quiet [of _ _ U req]
  have fails: "justified U req (happened w') \<Longrightarrow> R (Some e) w'" for e w' by (simp add: R_def)
  have body: "wp t (andThen (openDevice NewPartition Inspect) (\<lambda>_.
           andThen (verifyPartitionOf NewPartition diskName (Some seq)) (\<lambda>_.
           andThen (reportPlannedStep Complete) (\<lambda>_. give path)))) S Q R w1"
    if j: "justified U req (happened w1)" and closed: "device_fd (devices w1 NewPartition) = None" for w1 diskName path
    unfolding wp_andThen
  proof (rule wp_mono [OF openDevice_wp [OF closed]], goal_cases)
    case (1 _ w2)
    then obtain fd where "adds quiet w1 w2" "device_fd (devices w2 NewPartition) = Some fd" by (auto simp: adds_def)
    then have j2: "justified U req (happened w2)" using keep j by blast
    show ?case
    proof (rule wp_mono [OF verifyPartitionOf_wp], goal_cases)
      case (1 _ w3)
      then have j3: "justified U req (happened w3)" using keep [OF steady_quiet(1) j2] by blast
      show ?case by (rule wp_mono [OF report_quiet]) (use keep [OF _ j3] in \<open>auto simp: run_simps Q_def\<close>)
    qed (use keep [OF steady_quiet(1) j2] in \<open>auto simp: R_def\<close>)
  next
    case (2 r w2)
    then have "adds quiet w1 w2" by (auto simp: adds_def)
    then show ?case using keep j 2 by (auto simp: R_def)
  qed
  have leave: "wp t (leaving (andThen (openDevice NewPartition Inspect) (\<lambda>_.
           andThen (verifyPartitionOf NewPartition diskName (Some seq)) (\<lambda>_.
           andThen (reportPlannedStep Complete) (\<lambda>_. give path)))) (closeDevice NewPartition)) S Q R w1"
    if "justified U req (happened w1)" "device_fd (devices w1 NewPartition) = None" for w1 diskName path
    unfolding wp_leaving
    by (rule wp_mono [OF body [OF that]]; rule wp_mono [OF closeDevice_quiet])
      (use keep in \<open>auto simp: Q_def R_def\<close>)
  have "wp t (check_new_partition disk seq) S Q R w"
    unfolding check_new_partition_def wp_andThen [of _ "reportPlannedStep _"]
  proof (rule wp_mono [OF report_quiet], goal_cases)
    case (1 _ w1)
    then have j1: "justified U req (happened w1)" using keep assms(1) by blast
    show ?case
      unfolding wp_andThen [of _ unicode_tables] wp_unicode_tables Let_def wp_andThen [of _ "wait_loop _ _"]
    proof (rule wp_mono [OF wait_loop_wp [OF assms(2)]], goal_cases)
      case (1 _ w2)
      then have j2: "justified U req (happened w2)" using keep [OF steady_quiet(4) j1] by blast
      show ?case
        unfolding wp_andThen [of _ "ask _ _"] wp_ask wp_andThen [of _ "check _ _"] wp_check
          wp_andThen [of _ "construct _ _"]
        using j2 by (auto intro!: fails wp_mono [OF construct_wp] leave)
    qed simp
  qed simp
  then show ?thesis by (simp add: Q_def R_def)
qed

lemma configure_formatter_wp:
  assumes "held disk fd w"
  shows "wp t (configure_formatter disk tr) S
     (\<lambda>_ w'. loops w w' \<and> mapped (loop_path (formatter w'))
        \<lparr>config_fd = fd, block_size = sectorSize disk, lo_offset = startOffset (req_layout tr),
         lo_sizelimit = layout_length (req_layout tr), autoclear = True\<rparr> (happened w'))
     (\<lambda>r w'. r \<noteq> None \<and> loops w w') w"
  using assms
  by (simp add: configure_formatter_def device_defs run_simps held_def) (rule wp_mono [OF configureLoop_wp]; simp)

lemma restore_through_loop_wp:
  assumes "ready (tables S) req w" "target_checked (tables S) req disk (happened w)" "held disk fd w"
    and tr: "tr = request_for (request_style req) (request_fileSystem req) disk g1 g2 name"
      "isWritablePartitionRequest tr = None"
    and ends: "t \<or> (patient N S \<and> punctual S)"
  shows "wp t (restore_through_loop req tool disk tr) S
     (\<lambda>_ w'. justified (tables S) req (happened w')) (\<lambda>r w'. justified (tables S) req (happened w')) w"
proof -
  let ?U = "tables S"
  define R where "R = (\<lambda>(r :: RestoreError option) (w' :: world). justified ?U req (happened w'))"
  define Q where "Q = (\<lambda>(_ :: qstring) (w' :: world). justified ?U req (happened w'))"
  define config where "config = \<lparr>config_fd = fd, block_size = sectorSize disk, lo_offset = startOffset (req_layout tr),
         lo_sizelimit = layout_length (req_layout tr), autoclear = True\<rparr>"
  have lay: "canCreatePartitionLayout (request_style req) disk = None" using assms(2) by (simp add: target_checked_def)
  have part: "partition_mapping disk fd config" by (simp add: config_def partition_mapping_def tr(1) request_for_def)
  have ends1: "t \<or> patient N S" and ends2: "t \<or> punctual S" using ends by auto
  have tail: "wp t (andThen (closeDevice Restored) (\<lambda>_. check_new_partition disk seq)) S Q R w1"
    if j: "justified ?U req (happened w1)" for w1 seq
    unfolding wp_andThen
  proof (rule wp_mono [OF closeDevice_wp], goal_cases)
    case (1 _ w2)
    then have "justified ?U req (happened w2)" using justified_adds [OF _ _ j] by fastforce
    then show ?case by (intro wp_mono [OF check_new_partition_wp [OF _ ends2]]) (auto simp: Q_def R_def)
  qed simp
  have writes: "wp t (andThen (clear_signatures disk) (\<lambda>_.
       andThen (write_partition_table tr) (\<lambda>_.
       andThen (formatAndRereadPartitionTable req tool (startOffset (req_layout tr) div ucast (sectorSize disk))) (\<lambda>seq.
       andThen (closeDevice Restored) (\<lambda>_. check_new_partition disk seq))))) S Q R w1"
    if t1: "touchable ?U req disk fd w1" and m1: "mapped (loop_path (formatter w1)) config (happened w1)" for w1
    unfolding wp_andThen [of _ "clear_signatures _"] wp_andThen [of _ "write_partition_table _"]
      wp_andThen [of _ "formatAndRereadPartitionTable _ _ _"]
  proof (rule wp_mono [OF clear_signatures_wp [OF t1 ends1]], goal_cases)
    case (1 _ w2)
    then have t2: "touchable ?U req disk fd w2" and s2: "StepReported ClearSignatures \<in> set (happened w2)"
      and m2: "mapped (loop_path (formatter w2)) config (happened w2)"
      using m1 mapped_adds by auto
    show ?case
    proof (rule wp_mono [OF write_partition_table_wp [OF t2 s2 tr(1) lay tr(2) ends1]], goal_cases)
      case (1 _ w3)
      then have t3: "touchable ?U req disk fd w3" and s3: "StepReported WritePartitionTable \<in> set (happened w3)"
        and m3: "mapped (loop_path (formatter w3)) config (happened w3)"
        using m2 mapped_adds by auto
      show ?case
        by (rule wp_mono [OF formatAndReread_wp [OF t3 m3 part s3]]) (erule tail, simp add: R_def)
    qed (simp add: R_def)
  qed (simp add: R_def)
  have "wp t (restore_through_loop req tool disk tr) S Q R w"
    unfolding restore_through_loop_def wp_andThen [of _ "configure_formatter _ _"]
      wp_andThen [of _ "stop_if_cancelled"] wp_andThen [of _ "verifyIdentity _ _"]
  proof (rule wp_mono [OF configure_formatter_wp [OF assms(3)]], goal_cases)
    case (1 _ w1)
    then have q: "adds quiet w w1" and dev: "devices w1 = devices w"
      and m1: "mapped (loop_path (formatter w1)) config (happened w1)"
      using steady_quiet(6) by (auto simp: loops_def config_def)
    have r1: "ready ?U req w1" and c1: "target_checked ?U req disk (happened w1)" and h1: "held disk fd w1"
      using ready_quiet [OF q assms(1)] checked_adds [OF q assms(2)] held_quiet [OF q _ assms(3)] dev by simp_all
    show ?case
    proof (rule wp_mono [OF stop_if_cancelled_ready [OF r1]], goal_cases)
      case (1 _ w2)
      then have w2: "w2 = noting (CancelAsked False) w1" and r2: "ready ?U req w2" by blast+
      have c2: "target_checked ?U req disk (happened w2)" using c1 by (auto simp: w2 intro: target_checked_mono)
      have h2: "held disk fd w2" using h1 by (simp add: w2 held_def handle_open_neutral)
      have fd2: "device_fd (devices w2 Restored) = Some fd" using h2 by (simp add: held_def)
      show ?case
      proof (rule wp_mono [OF wp_conj [OF verify_held [OF r2 c2 h2] verifyIdentity_wp [OF fd2]]], goal_cases)
        case (1 _ w3)
        then have "adds reading w2 w3" by (simp add: steady_def)
        then have "mapped (loop_path (formatter w3)) config (happened w3)"
          using 1 m1 mapped_adds [of reading w2 w3] by (simp add: w2 mapped_def)
        then show ?case using writes 1 by blast
      qed (simp add: R_def ready_def)
    qed (simp add: R_def)
  qed (use justified_quiet [OF steady_quiet(6) ready_justified [OF assms(1)]] in \<open>simp add: R_def\<close>)
  then show ?thesis by (simp add: Q_def R_def)
qed

lemma table_request_wp:
  "wp t (table_request req disk) S
     (\<lambda>tr w'. adds quiet w w' \<and> devices w' = devices w \<and>
        (\<exists>g1 g2. length g1 = 16 \<and> length g2 = 16 \<and>
           tr = request_for (request_style req) (request_fileSystem req) disk g1 g2 (volumeLabel req)))
     (\<lambda>_ _. False) w"
proof -
  have "length (guid_of_words ws) = 16" for ws by (simp add: guid_of_words_def le_bytes_def split_beta Let_def)
  then show ?thesis by (auto simp: table_request_def randomGuid_def run_simps request_for_def)
qed

lemma restore_on_device_wp:
  assumes "ready (tables S) req w" "target_checked (tables S) req disk (happened w)"
    "device_fd (devices w Restored) = None" "devicePath (devices w Restored) = deviceId disk"
    and ends: "t \<or> (patient N S \<and> punctual S)"
  shows "wp t (restore_on_device req tool disk) S
     (\<lambda>_ w'. justified (tables S) req (happened w')) (\<lambda>r w'. justified (tables S) req (happened w')) w"
proof -
  let ?U = "tables S"
  define R where "R = (\<lambda>(r :: RestoreError option) (w' :: world). justified ?U req (happened w'))"
  define Q where "Q = (\<lambda>(_ :: qstring) (w' :: world). justified ?U req (happened w'))"
  have leave: "wp t (leaving (restore_through_loop req tool disk tr) (andThen (attempt detachLoop) (\<lambda>_. give ()))) S Q R w1"
    if "ready ?U req w1" "target_checked ?U req disk (happened w1)" "held disk fd w1"
      "tr = request_for (request_style req) (request_fileSystem req) disk g1 g2 name" "isWritablePartitionRequest tr = None"
    for w1 fd tr g1 g2 name
  proof -
    have out: "wp t (andThen (attempt detachLoop) (\<lambda>_. give ())) S (\<lambda>_. X) (\<lambda>_. X) w2"
      if "justified ?U req (happened w2)" "\<And>w'. justified ?U req (happened w') \<Longrightarrow> X w'" for w2 X
      unfolding wp_andThen wp_attempt
      by (rule wp_mono [OF detachLoop_wp])
        (use that justified_quiet [OF steady_quiet(6)] in \<open>auto simp: run_simps\<close>)
    show ?thesis
      unfolding wp_leaving
      by (rule wp_mono [OF restore_through_loop_wp [OF that ends]]; rule out) (simp_all add: Q_def R_def)
  qed
  have "wp t (restore_on_device req tool disk) S Q R w"
    unfolding restore_on_device_def wp_andThen [of _ "open_attempts _ _"] wp_andThen [of _ "verifyIdentity _ _"]
      wp_andThen [of _ "stop_if_cancelled"] wp_andThen [of _ "table_request _ _"]
  proof (rule wp_mono [OF open_attempts_wp [OF assms(3,4,1,2)]], goal_cases)
    case (2 _ w1)
    then obtain fd where r1: "ready ?U req w1" and c1: "target_checked ?U req disk (happened w1)" and h1: "held disk fd w1"
      by blast
    show ?case
    proof (rule wp_mono [OF verify_held [OF r1 c1 h1]], goal_cases)
      case (1 _ w2)
      then have r2: "ready ?U req w2" and c2: "target_checked ?U req disk (happened w2)" and h2: "held disk fd w2"
        by (auto simp: touchable_def may_touch_def)
      show ?case
      proof (rule wp_mono [OF stop_if_cancelled_ready [OF r2]], goal_cases)
        case (1 _ w3)
        then have w3: "w3 = noting (CancelAsked False) w2" and r3: "ready ?U req w3" by blast+
        have c3: "target_checked ?U req disk (happened w3)" using c2 by (auto simp: w3 intro: target_checked_mono)
        have h3: "held disk fd w3" using h2 by (simp add: w3 held_def handle_open_neutral)
        show ?case
        proof (rule wp_mono [OF table_request_wp], goal_cases)
          case (1 tr w4)
          then obtain g1 g2 where q: "adds quiet w3 w4" and dev: "devices w4 = devices w3"
            and tr: "tr = request_for (request_style req) (request_fileSystem req) disk g1 g2 (volumeLabel req)" by blast
          have r4: "ready ?U req w4" and c4: "target_checked ?U req disk (happened w4)" and h4: "held disk fd w4"
            using ready_quiet [OF q r3] checked_adds [OF q c3] held_quiet [OF q _ h3] dev by simp_all
          have "held disk fd (w4\<lparr>formatter := no_loop\<rparr>)" using h4 by (simp add: held_def)
          then show ?case
            unfolding wp_andThen [of _ "gate _ _"] wp_andThen [of _ "set_loop _"] wp_gate
            using leave [of "w4\<lparr>formatter := no_loop\<rparr>" fd tr, OF _ _ _ tr] r4 c4
            by (auto simp: set_loop_def wp_change R_def ready_justified split: option.split)
        qed simp
      qed (simp add: R_def)
    qed (simp add: R_def ready_justified)
  qed (simp_all add: R_def ready_justified)
  then show ?thesis by (simp add: Q_def R_def)
qed

lemma performLinuxRestore_wp:
  assumes "ready (tables S) req w" and ends: "t \<or> (patient N S \<and> punctual S)"
  shows "wp t (performLinuxRestore req) S
     (\<lambda>_ w'. justified (tables S) req (happened w')) (\<lambda>r w'. justified (tables S) req (happened w')) w"
proof -
  let ?U = "tables S"
  define R where "R = (\<lambda>(r :: RestoreError option) (w' :: world). justified ?U req (happened w'))"
  define Q where "Q = (\<lambda>(_ :: qstring) (w' :: world). justified ?U req (happened w'))"
  have close: "wp t (closeDevice Restored) S (\<lambda>_. X) (\<lambda>_. X) w1"
    if "justified ?U req (happened w1)" "\<And>w'. justified ?U req (happened w') \<Longrightarrow> X w'" for w1 X
    by (rule wp_mono [OF closeDevice_wp]) (use that justified_adds [OF _ _ that(1)] in fastforce)+
  have device: "wp t (andThen (construct Restored (deviceId disk)) (\<lambda>_.
       leaving (restore_on_device req tool disk) (closeDevice Restored))) S Q R w1"
    if "ready ?U req w1" "target_checked ?U req disk (happened w1)" for w1 tool disk
    unfolding wp_andThen wp_leaving
  proof (rule wp_mono [OF construct_wp], goal_cases)
    case (1 _ w2)
    then have "ready ?U req w2" "target_checked ?U req disk (happened w2)" "device_fd (devices w2 Restored) = None"
      "devicePath (devices w2 Restored) = deviceId disk" using that by simp_all
    from restore_on_device_wp [OF this ends] show ?case
      by (rule wp_mono) (rule close; simp add: Q_def R_def)+
  qed simp
  have "wp t (performLinuxRestore req) S Q R w"
    unfolding performLinuxRestore_def wp_andThen [of _ "restore_checks _"]
  proof (rule wp_mono [OF restore_checks_wp [OF assms(1)]], goal_cases)
    case (1 x w1)
    obtain tool disk where x: "x = (tool, disk)" by (cases x)
    with 1 have r1: "ready ?U req w1" and c1: "target_checked ?U req disk (happened w1)" by simp_all
    show ?case
      unfolding x prod.case wp_andThen [of _ "inspect_device _"] wp_andThen [of _ "stop_if_cancelled"]
        wp_andThen [of _ "reportPlannedStep _"] wp_andThen [of _ "unmountDisk _"]
    proof (rule wp_mono [OF inspect_device_wp], goal_cases)
      case (1 _ w2)
      then have r2: "ready ?U req w2" and c2: "target_checked ?U req disk (happened w2)"
        using ready_quiet [OF _ r1] checked_adds [OF _ c1] by blast+
      show ?case
      proof (rule wp_mono [OF stop_if_cancelled_ready [OF r2]], goal_cases)
        case (1 _ w3)
        then have r3: "ready ?U req w3" and c3: "target_checked ?U req disk (happened w3)"
          using c2 by (auto intro: target_checked_mono)
        show ?case
        proof (rule wp_mono [OF report_quiet], goal_cases)
          case (1 _ w4)
          then have r4: "ready ?U req w4" and c4: "target_checked ?U req disk (happened w4)"
            using ready_quiet [OF _ r3] checked_adds [OF _ c3] by blast+
          show ?case
          proof (rule wp_mono [OF unmountDisk_wp], goal_cases)
            case (1 _ w5)
            then have q: "adds quiet w4 w5" using steady_quiet(2) by blast
            have r5: "ready ?U req w5" and c5: "target_checked ?U req disk (happened w5)"
              using ready_quiet [OF q r4] checked_adds [OF q c4] by blast+
            show ?case
            proof (rule wp_mono [OF report_quiet], goal_cases)
              case (1 _ w6)
              then show ?case using device ready_quiet [OF _ r5] checked_adds [OF _ c5] by blast
            qed simp
          qed (use ready_quiet [OF steady_quiet(2) r4] in \<open>auto simp: R_def ready_def\<close>)
        qed simp
      qed (simp add: R_def)
    qed (use ready_quiet [OF _ r1] in \<open>auto simp: R_def ready_def\<close>)
  qed (simp add: R_def ready_def)
  then show ?thesis by (simp add: Q_def R_def)
qed

section \<open>The properties\<close>

lemma new_world_ready: "ready U req new_world"
  by (simp add: ready_def new_world_def unwritten_def)

lemma restore_justified:
  assumes "performLinuxRestore req S new_world = Some (r, w)"
  shows "justified (tables S) req (happened w)"
  using performLinuxRestore_wp [OF new_world_ready, where S = S and t = True and N = 0 and req = req] assms
  by (cases r) (simp_all add: wp_def)

text \<open>C2. A Linux restore writes only to the disk it verified: whatever the system answers, before every
  \<open>pwrite\<close> both gates had accepted the disk sysfs described, the exclusive handle of that disk had been
  opened, not closed since, and passed every check of \<open>verifyIdentity\<close> after it was opened, the clearing
  step had been reported, no cancel request had been seen, and the bytes lie inside the disk; and the
  formatter is only ever started on a loop mapping of exactly that handle's partition.\<close>

theorem restore_writes_only_verified_disk:
  "case performLinuxRestore req S new_world of
     None \<Rightarrow> True
   | Some (r, w) \<Rightarrow> justified (tables S) req (happened w)"
  by (auto simp: restore_justified split: option.split)

lemma justified_cancel:
  "justified U req h \<Longrightarrow> CancelAsked True \<in> set h \<Longrightarrow> unwritten h"
proof (induction h)
  case (Cons e h)
  show ?case
  proof (cases "CancelAsked True \<in> set h")
    case True
    then have "unwritten h" using Cons by simp
    moreover have "\<And>fd a rest r. e \<noteq> Wrote fd a rest r" using Cons.prems(1) True by (auto simp: may_touch_def)
    ultimately show ?thesis unfolding unwritten_def by (metis set_ConsD)
  next
    case False
    then show ?thesis using Cons.prems by (auto simp: unwritten_def)
  qed
qed simp

text \<open>C8. A restore in which a cancel request was answered with yes has written nothing, before or after.\<close>

theorem cancelled_restore_writes_nothing:
  "case performLinuxRestore req S new_world of
     None \<Rightarrow> True
   | Some (r, w) \<Rightarrow> \<not> (CancelAsked True \<in> set (happened w) \<and> (\<exists>fd a rest n. Wrote fd a rest n \<in> set (happened w)))"
  using justified_cancel [OF restore_justified] by (auto simp: unwritten_def split: option.split)

text \<open>C33. A restore comes to an end: with a kernel that does not interrupt writes for ever and a clock on
  which the naps of the wait add up, every run returns, whatever else the system answers.\<close>

theorem restore_ends:
  assumes "patient N S" "punctual S"
  shows "performLinuxRestore req S new_world \<noteq> None"
proof
  assume "performLinuxRestore req S new_world = None"
  with performLinuxRestore_wp [OF new_world_ready, where S = S and t = False and N = N and req = req] assms show False
    by (simp add: wp_def)
qed

definition broken_machine :: os where
  "broken_machine =
     \<lparr>tables = ascii_tables, view_of = (\<lambda>_. running_stick), cancel_answer = (\<lambda>_. False),
      open_answer = (\<lambda>_ _ _. Inl 5), fstat_answer = (\<lambda>_ _. Inl 5), size_answer = (\<lambda>_ _. None),
      sector_answer = (\<lambda>_ _. None), sequence_answer = (\<lambda>_ _. None),
      pwrite_answer = (\<lambda>h fd a rest. if length (takeWhile interrupted h) < 3 then Inl EINTR else Inr 1),
      fsync_answer = (\<lambda>_ _. None), flsbuf_answer = (\<lambda>_ _. None), rrpart_answer = (\<lambda>_ _. None),
      umount_answer = (\<lambda>_ _. None), loop_number_answer = (\<lambda>_ _. Inr 0), loop_configure_answer = (\<lambda>_ _ _. None),
      loop_clear_answer = (\<lambda>_ _. None), random_answer = (\<lambda>_. (1, 2, 3, 4)), environment_answer = (\<lambda>_ _. []),
      passwd_answer = (\<lambda>_ _. None), tool_answer = (\<lambda>_ _ _. Finished True []), exists_answer = (\<lambda>_ _. False),
      clock_answer = (\<lambda>h. 250 * naps h), stale_errno = (\<lambda>_. 0), deepest_first = (\<lambda>ms. ms)\<rparr>"

theorem restore_ends_witness:
  "performLinuxRestore
     \<lparr>request_disk = usb_stick, request_style = Gpt, request_fileSystem = ExFat, volumeLabel = qs ''USB'',
      request_guard = running_system, displayLanguage = English\<rparr> broken_machine new_world \<noteq> None"
  by (rule restore_ends [of 3])
    (auto simp: patient_def punctual_def broken_machine_def NewPartitionTimeoutMs_def EINTR_def split: if_splits)

end
