(* ===== verification/Restore_Order.thy ===== *)
theory Restore_Order
  imports Restore_Safety
begin

text \<open>
  The steps of \<open>performLinuxRestore\<close> as the reporter sees them. \<open>silent\<close> operations leave the reported steps
  and the counter alone and do not stop for a cancel request; \<open>moves k j\<close> operations take a run from the \<open>k\<close>-th step of \<open>linuxRestorePlan\<close> to the
  \<open>j\<close>-th. Both are closed under the ways the code composes operations, so the stages of the restore are
  walked by rules.
\<close>

section \<open>Operations that report no step\<close>

fun step_of :: "event \<Rightarrow> RestoreStep option" where
  "step_of (StepReported s) = Some s"
| "step_of _ = None"

definition reported :: "history \<Rightarrow> RestoreStep list" where
  "reported h = rev (List.map_filter step_of h)"

lemma reported_Nil [simp]: "reported [] = []"
  by (simp add: reported_def List.map_filter_def)

lemma reported_Cons [simp]:
  "reported (e # h) = reported h @ (case step_of e of None \<Rightarrow> [] | Some s \<Rightarrow> [s])"
  by (simp add: reported_def List.map_filter_def split: option.split)

definition complained :: "history \<Rightarrow> bool" where
  "complained h \<longleftrightarrow> (\<exists>s. DetailReported (OutOfPlanOrder s) \<in> set h)"

fun silent_event :: "event \<Rightarrow> bool" where
  "silent_event (StepReported _) = False"
| "silent_event (DetailReported (OutOfPlanOrder _)) = False"
| "silent_event _ = True"

definition same_steps :: "world \<Rightarrow> world \<Rightarrow> bool" where
  "same_steps w w' \<longleftrightarrow> steps_counter w' = steps_counter w \<and> reported (happened w') = reported (happened w) \<and>
     (complained (happened w') \<longleftrightarrow> complained (happened w)) \<and> set (happened w) \<subseteq> set (happened w')"

lemma same_steps_refl [simp]: "same_steps w w"
  by (simp add: same_steps_def)

lemma same_steps_trans: "same_steps w w' \<Longrightarrow> same_steps w' w'' \<Longrightarrow> same_steps w w''"
  by (auto simp: same_steps_def)

lemma same_steps_noting: "silent_event e \<Longrightarrow> same_steps w (noting e w)"
  by (cases e rule: silent_event.cases) (auto simp: same_steps_def complained_def)

lemma same_steps_more: "same_steps w w' \<Longrightarrow> silent_event e \<Longrightarrow> same_steps w (noting e w')"
  using same_steps_noting same_steps_trans by blast

definition silent :: "'a action \<Rightarrow> bool" where
  "silent m \<longleftrightarrow> (\<forall>S w. wp True m S (\<lambda>_. same_steps w) (\<lambda>r w'. r \<noteq> None \<and> same_steps w w') w)"

lemma silentD: "silent m \<Longrightarrow> wp True m S (\<lambda>_. same_steps w) (\<lambda>r w'. r \<noteq> None \<and> same_steps w w') w"
  by (simp add: silent_def)

named_theorems silent_intro \<open>operations that report no step\<close>

lemma silent_andThen [silent_intro]:
  assumes "silent m" "\<And>x. silent (k x)"
  shows "silent (andThen m k)"
  unfolding silent_def wp_andThen
proof (intro allI, rule wp_mono [OF silentD [OF assms(1)]])
  fix S w x w' assume "same_steps w w'"
  then show "wp True (k x) S (\<lambda>_. same_steps w) (\<lambda>r w'. r \<noteq> None \<and> same_steps w w') w'"
    by (intro wp_mono [OF silentD [OF assms(2)]]) (auto intro: same_steps_trans)
qed

lemma silent_leaving [silent_intro]:
  assumes "silent m" "silent d"
  shows "silent (leaving m d)"
proof -
  have out: "wp True d S (\<lambda>_ w'. b \<and> same_steps w w') (\<lambda>_ w'. b \<and> same_steps w w') w'" if "b" "same_steps w w'" for S w w' b
    by (rule wp_mono [OF silentD [OF assms(2)]]) (auto intro: same_steps_trans [OF that(2)] simp: that(1))
  show ?thesis unfolding silent_def wp_leaving
    using out [of True] out
    by (intro allI wp_mono [OF silentD [OF assms(1)]]) auto
qed

text \<open>An attempt of a silent operation was not stopped, so \<open>again\<close> repeats an error.\<close>

lemma silent_attempt: "silent m \<Longrightarrow> silent (attempt m)"
  unfolding silent_def wp_attempt by (auto intro: wp_mono [OF silentD] simp: silent_def)

lemma silent_attempt_then [silent_intro]:
  assumes "silent m" "\<And>r. r \<noteq> Stopped \<Longrightarrow> silent (k r)"
  shows "silent (andThen (attempt m) k)"
  unfolding silent_def wp_andThen wp_attempt
proof (intro allI, rule wp_mono [OF silentD [OF assms(1)]])
  have rest: "wp True (k r) S (\<lambda>_. same_steps w) (\<lambda>r w'. r \<noteq> None \<and> same_steps w w') w'"
    if "same_steps w w'" "r \<noteq> Stopped" for S w w' r
    by (rule wp_mono [OF silentD [OF assms(2) [OF that(2)]]]) (auto intro: same_steps_trans [OF that(1)])
  show "wp True (k (Ok x)) S (\<lambda>_. same_steps w) (\<lambda>r w'. r \<noteq> None \<and> same_steps w w') w'"
    if "same_steps w w'" for S w x w' by (rule rest) (simp_all add: that)
  show "wp True (k (case e of None \<Rightarrow> Stopped | Some e \<Rightarrow> Failed e)) S (\<lambda>_. same_steps w)
      (\<lambda>r w'. r \<noteq> None \<and> same_steps w w') w'"
    if "e \<noteq> None \<and> same_steps w w'" for S w e w' by (rule rest) (use that in auto)
qed

lemma silent_again [silent_intro]: "silent (again (Failed e))"
  by (simp add: again_def silent_def run_simps)

lemma silent_basic [silent_intro]:
  "silent (give a)" "silent (fail e)" "silent (get f)" "silent unicode_tables" "silent errno_left"
  "silent (check b e)" "silent (gate g r)" "silent look" "silent (the_device x)" "silent (set_device x d)"
  "silent (set_loop g')" "silent (construct x p)" "silent (sort_deepest_first ms)"
  by (simp_all add: silent_def run_simps device_defs set_loop_def construct_def
      same_steps_noting split: option.split outcome.split)
    (simp_all add: same_steps_def wp_def sort_deepest_first_def)

lemma silent_ask [silent_intro]: "(\<And>a. silent_event (ev a)) \<Longrightarrow> silent (ask f ev)"
  by (simp add: silent_def wp_ask same_steps_noting)

lemma silent_tell [silent_intro]: "silent_event e \<Longrightarrow> silent (tell e)"
  by (simp add: silent_def wp_tell same_steps_noting)

lemma silent_detail [silent_intro]: "silent_event (DetailReported d) \<Longrightarrow> silent (detail d)"
  by (simp add: detail_def silent_tell)

lemma silent_device [silent_intro]:
  "silent (closeDevice x)" "silent (sizeInBytes x)" "silent (logicalSectorSize x)"
  "silent (blockDeviceNumber x)" "silent (diskSequence x)" "silent (flush x)" "silent (rereadPartitionTable x)"
  unfolding closeDevice_def sizeInBytes_def logicalSectorSize_def blockDeviceNumber_def diskSequence_def
    flush_def rereadPartitionTable_def
  by (auto intro!: silent_intro split: option.split node.split sum.split)

lemma silent_verify [silent_intro]:
  "silent (openDevice x access)" "silent (verifyIdentity x disk)" "silent (verifyPartitionOf x n s)"
  unfolding openDevice_def verifyIdentity_def verifyHandle_def verifyMedia_def verifySysfs_def verifyPartitionOf_def Let_def
  by (auto intro!: silent_intro split: option.split sum.split)

lemma silent_configure [silent_intro]: "silent (configure_attempts n busy err config)"
  by (induction n arbitrary: busy err)
    (auto intro!: silent_intro simp: configure_attempts.simps Let_def split: option.split sum.split)

lemma silent_loop [silent_intro]:
  "silent releaseClaim" "silent prepareForFormatting" "silent detachLoop" "silent (configureLoop b off n s)"
proof -
  show [silent_intro]: "silent releaseClaim"
    unfolding releaseClaim_def by (auto intro!: silent_intro split: option.split)
  show "silent prepareForFormatting" "silent detachLoop" "silent (configureLoop b off n s)"
    unfolding prepareForFormatting_def detachLoop_def configureLoop_def backing_size_def
    by (auto intro!: silent_intro split: option.split sum.split node.split)
qed

lemma silent_unmount [silent_intro]: "silent (unmount_all U p owned ms)" "silent (unmountDisk disk)"
proof -
  show [silent_intro]: "silent (unmount_all U p owned ms)" for U p owned ms
    by (induction ms) (auto intro!: silent_intro simp: unmount_all.simps split: option.split)
  show "silent (unmountDisk disk)" unfolding unmountDisk_def Let_def by (auto intro!: silent_intro)
qed

lemma silent_tools [silent_intro]: "silent (resolveFormatTool fs)" "silent (formatLinuxPartition fs tool p l n)"
proof -
  have [silent_intro]: "silent (first_tool names)" for names
    by (induction names) (auto intro!: silent_intro simp: Let_def)
  show "silent (resolveFormatTool fs)" unfolding resolveFormatTool_def by (auto intro!: silent_intro)
  have [silent_intro]: "silent (run_format_attempts U tool p out as)" for U p out as
    by (induction as arbitrary: out) (auto intro!: silent_intro simp: run_format_attempts.simps split: tool_result.split)
  have [silent_intro]: "silent desktopOwner"
    unfolding desktopOwner_def environmentId_def by (auto intro!: silent_intro split: option.split)
  show "silent (formatLinuxPartition fs tool p l n)"
    unfolding formatLinuxPartition_def format_attempts_def
    by (auto intro!: silent_intro split: option.split FileSystemType.split)
qed

lemma silent_wait [silent_intro]: "silent (wait_loop path noted)"
proof -
  have "fst y = Ok () \<and> same_steps w (snd y)" if "wait_loop path noted S w = Some y" for S w y
    using that
  proof (rule wait_loop.raw_induct [where P = "\<lambda>_ _ _ w y. fst y = Ok () \<and> same_steps w (snd y)", rotated])
    fix f path noted S w y
    assume IH: "\<And>path noted S w y. f path noted S w = Some y \<Longrightarrow> fst y = Ok () \<and> same_steps w (snd y)"
      and run: "(let there = exists_answer S (happened w) path; w1 = noting (PathChecked path there) w
        in if there then Some (Ok (), w1)
           else let t1 = clock_answer S (happened w1); w2 = noting (ClockRead t1) w1
             in if NewPartitionTimeoutMs \<le> t1 then Some (Ok (), w2)
                else let w3 = noting (Slept 250) w2; t2 = clock_answer S (happened w3); w4 = noting (ClockRead t2) w3
                  in if 5000 \<le> t2 - noted
                     then let t3 = clock_answer S (happened w4);
                            w5 = noting (DetailReported (StillWaiting path (t3 div 1000))) (noting (ClockRead t3) w4)
                          in f path t3 S w5
                     else f path noted S w4) = Some y"
    show "fst y = Ok () \<and> same_steps w (snd y)"
      using run by (auto simp: Let_def same_steps_more split: if_splits dest!: IH elim!: same_steps_trans [rotated])
  qed
  then show ?thesis by (fastforce simp: silent_def wp_def split: option.split outcome.split)
qed

section \<open>Operations that move through the plan\<close>

text \<open>\<open>moves k j m\<close>: from a world where the first \<open>k\<close> steps of the plan were reported, \<open>m\<close> ends with the
  first \<open>j\<close> reported, or leaves early with fewer than all of them.\<close>

definition at_step :: "nat \<Rightarrow> world \<Rightarrow> bool" where
  "at_step k w \<longleftrightarrow> steps_counter w = \<lparr>counter_plan = linuxRestorePlan, counter_done = k\<rparr> \<and>
     reported (happened w) = take k linuxRestorePlan \<and> \<not> complained (happened w)"

text \<open>Leaving early before the end of the plan, and without an error only after a cancel request was seen.\<close>

definition early :: "os \<Rightarrow> RestoreError option \<Rightarrow> world \<Rightarrow> bool" where
  "early S r w \<longleftrightarrow> (\<exists>i < length linuxRestorePlan. at_step i w) \<and> (r = None \<longrightarrow> CancelAsked True \<in> set (happened w))"

definition moves :: "nat \<Rightarrow> nat \<Rightarrow> 'a action \<Rightarrow> bool" where
  "moves k j m \<longleftrightarrow>
     (\<forall>S w. at_step k w \<longrightarrow> wp True m S (\<lambda>_. at_step j) (early S) w)"

lemma at_step_same: "at_step k w \<Longrightarrow> same_steps w w' \<Longrightarrow> at_step k w'"
  by (simp add: at_step_def same_steps_def)

lemma moves_silent: "silent m \<Longrightarrow> k < length linuxRestorePlan \<Longrightarrow> moves k k m"
  unfolding moves_def by (intro allI impI wp_mono [OF silentD]) (auto simp: early_def intro: at_step_same)

lemma moves_report:
  assumes "k < length linuxRestorePlan" "s = linuxRestorePlan ! k"
  shows "moves k (Suc k) (reportPlannedStep s)"
  using assms by (simp add: moves_def reportPlannedStep_def report_with_def run_simps advance_def at_step_def take_Suc_conv_app_nth
      complained_def)

lemma moves_andThen: "moves k i m \<Longrightarrow> (\<And>x. moves i j (n x)) \<Longrightarrow> moves k j (andThen m n)"
  unfolding moves_def wp_andThen by (blast intro: wp_mono)

lemma moves_leaving:
  assumes "moves k j m" "silent d"
  shows "moves k j (leaving m d)"
proof -
  have ok: "wp True d S (\<lambda>_. at_step i) (\<lambda>_. at_step i) w" if "at_step i w" for i S w
    by (rule wp_mono [OF silentD [OF assms(2)]]) (use at_step_same [OF that] in blast)+
  have early: "wp True d S (\<lambda>_. early S r) (\<lambda>_. early S r) w" if "early S r w" for S w r
  proof -
    have "early S r w'" if "same_steps w w'" for w'
      using \<open>early S r w\<close> that by (auto simp: early_def same_steps_def intro: at_step_same [OF _ that])
    then show ?thesis by (intro wp_mono [OF silentD [OF assms(2)]]) auto
  qed
  show ?thesis
    unfolding moves_def wp_leaving
    by (intro allI impI wp_mono [OF assms(1) [unfolded moves_def, rule_format]] ok early)
qed

lemma moves_cancel: "k < length linuxRestorePlan \<Longrightarrow> moves k j (n ()) \<Longrightarrow> moves k j (andThen stop_if_cancelled n)"
  unfolding moves_def stop_if_cancelled_def
  by (auto simp: run_simps early_def at_step_def complained_def split: if_splits)

lemma moves_done: "moves k k (give x)"
  by (simp add: moves_def wp_give)

lemma plan_length [simp]: "length linuxRestorePlan = 10"
  by (simp add: linuxRestorePlan_def)

lemma moves_restart: "moves 0 0 (change (\<lambda>w. w\<lparr>steps_counter := new_counter linuxRestorePlan\<rparr>))"
  by (simp add: moves_def wp_change at_step_def new_counter_def)

lemma moves_cases:
  "moves k j m1 \<Longrightarrow> (\<And>x. moves k j (k1 x)) \<Longrightarrow> moves k j (case a of None \<Rightarrow> m1 | Some x \<Rightarrow> k1 x)"
  "(\<And>x. moves k j (k2 x)) \<Longrightarrow> (\<And>x. moves k j (k3 x)) \<Longrightarrow> moves k j (case s of Inl x \<Rightarrow> k2 x | Inr x \<Rightarrow> k3 x)"
  by (simp_all split: option.split sum.split)

lemma moves_fail: "k < length linuxRestorePlan \<Longrightarrow> moves k j (fail e)"
  by (auto simp: moves_def wp_fail early_def)

lemma moves_again: "k < length linuxRestorePlan \<Longrightarrow> moves k j (again (Failed e))"
  by (auto simp: moves_def again_def run_simps early_def)

lemma moves_attempt:
  assumes "silent m" "k < length linuxRestorePlan" "\<And>r. r \<noteq> Stopped \<Longrightarrow> moves k j (n r)"
  shows "moves k j (andThen (attempt m) n)"
  unfolding moves_def wp_andThen wp_attempt
proof (intro allI impI, rule wp_mono [OF silentD [OF assms(1)]])
  have rest: "wp True (n r) S (\<lambda>_. at_step j) (early S) w'" if "at_step k w" "same_steps w w'" "r \<noteq> Stopped" for S w w' r
    using assms(3) [OF that(3)] at_step_same [OF that(1,2)] by (simp add: moves_def)
  show "wp True (n (Ok x)) S (\<lambda>_. at_step j) (early S) w'" if "at_step k w" "same_steps w w'" for S w x w'
    by (rule rest [OF that]) simp
  show "wp True (n (case e of None \<Rightarrow> Stopped | Some e \<Rightarrow> Failed e)) S (\<lambda>_. at_step j) (early S) w'"
    if "at_step k w" "e \<noteq> None \<and> same_steps w w'" for S w e w'
    by (rule rest [OF that(1)]) (use that(2) in auto)
qed

lemma plan_nth:
  "linuxRestorePlan ! 0 = VerifyDisk" "linuxRestorePlan ! Suc 0 = IdentifyDevice" "linuxRestorePlan ! 2 = Unmount"
  "linuxRestorePlan ! 3 = OpenExclusive" "linuxRestorePlan ! 4 = ClearSignatures"
  "linuxRestorePlan ! 5 = WritePartitionTable" "linuxRestorePlan ! 6 = Format"
  "linuxRestorePlan ! 7 = RereadPartitionTable" "linuxRestorePlan ! 8 = WaitForPartition" "linuxRestorePlan ! 9 = Complete"
  by (simp_all add: linuxRestorePlan_def)

text \<open>One operation of a sequence that reports nothing, or a report; \<open>stages\<close> walks a sequence with them.\<close>

lemma moves_quietly: "silent m \<Longrightarrow> k < length linuxRestorePlan \<Longrightarrow> (\<And>x. moves k j (n x)) \<Longrightarrow> moves k j (andThen m n)"
  by (rule moves_andThen [OF moves_silent])

lemma moves_reporting:
  "k < length linuxRestorePlan \<Longrightarrow> s = linuxRestorePlan ! k \<Longrightarrow> moves (k + 1) j (n ()) \<Longrightarrow>
   moves k j (andThen (reportPlannedStep s) n)"
  by (rule moves_andThen [OF moves_report]) simp_all

lemma moves_stay: "silent m \<Longrightarrow> k < length linuxRestorePlan \<Longrightarrow> k = j \<Longrightarrow> moves k j m"
  using moves_silent by blast

lemma restore_checks_moves: "moves 0 1 (restore_checks req)"
proof -
  have look: "moves 1 1 (andThen look (\<lambda>v. case refreshUsbDisk U v p RestoreDetails of
       Inl e \<Rightarrow> fail (NotEnumerated e)
     | Inr current \<Rightarrow>
         andThen (gate NotTheSelectedDisk (isSameRestoreTarget U d current)) (\<lambda>_.
         andThen (gate NotSafe (isSafeRestoreTarget U current g)) (\<lambda>_.
         andThen (gate NoLayout (canCreatePartitionLayout st current)) (\<lambda>_.
         andThen (gate FileSystemRefused (canCreateFileSystemOn fs current)) (\<lambda>_.
         give (tool, current)))))))" for U p d g st fs tool
    by (rule moves_silent) (auto intro!: silent_intro split: sum.split)
  show ?thesis
    unfolding restore_checks_def
    by (rule moves_quietly [OF silent_basic(4)], simp, rule moves_quietly [OF silent_basic(7)], simp,
        rule moves_quietly [OF silent_tools(1)], simp, rule moves_andThen [OF moves_restart],
        rule moves_reporting) (simp_all add: plan_nth look [simplified])
qed

lemma silent_writeAt [silent_intro]: "silent (writeAt x off buf)"
proof -
  have "silent (writeAt_loop path fd off buf 0)" for path fd
    unfolding silent_def
    by (intro allI, rule writeAt_loop_partial [where I = "\<lambda>_. same_steps w" for w])
      (auto simp: same_steps_more split: sum.split)
  then show ?thesis unfolding writeAt_def by (auto intro!: silent_intro split: option.split)
qed

lemma silent_writeZeros [silent_intro]: "silent (writeZeros x off n s)"
proof -
  have "silent (writeZeros_loop x chunk off n)" for chunk
  proof (induction x chunk off n rule: writeZeros_loop.induct)
    case (1 x chunk cursor remaining)
    then show ?case
      by (subst writeZeros_loop.simps) (auto intro!: silent_intro simp: Let_def)
  qed
  then show ?thesis unfolding writeZeros_def by (auto intro!: silent_intro)
qed

lemma silent_format [silent_intro]: "silent flush_and_reread" "silent (format_through_loop req tool start)"
  unfolding flush_and_reread_def format_through_loop_def by (auto intro!: silent_intro)

lemma simple_stages:
  "moves 1 2 (inspect_device disk)" "moves 4 5 (clear_signatures disk)" "moves 5 6 (write_partition_table tr)"
  unfolding inspect_device_def clear_signatures_def write_partition_table_def Let_def
  by (rule moves_reporting; auto simp: plan_nth numeral_2_eq_2 intro!: moves_stay silent_intro)+

lemma formatting_stage: "moves 6 8 (formatAndRereadPartitionTable req tool start)"
proof -
  have good: "moves 7 8 (andThen (reportPlannedStep RereadPartitionTable) (\<lambda>_.
         andThen flush_and_reread (\<lambda>_.
         andThen (diskSequence Restored) (\<lambda>seq.
         case seq of None \<Rightarrow> fail (NotReidentified p) | Some s \<Rightarrow> give s))))" for p
    by (rule moves_reporting) (auto simp: plan_nth intro!: moves_stay silent_intro split: option.split)
  have bad: "moves 7 8 (andThen (attempt detachLoop) (\<lambda>_.
         andThen (attempt flush_and_reread) (\<lambda>q.
         andThen (case q of Failed e \<Rightarrow> detail (RereadProblem e) | _ \<Rightarrow> give ()) (\<lambda>_. again (Failed e)))))" for e
    by (rule moves_attempt, rule silent_loop(3), simp, rule moves_attempt, rule silent_format(1), simp)
      (auto intro!: moves_quietly moves_again silent_intro split: outcome.split)
  show ?thesis
    unfolding formatAndRereadPartitionTable_def
    by (rule moves_reporting) (auto simp: plan_nth intro!: moves_attempt silent_intro good bad split: outcome.split)
qed

lemma waiting_stage: "moves 8 10 (check_new_partition disk seq)"
proof -
  have fin: "moves 9 10 (andThen (reportPlannedStep Complete) (\<lambda>_. give path))" for path :: qstring
    by (rule moves_reporting) (auto simp: plan_nth moves_done)
  show ?thesis
    unfolding check_new_partition_def Let_def
    by (rule moves_reporting)
      (auto simp: plan_nth intro!: moves_quietly moves_leaving silent_intro fin)
qed

lemma device_stage: "moves 4 10 (restore_on_device req tool disk)"
proof -
  have [silent_intro]: "silent (open_attempts disk ks)" for ks
    by (induction ks) (auto intro!: silent_intro simp: open_attempts.simps split: outcome.split)
  have [silent_intro]: "silent (table_request req disk)" "silent (configure_formatter disk tr)" for tr
    unfolding table_request_def randomGuid_def configure_formatter_def by (auto intro!: silent_intro split: option.split)
  have "moves 4 10 (restore_through_loop req tool disk tr)" for tr
    unfolding restore_through_loop_def
    by (auto intro!: moves_cancel moves_quietly silent_intro
        moves_andThen [OF simple_stages(2)] moves_andThen [OF simple_stages(3)] moves_andThen [OF formatting_stage] waiting_stage)
  then show ?thesis
    unfolding restore_on_device_def by (auto intro!: moves_cancel moves_quietly moves_leaving silent_intro)
qed

lemma performLinuxRestore_moves: "moves 0 10 (performLinuxRestore req)"
proof -
  have dev: "moves 4 10 (andThen (construct Restored p) (\<lambda>_.
        leaving (restore_on_device req tool disk) (closeDevice Restored)))" for p tool disk
    by (rule moves_quietly) (auto intro!: moves_leaving device_stage silent_intro)
  have "moves 2 10 (andThen stop_if_cancelled (\<lambda>_.
       andThen (reportPlannedStep Unmount) (\<lambda>_.
       andThen (unmountDisk disk) (\<lambda>_.
       andThen (reportPlannedStep OpenExclusive) (\<lambda>_.
       andThen (construct Restored p) (\<lambda>_.
       leaving (restore_on_device req tool disk) (closeDevice Restored)))))))" for p tool disk
    by (rule moves_cancel, simp, rule moves_reporting, simp, simp add: plan_nth,
        rule moves_quietly [OF silent_unmount(2)], simp, rule moves_reporting) (simp_all add: plan_nth dev)
  then show ?thesis
    unfolding performLinuxRestore_def
    by (auto intro!: moves_andThen [OF restore_checks_moves] moves_andThen [OF simple_stages(1)])
qed

section \<open>The property\<close>

lemma restore_steps:
  assumes "performLinuxRestore req S new_world = Some (r, w)"
  shows "prefix (reported (happened w)) linuxRestorePlan \<and> \<not> complained (happened w) \<and>
    (reported (happened w) = linuxRestorePlan \<longleftrightarrow> (\<exists>location. r = Ok location)) \<and>
    (r = Stopped \<longrightarrow> CancelAsked True \<in> set (happened w))"
proof -
  have start: "at_step 0 new_world" by (simp add: at_step_def new_world_def new_counter_def complained_def)
  note run = performLinuxRestore_moves [unfolded moves_def, rule_format, OF start, of req S]
  have short: "take i linuxRestorePlan \<noteq> linuxRestorePlan" if "i < 10" for i
    using that by (metis length_take min.absorb4 nat_neq_iff plan_length)
  show ?thesis
  proof (cases r)
    case (Ok p)
    then show ?thesis using run by (simp add: assms wp_def at_step_def)
  qed (use run short short [THEN not_sym] in \<open>auto simp: assms wp_def early_def at_step_def take_is_prefix\<close>)
qed

text \<open>C34. A restore reports its plan: the steps it reports are, in order, a prefix of the plan the window was
  shown; it reports the whole plan exactly when it succeeds, and never the complaint that a step is out of order.\<close>

theorem restore_reports_its_plan:
  "case performLinuxRestore req S new_world of
     None \<Rightarrow> True
   | Some (r, w) \<Rightarrow>
       prefix (reported (happened w)) linuxRestorePlan \<and> \<not> complained (happened w) \<and>
       (reported (happened w) = linuxRestorePlan \<longleftrightarrow> (\<exists>location. r = Ok location))"
  using restore_steps by (auto split: option.split)

end
