(* ===== verification/Restore_Image.thy ===== *)
theory Restore_Image
  imports Restore_Safety
begin

text \<open>
  What the writing stages of \<open>performLinuxRestore\<close>, \<open>clear_signatures\<close> and \<open>write_partition_table\<close>, leave on the
  disk. The content of a disk is a function of the byte offset; \<open>image_after\<close> applies the writes of a history
  to it. The last part shows that the two stages succeed when the kernel stores what it is given.
\<close>

section \<open>Reading an image\<close>

definition extent :: "(nat \<Rightarrow> u8) \<Rightarrow> nat \<Rightarrow> nat \<Rightarrow> bytes" where
  "extent m a n = map m [a..<a + n]"

definition writes_nothing :: "event \<Rightarrow> bool" where
  "writes_nothing e \<longleftrightarrow> (\<forall>fd a rest r. e \<noteq> Wrote fd a rest r)"

lemma image_unwritten:
  "adds K w w' \<Longrightarrow> (\<And>e. K e \<Longrightarrow> writes_nothing e) \<Longrightarrow> image_after fd (happened w') m = image_after fd (happened w) m"
proof -
  assume "adds K w w'" and K: "\<And>e. K e \<Longrightarrow> writes_nothing e"
  then obtain new where new: "happened w' = new @ happened w" "list_all writes_nothing new"
    unfolding adds_def using list.pred_mono_strong by blast
  have "list_all writes_nothing new \<Longrightarrow> image_after fd (new @ h) m = image_after fd h m" for h
    by (induction new) (auto simp: writes_nothing_def split: event.split)
  with new show ?thesis by simp
qed

lemma quiet_writes_nothing: "quiet e \<Longrightarrow> writes_nothing e"
  by (auto simp: writes_nothing_def)

lemma extent_put: "a + n \<le> b \<or> b + length buf \<le> a \<Longrightarrow> extent (put b buf m) a n = extent m a n"
  by (auto simp: extent_def put_def)

lemma extent_put_same: "extent (put a buf m) a (length buf) = buf"
  by (rule nth_equalityI) (simp_all add: extent_def put_def)

lemma put_outside: "i < a \<or> a + length buf \<le> i \<Longrightarrow> put a buf m i = m i"
  by (auto simp: put_def)

lemma put_zeros: "put a (replicate n 0) m i = (if a \<le> i \<and> i < a + n then 0 else m i)"
  by (auto simp: put_def)

section \<open>The two writing stages\<close>

text \<open>The tables of a request: where each goes and its bytes.\<close>

definition tables_of :: "PartitionTableRequest \<Rightarrow> (nat \<times> bytes) list" where
  "tables_of tr =
     (if req_style tr = Gpt then [(0, buildGptPrimary tr), (unat (gptBackupOffset tr), buildGptBackup tr)]
      else [(0, buildMbr tr)])"

definition put_all :: "(nat \<times> bytes) list \<Rightarrow> (nat \<Rightarrow> u8) \<Rightarrow> nat \<Rightarrow> u8" where
  "put_all ts m = fold (\<lambda>(a, buf). put a buf) ts m"

definition zero_ranges :: "DiskInfo \<Rightarrow> (nat \<times> nat) list" where
  "zero_ranges disk =
     (let c = signatureClearRange (disk_size disk) (sectorSize disk)
      in [(0, unat (clear_bytes c)), (unat (tailOffset c), unat (clear_bytes c))])"

definition zeroed :: "DiskInfo \<Rightarrow> (nat \<Rightarrow> u8) \<Rightarrow> nat \<Rightarrow> u8" where
  "zeroed disk m = put_all (map (\<lambda>(a, n). (a, replicate n 0)) (zero_ranges disk)) m"

lemma clear_signatures_image:
  assumes fd: "device_fd (devices w Restored) = Some fd"
  shows "wp True (clear_signatures disk) S
     (\<lambda>_ w'. devices w' = devices w \<and>
        (\<forall>m. image_after fd (happened w') m = zeroed disk (image_after fd (happened w) m)))
     (\<lambda>_ _. True) w"
proof -
  let ?c = "signatureClearRange (disk_size disk) (sectorSize disk)"
  show ?thesis
    unfolding clear_signatures_def wp_andThen [of _ "reportPlannedStep _"] Let_def
  proof (rule wp_mono [OF report_quiet], goal_cases)
    case (1 _ w1)
    then have d1: "devices w1 = devices w" and i1: "image_after fd (happened w1) m = image_after fd (happened w) m" for m
      using image_unwritten quiet_writes_nothing by blast+
    show ?case
    proof (cases "clear_bytes ?c = 0")
      case True
      then show ?thesis by (simp add: run_simps)
    next
      case False
      note fits = clear_range_fits [OF False]
      have room: "unat (0 :: u64) + unat (clear_bytes ?c) < 18446744073709551616"
        "unat (tailOffset ?c) + unat (clear_bytes ?c) < 18446744073709551616"
        using fits unat_u64_bound [of "disk_size disk"] by simp_all
      have fd1: "device_fd (devices w1 Restored) = Some fd" using fd d1 by simp
      show ?thesis
        using False
        unfolding wp_andThen [of _ "check _ _"] wp_andThen [of _ "writeZeros _ _ _ _"] wp_check
      proof (simp, intro wp_mono [OF writeZeros_wp [OF fd1 room(1) disjI1 [OF TrueI]]], goal_cases)
        case (1 _ w2)
        then have st2: "devices w2 = devices w1" and s2: "stored fd 0 (replicate (unat (clear_bytes ?c)) 0) w1 w2"
          by (auto dest: steadyD)
        have fd2: "device_fd (devices w2 Restored) = Some fd" using fd1 st2 by simp
        show ?case
          by (rule wp_mono [OF writeZeros_wp [OF fd2 room(2) disjI1 [OF TrueI]]])
            (use s2 st2 d1 i1 in \<open>auto dest: steadyD simp: stored_def zeroed_def zero_ranges_def put_all_def Let_def\<close>)
      qed simp
    qed
  qed simp
qed

lemma flush_last:
  "device_fd (devices w x) = Some fd \<Longrightarrow>
   wp t (flush x) S (\<lambda>_ w'. \<exists>r. happened w' = BuffersDropped fd r # Synced fd None # happened w) (\<lambda>_ _. True) w"
  by (simp add: flush_def device_defs run_simps split: option.split)

lemma write_partition_table_image:
  assumes fd: "device_fd (devices w Restored) = Some fd"
    and room: "\<forall>(a, buf) \<in> set (tables_of tr). a + length buf < 18446744073709551616"
  shows "wp True (write_partition_table tr) S
     (\<lambda>_ w'. (\<forall>m. image_after fd (happened w') m = put_all (tables_of tr) (image_after fd (happened w) m)) \<and>
        (\<exists>r rest. happened w' = BuffersDropped fd r # Synced fd None # rest))
     (\<lambda>_ _. True) w"
  unfolding write_partition_table_def wp_andThen [of _ "reportPlannedStep _"]
proof (rule wp_mono [OF report_quiet], goal_cases)
  case (1 _ w1)
  then have d1: "devices w1 = devices w" and i1: "image_after fd (happened w1) m = image_after fd (happened w) m" for m
    using image_unwritten quiet_writes_nothing by blast+
  have fd1: "device_fd (devices w1 Restored) = Some fd" using fd d1 by simp
  have tables: "wp True (if req_style tr = Gpt then
        andThen (writeAt Restored 0 (buildGptPrimary tr)) (\<lambda>_. writeAt Restored (gptBackupOffset tr) (buildGptBackup tr))
      else writeAt Restored 0 (buildMbr tr)) S
      (\<lambda>_ w'. device_fd (devices w' Restored) = Some fd \<and>
         (\<forall>m. image_after fd (happened w') m = put_all (tables_of tr) (image_after fd (happened w) m)))
      (\<lambda>_ _. True) w1"
  proof (cases "req_style tr = Gpt")
    case True
    then have r: "unat (0 :: u64) + length (buildGptPrimary tr) < 18446744073709551616"
      "unat (gptBackupOffset tr) + length (buildGptBackup tr) < 18446744073709551616"
      using room by (simp_all add: tables_of_def)
    show ?thesis
      unfolding if_P [OF True] wp_andThen
    proof (rule wp_mono [OF writeAt_wp [OF fd1 r(1) disjI1 [OF TrueI]]], goal_cases)
      case (1 _ w2)
      then have st: "devices w2 = devices w1" and s2: "stored fd 0 (buildGptPrimary tr) w1 w2" by (auto dest: steadyD)
      have fd2: "device_fd (devices w2 Restored) = Some fd" using fd1 st by simp
      show ?case
        by (rule wp_mono [OF writeAt_wp [OF fd2 r(2) disjI1 [OF TrueI]]])
          (use True s2 fd2 i1 in \<open>auto dest: steadyD simp: stored_def tables_of_def put_all_def\<close>)
    qed simp
  next
    case False
    then have r: "unat (0 :: u64) + length (buildMbr tr) < 18446744073709551616" using room by (simp add: tables_of_def)
    show ?thesis
      unfolding if_not_P [OF False]
      by (rule wp_mono [OF writeAt_wp [OF fd1 r disjI1 [OF TrueI]]])
        (use False fd1 i1 in \<open>auto dest: steadyD simp: stored_def tables_of_def put_all_def\<close>)
  qed
  show ?case
    unfolding wp_andThen [of _ "if _ then _ else _"]
  proof (rule wp_mono [OF tables], goal_cases)
    case (1 _ w2)
    then have fd2: "device_fd (devices w2 Restored) = Some fd" by simp
    show ?case by (rule wp_mono [OF flush_last [OF fd2]]) (use 1 in auto)
  qed simp
qed simp

section \<open>The property\<close>

lemma put_all_outside:
  "\<forall>(a, buf) \<in> set ts. i < a \<or> a + length buf \<le> i \<Longrightarrow> put_all ts m i = m i"
  by (induction ts arbitrary: m) (auto simp: put_all_def put_outside)

lemma zeroed_at:
  "zeroed disk m i = (if \<exists>(a, n) \<in> set (zero_ranges disk). a \<le> i \<and> i < a + n then 0 else m i)"
  by (simp add: zeroed_def zero_ranges_def put_all_def put_zeros Let_def)

lemma request_tables:
  assumes "canCreatePartitionLayout style disk = None" "tr = request_for style fs disk g1 g2 name"
    "isWritablePartitionRequest tr = None"
  shows "\<forall>(a, buf) \<in> set (tables_of tr). a + length buf \<le> unat (disk_size disk)"
    and "req_style tr = Gpt \<Longrightarrow> length (buildGptPrimary tr) \<le> unat (gptBackupOffset tr)"
proof -
  note lay = request_for_layout [OF assms(1,2)]
  have size': "req_diskSize tr = disk_size disk" and sec: "req_sectorSize tr = sectorSize disk"
    by (simp_all add: assms(2) request_for_def)
  have mbr: "length (buildMbr tr) \<le> unat (disk_size disk)"
  proof -
    have "unat (effectiveSectorSize (sectorSize disk)) \<le> 1048576"
      using lay(5) by (auto simp: isSupportedSectorSize_def effectiveSectorSize_def)
    moreover have "layout_start tr \<le> layout_end tr" by (simp add: layout_end_def layout_start_def)
    ultimately show ?thesis using lay(1,2) by (simp add: mbrPartitionType_nth sec)
  qed
  show "\<forall>(a, buf) \<in> set (tables_of tr). a + length buf \<le> unat (disk_size disk)"
    using mbr accepted_gpt_regions [OF assms(3) _ lay(4)] lay(2) size' by (auto simp: tables_of_def)
  show "length (buildGptPrimary tr) \<le> unat (gptBackupOffset tr)" if "req_style tr = Gpt"
    using accepted_gpt_regions [OF assms(3) that lay(4)] by simp
qed

lemma tables_read_back:
  assumes "req_style tr = Gpt \<Longrightarrow> length (buildGptPrimary tr) \<le> unat (gptBackupOffset tr)"
    and "(a, buf) \<in> set (tables_of tr)"
  shows "extent (put_all (tables_of tr) m) a (length buf) = buf"
  using assms by (auto simp: tables_of_def put_all_def extent_put_same extent_put split: if_splits)

text \<open>C10. What the two writing stages leave on the disk: when they succeed, every table of the request reads
  back byte for byte where it belongs, both signature ranges hold zeros wherever no table lies, every other
  byte of the disk is as it was before, and the last thing that happened is a successful sync.\<close>

theorem wiped_and_partitioned:
  assumes "device_fd (devices w Restored) = Some fd" "canCreatePartitionLayout style disk = None"
    "tr = request_for style fs disk g1 g2 name" "isWritablePartitionRequest tr = None"
  shows "case andThen (clear_signatures disk) (\<lambda>_. write_partition_table tr) S w of
     Some (Ok _, w') \<Rightarrow>
       let before = image_after fd (happened w) m; after = image_after fd (happened w') m in
       (\<forall>(a, buf) \<in> set (tables_of tr). extent after a (length buf) = buf) \<and>
       (\<forall>i. (\<forall>(a, buf) \<in> set (tables_of tr). i < a \<or> a + length buf \<le> i) \<longrightarrow>
          after i = (if \<exists>(a, n) \<in> set (zero_ranges disk). a \<le> i \<and> i < a + n then 0 else before i)) \<and>
       (\<exists>r rest. happened w' = BuffersDropped fd r # Synced fd None # rest)
   | _ \<Rightarrow> True"
proof -
  note tabs = request_tables [OF assms(2-4)]
  have room: "\<forall>(a, buf) \<in> set (tables_of tr). a + length buf < 18446744073709551616"
    using tabs(1) unat_u64_bound [of "disk_size disk"] by fastforce
  have "wp True (andThen (clear_signatures disk) (\<lambda>_. write_partition_table tr)) S
      (\<lambda>_ w'. image_after fd (happened w') m = put_all (tables_of tr) (zeroed disk (image_after fd (happened w) m)) \<and>
         (\<exists>r rest. happened w' = BuffersDropped fd r # Synced fd None # rest)) (\<lambda>_ _. True) w"
    unfolding wp_andThen
  proof (rule wp_mono [OF clear_signatures_image [OF assms(1)]], goal_cases)
    case (1 _ w1)
    then have fd1: "device_fd (devices w1 Restored) = Some fd" using assms(1) by simp
    show ?case by (rule wp_mono [OF write_partition_table_image [OF fd1 room]]) (use 1 in auto)
  qed simp
  then show ?thesis
    using tables_read_back [OF tabs(2), where m = "zeroed disk (image_after fd (happened w) m)"]
    by (auto simp: wp_def Let_def put_all_outside zeroed_at split: option.splits outcome.splits)
qed

text \<open>A kernel that does what it is asked: a write stores at least one byte and a sync succeeds.\<close>

definition obliging :: "os \<Rightarrow> bool" where
  "obliging S \<longleftrightarrow> (\<forall>h fd. fsync_answer S h fd = None) \<and>
     (\<forall>h fd a rest. rest \<noteq> [] \<longrightarrow> (case pwrite_answer S h fd a rest of Inl _ \<Rightarrow> False | Inr n \<Rightarrow> 0 < n))"

lemma writeAt_ok:
  assumes "obliging S" "device_fd (devices w x) = Some fd"
  shows "wp False (writeAt x off buf) S (\<lambda>_ w'. devices w' = devices w) (\<lambda>_ _. False) w"
proof -
  have "wp False (writeAt_loop path fd off buf 0) S (\<lambda>_ w'. devices w' = devices w) (\<lambda>_ _. False) w" for path
  proof (rule writeAt_loop_total [where I = "\<lambda>_ (w' :: world). devices w' = devices w" and m = "\<lambda>_ :: world. 0"])
    fix k and w1 :: world and r :: "errno + nat"
    assume same: "devices w1 = devices w" and "k < length buf"
      and r: "r = pwrite_answer S (happened w1) fd (off + of_nat k) (drop k buf)"
    then obtain n where n: "r = Inr n" "0 < n"
      using assms(1) \<open>k < length buf\<close> unfolding obliging_def r by (metis drop_eq_Nil2 linorder_not_le sum.case_eq_if sum.collapse(2))
    show "case r of
         Inl e \<Rightarrow> if e = EINTR then devices (noting (Wrote fd (off + of_nat k) (drop k buf) r) w1) = devices w \<and> (0::nat) < 0
                  else False
       | Inr n \<Rightarrow> if n = 0 then False else devices (noting (Wrote fd (off + of_nat k) (drop k buf) r) w1) = devices w"
      using same n by simp
  qed simp_all
  then show ?thesis by (simp add: writeAt_def device_defs run_simps assms(2))
qed

lemma writeZeros_ok:
  assumes "obliging S" "device_fd (devices w x) = Some fd" "\<not> unalignedZeroRangeError off n s"
  shows "wp False (writeZeros x off n s) S (\<lambda>_ w'. devices w' = devices w) (\<lambda>_ _. False) w"
proof -
  have "wp False (writeZeros_loop x chunk off n) S (\<lambda>_ w'. devices w' = devices w) (\<lambda>_ _. False) w" for chunk
    using assms(2)
  proof (induction x chunk off n arbitrary: w rule: writeZeros_loop.induct)
    case (1 x chunk off n)
    show ?case
    proof (cases "n = 0 \<or> chunk = 0")
      case False
      then show ?thesis
        using 1 by (subst writeZeros_loop.simps)
          (auto simp: Let_def wp_andThen intro!: wp_mono [OF writeAt_ok [OF assms(1)]] wp_mono [OF 1(1)])
    qed (simp add: writeZeros_loop.simps run_simps)
  qed
  then show ?thesis using assms(3) by (simp add: writeZeros_def run_simps)
qed

text \<open>C35. With a kernel that stores what it is given, the two writing stages of an accepted restore succeed.\<close>

theorem writing_stages_succeed:
  assumes "obliging S" "device_fd (devices w Restored) = Some fd" "canCreatePartitionLayout style disk = None"
    "isWritablePartitionRequest (request_for style fs disk g1 g2 name) = None"
  shows "\<exists>w'. andThen (clear_signatures disk)
      (\<lambda>_. write_partition_table (request_for style fs disk g1 g2 name)) S w = Some (Ok (), w')"
proof -
  let ?tr = "request_for style fs disk g1 g2 name" and ?c = "signatureClearRange (disk_size disk) (sectorSize disk)"
  let ?I = "\<lambda>w'. device_fd (devices w' Restored) = Some fd"
  note lay = request_for_layout [OF assms(3) refl]
  have big: "16384 \<le> unat (disk_size disk)" using request_for_layout(3) [OF assms(3) refl, of fs g1 g2 name] by linarith
  note nz = clear_range_nonzero [OF big]
  have aligned: "\<not> unalignedZeroRangeError 0 (clear_bytes ?c) (clear_sectorSize ?c)"
    "\<not> unalignedZeroRangeError (tailOffset ?c) (clear_bytes ?c) (clear_sectorSize ?c)"
    using clear_range_fits(1,2) [OF nz [of "sectorSize disk"]] lay(5)
    by (simp_all add: unalignedZeroRangeError_def clear_range_nat(3) mod_0_dvd_u64 unat_widen)
  have report: "?I w1 \<Longrightarrow> wp False (reportPlannedStep s) S (\<lambda>_. ?I) (\<lambda>_ _. False) w1" for w1 s
    by (rule wp_mono [OF reportPlannedStep_wp]) auto
  have zeros: "?I w1 \<Longrightarrow> \<not> unalignedZeroRangeError off n s \<Longrightarrow> wp False (writeZeros Restored off n s) S (\<lambda>_. ?I) (\<lambda>_ _. False) w1"
    for w1 off n s by (rule wp_mono [OF writeZeros_ok [OF assms(1)]]) auto
  have table: "?I w1 \<Longrightarrow> wp False (writeAt Restored off buf) S (\<lambda>_. ?I) (\<lambda>_ _. False) w1" for w1 off buf
    by (rule wp_mono [OF writeAt_ok [OF assms(1)]]) auto
  have sync: "?I w1 \<Longrightarrow> wp False (flush Restored) S (\<lambda>_ _. True) (\<lambda>_ _. False) w1" for w1
    using assms(1) by (simp add: flush_def device_defs run_simps obliging_def)
  have "wp False (clear_signatures disk) S (\<lambda>_. ?I) (\<lambda>_ _. False) w"
    unfolding clear_signatures_def Let_def wp_andThen wp_check
    using nz by (auto intro!: wp_mono [OF report] wp_mono [OF zeros] zeros aligned assms(2))
  moreover have "wp False (write_partition_table ?tr) S (\<lambda>_ _. True) (\<lambda>_ _. False) w1" if "?I w1" for w1
    unfolding write_partition_table_def wp_andThen [of _ "reportPlannedStep _"] wp_andThen [of _ "if _ then _ else _"]
    by (auto simp: wp_andThen intro!: wp_mono [OF report [OF that]] wp_mono [OF table] table wp_mono [OF sync] sync)
  ultimately have "wp False (andThen (clear_signatures disk) (\<lambda>_. write_partition_table ?tr)) S (\<lambda>_ _. True) (\<lambda>_ _. False) w"
    unfolding wp_andThen by (rule wp_mono) simp_all
  then show ?thesis by (auto simp: wp_def split: option.splits outcome.splits)
qed

text \<open>A concrete machine and a world in which the disk is held, for the instances.\<close>

definition obliging_machine :: os where
  "obliging_machine =
     broken_machine\<lparr>pwrite_answer := (\<lambda>_ _ _ rest. Inr (length rest)), fsync_answer := (\<lambda>_ _. None)\<rparr>"

definition stick_held :: world where
  "stick_held = new_world\<lparr>devices := (\<lambda>_. \<lparr>devicePath = deviceId usb_stick, device_fd = Some 3\<rparr>)\<rparr>"

lemma stick_held_fd: "device_fd (devices stick_held Restored) = Some 3"
  by (simp add: stick_held_def)

lemma obliging_machine_obliges: "obliging obliging_machine"
  by (simp add: obliging_def obliging_machine_def broken_machine_def)

theorem writing_stages_succeed_witness:
  "\<exists>w'. andThen (clear_signatures usb_stick) (\<lambda>_. write_partition_table (sample_request Gpt)) obliging_machine stick_held =
     Some (Ok (), w')"
  using writing_stages_succeed [OF obliging_machine_obliges stick_held_fd sample_gate [of Gpt]]
    sample_gpt(1) by (simp add: sample_request_def)

theorem wiped_and_partitioned_witness:
  "case andThen (clear_signatures usb_stick) (\<lambda>_. write_partition_table (sample_request Gpt)) obliging_machine stick_held of
     Some (Ok _, w') \<Rightarrow> extent (image_after 3 (happened w') (\<lambda>_. 0xAA)) 0 (length (buildGptPrimary (sample_request Gpt))) =
       buildGptPrimary (sample_request Gpt)
   | _ \<Rightarrow> True"
  using wiped_and_partitioned [OF stick_held_fd sample_gate [OF disjI2 [OF refl]] sample_request_def sample_gpt(1),
      where S = obliging_machine and m = "\<lambda>_. 0xAA"]
  by (auto simp: tables_of_def sample_gpt(2) Let_def split: option.splits outcome.splits)

end
