(* ===== verification/Helper_Client.thy ===== *)
theory Helper_Client
  imports Restore_Protocol
begin

text \<open>
  The window's end of a helper run, \<open>src/linux/helper_client.cpp\<close>: reading the helper's output line by line,
  asking it to stop, and judging the run. \<open>HelperClient\<close> holds the local variables of \<open>runHelperRestore\<close> that
  its lambdas capture; the process is what each round of the loop read from it, its exit and its standard
  error. The calls of the reporter and the writes to the process are \<open>client_effect\<close>s in order.
\<close>

section \<open>Bytes from the helper\<close>

definition MaxBufferedBytes :: nat where
  "MaxBufferedBytes = 64 * 1024"

fun newline_at :: "bytes \<Rightarrow> nat option" where
  "newline_at [] = None"
| "newline_at (b # rest) = (if b = 10 then Some 0 else map_option Suc (newline_at rest))"

lemma newline_at_less: "newline_at b = Some i \<Longrightarrow> i < length b"
  by (induction b arbitrary: i) (auto split: if_splits)

text \<open>\<open>QString::fromLocal8Bit\<close> and its inverse are the codec of the locale; \<open>has_details\<close> tells whether the
  catalog has the "Details" wording, as in \<open>Restore_Protocol\<close>.\<close>

record client_env =
  from_local :: "bytes \<Rightarrow> qstring"
  has_details :: bool
  app_version :: qstring
  ui_wording :: wording
  client_style :: PartitionStyle
  client_fileSystem :: FileSystemType

text \<open>The loop of \<open>takeCompleteLines\<close>: the lines as bytes and what stays in the buffer.\<close>

function complete_lines :: "bytes \<Rightarrow> bytes list \<times> bytes" where
  "complete_lines buffer =
     (case newline_at buffer of
        None \<Rightarrow> ([], buffer)
      | Some newline \<Rightarrow>
          let (lines, rest) = complete_lines (drop (newline + 1) buffer)
          in (take newline buffer # lines, rest))"
  by pat_completeness auto

termination
  by (relation "measure length") (auto dest: newline_at_less)

declare complete_lines.simps [simp del]

definition takeCompleteLines :: "client_env \<Rightarrow> bytes \<Rightarrow> qstring list \<times> bytes" where
  "takeCompleteLines env buffer =
     (let (lines, rest) = complete_lines buffer;
          texts = map (\<lambda>l. trimmed (from_local env l)) lines
      in if MaxBufferedBytes < length rest then (texts @ [from_local env rest], []) else (texts, rest))"

section \<open>What a run of the helper leaves in the window\<close>

record HelperClient =
  client_buffer :: bytes
  client_location :: qstring
  displayFailure :: qstring
  sawVersion :: bool
  versionAccepted :: bool
  versionError :: HelperText
  displayVersionError :: HelperText
  cancelTokenWritten :: bool
  killRequested :: bool

definition new_client :: HelperClient where
  "new_client = \<lparr>client_buffer = [], client_location = [], displayFailure = [], sawVersion = False,
     versionAccepted = False, versionError = NoText, displayVersionError = NoText, cancelTokenWritten = False,
     killRequested = False\<rparr>"

text \<open>What the loop does to the outside: calls of the reporter, the token on the helper's input, the kill.\<close>

datatype client_effect =
    ShowStep RestoreMessage
  | LogDetail qstring
  | WriteCancelToken
  | KillProcess

text \<open>\<open>acceptAnnouncement\<close>: the two texts of a refusal, or \<open>None\<close>.\<close>

definition acceptAnnouncement :: "client_env \<Rightarrow> ProtocolLine \<Rightarrow> (HelperText \<times> HelperText) option" where
  "acceptAnnouncement env line =
     (let judge = acceptHelperAnnouncement (has_details env) line (app_version env) linuxRestorePlan
      in case judge EnglishText of
           None \<Rightarrow> None
         | Some e \<Rightarrow> Some (e, case judge DisplayText of Some d \<Rightarrow> d | None \<Rightarrow> NoText))"

definition askHelperToStop :: "HelperClient \<Rightarrow> HelperClient \<times> client_effect list" where
  "askHelperToStop c =
     (if cancelTokenWritten c then (c, []) else (c\<lparr>cancelTokenWritten := True\<rparr>, [WriteCancelToken]))"

definition consume_version :: "client_env \<Rightarrow> ProtocolLine \<Rightarrow> HelperClient \<Rightarrow> HelperClient \<times> client_effect list" where
  "consume_version env parsed c =
     (let c1 = (if sawVersion c then c\<lparr>versionAccepted := False\<rparr>
                else case acceptAnnouncement env parsed of
                  None \<Rightarrow> c\<lparr>versionAccepted := True\<rparr>
                | Some (e, d) \<Rightarrow> c\<lparr>versionAccepted := False, versionError := e, displayVersionError := d\<rparr>);
          c2 = c1\<lparr>sawVersion := True\<rparr>
      in if versionAccepted c2 then (c2, []) else askHelperToStop c2)"

definition consume_step :: "client_env \<Rightarrow> ProtocolLine \<Rightarrow> HelperClient \<Rightarrow> RestoreMessage" where
  "consume_step env parsed c =
     (let message = plain_message (line_text parsed);
          plan = linuxRestorePlan
      in if versionAccepted c \<and> line_totalSteps parsed = int (length plan) \<and> 1 \<le> line_step parsed \<and>
            line_step parsed \<le> int (length plan)
         then Message (english message)
           (display (restoreStepMessage (ui_wording env) (plan ! nat (line_step parsed - 1)) (client_style env)
             (client_fileSystem env))) (origin message)
         else message)"

definition consume_line :: "client_env \<Rightarrow> qstring \<Rightarrow> HelperClient \<Rightarrow> HelperClient \<times> client_effect list" where
  "consume_line env line c =
     (if line = [] then (c, [])
      else
        let parsed = parseProtocolLine line
        in case line_kind parsed of
             VersionLine \<Rightarrow> consume_version env parsed c
           | StepLine \<Rightarrow> (c, [ShowStep (consume_step env parsed c)])
           | DetailLine \<Rightarrow> (c, [LogDetail (line_text parsed)])
           | FailureLine \<Rightarrow>
               (if versionAccepted c \<and> displayFailure c = [] \<and> line_text parsed \<noteq> []
                then c\<lparr>displayFailure := line_text parsed\<rparr> else c, [])
           | ResultLine \<Rightarrow> (c\<lparr>client_location := line_text parsed\<rparr>, [])
           | UnknownLine \<Rightarrow> (c, [LogDetail (qs ''helper: '' @ line)]))"

primrec consume :: "client_env \<Rightarrow> qstring list \<Rightarrow> HelperClient \<Rightarrow> HelperClient \<times> client_effect list" where
  "consume env [] c = (c, [])"
| "consume env (line # lines) c =
     (let (c', es) = consume_line env line c; (c'', es') = consume env lines c' in (c'', es @ es'))"

definition read_output :: "client_env \<Rightarrow> bytes \<Rightarrow> HelperClient \<Rightarrow> HelperClient \<times> client_effect list" where
  "read_output env output c =
     (let (lines, rest) = takeCompleteLines env (client_buffer c @ output)
      in consume env lines (c\<lparr>client_buffer := rest\<rparr>))"

text \<open>One round of the loop: what the process had written, and whether the reporter asks to cancel.\<close>

definition poll_round :: "client_env \<Rightarrow> bytes \<times> bool \<Rightarrow> HelperClient \<Rightarrow> HelperClient \<times> client_effect list" where
  "poll_round env round' c =
     (let (output, cancel) = round';
          (c1, es) = read_output env output c
      in if cancel \<and> \<not> cancelTokenWritten c1 then
           if sawVersion c1 then let (c2, es') = askHelperToStop c1 in (c2, es @ es')
           else if \<not> killRequested c1 then (c1\<lparr>killRequested := True\<rparr>, es @ [KillProcess])
           else (c1, es)
         else (c1, es))"

primrec poll_rounds :: "client_env \<Rightarrow> (bytes \<times> bool) list \<Rightarrow> HelperClient \<Rightarrow> HelperClient \<times> client_effect list" where
  "poll_rounds env [] c = (c, [])"
| "poll_rounds env (r # rs) c =
     (let (c', es) = poll_round env r c; (c'', es') = poll_rounds env rs c' in (c'', es @ es'))"

definition read_rest :: "client_env \<Rightarrow> bytes \<Rightarrow> HelperClient \<Rightarrow> HelperClient \<times> client_effect list" where
  "read_rest env output c =
     (let (c1, es) = read_output env output c
      in if client_buffer c1 = [] then (c1, es)
         else let (c2, es') = consume env [trimmed (from_local env (client_buffer c1))] c1 in (c2, es @ es'))"

section \<open>\<open>runHelperRestore\<close>\<close>

datatype HelperRefusal =
    HelperNotFound
  | HelperProbeFailed
  | HelperMismatch HelperText HelperText
  | PkexecNotFound
  | PkexecNotStarted
  | RunFailed HelperText HelperText

text \<open>
  One run as the window sees it. \<open>helper_there\<close> is the answer of the file system about the helper,
  \<open>probe_output\<close> what the version probe printed when it started and finished in time, \<open>poll_reads\<close> what
  each round of the loop read and was told by the reporter until the process ended.
\<close>

record helper_run =
  helper_there :: bool
  pkexec_path :: qstring
  probe_output :: "bytes option"
  pkexec_started :: bool
  poll_reads :: "(bytes \<times> bool) list"
  last_read :: bytes
  helper_crashed :: bool
  helper_exitCode :: int
  stderr_read :: bytes

datatype helper_outcome = RestoredAt qstring | RunCancelled | Refused HelperRefusal

definition observation :: "client_env \<Rightarrow> helper_run \<Rightarrow> HelperClient \<Rightarrow> HelperRunObservation" where
  "observation env run c =
     \<lparr>run_crashed = helper_crashed run, run_exitCode = helper_exitCode run, run_sawVersion = sawVersion c,
      run_versionAccepted = versionAccepted c, run_versionError = versionError c,
      run_killRequested = killRequested c, run_location = client_location c,
      run_helperStderr = trimmed (from_local env (stderr_read run)), run_displayFailure = displayFailure c\<rparr>"

definition conclude :: "client_env \<Rightarrow> helper_run \<Rightarrow> HelperClient \<Rightarrow> helper_outcome" where
  "conclude env run c =
     (let obs = observation env run c;
          (verdict, text) = judgeHelperRun (has_details env) obs EnglishText
      in case verdict of
           Cancelled \<Rightarrow> RunCancelled
         | Failed \<Rightarrow>
             Refused (RunFailed (case text of Some t \<Rightarrow> t | None \<Rightarrow> NoText)
               (case snd (judgeHelperRun (has_details env) (obs\<lparr>run_versionError := displayVersionError c\<rparr>) DisplayText)
                of Some t \<Rightarrow> t | None \<Rightarrow> NoText))
         | Succeeded \<Rightarrow> RestoredAt (client_location c))"

definition helperSpeaksOurProtocol :: "client_env \<Rightarrow> helper_run \<Rightarrow> HelperRefusal option" where
  "helperSpeaksOurProtocol env run =
     (case probe_output run of
        None \<Rightarrow> Some HelperProbeFailed
      | Some output \<Rightarrow>
          (case acceptAnnouncement env (parseProtocolLine (trimmed (from_local env output))) of
             None \<Rightarrow> None
           | Some (e, d) \<Rightarrow> Some (HelperMismatch e d)))"

definition runHelperRestore :: "client_env \<Rightarrow> helper_run \<Rightarrow> helper_outcome \<times> client_effect list" where
  "runHelperRestore env run =
     (if \<not> helper_there run then (Refused HelperNotFound, [])
      else if pkexec_path run = [] then (Refused PkexecNotFound, [])
      else case helperSpeaksOurProtocol env run of
        Some refusal \<Rightarrow> (Refused refusal, [])
      | None \<Rightarrow>
          if \<not> pkexec_started run then (Refused PkexecNotStarted, [])
          else
            let (c, es) = poll_rounds env (poll_reads run) new_client;
                (c', es') = read_rest env (last_read run) c
            in (conclude env run c', es @ es'))"

section \<open>Lines do not depend on how the bytes arrive\<close>

lemma split_keep_not_Nil [simp]: "split_keep c xs \<noteq> []"
  by (cases xs) (auto split: list.split)

lemma newline_at_None: "newline_at b = None \<longleftrightarrow> 10 \<notin> set b"
  by (induction b) auto

lemma newline_at_Some: "newline_at b = Some i \<Longrightarrow> i < length b \<and> b ! i = 10 \<and> 10 \<notin> set (take i b)"
  by (induction b arbitrary: i) (auto split: if_splits)

lemma complete_lines_split: "complete_lines b = (butlast (split_keep 10 b), last (split_keep 10 b))"
proof (induction b rule: complete_lines.induct)
  case (1 b)
  show ?case
  proof (cases "newline_at b")
    case None
    then have "10 \<notin> set b" by (simp add: newline_at_None)
    then show ?thesis using None by (simp add: complete_lines.simps split_keep_solid)
  next
    case (Some i)
    note i = newline_at_Some [OF Some]
    then have b: "b = take i b @ 10 # drop (Suc i) b" using id_take_nth_drop [of i b] by simp
    have "split_keep 10 b = take i b # split_keep 10 (drop (Suc i) b)"
      using split_keep_append [of 10 "take i b" "drop (Suc i) b"] i b by simp
    then show ?thesis using 1 [OF Some] Some by (simp add: complete_lines.simps)
  qed
qed

lemma split_keep_join:
  "split_keep c (xs @ ys) = butlast (split_keep c xs) @ split_keep c (last (split_keep c xs) @ ys)"
proof (induction xs)
  case (Cons x xs)
  obtain p ps where p: "split_keep c xs = p # ps" by (cases "split_keep c xs") simp_all
  have nosep: "x \<noteq> c \<Longrightarrow> split_keep c (x # zs) = (x # hd (split_keep c zs)) # tl (split_keep c zs)" for zs
    by (cases "split_keep c zs") simp_all
  show ?case
  proof (cases "x = c")
    case True
    then show ?thesis using Cons by simp
  next
    case False
    then show ?thesis
      using Cons nosep [OF False, of "xs @ ys"] nosep [OF False, of "p @ ys"] p by (cases ps) auto
  qed
qed simp

text \<open>The fields and effects that reading determines; the token and the kill are left out.\<close>

definition reading_of :: "HelperClient \<Rightarrow> qstring \<times> qstring \<times> bool \<times> bool \<times> HelperText \<times> HelperText" where
  "reading_of c = (client_location c, displayFailure c, sawVersion c, versionAccepted c, versionError c,
     displayVersionError c)"

definition shown :: "client_effect list \<Rightarrow> client_effect list" where
  "shown es = filter (\<lambda>e. e \<noteq> WriteCancelToken \<and> e \<noteq> KillProcess) es"

lemma shown_append [simp]: "shown (a @ b) = shown a @ shown b" and shown_Nil [simp]: "shown [] = []"
  by (simp_all add: shown_def)

lemma consume_append:
  "consume env (a @ b) c = (let (c', es) = consume env a c; (c'', es') = consume env b c' in (c'', es @ es'))"
  by (induction a arbitrary: c) (auto simp: split_beta Let_def)

lemma askHelperToStop_reading:
  "reading_of (fst (askHelperToStop c)) = reading_of c" "shown (snd (askHelperToStop c)) = []"
  "client_buffer (fst (askHelperToStop c)) = client_buffer c"
  by (simp_all add: askHelperToStop_def reading_of_def shown_def)

lemma reading_fields:
  "reading_of c = reading_of d \<longleftrightarrow> client_location c = client_location d \<and> displayFailure c = displayFailure d \<and>
     sawVersion c = sawVersion d \<and> versionAccepted c = versionAccepted d \<and> versionError c = versionError d \<and>
     displayVersionError c = displayVersionError d"
  by (simp add: reading_of_def)

lemma consume_version_reading:
  assumes "reading_of c = reading_of d"
  shows "reading_of (fst (consume_version env l c)) = reading_of (fst (consume_version env l d)) \<and>
    shown (snd (consume_version env l c)) = [] \<and> client_buffer (fst (consume_version env l c)) = client_buffer c"
  using assms
  by (cases "acceptAnnouncement env l"; cases "sawVersion d")
    (auto simp: consume_version_def askHelperToStop_def reading_fields shown_def Let_def)

lemma consume_step_reading: "reading_of c = reading_of d \<Longrightarrow> consume_step env p c = consume_step env p d"
  by (simp add: consume_step_def reading_fields)

lemma consume_line_kinds:
  assumes "l \<noteq> []"
  defines "p \<equiv> parseProtocolLine l"
  shows "line_kind p = VersionLine \<Longrightarrow> consume_line env l c = consume_version env p c"
    and "line_kind p = StepLine \<Longrightarrow> consume_line env l c = (c, [ShowStep (consume_step env p c)])"
    and "line_kind p = DetailLine \<Longrightarrow> consume_line env l c = (c, [LogDetail (line_text p)])"
    and "line_kind p = FailureLine \<Longrightarrow> consume_line env l c =
      (if versionAccepted c \<and> displayFailure c = [] \<and> line_text p \<noteq> [] then c\<lparr>displayFailure := line_text p\<rparr> else c, [])"
    and "line_kind p = ResultLine \<Longrightarrow> consume_line env l c = (c\<lparr>client_location := line_text p\<rparr>, [])"
    and "line_kind p = UnknownLine \<Longrightarrow> consume_line env l c = (c, [LogDetail (qs ''helper: '' @ l)])"
  using assms by (simp_all add: consume_line_def Let_def)

lemma consume_line_reading:
  assumes "reading_of c = reading_of d"
  shows "reading_of (fst (consume_line env l c)) = reading_of (fst (consume_line env l d)) \<and>
    shown (snd (consume_line env l c)) = shown (snd (consume_line env l d)) \<and>
    client_buffer (fst (consume_line env l c)) = client_buffer c"
proof (cases "l = []")
  case False
  note kinds = consume_line_kinds [OF False, of env]
  show ?thesis
  proof (cases "line_kind (parseProtocolLine l)")
    case VersionLine
    then show ?thesis
      using consume_version_reading [OF assms, of env "parseProtocolLine l"]
        consume_version_reading [OF assms [symmetric], of env "parseProtocolLine l"]
      by (simp add: kinds(1))
  qed (use assms consume_step_reading [OF assms] in \<open>simp_all add: kinds(2-) reading_fields\<close>)
qed (use assms in \<open>simp add: consume_line_def\<close>)

lemma consume_reading:
  assumes "reading_of c = reading_of d"
  shows "reading_of (fst (consume env ls c)) = reading_of (fst (consume env ls d)) \<and>
    shown (snd (consume env ls c)) = shown (snd (consume env ls d)) \<and>
    client_buffer (fst (consume env ls c)) = client_buffer c"
  using assms
proof (induction ls arbitrary: c d)
  case (Cons l ls)
  show ?case
    using consume_line_reading [OF Cons.prems, of env l] Cons.IH [OF conjunct1 [OF consume_line_reading [OF Cons.prems, of env l]]]
    by (simp add: split_beta Let_def)
qed simp

definition lines_of :: "client_env \<Rightarrow> bytes list \<Rightarrow> qstring list" where
  "lines_of env ls = map (\<lambda>l. trimmed (from_local env l)) ls"

lemma lines_of_append: "lines_of env (a @ b) = lines_of env a @ lines_of env b"
  by (simp add: lines_of_def)

definition short_lines :: "bytes \<Rightarrow> bool" where
  "short_lines output \<longleftrightarrow> (\<forall>l \<in> set (split_keep 10 output). length l \<le> MaxBufferedBytes)"

lemma last_piece: "c \<notin> set (last (split_keep c xs))"
proof (induction xs)
  case (Cons x xs)
  then show ?case by (cases "split_keep c xs") auto
qed simp

lemma hd_piece: "c \<notin> set p \<Longrightarrow> split_keep c (p @ ys) = (p @ hd (split_keep c ys)) # tl (split_keep c ys)"
  by (induction p) (auto split: list.split)

lemma short_lines_prefix:
  assumes "short_lines (a @ b)"
  shows "short_lines a" "short_lines (last (split_keep 10 a) @ b)"
proof -
  have pieces: "set (split_keep 10 (a @ b)) = set (butlast (split_keep 10 a)) \<union> set (split_keep 10 (last (split_keep 10 a) @ b))"
    by (simp add: split_keep_join [of 10 a b])
  then show "short_lines (last (split_keep 10 a) @ b)" using assms by (simp add: short_lines_def)
  have "length (last (split_keep 10 a)) \<le> MaxBufferedBytes"
    using \<open>short_lines (last (split_keep 10 a) @ b)\<close> hd_piece [OF last_piece, of 10 a b] by (simp add: short_lines_def)
  moreover have "set (split_keep 10 a) = insert (last (split_keep 10 a)) (set (butlast (split_keep 10 a)))"
    by (metis append_butlast_last_id list.set(2) rotate1.simps(2) set_rotate1 split_keep_not_Nil)
  ultimately show "short_lines a" using assms pieces by (simp add: short_lines_def)
qed

lemma read_output_reading:
  assumes "short_lines (client_buffer c @ output)" "reading_of c = reading_of d"
  shows "let ps = split_keep 10 (client_buffer c @ output);
      (c', es) = read_output env output c; (d', ds) = consume env (lines_of env (butlast ps)) d
    in reading_of c' = reading_of d' \<and> shown es = shown ds \<and> client_buffer c' = last ps"
proof -
  let ?ps = "split_keep 10 (client_buffer c @ output)"
  have "length (last ?ps) \<le> MaxBufferedBytes" using assms(1) by (simp add: short_lines_def)
  then have lines: "takeCompleteLines env (client_buffer c @ output) = (lines_of env (butlast ?ps), last ?ps)"
    by (simp add: takeCompleteLines_def complete_lines_split lines_of_def)
  have "reading_of (c\<lparr>client_buffer := last ?ps\<rparr>) = reading_of d" using assms(2) by (simp add: reading_of_def)
  from consume_reading [OF this, of env "lines_of env (butlast ?ps)"] show ?thesis
    by (simp add: read_output_def lines split_beta Let_def)
qed

lemma poll_round_reading:
  assumes "short_lines (client_buffer c @ fst r)" "reading_of c = reading_of d"
  shows "let ps = split_keep 10 (client_buffer c @ fst r);
      (c', es) = poll_round env r c; (d', ds) = consume env (lines_of env (butlast ps)) d
    in reading_of c' = reading_of d' \<and> shown es = shown ds \<and> client_buffer c' = last ps"
proof -
  obtain out cancel where r: "r = (out, cancel)" by (cases r)
  obtain c1 es where c1: "read_output env out c = (c1, es)" by (cases "read_output env out c")
  have "reading_of (fst (poll_round env r c)) = reading_of c1 \<and> shown (snd (poll_round env r c)) = shown es \<and>
      client_buffer (fst (poll_round env r c)) = client_buffer c1"
    by (simp add: poll_round_def r c1 Let_def askHelperToStop_def reading_of_def shown_def)
  then show ?thesis
    using read_output_reading [of c out d env] assms by (simp add: r c1 split_beta Let_def)
qed

lemma poll_rounds_reading:
  assumes "short_lines (client_buffer c @ concat (map fst rs))" "reading_of c = reading_of d" "10 \<notin> set (client_buffer c)"
  shows "let ps = split_keep 10 (client_buffer c @ concat (map fst rs));
      (c', es) = poll_rounds env rs c; (d', ds) = consume env (lines_of env (butlast ps)) d
    in reading_of c' = reading_of d' \<and> shown es = shown ds \<and> client_buffer c' = last ps"
  using assms
proof (induction rs arbitrary: c d)
  case Nil
  then show ?case by (simp add: split_keep_solid lines_of_def)
next
  case (Cons r rs)
  let ?a = "client_buffer c @ fst r" and ?b = "concat (map fst rs)"
  let ?ps = "split_keep 10 ?a"
  have whole: "short_lines (?a @ ?b)" using Cons.prems(1) by simp
  obtain c1 es where c1: "poll_round env r c = (c1, es)" by (cases "poll_round env r c")
  obtain d1 ds where d1: "consume env (lines_of env (butlast ?ps)) d = (d1, ds)"
    by (cases "consume env (lines_of env (butlast ?ps)) d")
  have one: "reading_of c1 = reading_of d1" "shown es = shown ds" "client_buffer c1 = last ?ps"
    using poll_round_reading [OF short_lines_prefix(1) [OF whole] Cons.prems(2), of env] by (simp_all add: c1 d1 Let_def)
  have "short_lines (client_buffer c1 @ ?b)" "10 \<notin> set (client_buffer c1)"
    using short_lines_prefix(2) [OF whole] last_piece [of 10 ?a] by (simp_all add: one(3))
  from Cons.IH [OF this(1) one(1) this(2)]
  have "let qs = split_keep 10 (last ?ps @ ?b); (c', es') = poll_rounds env rs c1;
      (d', ds') = consume env (lines_of env (butlast qs)) d1
    in reading_of c' = reading_of d' \<and> shown es' = shown ds' \<and> client_buffer c' = last qs"
    by (simp add: one(3))
  moreover have "split_keep 10 (client_buffer c @ concat (map fst (r # rs))) = butlast ?ps @ split_keep 10 (last ?ps @ ?b)"
    using split_keep_join [of 10 ?a ?b] by simp
  ultimately show ?case
    using one by (simp add: c1 d1 consume_append lines_of_append butlast_append split_beta Let_def)
qed

definition stream_lines :: "client_env \<Rightarrow> bytes \<Rightarrow> qstring list" where
  "stream_lines env stream =
     (let ps = split_keep 10 stream
      in lines_of env (butlast ps) @ (if last ps = [] then [] else lines_of env [last ps]))"

lemma read_everything:
  assumes short: "short_lines (concat (map fst rounds) @ final)"
  shows "let (c, es) = poll_rounds env rounds new_client; (c', es') = read_rest env final c;
      (d, ds) = consume env (stream_lines env (concat (map fst rounds) @ final)) new_client
    in reading_of c' = reading_of d \<and> shown (es @ es') = shown ds"
proof -
  let ?a = "concat (map fst rounds)"
  let ?ps = "split_keep 10 ?a" and ?qs = "split_keep 10 (last (split_keep 10 ?a) @ final)"
  obtain c es where c: "poll_rounds env rounds new_client = (c, es)" by (cases "poll_rounds env rounds new_client")
  obtain d ds where d: "consume env (lines_of env (butlast ?ps)) new_client = (d, ds)"
    by (cases "consume env (lines_of env (butlast ?ps)) new_client")
  have buf: "client_buffer new_client = []" by (simp add: new_client_def)
  have one: "reading_of c = reading_of d" "shown es = shown ds" "client_buffer c = last ?ps"
    using poll_rounds_reading [of new_client rounds new_client env] short_lines_prefix(1) [OF short]
    by (simp_all add: buf c d Let_def)
  obtain c1 es1 where c1: "read_output env final c = (c1, es1)" by (cases "read_output env final c")
  obtain d1 ds1 where d1: "consume env (lines_of env (butlast ?qs)) d = (d1, ds1)"
    by (cases "consume env (lines_of env (butlast ?qs)) d")
  have two: "reading_of c1 = reading_of d1" "shown es1 = shown ds1" "client_buffer c1 = last ?qs"
    using read_output_reading [of c final d env] short_lines_prefix(2) [OF short] one(1)
    by (simp_all add: one(3) c1 d1 Let_def)
  have whole: "split_keep 10 (?a @ final) = butlast ?ps @ ?qs" by (rule split_keep_join)
  show ?thesis
    using one(2) two consume_reading [OF two(1), of env "lines_of env [last ?qs]"]
    by (auto simp: c c1 d d1 read_rest_def stream_lines_def whole consume_append lines_of_append butlast_append
        lines_of_def [of _ "[x]" for x] split_beta Let_def)
qed

text \<open>Without a cancel request the process is not killed, and the outcome depends on the stream alone.\<close>

lemma uncancelled_reading:
  "\<forall>r \<in> set rs. \<not> snd r \<Longrightarrow> killRequested (fst (poll_rounds env rs c)) = killRequested c"
  "killRequested (fst (read_rest env final c)) = killRequested c"
proof -
  have lines: "killRequested (fst (consume env ls c)) = killRequested c" for ls c
  proof (induction ls arbitrary: c)
    case (Cons l ls)
    have "killRequested (fst (consume_line env l c)) = killRequested c"
      by (cases "l = []"; cases "line_kind (parseProtocolLine l)")
        (simp_all add: consume_line_kinds, simp_all add: consume_line_def consume_version_def askHelperToStop_def Let_def
          split: option.split)
    then show ?case using Cons by (simp add: split_beta Let_def)
  qed simp
  then have out: "killRequested (fst (read_output env b c)) = killRequested c" for b c
    by (simp add: read_output_def split_beta Let_def)
  show "killRequested (fst (read_rest env final c)) = killRequested c"
    using lines out [of final c] by (simp add: read_rest_def split_beta Let_def del: consume.simps)
  show "\<forall>r \<in> set rs. \<not> snd r \<Longrightarrow> killRequested (fst (poll_rounds env rs c)) = killRequested c"
    using out by (induction rs arbitrary: c) (simp_all add: poll_round_def split_beta Let_def)
qed

text \<open>C36. The window reads a helper the same however its bytes arrive: for any split of the output into reads
  and any cancel requests in between, what it has read, the location, the failure text, the version verdict
  and every call of the reporter are those of the whole stream read line by line.\<close>

theorem window_reads_any_chunking:
  assumes "\<forall>l \<in> set (split_keep 10 (concat (map fst rounds) @ final)). length l \<le> 65536"
  shows "let (c, es) = poll_rounds env rounds new_client; (c', es') = read_rest env final c;
      (d, ds) = consume env (stream_lines env (concat (map fst rounds) @ final)) new_client
    in reading_of c' = reading_of d \<and> shown (es @ es') = shown ds"
  by (rule read_everything) (use assms in \<open>simp add: short_lines_def MaxBufferedBytes_def\<close>)

definition latin1_window :: client_env where
  "latin1_window = \<lparr>from_local = from_latin1, has_details = True, app_version = qs ''1.0'',
     ui_wording = \<lparr>translate = (\<lambda>_. qs), fill = (\<lambda>t _. t)\<rparr>, client_style = Gpt, client_fileSystem = ExFat\<rparr>"

theorem window_reads_any_chunking_witness:
  "client_location (fst (read_rest latin1_window (bs ''sdb1'')
     (fst (poll_rounds latin1_window [(bs ''resu'', False), (bs ''lt /dev/'', True)] new_client)))) = qs ''/dev/sdb1''"
proof -
  have "client_location (fst (consume latin1_window (stream_lines latin1_window (bs ''result /dev/sdb1'')) new_client)) =
      qs ''/dev/sdb1''"
    by code_simp
  then show ?thesis
    using window_reads_any_chunking [of "[(bs ''resu'', False), (bs ''lt /dev/'', True)]" "bs ''sdb1''" latin1_window]
    by (simp add: split_beta Let_def reading_of_def bs_def)
qed

end
