(* ===== verification/Helper_Process.thy ===== *)
theory Helper_Process
  imports Restore_Protocol Restore_Order
begin

text \<open>
  The privileged helper, \<open>src/helper/main.cpp\<close>, with the catalog probe of \<open>src/platform/translations.cpp\<close>:
  its checks before a restore, its \<open>RestoreReporter\<close>, and how it reports the end. The lines it writes are
  computed from the events of the restore, oldest first, by the reporter's own operations; the restore in
  turn asks this reporter whether to stop.
\<close>

section \<open>The catalog of the interface language\<close>

text \<open>
  \<open>Translations\<close> of \<open>src/platform/translations.cpp\<close>. What Qt answers about the two catalogs of a language is
  \<open>catalogs\<close>: whether the files load and whether the translators install.
\<close>

record catalogs =
  application_loads :: bool
  qt_loads :: bool
  translators_install :: bool

record Translations =
  current_language :: Language
  translators_installed :: bool

definition unloaded :: Translations where
  "unloaded = \<lparr>current_language = English, translators_installed = False\<rparr>"

definition load_translations :: "catalogs \<Rightarrow> Language \<Rightarrow> bool \<times> Translations" where
  "load_translations cat resolved =
     (if resolved = English then (True, unloaded)
      else if \<not> application_loads cat \<or> \<not> qt_loads cat then (False, unloaded)
      else if \<not> translators_install cat then (False, unloaded)
      else (True, \<lparr>current_language = resolved, translators_installed = True\<rparr>))"

definition activateInterfaceLanguage :: "catalogs \<Rightarrow> Language \<Rightarrow> bool \<times> Translations" where
  "activateInterfaceLanguage cat resolved =
     (let (ok, t) = load_translations cat resolved
      in if ok then (True, t) else (False, snd (load_translations cat English)))"

datatype CatalogProbe = NotRequested | Usage | MissingCatalog | Ready qstring

definition ShowTranslationFlag :: qstring where
  "ShowTranslationFlag = qs ''--show-translation''"

text \<open>\<open>title\<close> is the translation of the title in the language that is active.\<close>

definition catalogProbe :: "catalogs \<Rightarrow> (Language \<Rightarrow> qstring) \<Rightarrow> qstring list \<Rightarrow> CatalogProbe" where
  "catalogProbe cat title arguments =
     (if arguments = [] \<or> hd arguments \<noteq> ShowTranslationFlag then NotRequested
      else if length arguments \<noteq> 2 then Usage
      else
        let token = arguments ! 1;
            language = (if token = qs ''en'' then Some English else if token = qs ''de'' then Some German else None)
        in case language of
             None \<Rightarrow> Usage
           | Some l \<Rightarrow>
               let (ok, t) = activateInterfaceLanguage cat l
               in if ok then Ready (title (current_language t)) else MissingCatalog)"

section \<open>The reporter\<close>

fun contains_bytes :: "bytes \<Rightarrow> bytes \<Rightarrow> bool" where
  "contains_bytes needle [] = (needle = [])"
| "contains_bytes needle (b # rest) = (take (length needle) (b # rest) = needle \<or> contains_bytes needle rest)"

text \<open>What a look at standard input finds: a terminal, nothing, the end (or an error), or at most 63 bytes.\<close>

datatype StdinAnswer = Terminal | NothingThere | InputEnded | InputRead bytes

record HelperReporter =
  reporter_step :: nat
  reporter_request :: bytes
  reporter_cancelled :: bool

definition new_reporter :: HelperReporter where
  "new_reporter = \<lparr>reporter_step = 0, reporter_request = [], reporter_cancelled = False\<rparr>"

definition cancelRequested :: "StdinAnswer \<Rightarrow> HelperReporter \<Rightarrow> bool \<times> HelperReporter" where
  "cancelRequested answer r =
     (if reporter_cancelled r then (True, r)
      else case answer of
        InputRead b \<Rightarrow>
          if b = [] then (False, r)
          else
            let request = reporter_request r @ b;
                cancelled = contains_bytes CancelRequestToken request
            in (cancelled, r\<lparr>reporter_request := request, reporter_cancelled := cancelled\<rparr>)
      | _ \<Rightarrow> (False, r))"

definition stepped :: "HelperReporter \<Rightarrow> HelperReporter" where
  "stepped r = r\<lparr>reporter_step := min (reporter_step r + 1) (length linuxRestorePlan)\<rparr>"

definition step_line :: "HelperReporter \<Rightarrow> RestoreMessage \<Rightarrow> qstring" where
  "step_line r message =
     encodeStepLine (int (reporter_step (stepped r))) (int (length linuxRestorePlan)) (english message)"

definition detail_lines :: "qstring \<Rightarrow> qstring list" where
  "detail_lines message =
     map encodeDetailLine (filter (\<lambda>s. s \<noteq> []) (map sanitizeProtocolText (split_skip 10 message)))"

section \<open>The machine the helper runs on\<close>

text \<open>
  \<open>guard_look\<close> and \<open>disk_look\<close> are the file system when the guard and the disk are read, \<open>restore_os\<close> answers the
  restore itself, \<open>stdin_answers k\<close> the look at standard input of the \<open>k\<close>-th question whether to cancel. The
  words of errors and details, which the model keeps as constructors, are \<open>helper_texts\<close>.
\<close>

record helper_texts =
  step_wording :: wording
  error_text :: "RestoreError \<Rightarrow> TextMode \<Rightarrow> qstring"
  usage_text :: "UsageError \<Rightarrow> qstring"
  detail_text :: "detail \<Rightarrow> qstring"

record helper_machine =
  build_version :: qstring
  effective_uid :: nat
  machine_texts :: helper_texts
  machine_catalogs :: catalogs
  permission_title :: "Language \<Rightarrow> qstring"
  guard_look :: view
  disk_look :: view
  restore_os :: os
  stdin_answers :: "nat \<Rightarrow> StdinAnswer"

definition asks :: "history \<Rightarrow> nat" where
  "asks h = length (filter (\<lambda>e. case e of CancelAsked b \<Rightarrow> True | _ \<Rightarrow> False) h)"

fun reporter_event :: "helper_machine \<Rightarrow> nat \<Rightarrow> event \<Rightarrow> HelperReporter \<Rightarrow> HelperReporter" where
  "reporter_event m k (StepReported s) r = stepped r"
| "reporter_event m k (CancelAsked b) r = snd (cancelRequested (stdin_answers m k) r)"
| "reporter_event m k e r = r"

primrec reporter_after :: "helper_machine \<Rightarrow> history \<Rightarrow> HelperReporter" where
  "reporter_after m [] = new_reporter"
| "reporter_after m (e # h) = reporter_event m (asks h) e (reporter_after m h)"

fun event_lines :: "helper_machine \<Rightarrow> RestoreRequest \<Rightarrow> HelperReporter \<Rightarrow> event \<Rightarrow> qstring list" where
  "event_lines m req r (StepReported s) =
     [step_line r (restoreStepMessage (step_wording (machine_texts m)) s (request_style req) (request_fileSystem req))]"
| "event_lines m req r (DetailReported d) = detail_lines (detail_text (machine_texts m) d)"
| "event_lines m req r e = []"

primrec reporter_lines :: "helper_machine \<Rightarrow> RestoreRequest \<Rightarrow> history \<Rightarrow> qstring list" where
  "reporter_lines m req [] = []"
| "reporter_lines m req (e # h) = reporter_lines m req h @ event_lines m req (reporter_after m h) e"

text \<open>The restore asks this reporter.\<close>

definition helper_os :: "helper_machine \<Rightarrow> os" where
  "helper_os m =
     (restore_os m)\<lparr>cancel_answer := (\<lambda>h. fst (cancelRequested (stdin_answers m (asks h)) (reporter_after m h)))\<rparr>"

section \<open>\<open>main\<close>\<close>

datatype helper_line = Out qstring | Err qstring

definition announcement :: "helper_machine \<Rightarrow> qstring" where
  "announcement m = encodeVersionLine RestoreProtocolVersion (build_version m) linuxRestorePlan"

definition writeError :: "qstring \<Rightarrow> helper_line list" where
  "writeError message = [Err (sanitizeProtocolText message)]"

definition writeFailure :: "qstring \<Rightarrow> qstring \<Rightarrow> helper_line list" where
  "writeFailure english' display' =
     writeError english' @ (if display' = [] then [] else [Out (encodeFailureLine display')])"

definition error_lines :: "helper_machine \<Rightarrow> RestoreError \<Rightarrow> helper_line list" where
  "error_lines m e = writeFailure (error_text (machine_texts m) e EnglishText) (error_text (machine_texts m) e DisplayText)"

definition not_root_text :: qstring where
  "not_root_text = qs (''usb-restoration-helper must run as root. It is started by USB Restoration Tool '' @
     ''through pkexec, not on its own.'')"

definition stopped_text :: string where
  "stopped_text = ''The restore stopped. Unplug the drive, plug it back in and try again.''"

definition helper_request :: "RestoreArguments \<Rightarrow> DiskInfo \<Rightarrow> RestoreGuard \<Rightarrow> RestoreRequest" where
  "helper_request parsed disk guard =
     \<lparr>request_disk = disk, request_style = arg_style parsed, request_fileSystem = arg_fileSystem parsed,
      volumeLabel = arg_volumeLabel parsed, request_guard = guard, displayLanguage = English\<rparr>"

text \<open>What \<open>main\<close> does once \<open>performLinuxRestore\<close> is back: the last lines and the exit code.\<close>

definition conclude_restore :: "helper_machine \<Rightarrow> qstring ending \<Rightarrow> world \<Rightarrow> helper_line list \<times> int" where
  "conclude_restore m r w =
     (case r of
        Ok location \<Rightarrow> ([Out (encodeResultLine location)], RestoreExitSuccess)
      | _ \<Rightarrow>
          let (english', display') = (case r of
                outcome.Failed e \<Rightarrow> (error_text (machine_texts m) e EnglishText, error_text (machine_texts m) e DisplayText)
              | _ \<Rightarrow> ([], []));
              cancelled = fst (cancelRequested (stdin_answers m (asks (happened w))) (reporter_after m (happened w)))
          in if cancelled \<and> english' = [] then ([], RestoreExitCancelled)
             else if english' = [] then
               let stopped = restoreText (step_wording (machine_texts m)) stopped_text
               in (writeFailure (english stopped) (display stopped), RestoreExitFailed)
             else (writeFailure english' display', RestoreExitFailed))"

text \<open>The lines, the exit code and, when a restore was begun, its request, its outcome and the world it
  left; \<open>None\<close> when the restore does not end.\<close>

type_synonym helper_end = "helper_line list \<times> int \<times> (RestoreRequest \<times> qstring ending \<times> world) option"

definition run_restore :: "helper_machine \<Rightarrow> RestoreRequest \<Rightarrow> helper_end option" where
  "run_restore m req =
     (case performLinuxRestore req (helper_os m) new_world of
        None \<Rightarrow> None
      | Some (r, w) \<Rightarrow>
          let (lines, code) = conclude_restore m r w
          in Some (map Out (reporter_lines m req (happened w)) @ lines, code, Some (req, r, w)))"

definition check_and_restore :: "helper_machine \<Rightarrow> RestoreArguments \<Rightarrow> helper_end option" where
  "check_and_restore m parsed =
     (let U = tables (restore_os m);
          guard = linuxRestoreGuard U (guard_look m);
          refuse = (\<lambda>e. Some (error_lines m e, RestoreExitFailed, None))
      in case refreshUsbDisk U (disk_look m) (deviceId (arg_expected parsed)) RestoreDetails of
           Inl e \<Rightarrow> refuse (NotEnumerated e)
         | Inr disk \<Rightarrow>
             (case isSafeRestoreTarget U disk guard of
                Some e \<Rightarrow> refuse (NotSafe e)
              | None \<Rightarrow>
                  (case isSameRestoreTarget U (arg_expected parsed) disk of
                     Some e \<Rightarrow> refuse (NotTheSelectedDisk e)
                   | None \<Rightarrow> run_restore m (helper_request parsed disk guard))))"

definition helper_main :: "helper_machine \<Rightarrow> qstring list \<Rightarrow> helper_end option" where
  "helper_main m arguments =
     (if arguments = [ProtocolVersionFlag] then Some ([Out (announcement m)], RestoreExitSuccess, None)
      else case catalogProbe (machine_catalogs m) (permission_title m) arguments of
        Ready line \<Rightarrow> Some ([Out line], RestoreExitSuccess, None)
      | MissingCatalog \<Rightarrow> Some ([], RestoreExitFailed, None)
      | Usage \<Rightarrow> Some ([], RestoreExitUsage, None)
      | NotRequested \<Rightarrow>
          map_option (\<lambda>(lines, rest). (Out (announcement m) # lines, rest))
            (if effective_uid m \<noteq> 0 then Some (writeError not_root_text, RestoreExitUsage, None)
             else case parseRestoreArguments arguments of
               Inl e \<Rightarrow> Some (writeError (usage_text (machine_texts m) e), RestoreExitUsage, None)
             | Inr parsed \<Rightarrow> check_and_restore m parsed))"

section \<open>Only safe disks\<close>

lemma conclude_exit:
  "conclude_restore m r w = (lines, code) \<Longrightarrow>
   (code = 0 \<longleftrightarrow> (\<exists>location. r = Ok location)) \<and> code \<in> {0, 1, 3}"
  by (auto simp: conclude_restore_def exit_defs Let_def split: outcome.splits if_splits prod.splits)

text \<open>C4. Whatever its arguments, the helper restores only a disk it has found safe itself: a restore is begun only
  as root, for arguments that parse, on the disk the system described when the helper looked, which passed the
  gate against the guard the helper read itself and is the disk the caller named; every write and formatter run
  of it is then one the safety of the restore allows; and the exit code is 0 exactly when the restore succeeded.\<close>

theorem helper_restores_only_safe_disks:
  "case helper_main m arguments of
     Some (lines, code, Some (req, r, w)) \<Rightarrow>
       let U = tables (restore_os m) in
       effective_uid m = 0 \<and>
       (\<exists>parsed. parseRestoreArguments arguments = Inr parsed \<and>
          refreshUsbDisk U (disk_look m) (deviceId (arg_expected parsed)) RestoreDetails = Inr (request_disk req) \<and>
          isSameRestoreTarget U (arg_expected parsed) (request_disk req) = None \<and>
          request_guard req = linuxRestoreGuard U (guard_look m) \<and>
          isSafeRestoreTarget U (request_disk req) (request_guard req) = None) \<and>
       justified U req (happened w) \<and> (code = 0 \<longleftrightarrow> (\<exists>location. r = Ok location))
   | _ \<Rightarrow> True"
proof (cases "helper_main m arguments")
  case (Some result)
  then obtain lines code begun where result: "helper_main m arguments = Some (lines, code, begun)"
    by (cases result) auto
  show ?thesis
  proof (cases begun)
    case begun: (Some b)
    obtain req r w where b: "b = (req, r, w)" by (cases b)
    have "catalogProbe (machine_catalogs m) (permission_title m) arguments = NotRequested"
      using result begun by (auto simp: helper_main_def split: if_splits CatalogProbe.splits)
    then obtain parsed ls where parsed: "effective_uid m = 0" "parseRestoreArguments arguments = Inr parsed"
      and run: "check_and_restore m parsed = Some (ls, code, Some (req, r, w))"
      using result begun b by (auto simp: helper_main_def split: if_splits sum.splits)
    have tables: "tables (helper_os m) = tables (restore_os m)" by (simp add: helper_os_def)
    show ?thesis
      using run parsed restore_justified [of _ "helper_os m"] conclude_exit [of m]
      by (auto simp: result begun b check_and_restore_def run_restore_def helper_request_def tables Let_def
          split: sum.splits option.splits prod.splits)
  qed (simp add: result)
qed simp

end
