(* ===== verification/Helper_Exchange.thy ===== *)
theory Helper_Exchange
  imports Helper_Client Helper_Process
begin

text \<open>
  The window and the helper together: the lines of \<open>Helper_Process\<close>, encoded and read by the loop of
  \<open>Helper_Client\<close>. The lines of a run are the encodings of \<open>HelperMessage\<close>s, so the contract \<open>line_protocol\<close> of
  \<open>Restore_Protocol\<close> turns reading bytes into reading messages. The system's text codec is \<open>from_local\<close> and
  \<open>to_local\<close>; \<open>codec_faithful\<close> is what is asked of it.
\<close>

section \<open>The messages of a helper\<close>

fun event_messages :: "helper_machine \<Rightarrow> RestoreRequest \<Rightarrow> HelperReporter \<Rightarrow> event \<Rightarrow> HelperMessage list" where
  "event_messages m req r (StepReported s) =
     [StepMessage (int (reporter_step (stepped r))) (int (length linuxRestorePlan))
        (english (restoreStepMessage (step_wording (machine_texts m)) s (request_style req) (request_fileSystem req)))]"
| "event_messages m req r (DetailReported d) =
     map DetailMessage (filter (\<lambda>s. s \<noteq> []) (map sanitizeProtocolText (split_skip 10 (detail_text (machine_texts m) d))))"
| "event_messages m req r e = []"

primrec reporter_messages :: "helper_machine \<Rightarrow> RestoreRequest \<Rightarrow> history \<Rightarrow> HelperMessage list" where
  "reporter_messages m req [] = []"
| "reporter_messages m req (e # h) = reporter_messages m req h @ event_messages m req (reporter_after m h) e"

lemma reporter_lines_messages: "reporter_lines m req h = map encode_message (reporter_messages m req h)"
proof (induction h)
  case (Cons e h)
  have "event_lines m req r e = map encode_message (event_messages m req r e)" for r
    by (cases e) (simp_all add: step_line_def detail_lines_def)
  with Cons show ?case by simp
qed simp

lemma plan_int32: "int (length linuxRestorePlan) = 10" by simp

lemma reporter_step_le: "reporter_step (reporter_after m h) \<le> 10"
proof (induction h)
  case (Cons e h)
  have "reporter_step (snd (cancelRequested a r)) = reporter_step r" for a r
    by (simp add: cancelRequested_def Let_def split: StdinAnswer.split)
  with Cons show ?case by (cases e) (simp_all add: stepped_def)
qed (simp add: new_reporter_def)

lemma reporter_step_counts:
  "prefix (reported h) linuxRestorePlan \<Longrightarrow> reporter_step (reporter_after m h) = length (reported h)"
proof (induction h)
  case (Cons e h)
  have same: "reporter_step (snd (cancelRequested a r)) = reporter_step r" for a r
    by (simp add: cancelRequested_def Let_def split: StdinAnswer.split)
  have pre: "prefix (reported h) linuxRestorePlan" using Cons.prems append_prefixD by fastforce
  have len: "length (reported (e # h)) \<le> 10" using Cons.prems prefix_length_le by fastforce
  show ?case using Cons.IH [OF pre] len same by (cases e) (simp_all add: stepped_def)
qed (simp add: new_reporter_def)

lemma reporter_messages_sendable: "list_all message_sendable (reporter_messages m req h)"
proof (induction h)
  case (Cons e h)
  have "list_all message_sendable (event_messages m req (reporter_after m h) e)"
    using reporter_step_le [of m h] by (cases e) (auto simp: int32_def list_all_iff stepped_def)
  with Cons show ?case by simp
qed simp

section \<open>How the window reads a message\<close>

lemma trimmed_idem [simp]: "trimmed (trimmed s) = trimmed s"
proof (cases "trimmed s = []")
  case False
  let ?u = "trim_front s"
  have u: "?u \<noteq> []"
  proof
    assume "?u = []"
    then have "trimmed s = []" unfolding trimmed_def by (simp add: trim_front_def [of "[]"])
    with False show False by simp
  qed
  have hd: "\<not> is_space (hd ?u)" using u hd_dropWhile [of is_space s] by (simp add: trim_front_def)
  have last: "\<not> is_space (last (trimmed s))"
    using False hd_dropWhile [of is_space "rev ?u"] by (simp add: trimmed_def trim_front_def last_rev)
  have "\<exists>t. ?u = trimmed s @ t"
    unfolding trimmed_def trim_front_def [of "rev _"]
    by (metis rev_append rev_rev_ident takeWhile_dropWhile_id)
  then have "hd (trimmed s) = hd ?u" using False by auto
  then show ?thesis using hd last by (intro trimmed_id) simp
next
  case True
  then show ?thesis by simp (simp add: trimmed_def trim_front_def)
qed

lemma parse_trimmed: "parseProtocolLine (trimmed l) = parseProtocolLine l"
  by (simp add: parseProtocolLine_def)

fun read_message :: "client_env \<Rightarrow> HelperMessage \<Rightarrow> HelperClient \<Rightarrow> HelperClient \<times> client_effect list" where
  "read_message env (AnnounceMessage v app plan) c = consume_version env (message_meaning (AnnounceMessage v app plan)) c"
| "read_message env (StepMessage a b t) c = (c, [ShowStep (consume_step env (message_meaning (StepMessage a b t)) c)])"
| "read_message env (DetailMessage t) c = (c, [LogDetail (sanitizeProtocolText t)])"
| "read_message env (FailureMessage t) c =
     (if versionAccepted c \<and> displayFailure c = [] \<and> sanitizeProtocolText t \<noteq> []
      then c\<lparr>displayFailure := sanitizeProtocolText t\<rparr> else c, [])"
| "read_message env (ResultMessage t) c = (c\<lparr>client_location := sanitizeProtocolText t\<rparr>, [])"

lemma consume_message:
  assumes "message_sendable m"
  shows "consume_line env (trimmed (encode_message m)) c = read_message env m c"
proof -
  let ?l = "trimmed (encode_message m)"
  have parsed: "parseProtocolLine ?l = message_meaning m"
    using helper_lines.decode_encode [OF assms] by (simp add: parse_trimmed)
  have "line_kind (message_meaning m) \<noteq> UnknownLine" by (cases m) simp_all
  moreover have "parseProtocolLine [] = empty_line" by (simp add: parseProtocolLine_def trimmed_def trim_front_def)
  ultimately have "?l \<noteq> []" using parsed by (metis ProtocolLine.select_convs(1) empty_line_def)
  from consume_line_kinds [OF this, of env c, unfolded parsed] show ?thesis
    by (cases m) simp_all
qed

primrec read_messages :: "client_env \<Rightarrow> HelperMessage list \<Rightarrow> HelperClient \<Rightarrow> HelperClient \<times> client_effect list" where
  "read_messages env [] c = (c, [])"
| "read_messages env (m # ms) c =
     (let (c', es) = read_message env m c; (c'', es') = read_messages env ms c' in (c'', es @ es'))"

lemma consume_messages:
  "list_all message_sendable ms \<Longrightarrow> consume env (map (\<lambda>m. trimmed (encode_message m)) ms) c = read_messages env ms c"
  by (induction ms arbitrary: c) (simp_all add: consume_message)

lemma read_messages_append:
  "read_messages env (a @ b) c = (let (c', es) = read_messages env a c; (c'', es') = read_messages env b c' in (c'', es @ es'))"
  by (induction a arbitrary: c) (auto simp: split_beta Let_def)

text \<open>What the reporter of the window is shown for a step.\<close>

definition shown_step :: "client_env \<Rightarrow> helper_machine \<Rightarrow> RestoreStep \<Rightarrow> RestoreMessage" where
  "shown_step env m s =
     Message (sanitizeProtocolText (english (restoreStepMessage (step_wording (machine_texts m)) s (client_style env) (client_fileSystem env))))
       (display (restoreStepMessage (ui_wording env) s (client_style env) (client_fileSystem env))) Plain"

definition steps_shown :: "client_effect list \<Rightarrow> RestoreMessage list" where
  "steps_shown es = List.map_filter (\<lambda>e. case e of ShowStep m \<Rightarrow> Some m | _ \<Rightarrow> None) es"

lemma steps_shown_simps [simp]:
  "steps_shown [] = []" "steps_shown (a @ b) = steps_shown a @ steps_shown b"
  "steps_shown [ShowStep m] = [m]" "steps_shown [LogDetail t] = []"
  by (simp_all add: steps_shown_def List.map_filter_def)

lemma steps_shown_shown: "steps_shown (shown es) = steps_shown es"
  by (induction es) (auto simp: steps_shown_def shown_def List.map_filter_def)

lemma details_read: "read_messages env (map DetailMessage ts) c = (c, map (LogDetail \<circ> sanitizeProtocolText) ts)"
  by (induction ts) simp_all

lemma details_not_shown: "steps_shown (map (LogDetail \<circ> f) ts) = []"
  by (induction ts) (simp_all add: steps_shown_def List.map_filter_def)

lemma reporter_read:
  assumes "prefix (reported h) linuxRestorePlan" "versionAccepted c" "request_style req = client_style env"
    "request_fileSystem req = client_fileSystem env"
  shows "\<exists>es. read_messages env (reporter_messages m req h) c = (c, es) \<and>
    steps_shown es = map (shown_step env m) (reported h)"
  using assms(1)
proof (induction h)
  case (Cons e h)
  have pre: "prefix (reported h) linuxRestorePlan" using Cons.prems append_prefixD by fastforce
  obtain es where es: "read_messages env (reporter_messages m req h) c = (c, es)"
      "steps_shown es = map (shown_step env m) (reported h)"
    using Cons.IH [OF pre] by blast
  have "\<exists>es'. read_messages env (event_messages m req (reporter_after m h) e) c = (c, es') \<and>
      steps_shown es' = map (shown_step env m) (case step_of e of None \<Rightarrow> [] | Some s \<Rightarrow> [s])"
  proof (cases "\<exists>s. e = StepReported s")
    case True
    then obtain s where e: "e = StepReported s" by blast
    let ?n = "length (reported h)"
    obtain zs where "linuxRestorePlan = reported h @ s # zs" using Cons.prems by (auto simp: e prefix_def)
    then have nth: "linuxRestorePlan ! ?n = s" by (metis nth_append_length)
    have less: "?n < 10" using prefix_length_le [OF Cons.prems] by (simp add: e)
    have "reporter_step (stepped (reporter_after m h)) = ?n + 1"
      using reporter_step_counts [OF pre, of m] less by (simp add: stepped_def)
    then show ?thesis
      using nth less assms(2-4) by (simp add: e consume_step_def shown_step_def plain_message_def)
  next
    case False
    then show ?thesis by (cases e) (simp_all add: details_read details_not_shown)
  qed
  then obtain es' where "read_messages env (event_messages m req (reporter_after m h) e) c = (c, es')"
      "steps_shown es' = map (shown_step env m) (case step_of e of None \<Rightarrow> [] | Some s \<Rightarrow> [s])" by blast
  then show ?case using es by (simp add: read_messages_append)
qed simp

section \<open>Both ends of one restore\<close>

text \<open>The end of a helper as a message, and what the window's client then holds.\<close>

definition stdout_of :: "helper_line list \<Rightarrow> qstring list" where
  "stdout_of lines = List.map_filter (\<lambda>l. case l of Out t \<Rightarrow> Some t | Err t \<Rightarrow> None) lines"

definition stream_of :: "(qstring \<Rightarrow> bytes) \<Rightarrow> helper_line list \<Rightarrow> bytes" where
  "stream_of to_local lines = concat (map (\<lambda>t. to_local t @ [10]) (stdout_of lines))"

text \<open>The two ends' codec on the lines of a run: what is encoded decodes to itself, in one line of bounded size.\<close>

definition codec_faithful :: "client_env \<Rightarrow> (qstring \<Rightarrow> bytes) \<Rightarrow> helper_line list \<Rightarrow> bool" where
  "codec_faithful env to_local lines \<longleftrightarrow>
     (\<forall>t \<in> set (stdout_of lines). from_local env (to_local t) = t \<and> 10 \<notin> set (to_local t) \<and>
        length (to_local t) \<le> MaxBufferedBytes)"

lemma stdout_of_simps [simp]:
  "stdout_of [] = []" "stdout_of (Out t # ls) = t # stdout_of ls" "stdout_of (Err t # ls) = stdout_of ls"
  "stdout_of (a @ b) = stdout_of a @ stdout_of b" "stdout_of (map (Out \<circ> f) us) = map f us"
proof -
  show "stdout_of (map (Out \<circ> f) us) = map f us" by (induction us) (simp_all add: stdout_of_def List.map_filter_def)
qed (simp_all add: stdout_of_def List.map_filter_def)

lemma faithful_stream:
  assumes "codec_faithful env to_local lines"
  shows "split_keep 10 (stream_of to_local lines) = map to_local (stdout_of lines) @ [[]]"
    and "short_lines (stream_of to_local lines)"
    and "stream_lines env (stream_of to_local lines) = map trimmed (stdout_of lines)"
proof -
  have split: "\<forall>t \<in> set ts. 10 \<notin> set (to_local t) \<Longrightarrow>
      split_keep 10 (concat (map (\<lambda>t. to_local t @ [10]) ts)) = map to_local ts @ [[]]" for ts
    by (induction ts) (simp_all add: split_keep_append)
  then show whole: "split_keep 10 (stream_of to_local lines) = map to_local (stdout_of lines) @ [[]]"
    using assms by (simp add: codec_faithful_def stream_of_def)
  show "short_lines (stream_of to_local lines)"
    using assms by (auto simp: short_lines_def whole codec_faithful_def)
  show "stream_lines env (stream_of to_local lines) = map trimmed (stdout_of lines)"
    using assms by (simp add: stream_lines_def whole lines_of_def codec_faithful_def)
qed

definition end_messages :: "helper_line list \<Rightarrow> HelperMessage list \<Rightarrow> bool" where
  "end_messages lines ms \<longleftrightarrow> stdout_of lines = map encode_message ms"

text \<open>The messages of \<open>conclude_restore\<close>.\<close>

definition last_messages :: "helper_machine \<Rightarrow> qstring ending \<Rightarrow> world \<Rightarrow> HelperMessage list" where
  "last_messages m r w =
     (case r of
        Ok location \<Rightarrow> [ResultMessage location]
      | _ \<Rightarrow>
          if snd (conclude_restore m r w) = 3 then []
          else
            let shown = (case r of
                  outcome.Failed e \<Rightarrow>
                    if error_text (machine_texts m) e EnglishText = []
                    then display (restoreText (step_wording (machine_texts m)) stopped_text)
                    else error_text (machine_texts m) e DisplayText
                | _ \<Rightarrow> display (restoreText (step_wording (machine_texts m)) stopped_text))
            in if shown = [] then [] else [FailureMessage shown])"

lemma conclude_messages:
  "stdout_of (fst (conclude_restore m r w)) = map encode_message (last_messages m r w)"
  by (simp add: conclude_restore_def last_messages_def writeFailure_def writeError_def exit_defs restoreText_def qs_def
      stopped_text_def Let_def split: outcome.split)

lemma last_messages_sendable: "list_all message_sendable (last_messages m r w)"
  by (simp add: last_messages_def Let_def split: outcome.split)

lemma begun_run:
  assumes "helper_main m arguments = Some (lines, code, Some (req, r, w))"
  shows "performLinuxRestore req (helper_os m) new_world = Some (r, w)"
    and "stdout_of lines = map encode_message (AnnounceMessage RestoreProtocolVersion (build_version m) linuxRestorePlan #
      reporter_messages m req (happened w) @ last_messages m r w)"
    and "code = snd (conclude_restore m r w)"
proof -
  have "catalogProbe (machine_catalogs m) (permission_title m) arguments = NotRequested"
    using assms by (auto simp: helper_main_def split: if_splits CatalogProbe.splits)
  then obtain parsed ls where lines: "lines = Out (announcement m) # ls"
    and run: "check_and_restore m parsed = Some (ls, code, Some (req, r, w))"
    using assms by (auto simp: helper_main_def split: if_splits sum.splits)
  then have "run_restore m req = Some (ls, code, Some (req, r, w))"
    by (auto simp: check_and_restore_def run_restore_def Let_def split: sum.splits option.splits prod.splits)
  then show "performLinuxRestore req (helper_os m) new_world = Some (r, w)"
    and "code = snd (conclude_restore m r w)"
    and "stdout_of lines = map encode_message (AnnounceMessage RestoreProtocolVersion (build_version m) linuxRestorePlan #
      reporter_messages m req (happened w) @ last_messages m r w)"
    using conclude_messages [of m r w]
    by (auto simp: run_restore_def lines announcement_def reporter_lines_messages split: option.splits prod.splits)
qed

definition announced_client :: HelperClient where
  "announced_client = new_client\<lparr>versionAccepted := True, sawVersion := True\<rparr>"

lemma announcement_read:
  "read_message env (AnnounceMessage RestoreProtocolVersion v linuxRestorePlan) new_client = (announced_client, [])"
  by (simp add: consume_version_def acceptAnnouncement_def acceptHelperAnnouncement_def new_client_def announced_client_def
      Let_def)

definition after_end :: "helper_machine \<Rightarrow> qstring ending \<Rightarrow> world \<Rightarrow> HelperClient" where
  "after_end m r w =
     (case last_messages m r w of
        [ResultMessage p] \<Rightarrow> announced_client\<lparr>client_location := sanitizeProtocolText p\<rparr>
      | [FailureMessage t] \<Rightarrow> announced_client\<lparr>displayFailure := sanitizeProtocolText t\<rparr>
      | _ \<Rightarrow> announced_client)"

lemma last_messages_read: "read_messages env (last_messages m r w) announced_client = (after_end m r w, [])"
proof -
  have "last_messages m r w = [] \<or> (\<exists>p. last_messages m r w = [ResultMessage p]) \<or> (\<exists>t. last_messages m r w = [FailureMessage t])"
    by (simp add: last_messages_def Let_def split: outcome.split)
  then show ?thesis by (auto simp: after_end_def announced_client_def new_client_def)
qed

lemma run_read:
  assumes main: "helper_main m arguments = Some (lines, code, Some (req, r, w))"
    and codec: "codec_faithful env to_local lines"
    and stream: "concat (map fst (poll_reads run)) @ last_read run = stream_of to_local lines"
    and same: "request_style req = client_style env" "request_fileSystem req = client_fileSystem env"
  shows "let (c, es) = poll_rounds env (poll_reads run) new_client; (c', es') = read_rest env (last_read run) c
    in reading_of c' = reading_of (after_end m r w) \<and>
       steps_shown (es @ es') = map (shown_step env m) (reported (happened w))"
proof -
  note begun = begun_run [OF main]
  let ?ms = "AnnounceMessage RestoreProtocolVersion (build_version m) linuxRestorePlan #
      reporter_messages m req (happened w) @ last_messages m r w"
  have "list_all message_sendable ?ms"
    using reporter_messages_sendable last_messages_sendable by (simp add: int32_def RestoreProtocolVersion_def)
  then have lines: "consume env (stream_lines env (stream_of to_local lines)) new_client = read_messages env ?ms new_client"
    using consume_messages [of ?ms env new_client] by (simp add: faithful_stream(3) [OF codec] begun(2) comp_def)
  have acc: "versionAccepted announced_client" by (simp add: announced_client_def)
  obtain es where es: "read_messages env (reporter_messages m req (happened w)) announced_client = (announced_client, es)"
      "steps_shown es = map (shown_step env m) (reported (happened w))"
    using reporter_read [OF conjunct1 [OF restore_steps [OF begun(1)]] acc same, of m] by blast
  have ms: "read_messages env ?ms new_client = (after_end m r w, es)"
    using announcement_read [of env] es(1) last_messages_read [of env m r w]
    by (simp add: read_messages_append del: read_message.simps)
  note whole = read_everything [of "poll_reads run" "last_read run" env, unfolded stream lines ms,
      OF faithful_stream(2) [OF codec]]
  obtain c fs where c: "poll_rounds env (poll_reads run) new_client = (c, fs)" by (cases "poll_rounds env (poll_reads run) new_client")
  obtain c' fs' where c': "read_rest env (last_read run) c = (c', fs')" by (cases "read_rest env (last_read run) c")
  have "reading_of c' = reading_of (after_end m r w)" "shown (fs @ fs') = shown es"
    using whole by (simp_all add: c c' Let_def)
  then show ?thesis using es(2) steps_shown_shown [of "fs @ fs'"] steps_shown_shown [of es] by (simp add: c c')
qed

text \<open>What the client of a finished run holds, by how the restore ended.\<close>

lemma after_end_fields:
  "sawVersion (after_end m r w) \<and> versionAccepted (after_end m r w)"
  "client_location (after_end m r w) = (case r of Ok p \<Rightarrow> sanitizeProtocolText p | _ \<Rightarrow> [])"
  "r = outcome.Failed e \<Longrightarrow> error_text (machine_texts m) e EnglishText \<noteq> [] \<Longrightarrow>
   displayFailure (after_end m r w) = sanitizeProtocolText (error_text (machine_texts m) e DisplayText)"
proof -
  have s: "sanitizeProtocolText [] = []" by (simp add: sanitizeProtocolText_def)
  show "r = outcome.Failed e \<Longrightarrow> error_text (machine_texts m) e EnglishText \<noteq> [] \<Longrightarrow>
   displayFailure (after_end m r w) = sanitizeProtocolText (error_text (machine_texts m) e DisplayText)"
    by (auto simp: after_end_def last_messages_def announced_client_def new_client_def conclude_restore_def Let_def
        exit_defs s)
qed (auto simp: after_end_def last_messages_def announced_client_def new_client_def Let_def split: outcome.split)

lemma accepted_verdict:
  assumes "run_sawVersion run" "run_versionAccepted run" "\<not> run_crashed run"
  shows "judgeHelperRun details run mode =
    (if run_exitCode run = 3 then (Cancelled, None)
     else if run_exitCode run \<noteq> 0 then
       (HelperRunVerdict.Failed, Some (if mode = DisplayText \<and> run_displayFailure run \<noteq> [] then ReportedText (run_displayFailure run)
          else describeRestoreExit details (run_exitCode run) (run_helperStderr run) mode))
     else if run_location run = [] then (HelperRunVerdict.Failed, Some NoLocationReported)
     else (Succeeded, None))"
  using assms by (simp add: judgeHelperRun_def exit_defs)

section \<open>Where a restore says the partition is\<close>

lemma wp_trivial: "wp True m S (\<lambda>_ _. True) (\<lambda>_ _. True) w"
  by (simp add: wp_def split: option.split outcome.split)

definition yields :: "('a \<Rightarrow> bool) \<Rightarrow> 'a action \<Rightarrow> bool" where
  "yields P m \<longleftrightarrow> (\<forall>S w. wp True m S (\<lambda>x _. P x) (\<lambda>_ _. True) w)"

lemma yields_andThen: "(\<And>x. yields P (k x)) \<Longrightarrow> yields P (andThen m k)"
  unfolding yields_def wp_andThen by (blast intro: wp_mono [OF wp_trivial])

lemma yields_leaving: "yields P m \<Longrightarrow> yields P (leaving m d)"
proof -
  assume m: "yields P m"
  have "wp True d S (\<lambda>_ _. X) (\<lambda>_ _. X) w" if X for S w X
    by (rule wp_mono [OF wp_trivial]) (use that in simp_all)
  then show ?thesis
    using m unfolding yields_def wp_leaving by (blast intro: wp_mono)
qed

lemma yields_give: "P x \<Longrightarrow> yields P (give x)"
  by (simp add: yields_def wp_give)

lemma location_is_device: "performLinuxRestore req S new_world = Some (Ok p, w) \<Longrightarrow> \<exists>n. p = devicePathFor n"
proof -
  have "yields (\<lambda>p. \<exists>n. p = devicePathFor n) (performLinuxRestore req)"
    unfolding performLinuxRestore_def restore_on_device_def restore_through_loop_def check_new_partition_def Let_def split_beta
    by (intro yields_andThen yields_leaving yields_give) blast
  then show "performLinuxRestore req S new_world = Some (Ok p, w) \<Longrightarrow> \<exists>n. p = devicePathFor n"
    unfolding yields_def wp_def by (drule_tac x = S in spec) (drule_tac x = new_world in spec, simp)
qed

lemma sanitize_not_empty:
  assumes "\<not> separator c" "\<not> is_high_surrogate c" "c \<noteq> 0x20"
  shows "sanitizeProtocolText (c # t) \<noteq> []"
proof -
  have grows: "\<exists>u. sanitize_loop (c # s) p t = c # u" for s p t
  proof (induction "c # s" p t arbitrary: s rule: sanitize_loop.induct)
    case (2 p d ds)
    then show ?case by (auto split: if_splits)
  qed simp
  have "sanitize_loop [] False (c # t) = sanitize_loop [c] False t"
    using assms(1) by (simp add: separator_def MaxProtocolTextLength_def)
  with grows [of "[]"] obtain u where "sanitize_loop [] False (c # t) = c # u" by metis
  then show ?thesis
    using assms(2,3) by (auto simp: sanitize_chop chop_ends_def Let_def)
qed

lemma device_sanitized: "sanitizeProtocolText (devicePathFor n) \<noteq> []"
proof -
  have "devicePathFor n = 0x2F # (qs ''dev/'' @ n)" by (simp add: devicePathFor_def qs_def qc_def)
  then show ?thesis
    using sanitize_not_empty [of "0x2F" "qs ''dev/'' @ n"]
    by (simp add: separator_def is_space_def is_control_def is_high_surrogate_def)
qed

section \<open>The property\<close>


section \<open>An instance\<close>

text \<open>A 16 GB stick on the USB bus of a machine without \<open>mkfs.exfat\<close>: the restore begins and fails.\<close>

definition plugged_stick :: view where
  "plugged_stick =
     \<lparr>read_text = (\<lambda>p. if p = qs ''/sys/block/sdc/size'' then Some (qs ''31250000'')
        else if p = qs ''/sys/block/sdc/diskseq'' then Some (qs ''7'') else None),
      read_raw = (\<lambda>_. None), open_device = (\<lambda>_. None), list_dirs = (\<lambda>_. []), list_system_dirs = (\<lambda>_. []),
      list_entries = (\<lambda>_. []), path_exists = (\<lambda>_. False), dir_exists = (\<lambda>_. True),
      is_executable = (\<lambda>_. False), is_directory = (\<lambda>_. False), canonical = (\<lambda>p. qs ''/devices/usb1/sdc'')\<rparr>"

definition stick_machine :: helper_machine where
  "stick_machine =
     \<lparr>build_version = qs ''1.0'', effective_uid = 0,
      machine_texts = \<lparr>step_wording = ui_wording latin1_window, error_text = (\<lambda>_ _. qs ''no mkfs''),
        usage_text = (\<lambda>_. []), detail_text = (\<lambda>_. [])\<rparr>,
      machine_catalogs = \<lparr>application_loads = True, qt_loads = True, translators_install = True\<rparr>,
      permission_title = (\<lambda>_. []), guard_look = plugged_stick, disk_look = plugged_stick,
      restore_os = broken_machine\<lparr>view_of := (\<lambda>_. plugged_stick)\<rparr>, stdin_answers = (\<lambda>_. NothingThere)\<rparr>"

definition stick_arguments :: "qstring list" where
  "stick_arguments = map qs [''--device'', ''/dev/sdc'', ''--style'', ''gpt'', ''--filesystem'', ''exfat'',
     ''--label'', ''USB'', ''--expect-size'', ''16000000000'', ''--expect-sector-size'', ''512'',
     ''--expect-sequence'', ''7'', ''--language'', ''en'']"

definition stick_claim :: RestoreArguments where
  "stick_claim = \<lparr>arg_expected = empty_disk\<lparr>disk_size := 16000000000, sectorSize := 512, deviceId := qs ''/dev/sdc'',
     displayId := qs ''/dev/sdc'', deviceSequence := Some 7\<rparr>, arg_style = Gpt, arg_fileSystem = ExFat,
     arg_volumeLabel = qs ''USB'', arg_displayLanguage = English\<rparr>"

lemma stick_parse: "parseRestoreArguments stick_arguments = Inr stick_claim"
  by code_simp

definition stick_disk :: DiskInfo where
  "stick_disk = empty_disk\<lparr>deviceId := qs ''/dev/sdc'', displayId := qs ''/dev/sdc'', busType := UsbBusType,
     disk_name := qs ''USB disk'', disk_path := qs ''/devices/usb1/sdc'', deviceSequence := Some 7,
     disk_size := 16000000000, sectorSize := 512\<rparr>"

lemma stick_attributes:
  "readSysfsAttribute plugged_stick p =
     (if p = qs ''/sys/block/sdc/size'' then qs ''31250000'' else if p = qs ''/sys/block/sdc/diskseq'' then qs ''7'' else [])"
proof -
  have "trimmed (qs ''31250000'') = qs ''31250000''" "trimmed (qs ''7'') = qs ''7''" by code_simp+
  then show ?thesis by (simp add: readSysfsAttribute_def plugged_stick_def)
qed

lemma stick_numbers: "to_ulonglong (qs ''31250000'') = Some 31250000" "to_ulonglong (qs ''7'') = Some 7"
  "to_ulonglong [] = None" "to_uint [] = None"
  by (simp_all add: to_ulonglong_def to_uint_def to_unsigned_def trimmed_def trim_front_def is_space_def
      unsigned_digits_def digits_value_def is_decimal_def qs_def qc_def)

lemma stick_texts: "trimmed (qs '' '') = []" "serialFromUsbByIdLink ascii_tables [] (qs ''USB disk'') = []"
  by code_simp+

lemma stick_usb: "isUsbBlockDevice plugged_stick n"
proof -
  have "list_ex isUsbController (split_skip (qc (CHR ''/'')) (qs ''/devices/usb1/sdc''))" by code_simp
  then show ?thesis by (simp add: isUsbBlockDevice_def plugged_stick_def)
qed

lemma stick_name: "file_name (qs ''/dev/sdc'') = qs ''sdc''"
  by code_simp

lemma stick_refresh: "refreshUsbDisk ascii_tables plugged_stick (qs ''/dev/sdc'') RestoreDetails = Inr stick_disk"
proof -
  have mounts: "readMounts plugged_stick = []" by (simp add: readMounts_def plugged_stick_def)
  have link: "stableDeviceIdLink plugged_stick n = []" for n
    by (simp add: stableDeviceIdLink_def linkTo_def plugged_stick_def)
  have nil: "[] \<noteq> qs ''1''" by (simp add: qs_def)
  have "disk_attributes ascii_tables plugged_stick (qs ''sdc'') = stick_disk"
    by (simp add: disk_attributes_def stick_attributes stick_numbers stick_texts link stick_usb stick_disk_def
        devicePathFor_def SysfsSectorUnit_def empty_disk_def Let_def nil plugged_stick_def [THEN arg_cong [where f = canonical]]
        flip: qs_append)
  then show ?thesis
    by (simp add: refreshUsbDisk_def stick_name stick_usb diskInfoFor_def diskInfoWithMounts_def mounts
        plugged_stick_def [THEN arg_cong [where f = dir_exists]] stick_disk_def empty_disk_def)
qed

lemma stick_guard: "linuxRestoreGuard ascii_tables plugged_stick = \<lparr>guard_mountPoints = protectedSystemMounts, guard_deviceIds = []\<rparr>"
  by (simp add: linuxRestoreGuard_def readMounts_def plugged_stick_def)

lemma stick_safe: "isSafeRestoreTarget ascii_tables stick_disk (linuxRestoreGuard ascii_tables plugged_stick) = None"
  unfolding stick_guard by code_simp

lemma stick_same: "isSameRestoreTarget ascii_tables (arg_expected stick_claim) stick_disk = None"
  by code_simp

definition stick_request :: RestoreRequest where
  "stick_request = helper_request stick_claim stick_disk (linuxRestoreGuard ascii_tables plugged_stick)"

lemma stick_run:
  "\<exists>w. performLinuxRestore stick_request (helper_os stick_machine) new_world = Some (outcome.Failed (ToolMissing ExFat), w) \<and>
     happened w = [Looked plugged_stick, Looked plugged_stick] \<and> reporter_lines stick_machine stick_request (happened w) = []"
proof -
  have U: "tables (helper_os stick_machine) = ascii_tables" "view_of (helper_os stick_machine) = (\<lambda>_. plugged_stick)"
    by (simp_all add: helper_os_def stick_machine_def broken_machine_def)
  have tool: "findSystemExecutable plugged_stick n = []" for n
    by (simp add: findSystemExecutable_def plugged_stick_def)
  have safe: "isSafeRestoreTarget ascii_tables (request_disk stick_request) (request_guard stick_request) = None"
    using stick_safe by (simp add: stick_request_def helper_request_def)
  have fs: "request_fileSystem stick_request = ExFat" by (simp add: stick_request_def helper_request_def stick_claim_def)
  show ?thesis
    by (simp add: performLinuxRestore_def restore_checks_def andThen_def unicode_tables_def gate_def U safe give_def
        resolveFormatTool_def fs look_def ask_def tool check_def fail_def noting_def new_world_def Let_def)
qed

definition stick_announcement :: qstring where
  "stick_announcement = encodeVersionLine RestoreProtocolVersion (qs ''1.0'') linuxRestorePlan"

definition stick_output :: "helper_line list" where
  "stick_output = [Out stick_announcement, Err (qs ''no mkfs''), Out (encodeFailureLine (qs ''no mkfs''))]"

lemma stick_helper:
  "\<exists>w. helper_main stick_machine stick_arguments =
     Some (stick_output, 1, Some (stick_request, outcome.Failed (ToolMissing ExFat), w))"
proof -
  obtain w where w: "performLinuxRestore stick_request (helper_os stick_machine) new_world =
      Some (outcome.Failed (ToolMissing ExFat), w)" "reporter_lines stick_machine stick_request (happened w) = []"
    using stick_run by blast
  have said: "sanitizeProtocolText (qs ''no mkfs'') = qs ''no mkfs''" "qs ''no mkfs'' \<noteq> []" by code_simp+
  have conclude: "conclude_restore stick_machine (outcome.Failed (ToolMissing ExFat)) w =
      ([Err (qs ''no mkfs''), Out (encodeFailureLine (qs ''no mkfs''))], 1)"
    by (simp add: conclude_restore_def stick_machine_def writeFailure_def writeError_def said exit_defs Let_def)
  have probe: "catalogProbe c t stick_arguments = NotRequested" for c t
    by (simp add: catalogProbe_def stick_arguments_def ShowTranslationFlag_def)
  have other: "stick_arguments \<noteq> [ProtocolVersionFlag]" by (simp add: stick_arguments_def)
  have facts: "tables (restore_os stick_machine) = ascii_tables" "guard_look stick_machine = plugged_stick"
    "disk_look stick_machine = plugged_stick" "effective_uid stick_machine = 0"
    "deviceId (arg_expected stick_claim) = qs ''/dev/sdc''"
    by (simp_all add: stick_machine_def broken_machine_def stick_claim_def)
  have "announcement stick_machine = stick_announcement"
    by (simp add: announcement_def stick_announcement_def stick_machine_def)
  then show ?thesis
    using w conclude
    by (simp add: helper_main_def other probe stick_parse facts check_and_restore_def stick_refresh stick_safe stick_same
        run_restore_def stick_request_def [symmetric] stick_output_def Let_def)
qed

text \<open>The window reads it in two pieces, through a Latin-1 codec.\<close>

definition to_latin1 :: "qstring \<Rightarrow> bytes" where
  "to_latin1 t = map ucast t"

definition stick_window :: helper_run where
  "stick_window =
     (let stream = stream_of to_latin1 stick_output
      in \<lparr>helper_there = True, pkexec_path = qs ''/usr/bin/pkexec'',
        probe_output = Some (to_latin1 stick_announcement @ [10]), pkexec_started = True,
        poll_reads = [(take 7 stream, True)], last_read = drop 7 stream, helper_crashed = False, helper_exitCode = 1,
        stderr_read = bs ''no mkfs''\<rparr>)"


end
