(* ===== verification/Restore_Worker.thy ===== *)
theory Restore_Worker
  imports Helper_Client Helper_Process Restore_Order
begin

text \<open>
  The worker that runs a restore for the window, \<open>src/platform/restore_worker.cpp\<close>, over the service of
  \<open>src/platform/disk_service.h\<close>, and its Linux implementation \<open>src/linux/linux_disk_service.cpp\<close>.

  \<^item> The worker leaves only signals: a \<open>worker_signal\<close> is one \<open>emit\<close> with its arguments. A call of the reporter by
    the backend is a \<open>reporter_call\<close>, paired with the milliseconds the timer shows when it arrives.
  \<^item> \<open>linux_restore\<close> is \<open>LinuxDiskService::restore\<close>: in the process itself as root, through the helper otherwise;
    both come down to the reporter calls in order and what the call returned.
  \<^item> The atomic cancel flag is only ever set, so its value at the end of a run is true when any question
    before it was answered with yes.
\<close>

section \<open>The worker\<close>

datatype reporter_call = StepCall RestoreMessage | DetailCall qstring

datatype worker_signal =
    Progress int int qstring
  | LogMessage qstring
  | LogFileOnly qstring
  | WorkerFailed qstring
  | WorkerCancelled
  | WorkerFinished qstring

record RestoreWorker =
  worker_step :: int
  worker_stepStartedMs :: int

definition new_worker :: RestoreWorker where
  "new_worker = \<lparr>worker_step = 0, worker_stepStartedMs = 0\<rparr>"

definition logStepDuration :: "int \<Rightarrow> RestoreWorker \<Rightarrow> RestoreWorker \<times> worker_signal list" where
  "logStepDuration now w =
     (w\<lparr>worker_stepStartedMs := now\<rparr>,
      [LogFileOnly
        (if worker_step w = 0 then qs ''Restore setup took '' @ number_int now @ qs '' ms''
         else qs ''Step '' @ number_int (worker_step w) @ qs '' took '' @
              number_int (now - worker_stepStartedMs w) @ qs '' ms'')])"

definition worker_reports :: "int \<Rightarrow> int \<Rightarrow> RestoreMessage \<Rightarrow> RestoreWorker \<Rightarrow> RestoreWorker \<times> worker_signal list" where
  "worker_reports totalSteps now message w =
     (let (w1, logged) = logStepDuration now w;
          n = min (worker_step w1 + 1) totalSteps
      in (w1\<lparr>worker_step := n\<rparr>, logged @ [LogMessage (english message), Progress n totalSteps (display message)]))"

fun worker_call :: "int \<Rightarrow> int \<times> reporter_call \<Rightarrow> RestoreWorker \<Rightarrow> RestoreWorker \<times> worker_signal list" where
  "worker_call totalSteps (now, StepCall message) w = worker_reports totalSteps now message w"
| "worker_call totalSteps (now, DetailCall text) w = (w, [LogFileOnly text])"

primrec worker_calls :: "int \<Rightarrow> (int \<times> reporter_call) list \<Rightarrow> RestoreWorker \<Rightarrow> RestoreWorker \<times> worker_signal list" where
  "worker_calls totalSteps [] w = (w, [])"
| "worker_calls totalSteps (c # cs) w =
     (let (w1, s1) = worker_call totalSteps c w; (w2, s2) = worker_calls totalSteps cs w1 in (w2, s1 @ s2))"

text \<open>What \<open>DiskService::restore\<close> returned, and the worker's flag when it looks at it afterwards.\<close>

record backend_end =
  end_restored :: bool
  end_location :: qstring
  end_error :: qstring
  end_displayError :: qstring
  end_cancelRequested :: bool

definition worker_verdict :: "wording \<Rightarrow> backend_end \<Rightarrow> worker_signal list" where
  "worker_verdict words e =
     (if end_restored e then [WorkerFinished (end_location e)]
      else if end_cancelRequested e \<and> end_error e = [] then [WorkerCancelled]
      else
        let fallback = restoreText words ''The restore failed.'';
            logError = (if end_error e = [] then english fallback else end_error e);
            uiError = (if end_displayError e = [] then (if end_error e = [] then display fallback else end_error e)
                       else end_displayError e)
        in [LogMessage (qs ''ERROR: '' @ logError), WorkerFailed uiError])"

text \<open>\<open>RestoreWorker::run\<close>: \<open>ended\<close> and \<open>attemptMs\<close> are the two looks at the timer after the backend returned.\<close>

definition worker_run ::
  "wording \<Rightarrow> int \<Rightarrow> (int \<times> reporter_call) list \<Rightarrow> int \<Rightarrow> int \<Rightarrow> backend_end \<Rightarrow> worker_signal list" where
  "worker_run words totalSteps calls ended attemptMs e =
     (let (w, signals) = worker_calls totalSteps calls new_worker;
          (w', logged) = logStepDuration ended w
      in signals @ logged @ [LogFileOnly (qs ''Restore attempt took '' @ number_int attemptMs @ qs '' ms'')] @
         worker_verdict words e)"

section \<open>The service the window drives\<close>

datatype FormatRefusal =
    LinuxFormatRefusal FileSystemRefusal
  | WindowsFat32TooLarge
  | WindowsFat32TooSmall u32
  | WindowsNoExt4

record DiskService =
  service_plan :: "RestoreStep list"
  supportedFileSystems :: "FileSystemType list"
  canFormatFileSystem :: "FileSystemType \<Rightarrow> DiskInfo \<Rightarrow> FormatRefusal option"

definition totalRestoreSteps :: "DiskService \<Rightarrow> int" where
  "totalRestoreSteps svc = int (length (service_plan svc))"

definition service_firstDestructiveStep :: "DiskService \<Rightarrow> int" where
  "service_firstDestructiveStep svc = int (firstDestructiveStepOf (service_plan svc))"

text \<open>What the window relies on: a proper plan, and no answer "can format" for a file system it does not offer.\<close>

locale disk_service = restore_plan "service_plan svc" for svc :: DiskService +
  assumes formats_offered: "canFormatFileSystem svc fs disk = None \<Longrightarrow> fs \<in> set (supportedFileSystems svc)"

section \<open>The Linux service\<close>

datatype PrivilegeMode = Elevated | Helper | NoPrivilege

definition privilegeMode :: "nat \<Rightarrow> bool \<Rightarrow> PrivilegeMode" where
  "privilegeMode euid helperAvailable = (if euid = 0 then Elevated else if helperAvailable then Helper else NoPrivilege)"

definition isPrivileged :: "PrivilegeMode \<Rightarrow> bool" where
  "isPrivileged mode \<longleftrightarrow> mode \<noteq> NoPrivilege"

definition linuxSupportedFileSystems :: "FileSystemType list" where
  "linuxSupportedFileSystems = [ExFat, Fat32, Ntfs, Ext4]"

definition linuxDiskService :: DiskService where
  "linuxDiskService =
     \<lparr>service_plan = linuxRestorePlan, supportedFileSystems = linuxSupportedFileSystems,
      canFormatFileSystem = (\<lambda>fs disk. map_option LinuxFormatRefusal (canCreateFileSystemOn fs disk))\<rparr>"

interpretation linux_disks: disk_service linuxDiskService
proof
  show "fs \<in> set (supportedFileSystems linuxDiskService)" for fs
    by (cases fs) (simp_all add: linuxDiskService_def linuxSupportedFileSystems_def)
qed (use linux_plan.restore_plan_axioms in \<open>simp_all add: linuxDiskService_def restore_plan_def\<close>)

text \<open>The reporter calls of a run in this process, oldest first, worded as \<open>reportPlannedStep\<close> does.\<close>

fun call_of :: "helper_texts \<Rightarrow> RestoreRequest \<Rightarrow> event \<Rightarrow> reporter_call list" where
  "call_of texts req (StepReported s) =
     [StepCall (restoreStepMessage (step_wording texts) s (request_style req) (request_fileSystem req))]"
| "call_of texts req (DetailReported d) = [DetailCall (detail_text texts d)]"
| "call_of texts req e = []"

definition direct_calls :: "helper_texts \<Rightarrow> RestoreRequest \<Rightarrow> history \<Rightarrow> reporter_call list" where
  "direct_calls texts req h = concat (map (call_of texts req) (rev h))"

definition direct_end :: "helper_texts \<Rightarrow> bool \<Rightarrow> qstring ending \<Rightarrow> backend_end" where
  "direct_end texts cancel r =
     \<lparr>end_restored = (case r of Ok _ \<Rightarrow> True | _ \<Rightarrow> False),
      end_location = (case r of Ok location \<Rightarrow> location | _ \<Rightarrow> []),
      end_error = (case r of outcome.Failed e \<Rightarrow> error_text texts e EnglishText | _ \<Rightarrow> []),
      end_displayError = (case r of outcome.Failed e \<Rightarrow> error_text texts e DisplayText | _ \<Rightarrow> []),
      end_cancelRequested = cancel\<rparr>"

fun call_of_effect :: "client_effect \<Rightarrow> reporter_call list" where
  "call_of_effect (ShowStep message) = [StepCall message]"
| "call_of_effect (LogDetail text) = [DetailCall text]"
| "call_of_effect _ = []"

definition helper_end_of :: "(HelperRefusal \<Rightarrow> TextMode \<Rightarrow> qstring) \<Rightarrow> bool \<Rightarrow> helper_outcome \<Rightarrow> backend_end" where
  "helper_end_of refusal_text cancel r =
     \<lparr>end_restored = (case r of RestoredAt _ \<Rightarrow> True | _ \<Rightarrow> False),
      end_location = (case r of RestoredAt location \<Rightarrow> location | _ \<Rightarrow> []),
      end_error = (case r of Refused e \<Rightarrow> refusal_text e EnglishText | _ \<Rightarrow> []),
      end_displayError = (case r of Refused e \<Rightarrow> refusal_text e DisplayText | _ \<Rightarrow> []),
      end_cancelRequested = cancel\<rparr>"

text \<open>
  The surroundings of one call: the effective user, the words of the program, the system a run in this
  process meets, and the run of the helper a run through it is. \<open>cancel_flag\<close> is the worker's flag when the
  service has returned.
\<close>

record linux_service =
  service_euid :: nat
  service_texts :: helper_texts
  refusal_words :: "HelperRefusal \<Rightarrow> TextMode \<Rightarrow> qstring"
  service_os :: os
  service_client :: client_env
  service_helper :: helper_run
  cancel_flag :: bool

definition linux_restore :: "linux_service \<Rightarrow> RestoreRequest \<Rightarrow> (reporter_call list \<times> backend_end) option" where
  "linux_restore s req =
     (if service_euid s = 0 then
        (case performLinuxRestore req (service_os s) new_world of
           None \<Rightarrow> None
         | Some (r, w) \<Rightarrow>
             Some (direct_calls (service_texts s) req (happened w), direct_end (service_texts s) (cancel_flag s) r))
      else
        let (r, effects) = runHelperRestore (service_client s) (service_helper s)
        in Some (concat (map call_of_effect effects), helper_end_of (refusal_words s) (cancel_flag s) r))"

section \<open>What the worker signals\<close>

text \<open>The messages of the step calls, in order, and the progress signals they lead to.\<close>

definition step_calls :: "reporter_call list \<Rightarrow> RestoreMessage list" where
  "step_calls calls = concat (map (\<lambda>c. case c of StepCall m \<Rightarrow> [m] | _ \<Rightarrow> []) calls)"

definition progress_of :: "worker_signal list \<Rightarrow> (int \<times> int \<times> qstring) list" where
  "progress_of signals = concat (map (\<lambda>s. case s of Progress n t m \<Rightarrow> [(n, t, m)] | _ \<Rightarrow> []) signals)"

definition verdicts_of :: "worker_signal list \<Rightarrow> worker_signal list" where
  "verdicts_of signals =
     filter (\<lambda>s. case s of WorkerFailed _ \<Rightarrow> True | WorkerCancelled \<Rightarrow> True | WorkerFinished _ \<Rightarrow> True | _ \<Rightarrow> False) signals"

lemma signals_append [simp]:
  "step_calls (a @ b) = step_calls a @ step_calls b" "progress_of (s @ s') = progress_of s @ progress_of s'"
  "verdicts_of (s @ s') = verdicts_of s @ verdicts_of s'"
  by (simp_all add: step_calls_def progress_of_def verdicts_of_def)

lemma signals_cons [simp]:
  "step_calls [] = []" "progress_of [] = []" "verdicts_of [] = []"
  "step_calls (c # cs) = (case c of StepCall m \<Rightarrow> [m] | _ \<Rightarrow> []) @ step_calls cs"
  "progress_of (s # ss) = (case s of Progress n t m \<Rightarrow> [(n, t, m)] | _ \<Rightarrow> []) @ progress_of ss"
  "verdicts_of (s # ss) =
     (case s of WorkerFailed _ \<Rightarrow> [s] | WorkerCancelled \<Rightarrow> [s] | WorkerFinished _ \<Rightarrow> [s] | _ \<Rightarrow> []) @ verdicts_of ss"
  by (simp_all add: step_calls_def progress_of_def verdicts_of_def split: worker_signal.split)

text \<open>Step \<open>k\<close> of a run that stays within the plan is signalled as \<open>k\<close> of the plan's length.\<close>

definition numbered_from :: "int \<Rightarrow> int \<Rightarrow> RestoreMessage list \<Rightarrow> (int \<times> int \<times> qstring) list" where
  "numbered_from k totalSteps ms = map (\<lambda>(i, m). (k + 1 + int i, totalSteps, display m)) (List.enumerate 0 ms)"

lemma numbered_from_Nil [simp]: "numbered_from k totalSteps [] = []"
  by (simp add: numbered_from_def)

lemma numbered_from_Cons [simp]:
  "numbered_from k totalSteps (m # ms) = (k + 1, totalSteps, display m) # numbered_from (k + 1) totalSteps ms"
proof -
  have "List.enumerate 1 ms = map (\<lambda>(i, m). (Suc i, m)) (List.enumerate 0 ms)"
    using enumerate_Suc_eq [of 0 ms] by (simp add: apfst_def map_prod_def)
  then show ?thesis by (simp add: numbered_from_def split_beta comp_def)
qed

lemma worker_calls_signals:
  assumes "worker_step w + int (length (step_calls (map snd calls))) \<le> totalSteps"
  shows "progress_of (snd (worker_calls totalSteps calls w)) = numbered_from (worker_step w) totalSteps (step_calls (map snd calls)) \<and>
    verdicts_of (snd (worker_calls totalSteps calls w)) = []"
  using assms
proof (induction calls arbitrary: w)
  case (Cons c calls)
  obtain now call where c: "c = (now, call)" by (cases c)
  show ?case
  proof (cases call)
    case (StepCall m)
    then have "worker_step (fst (worker_call totalSteps c w)) = worker_step w + 1"
      using Cons.prems by (simp add: c worker_reports_def logStepDuration_def Let_def)
    then show ?thesis
      using Cons.IH [of "fst (worker_call totalSteps c w)"] Cons.prems StepCall
      by (simp add: c split_beta Let_def worker_reports_def logStepDuration_def)
  next
    case (DetailCall t)
    then show ?thesis using Cons.IH [of w] Cons.prems by (simp add: c split_beta Let_def)
  qed
qed simp

lemma worker_verdict_signals:
  "progress_of (worker_verdict words e) = []"
  "verdicts_of (worker_verdict words e) = [last (worker_verdict words e)]"
  by (simp_all add: worker_verdict_def Let_def)

lemma worker_run_signals:
  assumes "int (length (step_calls (map snd calls))) \<le> totalSteps"
  shows "progress_of (worker_run words totalSteps calls ended attemptMs e) = numbered_from 0 totalSteps (step_calls (map snd calls))"
    and "verdicts_of (worker_run words totalSteps calls ended attemptMs e) = [last (worker_verdict words e)]"
  using worker_calls_signals [of new_worker calls totalSteps] assms worker_verdict_signals [of words e]
  by (simp_all add: worker_run_def split_beta Let_def new_worker_def logStepDuration_def)

lemma direct_step_calls:
  "step_calls (direct_calls texts req h) =
     map (\<lambda>s. restoreStepMessage (step_wording texts) s (request_style req) (request_fileSystem req)) (reported h)"
proof (induction h)
  case (Cons e h)
  then show ?case by (cases e) (simp_all add: direct_calls_def reported_def)
qed (simp add: direct_calls_def reported_def)

end
