(* ===== verification/Restore_Dialog.thy ===== *)
theory Restore_Dialog
  imports Restore_Session
begin

text \<open>
  The dialog that confirms, shows and concludes one restore, \<open>src/gui/restore_dialog.cpp\<close>: its stages, its rows,
  and which of its widgets can be used when. Layout and painting are left out; a widget is what the code
  sets on it.

  \<^item> A text on screen is a \<open>shown_text\<close>: the source text given to \<open>tr\<close> with its arguments, or a text passed in;
    the ellipsis character is written as three dots.
  \<^item> A \<open>dialog_input\<close> is what a user can do; a widget that is hidden or disabled does not react, as in Qt.
  \<^item> \<open>now\<close> is what the dialog's timer shows.
\<close>

section \<open>The state of the dialog\<close>

datatype Stage = Confirmation | Running | Finished

text \<open>\<open>StepDone ms\<close> is the text of a finished step with its duration as \<open>formatDecimal\<close> prints it.\<close>

datatype shown_text =
    Tr string "qstring list"
  | Verbatim qstring
  | StepDone int
  | Elapsed int

record StepRow =
  row_state :: string
  row_text :: shown_text

record RestoreDialog =
  dialog_rows :: "StepRow list"
  dialog_step :: int
  firstDestructiveStep :: int
  stage :: Stage
  cancelling :: bool
  stepStartedMs :: int
  hero :: string
  window_title :: shown_text
  dialog_title :: shown_text
  eyebrow :: shown_text
  dialog_message :: shown_text
  counter_text :: shown_text
  counter_state :: string
  clock :: shown_text
  notice :: shown_text
  progress_value :: int
  progress_maximum :: int
  page :: nat
  acknowledged :: bool
  acknowledgement_enabled :: bool
  erase_enabled :: bool
  erase_visible :: bool
  cancel_enabled :: bool
  cancel_visible :: bool
  cancel_text :: shown_text
  log_visible :: bool
  done_visible :: bool
  timer_active :: bool
  dialog_visible :: bool

datatype dialog_signal = RestoreConfirmed | CancelRequested | OpenLogRequested

fun stepTitle :: "RestoreStep \<Rightarrow> shown_text" where
  "stepTitle VerifyDisk = Tr ''Check drive safety'' []"
| "stepTitle IdentifyDevice = Tr ''Confirm drive identity'' []"
| "stepTitle Unmount = Tr ''Unmount existing volumes'' []"
| "stepTitle OpenExclusive = Tr ''Claim exclusive access'' []"
| "stepTitle OpenDrive = Tr ''Open the drive'' []"
| "stepTitle RefreshMetadata = Tr ''Refresh drive information'' []"
| "stepTitle DetachDriveLetters = Tr ''Disconnect existing volumes'' []"
| "stepTitle DeletePartitions = Tr ''Remove old partitions'' []"
| "stepTitle LockDrive = Tr ''Lock the drive'' []"
| "stepTitle ClearSignatures = Tr ''Clear old disk signatures'' []"
| "stepTitle ResetToRaw = Tr ''Reset the disk layout'' []"
| "stepTitle WritePartitionTable = Tr ''Write the partition table'' []"
| "stepTitle CreatePartition = Tr ''Create the new partition'' []"
| "stepTitle RereadPartitionTable = Tr ''Reload the partition table'' []"
| "stepTitle WaitForPartition = Tr ''Wait for the new partition'' []"
| "stepTitle WaitForVolume = Tr ''Wait for the new volume'' []"
| "stepTitle RefreshNewVolume = Tr ''Refresh the new volume'' []"
| "stepTitle AssignDriveLetter = Tr ''Assign a drive letter'' []"
| "stepTitle Format = Tr ''Format the filesystem'' []"
| "stepTitle Complete = Tr ''Finish the restore'' []"

text \<open>The state a new dialog is built in; the two sentences are those the code writes over several literals.\<close>

definition new_dialog :: "RestoreStep list \<Rightarrow> RestoreDialog" where
  "new_dialog plan =
     \<lparr>dialog_rows = map (\<lambda>s. \<lparr>row_state = ''pending'', row_text = Tr ''Waiting'' []\<rparr>) plan,
      dialog_step = 0, firstDestructiveStep = int (firstDestructiveStepOf plan), stage = Confirmation,
      cancelling = False, stepStartedMs = 0, hero = ''confirmation'',
      window_title = Tr ''Confirm USB restore'' [], dialog_title = Tr ''Erase this USB drive?'' [],
      eyebrow = Tr ''CHECK BEFORE ERASING'' [],
      dialog_message = Tr ''Preparing the restore. Approve the system permission prompt if asked.'' [],
      counter_text = Tr (''Preparing '' @ [CHR 0xB7] @ '' %1 steps'') [number (length plan)], counter_state = '''',
      clock = Tr ''Elapsed 0:00'' [],
      notice = Tr ''Keep the drive connected. You can request cancellation before writing begins.'' [],
      progress_value = 0, progress_maximum = int (length plan), page = 0,
      acknowledged = False, acknowledgement_enabled = True, erase_enabled = False, erase_visible = True,
      cancel_enabled = True, cancel_visible = True, cancel_text = Tr ''Cancel'' [], log_visible = False,
      done_visible = False, timer_active = False, dialog_visible = False\<rparr>"

definition show_dialog :: "RestoreDialog \<Rightarrow> RestoreDialog" where
  "show_dialog d = d\<lparr>dialog_visible := True\<rparr>"

section \<open>Operations\<close>

definition updateClock :: "int \<Rightarrow> RestoreDialog \<Rightarrow> RestoreDialog" where
  "updateClock now d = d\<lparr>clock := Elapsed (now div 1000)\<rparr>"

definition toggle_acknowledgement :: "bool \<Rightarrow> RestoreDialog \<Rightarrow> RestoreDialog" where
  "toggle_acknowledgement checked d =
     d\<lparr>acknowledged := checked, erase_enabled := (stage d = Confirmation \<and> checked)\<rparr>"

definition confirmRestore :: "RestoreDialog \<Rightarrow> RestoreDialog \<times> dialog_signal list" where
  "confirmRestore d =
     (if stage d \<noteq> Confirmation \<or> \<not> acknowledged d then (d, [])
      else (d\<lparr>stage := Running, erase_enabled := False, erase_visible := False, acknowledgement_enabled := False,
              cancel_text := Tr ''Cancel restore'' [], log_visible := True, page := 1,
              window_title := Tr ''Restoring USB drive'' [], eyebrow := Tr ''A FRESH START'' [],
              dialog_title := Tr ''Restoring your USB'' [], hero := ''active'', timer_active := True\<rparr>,
            [RestoreConfirmed]))"

definition set_row :: "int \<Rightarrow> string \<Rightarrow> shown_text \<Rightarrow> StepRow list \<Rightarrow> StepRow list" where
  "set_row k state' text' rows = rows[nat (k - 1) := \<lparr>row_state = state', row_text = text'\<rparr>]"

definition completeCurrentStep :: "int \<Rightarrow> RestoreDialog \<Rightarrow> RestoreDialog" where
  "completeCurrentStep now d =
     (if dialog_step d = 0 then d
      else d\<lparr>dialog_rows := set_row (dialog_step d) ''complete'' (StepDone (now - stepStartedMs d)) (dialog_rows d)\<rparr>)"

definition setProgress :: "int \<Rightarrow> int \<Rightarrow> int \<Rightarrow> qstring \<Rightarrow> RestoreDialog \<Rightarrow> RestoreDialog \<times> bool" where
  "setProgress now step totalSteps message d =
     (if stage d \<noteq> Running \<or> totalSteps \<noteq> int (length (dialog_rows d)) \<or> step \<noteq> dialog_step d + 1 \<or>
         step > int (length (dialog_rows d)) then (d, False)
      else
        let d1 = completeCurrentStep now d;
            d2 = d1\<lparr>dialog_step := step, stepStartedMs := now,
              dialog_rows := set_row step ''active'' (Tr ''In progress'' []) (dialog_rows d1),
              dialog_message := Verbatim message,
              counter_text := Tr ''Step %1 of %2'' [number_int step, number_int totalSteps],
              progress_value := step - 1\<rparr>;
            d3 = (if step \<ge> firstDestructiveStep d2 then
                d2\<lparr>cancel_enabled := False, cancel_text := Tr ''Writing in progress'' [],
                   notice := Tr ''The disk is being rewritten. Keep it connected and wait for the result.'' []\<rparr>
              else if \<not> cancelling d2 then
                d2\<lparr>notice := Tr ''Keep the drive connected. Cancellation stops at the next safe checkpoint.'' []\<rparr>
              else d2)
        in (d3, True))"

definition setNotice :: "shown_text \<Rightarrow> RestoreDialog \<Rightarrow> RestoreDialog" where
  "setNotice message d = (if stage d = Running \<and> \<not> cancelling d then d\<lparr>notice := message\<rparr> else d)"

definition setCancelling :: "RestoreDialog \<Rightarrow> RestoreDialog" where
  "setCancelling d =
     (if stage d \<noteq> Running \<or> dialog_step d \<ge> firstDestructiveStep d \<or> cancelling d then d
      else d\<lparr>cancelling := True, cancel_enabled := False, cancel_text := Tr ''Stopping...'' [],
             notice := Tr (''Cancellation requested. Waiting for a safe checkpoint; if writing has already '' @
               ''begun, the restore will finish instead. Keep the drive connected.'') []\<rparr>)"

text \<open>The rows from index \<open>k\<close> on say that they were not run.\<close>

definition mark_not_run :: "int \<Rightarrow> StepRow list \<Rightarrow> StepRow list" where
  "mark_not_run k rows = take (nat k) rows @ map (\<lambda>r. r\<lparr>row_text := Tr ''Not run'' []\<rparr>) (drop (nat k) rows)"

definition finish_dialog :: "int \<Rightarrow> string \<Rightarrow> shown_text \<Rightarrow> string \<Rightarrow> RestoreDialog \<Rightarrow> RestoreDialog" where
  "finish_dialog now title' message result d =
     (if stage d \<noteq> Running then d
      else
        let d1 = updateClock now (d\<lparr>stage := Finished, timer_active := False\<rparr>);
            d2 = d1\<lparr>window_title := Tr title' [], dialog_title := Tr title' [], dialog_message := message,
                    hero := result, counter_state := result\<rparr>;
            d3 = (if result = ''complete'' then
                let e = completeCurrentStep now d2
                in e\<lparr>progress_value := progress_maximum e,
                     counter_text := Tr ''All %1 steps completed'' [number (length (dialog_rows e))],
                     notice := Tr ''Your USB drive is ready to use. Eject it through your system before unplugging.'' []\<rparr>
              else
                let failed = (result = ''error'');
                    rows = (if dialog_step d2 > 0
                      then set_row (dialog_step d2) result (Tr (if failed then ''Failed'' else ''Stopped'') []) (dialog_rows d2)
                      else dialog_rows d2)
                in d2\<lparr>dialog_rows := mark_not_run (dialog_step d2) rows,
                      counter_text := Tr (if failed then ''Restore not completed'' else ''Cancelled before erasing'') [],
                      notice := Tr (if failed
                        then ''Read the error above before retrying. The log file contains more details.''
                        else ''Existing volumes may need to be mounted again or have their drive letters reassigned.'') []\<rparr>)
        in d3\<lparr>cancel_visible := False, done_visible := True\<rparr>)"

definition finishSuccess :: "int \<Rightarrow> shown_text \<Rightarrow> RestoreDialog \<Rightarrow> RestoreDialog" where
  "finishSuccess now message = finish_dialog now ''Restore complete'' message ''complete''"

definition finishFailure :: "int \<Rightarrow> shown_text \<Rightarrow> RestoreDialog \<Rightarrow> RestoreDialog" where
  "finishFailure now message = finish_dialog now ''Restore failed'' message ''error''"

definition finishCancelled :: "int \<Rightarrow> shown_text \<Rightarrow> RestoreDialog \<Rightarrow> RestoreDialog" where
  "finishCancelled now message = finish_dialog now ''Restore cancelled'' message ''cancelled''"

text \<open>\<open>done\<close>, which Escape, the close button, \<open>reject\<close> and \<open>accept\<close> all lead to.\<close>

definition dismiss :: "RestoreDialog \<Rightarrow> RestoreDialog" where
  "dismiss d =
     (if stage d \<noteq> Running then
        let d1 = (if stage d = Confirmation
              then d\<lparr>stage := Finished, erase_enabled := False, acknowledgement_enabled := False\<rparr> else d)
        in d1\<lparr>dialog_visible := False\<rparr>
      else d)"

section \<open>What a user can do\<close>

datatype dialog_input = Acknowledge bool | ClickErase | ClickCancel | ClickDone | ClickLog | CloseDialog

definition clickCancel :: "RestoreDialog \<Rightarrow> RestoreDialog \<times> dialog_signal list" where
  "clickCancel d =
     (case stage d of
        Confirmation \<Rightarrow> (dismiss d, [])
      | Running \<Rightarrow> (d, [CancelRequested])
      | Finished \<Rightarrow> (d, []))"

fun dialog_reacts :: "dialog_input \<Rightarrow> RestoreDialog \<Rightarrow> RestoreDialog \<times> dialog_signal list" where
  "dialog_reacts (Acknowledge checked) d =
     (if dialog_visible d \<and> page d = 0 \<and> acknowledgement_enabled d then (toggle_acknowledgement checked d, []) else (d, []))"
| "dialog_reacts ClickErase d =
     (if dialog_visible d \<and> erase_visible d \<and> erase_enabled d then confirmRestore d else (d, []))"
| "dialog_reacts ClickCancel d =
     (if dialog_visible d \<and> cancel_visible d \<and> cancel_enabled d then clickCancel d else (d, []))"
| "dialog_reacts ClickDone d = (if dialog_visible d \<and> done_visible d then (dismiss d, []) else (d, []))"
| "dialog_reacts ClickLog d = (if dialog_visible d \<and> log_visible d then (d, [OpenLogRequested]) else (d, []))"
| "dialog_reacts CloseDialog d = (if dialog_visible d then (dismiss d, []) else (d, []))"

section \<open>What the dialog keeps\<close>

text \<open>
  The rows of a dialog at step \<open>k\<close> that ends with \<open>last\<close>: the steps before are complete, the current one is
  \<open>last\<close>, the rest are pending.
\<close>

definition row_states :: "nat \<Rightarrow> nat \<Rightarrow> string \<Rightarrow> string list" where
  "row_states n k current =
     (if k = 0 then replicate n ''pending''
      else replicate (k - 1) ''complete'' @ current # replicate (n - k) ''pending'')"

definition states_of :: "RestoreDialog \<Rightarrow> string list" where
  "states_of d = map row_state (dialog_rows d)"

definition dialog_ok :: "RestoreStep list \<Rightarrow> RestoreDialog \<Rightarrow> bool" where
  "dialog_ok plan d \<longleftrightarrow>
     length (dialog_rows d) = length plan \<and> progress_maximum d = int (length plan) \<and>
     firstDestructiveStep d = int (firstDestructiveStepOf plan) \<and>
     0 \<le> dialog_step d \<and> dialog_step d \<le> int (length plan) \<and>
     (timer_active d \<longleftrightarrow> stage d = Running) \<and> (done_visible d \<longrightarrow> stage d = Finished) \<and>
     (case stage d of
        Confirmation \<Rightarrow> dialog_step d = 0 \<and> \<not> cancelling d \<and> erase_enabled d = acknowledged d \<and> erase_visible d \<and>
          dialog_visible d \<and> cancel_enabled d \<and> cancel_visible d \<and> page d = 0 \<and> hero d = ''confirmation''
      | Running \<Rightarrow> hero d = ''active'' \<and> acknowledged d \<and> \<not> erase_enabled d \<and> \<not> erase_visible d \<and> dialog_visible d \<and>
          page d = 1 \<and> cancel_visible d \<and>
          (cancel_enabled d \<longleftrightarrow> dialog_step d < firstDestructiveStep d \<and> \<not> cancelling d)
      | Finished \<Rightarrow> \<not> erase_enabled d \<and>
          (hero d \<in> {''complete'', ''error'', ''cancelled''} \<or> hero d = ''confirmation'' \<and> dialog_step d = 0)) \<and>
     states_of d = row_states (length plan) (nat (dialog_step d)) (hero d)"

lemma states_of_set_row: "map row_state (set_row k s t rows) = (map row_state rows)[nat (k - 1) := s]"
  by (simp add: set_row_def map_update)

lemma length_set_row [simp]: "length (set_row k s t rows) = length rows"
  by (simp add: set_row_def)

lemma states_mark_not_run: "map row_state (mark_not_run k rows) = map row_state rows"
proof -
  have "map row_state (mark_not_run k rows) = map row_state (take (nat k) rows @ drop (nat k) rows)"
    by (simp add: mark_not_run_def comp_def del: append_take_drop_id)
  then show ?thesis by simp
qed

lemma length_mark_not_run [simp]: "length (mark_not_run k rows) = length rows"
  by (simp add: mark_not_run_def)

text \<open>The current row changes its state; the next row becomes current.\<close>

lemma row_states_current:
  assumes "0 < k" "k \<le> int n"
  shows "(row_states n (nat k) current)[nat (k - 1) := new] = row_states n (nat k) new"
proof -
  have "nat (k - 1) = nat k - 1" "nat k \<noteq> 0" using assms by (simp_all add: nat_diff_distrib)
  then show ?thesis by (simp add: row_states_def list_update_append)
qed

lemma row_states_next:
  assumes "k < n"
  shows "(row_states n k ''complete'')[k := current] = row_states n (Suc k) current"
proof (cases "k = 0")
  case True
  with assms obtain m where "n = Suc m" by (cases n) auto
  with True show ?thesis by (simp add: row_states_def)
next
  case False
  then have k: "replicate (k - 1) c @ [c] = replicate k c" for c :: string
    by (metis Suc_diff_1 neq0_conv replicate_Suc replicate_append_same)
  from assms obtain m where m: "n - k = Suc m" "n - Suc k = m" by (metis Suc_diff_Suc)
  have "row_states n k ''complete'' = (replicate (k - 1) ''complete'' @ [''complete'']) @ replicate (Suc m) ''pending''"
    using False m(1) by (simp add: row_states_def)
  then show ?thesis unfolding k using False m(2) by (simp add: row_states_def list_update_append)
qed

lemma row_states_complete: "row_states n n ''complete'' = replicate n ''complete''"
  by (cases n) (simp_all add: row_states_def replicate_append_same)

lemma new_dialog_ok: "dialog_ok plan (show_dialog (new_dialog plan))"
  by (simp_all add: dialog_ok_def new_dialog_def show_dialog_def states_of_def row_states_def map_replicate_const)

lemma toggle_ok: "dialog_ok plan d \<Longrightarrow> stage d = Confirmation \<Longrightarrow> dialog_ok plan (toggle_acknowledgement checked d)"
  by (simp add: dialog_ok_def toggle_acknowledgement_def states_of_def)

lemma dismiss_ok: "dialog_ok plan d \<Longrightarrow> dialog_ok plan (dismiss d)"
  by (cases "stage d") (auto simp: dialog_ok_def dismiss_def states_of_def row_states_def)

lemma confirm_ok:
  "dialog_ok plan d \<Longrightarrow> dialog_visible d \<Longrightarrow> 1 < firstDestructiveStepOf plan \<Longrightarrow> dialog_ok plan (fst (confirmRestore d))"
  by (cases "stage d") (auto simp: dialog_ok_def confirmRestore_def states_of_def row_states_def)

lemma running_ok:
  assumes "dialog_ok plan d" "stage d = Running"
  shows "states_of d = row_states (length plan) (nat (dialog_step d)) ''active''" "0 \<le> dialog_step d"
    "dialog_step d \<le> int (length plan)" "length (dialog_rows d) = length plan"
  using assms by (simp_all add: dialog_ok_def)

lemma current_row:
  assumes "dialog_ok plan d" "stage d = Running" "dialog_step d \<noteq> 0"
  shows "(states_of d)[nat (dialog_step d - 1) := new] = row_states (length plan) (nat (dialog_step d)) new"
  using running_ok [OF assms(1,2)] assms(3) row_states_current [of "dialog_step d" "length plan" "''active''" new] by simp

lemma complete_current:
  assumes "dialog_ok plan d" "stage d = Running"
  shows "states_of (completeCurrentStep now d) = row_states (length plan) (nat (dialog_step d)) ''complete''"
  using running_ok(1) [OF assms] current_row [OF assms, of "''complete''"]
  by (cases "dialog_step d = 0") (simp_all add: completeCurrentStep_def states_of_def states_of_set_row row_states_def)

lemma setProgress_ok:
  assumes ok: "dialog_ok plan d"
  shows "dialog_ok plan (fst (setProgress now step totalSteps message d))"
proof (cases "snd (setProgress now step totalSteps message d)")
  case True
  then have run: "stage d = Running" and step: "step = dialog_step d + 1" "step \<le> int (length plan)" "0 \<le> dialog_step d"
    using ok by (auto simp: setProgress_def dialog_ok_def Let_def split: if_splits)
  have "(row_states (length plan) (nat (dialog_step d)) ''complete'')[nat (dialog_step d) := ''active''] =
      row_states (length plan) (nat step) ''active''"
    using row_states_next [of "nat (dialog_step d)" "length plan" "''active''"] step by (simp add: Suc_nat_eq_nat_zadd1 add.commute)
  then have "states_of (fst (setProgress now step totalSteps message d)) = row_states (length plan) (nat step) ''active''"
    using complete_current [OF ok run, of now] True step
    by (simp add: setProgress_def Let_def states_of_def states_of_set_row split: if_splits)
  then show ?thesis
    using ok run step True
    by (auto simp: setProgress_def Let_def dialog_ok_def completeCurrentStep_def split: if_splits)
qed (use ok in \<open>auto simp: setProgress_def Let_def split: if_splits\<close>)

text \<open>An outcome reaches a dialog that shows a restore, and no other; its rows then say how far the restore came.\<close>

lemma finish_states:
  assumes ok: "dialog_ok plan d" and run: "stage d = Running" and result: "result \<in> {''complete'', ''error'', ''cancelled''}"
  shows "states_of (finish_dialog now title' message result d) = row_states (length plan) (nat (dialog_step d)) result"
proof (cases "result = ''complete''")
  case True
  have "states_of (finish_dialog now title' message result d) = states_of (completeCurrentStep now d)"
    using run True by (simp add: finish_dialog_def Let_def states_of_def completeCurrentStep_def updateClock_def)
  then show ?thesis using complete_current [OF ok run] True by simp
next
  case False
  have "states_of (finish_dialog now title' message result d) =
      (if dialog_step d > 0 then (states_of d)[nat (dialog_step d - 1) := result] else states_of d)"
    using run False
    by (simp add: finish_dialog_def Let_def states_of_def updateClock_def states_mark_not_run states_of_set_row)
  then show ?thesis
    using running_ok [OF ok run] current_row [OF ok run, of result] by (simp add: row_states_def)
qed

lemma finish_fields:
  assumes "stage d = Running"
  shows "stage (finish_dialog now title' message result d) = Finished"
    "dialog_step (finish_dialog now title' message result d) = dialog_step d"
    "length (dialog_rows (finish_dialog now title' message result d)) = length (dialog_rows d)"
    "hero (finish_dialog now title' message result d) = result"
    "dialog_message (finish_dialog now title' message result d) = message"
    "erase_enabled (finish_dialog now title' message result d) = erase_enabled d"
    "done_visible (finish_dialog now title' message result d)" "\<not> timer_active (finish_dialog now title' message result d)"
    "dialog_visible (finish_dialog now title' message result d) = dialog_visible d"
    "firstDestructiveStep (finish_dialog now title' message result d) = firstDestructiveStep d"
    "progress_maximum (finish_dialog now title' message result d) = progress_maximum d"
  using assms by (simp_all add: finish_dialog_def Let_def updateClock_def completeCurrentStep_def)

lemma finish_ok:
  assumes "dialog_ok plan d" "result \<in> {''complete'', ''error'', ''cancelled''}"
  shows "dialog_ok plan (finish_dialog now title' message result d)"
proof (cases "stage d = Running")
  case True
  have facts: "\<not> erase_enabled d" "length (dialog_rows d) = length plan" "progress_maximum d = int (length plan)"
    "firstDestructiveStep d = int (firstDestructiveStepOf plan)" "0 \<le> dialog_step d" "dialog_step d \<le> int (length plan)"
    using assms(1) True by (simp_all add: dialog_ok_def)
  then show ?thesis
    using finish_states [OF assms(1) True assms(2)] assms(2) by (simp add: dialog_ok_def finish_fields [OF True])
qed (use assms in \<open>simp add: finish_dialog_def\<close>)

lemma finishers_ok:
  assumes "dialog_ok plan d"
  shows "dialog_ok plan (finishSuccess now m d)" "dialog_ok plan (finishFailure now m d)" "dialog_ok plan (finishCancelled now m d)"
  using finish_ok [OF assms] by (simp_all add: finishSuccess_def finishFailure_def finishCancelled_def)

lemma setCancelling_ok: "dialog_ok plan d \<Longrightarrow> dialog_ok plan (setCancelling d)"
  by (auto simp: dialog_ok_def setCancelling_def states_of_def)

lemma setNotice_ok: "dialog_ok plan d \<Longrightarrow> dialog_ok plan (setNotice m d)"
  by (auto simp: dialog_ok_def setNotice_def states_of_def)

lemma reacts_ok:
  assumes "dialog_ok plan d" "1 < firstDestructiveStepOf plan"
  shows "dialog_ok plan (fst (dialog_reacts input d))"
proof (cases input)
  case (Acknowledge checked)
  then show ?thesis
    using assms toggle_ok [OF assms(1), of checked]
    by (cases "stage d") (auto simp: dialog_ok_def toggle_acknowledgement_def states_of_def)
next
  case ClickErase
  then show ?thesis using assms confirm_ok [OF assms(1) _ assms(2)] by simp
qed (use assms dismiss_ok [OF assms(1)] in \<open>auto simp: clickCancel_def split: Stage.split\<close>)

text \<open>Only the confirmed dialog starts a restore, and only a running one asks to cancel it.\<close>

lemma reacts_signals:
  assumes "dialog_reacts input d = (d', emitted)"
  shows "RestoreConfirmed \<in> set emitted \<longleftrightarrow> stage d = Confirmation \<and> stage d' = Running"
    and "RestoreConfirmed \<in> set emitted \<Longrightarrow> acknowledged d \<and> erase_enabled d \<and> dialog_visible d \<and> input = ClickErase"
    and "CancelRequested \<in> set emitted \<Longrightarrow> stage d = Running \<and> cancel_enabled d \<and> d' = d"
    and "stage d' \<noteq> stage d \<Longrightarrow> stage d = Confirmation"
    and "dialog_visible d' \<Longrightarrow> dialog_visible d"
    and "emitted \<in> {[], [RestoreConfirmed], [CancelRequested], [OpenLogRequested]}"
    and "RestoreConfirmed \<in> set emitted \<Longrightarrow> dialog_step d' = dialog_step d \<and> cancelling d' = cancelling d"
  using assms
  by (cases input; auto simp: toggle_acknowledgement_def confirmRestore_def clickCancel_def dismiss_def Let_def
      split: if_splits Stage.splits)+

text \<open>The two buttons that matter emit their signals exactly when they may.\<close>

lemma erase_click:
  "dialog_ok plan d \<Longrightarrow> RestoreConfirmed \<in> set (snd (dialog_reacts ClickErase d)) \<longleftrightarrow> stage d = Confirmation \<and> acknowledged d"
  by (cases "stage d") (auto simp: dialog_ok_def confirmRestore_def)

lemma cancel_click:
  "dialog_ok plan d \<Longrightarrow> CancelRequested \<in> set (snd (dialog_reacts ClickCancel d)) \<longleftrightarrow>
     stage d = Running \<and> dialog_step d < int (firstDestructiveStepOf plan) \<and> \<not> cancelling d"
  by (cases "stage d") (auto simp: dialog_ok_def clickCancel_def)

lemma running_unmoved:
  assumes "dialog_ok plan d" "stage d = Running"
  shows "fst (dialog_reacts input d) = d"
  using assms by (cases input) (auto simp: dialog_ok_def clickCancel_def dismiss_def confirmRestore_def)

end
