(* ===== verification/App_Settings.thy ===== *)
theory App_Settings
  imports Disk_Info
begin

text \<open>
  What the window remembers between sessions, \<open>src/gui/app_settings.cpp\<close>, and the choice of theme and the
  status colours of \<open>src/gui/theme.cpp\<close>. A \<open>QSettings\<close> store maps keys to values; \<open>setting_int\<close>,
  \<open>setting_text\<close> and \<open>setting_bytes\<close> are the conversions of \<open>QVariant\<close> for the values the program stores, a
  number read back from a text file being a text.
\<close>

section \<open>Themes\<close>

datatype Theme = SystemTheme | LightTheme | DarkTheme

definition themeFromSettings :: "int \<Rightarrow> Theme" where
  "themeFromSettings value = (if value = 1 then LightTheme else if value = 2 then DarkTheme else SystemTheme)"

fun themeToSettings :: "Theme \<Rightarrow> int" where
  "themeToSettings LightTheme = 1"
| "themeToSettings DarkTheme = 2"
| "themeToSettings SystemTheme = 0"

fun themeButtonText :: "Theme \<Rightarrow> string" where
  "themeButtonText SystemTheme = ''Theme: Auto''"
| "themeButtonText LightTheme = ''Theme: Light''"
| "themeButtonText DarkTheme = ''Theme: Dark''"

fun next_theme :: "Theme \<Rightarrow> Theme" where
  "next_theme SystemTheme = LightTheme"
| "next_theme LightTheme = DarkTheme"
| "next_theme DarkTheme = SystemTheme"

datatype ColorScheme = LightScheme | DarkScheme

text \<open>\<open>system_dark\<close> is what the style hints of the desktop say.\<close>

fun resolveColorScheme :: "bool \<Rightarrow> Theme \<Rightarrow> ColorScheme" where
  "resolveColorScheme system_dark LightTheme = LightScheme"
| "resolveColorScheme system_dark DarkTheme = DarkScheme"
| "resolveColorScheme system_dark SystemTheme = (if system_dark then DarkScheme else LightScheme)"

datatype StatusKind = InfoStatus | ReadyStatus | WarningStatus | BlockedStatus | RunningStatus | ErrorStatus

fun statusBadgePrefix :: "StatusKind \<Rightarrow> qstring" where
  "statusBadgePrefix ErrorStatus = [0x2717, 0x20]"
| "statusBadgePrefix WarningStatus = [0x26A0, 0x20]"
| "statusBadgePrefix BlockedStatus = [0x26A0, 0x20]"
| "statusBadgePrefix RunningStatus = [0x2022, 0x20]"
| "statusBadgePrefix ReadyStatus = []"
| "statusBadgePrefix InfoStatus = []"

section \<open>The settings\<close>

record AppSettings =
  theme :: Theme
  language :: Language
  geometry :: bytes
  settings_partitionStyle :: PartitionStyle
  settings_fileSystem :: FileSystemType

datatype setting = NumberSetting int | TextSetting qstring | BytesSetting bytes

type_synonym store = "string \<Rightarrow> setting option"

definition setting_int :: "setting \<Rightarrow> int" where
  "setting_int s =
     (case s of
        NumberSetting n \<Rightarrow> n
      | TextSetting t \<Rightarrow> (case to_int t of Some n \<Rightarrow> n | None \<Rightarrow> 0)
      | BytesSetting b \<Rightarrow> (case to_int (from_latin1 b) of Some n \<Rightarrow> n | None \<Rightarrow> 0))"

definition setting_text :: "setting \<Rightarrow> qstring" where
  "setting_text s =
     (case s of NumberSetting n \<Rightarrow> number_int n | TextSetting t \<Rightarrow> t | BytesSetting b \<Rightarrow> from_latin1 b)"

definition setting_bytes :: "setting \<Rightarrow> bytes" where
  "setting_bytes s = (case s of BytesSetting b \<Rightarrow> b | _ \<Rightarrow> [])"

definition loadAppSettings :: "store \<Rightarrow> AppSettings" where
  "loadAppSettings settings =
     (let style = (case settings ''partitionStyle'' of
            Some s \<Rightarrow> setting_int s | None \<Rightarrow> uint (partition_style_code Gpt));
          fileSystem = (case settings ''fileSystem'' of
            Some s \<Rightarrow> setting_int s | None \<Rightarrow> uint (file_system_code ExFat))
      in \<lparr>theme = (case settings ''theme'' of Some s \<Rightarrow> themeFromSettings (setting_int s) | None \<Rightarrow> SystemTheme),
          language = languageFromSettings (case settings ''language'' of Some s \<Rightarrow> setting_text s | None \<Rightarrow> []),
          geometry = (case settings ''geometry'' of Some s \<Rightarrow> setting_bytes s | None \<Rightarrow> []),
          settings_partitionStyle = (if style = uint (partition_style_code Mbr) then Mbr else Gpt),
          settings_fileSystem =
            (case find (\<lambda>fs. file_system_code fs = word_of_int fileSystem) [ExFat, Fat32, Ntfs, Ext4] of
               Some fs \<Rightarrow> fs | None \<Rightarrow> ExFat)\<rparr>)"

definition saveAppSettings :: "AppSettings \<Rightarrow> store \<Rightarrow> store" where
  "saveAppSettings s settings =
     settings(''theme'' \<mapsto> NumberSetting (themeToSettings (theme s)),
       ''language'' \<mapsto> TextSetting (languageToSettings (language s)),
       ''geometry'' \<mapsto> BytesSetting (geometry s),
       ''partitionStyle'' \<mapsto> NumberSetting (uint (partition_style_code (settings_partitionStyle s))),
       ''fileSystem'' \<mapsto> NumberSetting (uint (file_system_code (settings_fileSystem s))))"

lemma theme_round_trip [simp]: "themeFromSettings (themeToSettings t) = t"
  by (cases t) (simp_all add: themeFromSettings_def)

lemma saved_settings_load:
  assumes "settings_partitionStyle s \<in> {Gpt, Mbr}"
  shows "loadAppSettings (saveAppSettings s settings) = s"
  using assms
  by (cases "settings_fileSystem s"; cases "language s"; cases s)
    (auto simp: loadAppSettings_def saveAppSettings_def setting_int_def setting_text_def setting_bytes_def
      languageFromSettings_def qs_def qc_def)

end
