(* ===== verification/Main_Window.thy ===== *)
theory Main_Window
  imports Restore_Worker Restore_Dialog App_Settings
begin

text \<open>
  The main window, \<open>src/gui/main_window.cpp\<close>: the list of disks, the gate in front of the restore button, and the
  life of one restore from the confirmation dialog to its outcome. Layout and fonts are left out; a widget is
  what the code sets on it, and its texts are in \<open>Window_View\<close>.

  \<^item> The handlers are functions on the window that also return what they ask of the outside, a
    \<open>window_effect\<close>; they are the slots of the code, in its order.
  \<^item> \<open>Window_Runs\<close> lets them interleave with the user, the scan thread, the restore thread and the timers. A
    modal dialog keeps the user from the window behind it.
  \<^item> The scan returns any list of disks and any guard; the restore thread emits the signals of any run of the
    worker. What is invariant of the reachable states therefore does not depend on the backend.
\<close>

section \<open>The state of the window\<close>

definition RestoreVolumeLabel :: qstring where
  "RestoreVolumeLabel = qs ''USB''"

definition StallCountSeconds :: int where "StallCountSeconds = 15"
definition StallExplainSeconds :: int where "StallExplainSeconds = 60"

datatype status_detail =
    NoDetail
  | ScanProblem qstring
  | NothingPlugged
  | RefusedDisk SafetyRefusal
  | RefusedLayout LayoutError
  | RefusedFormat FormatRefusal
  | LargeDisk u64
  | DiskContents "qstring list"

datatype status_text =
    Scanning
  | ScanFailed
  | SelectADisk
  | WillNotBeRestored
  | CannotBeUsed
  | CheckTheDisk
  | ReadyToRestore DiskInfo PartitionStyle FileSystemType
  | RestoringDisk qstring

record MainWindow =
  scanning :: bool
  restoreRunning :: bool
  disks :: "DiskInfo list"
  scanError :: RestoreMessage
  window_guard :: RestoreGuard
  currentRow :: int
  styleChoice :: PartitionStyle
  fileSystemChoice :: FileSystemType
  status :: StatusKind
  statusText :: status_text
  statusDetail :: status_detail
  list_enabled :: bool
  refresh_enabled :: bool
  language_enabled :: bool
  combos_enabled :: bool
  restore_enabled :: bool
  restoreDialog :: "RestoreDialog option"
  restoreStep :: int
  stallNoticeShown :: bool
  stallTimer :: bool
  restoreFileSystem :: FileSystemType
  has_worker :: bool
  language_setting :: Language
  theme_setting :: Theme

datatype window_effect =
    StartScan
  | BeginWorker RestoreRequest
  | RequestCancel
  | RefusalBox
  | LogLine string
  | SaveSettings
  | OpenLog

section \<open>The gate in front of the restore button\<close>

definition selectedDisk :: "MainWindow \<Rightarrow> DiskInfo option" where
  "selectedDisk w =
     (if currentRow w < 0 \<or> currentRow w \<ge> int (length (disks w)) then None else Some (disks w ! nat (currentRow w)))"

definition selectedPartitionStyle :: "MainWindow \<Rightarrow> PartitionStyle" where
  "selectedPartitionStyle w = (if styleChoice w = Mbr then Mbr else Gpt)"

definition setStatus :: "StatusKind \<Rightarrow> status_text \<Rightarrow> status_detail \<Rightarrow> MainWindow \<Rightarrow> MainWindow" where
  "setStatus kind text' detail' w = w\<lparr>status := kind, statusText := text', statusDetail := detail'\<rparr>"

text \<open>\<open>canCreatePartitionLayout\<close> and \<open>canFormatFileSystem\<close> of the chosen style and file system.\<close>

definition configuration_refusal :: "DiskService \<Rightarrow> MainWindow \<Rightarrow> DiskInfo \<Rightarrow> status_detail option" where
  "configuration_refusal svc w disk =
     (case canCreatePartitionLayout (selectedPartitionStyle w) disk of
        Some e \<Rightarrow> Some (RefusedLayout e)
      | None \<Rightarrow> map_option RefusedFormat (canFormatFileSystem svc (fileSystemChoice w) disk))"

definition updateRestoreState :: "DiskService \<Rightarrow> unicode \<Rightarrow> wording \<Rightarrow> MainWindow \<Rightarrow> MainWindow" where
  "updateRestoreState svc U words w =
     (if restoreRunning w then w
      else if scanning w then
        setStatus InfoStatus Scanning NoDetail (w\<lparr>combos_enabled := False, restore_enabled := False\<rparr>)
      else if english (scanError w) \<noteq> [] then
        setStatus ErrorStatus ScanFailed
          (ScanProblem (let detail = translated words (scanError w)
             in if detail = [] then english (scanError w) else detail))
          (w\<lparr>combos_enabled := False, restore_enabled := False\<rparr>)
      else case selectedDisk w of
        None \<Rightarrow>
          setStatus InfoStatus SelectADisk (if disks w = [] then NothingPlugged else NoDetail)
            (w\<lparr>combos_enabled := False, restore_enabled := False\<rparr>)
      | Some disk \<Rightarrow>
          let w1 = w\<lparr>combos_enabled := True\<rparr>
          in case isSafeRestoreTarget U disk (window_guard w) of
               Some e \<Rightarrow> setStatus BlockedStatus WillNotBeRestored (RefusedDisk e) (w1\<lparr>restore_enabled := False\<rparr>)
             | None \<Rightarrow>
                 (case configuration_refusal svc w disk of
                    Some e \<Rightarrow> setStatus BlockedStatus CannotBeUsed e (w1\<lparr>restore_enabled := False\<rparr>)
                  | None \<Rightarrow>
                      if isLargeRestoreTarget disk
                      then setStatus WarningStatus CheckTheDisk (LargeDisk (disk_size disk)) (w1\<lparr>restore_enabled := True\<rparr>)
                      else setStatus ReadyStatus
                        (ReadyToRestore disk (selectedPartitionStyle w) (fileSystemChoice w))
                        (DiskContents (labels disk)) (w1\<lparr>restore_enabled := True\<rparr>)))"

definition onSelectionChanged :: "DiskService \<Rightarrow> unicode \<Rightarrow> wording \<Rightarrow> MainWindow \<Rightarrow> MainWindow" where
  "onSelectionChanged = updateRestoreState"

text \<open>The list is built anew; its first row becomes the current one, \<open>-1\<close> is no row.\<close>

definition renderDisks :: "MainWindow \<Rightarrow> MainWindow" where
  "renderDisks w = w\<lparr>currentRow := (if disks w = [] then -1 else 0)\<rparr>"

definition refreshDisks :: "DiskService \<Rightarrow> unicode \<Rightarrow> wording \<Rightarrow> MainWindow \<Rightarrow> MainWindow \<times> window_effect list" where
  "refreshDisks svc U words w =
     (if restoreRunning w \<or> scanning w then (w, [])
      else (updateRestoreState svc U words
              (w\<lparr>scanning := True, refresh_enabled := False, list_enabled := False\<rparr>), [StartScan]))"

definition applyScan ::
  "DiskService \<Rightarrow> unicode \<Rightarrow> wording \<Rightarrow> DiskInfo list \<Rightarrow> RestoreMessage \<Rightarrow> RestoreGuard \<Rightarrow> MainWindow \<Rightarrow>
   MainWindow \<times> window_effect list" where
  "applyScan svc U words found error' guard w =
     (let w1 = w\<lparr>scanning := False, refresh_enabled := \<not> restoreRunning w, list_enabled := \<not> restoreRunning w,
                 window_guard := guard, scanError := error', disks := found\<rparr>
      in (onSelectionChanged svc U words (renderDisks w1), if english error' \<noteq> [] then [LogLine ''Scan failed''] else []))"

definition retranslateUi :: "DiskService \<Rightarrow> unicode \<Rightarrow> wording \<Rightarrow> MainWindow \<Rightarrow> MainWindow" where
  "retranslateUi svc U words w =
     (let row = currentRow w;
          w1 = renderDisks w;
          w2 = (if 0 \<le> row \<and> row < int (length (disks w)) then w1\<lparr>currentRow := row\<rparr> else w1)
      in onSelectionChanged svc U words w2)"

section \<open>One restore\<close>

definition window_request :: "MainWindow \<Rightarrow> Language \<Rightarrow> DiskInfo \<Rightarrow> RestoreRequest" where
  "window_request w lang disk =
     \<lparr>request_disk = disk, request_style = selectedPartitionStyle w, request_fileSystem = fileSystemChoice w,
      volumeLabel = RestoreVolumeLabel, request_guard = window_guard w, displayLanguage = lang\<rparr>"

text \<open>\<open>startRestore\<close>: besides the window, the request the new dialog's signal is connected with.\<close>

definition startRestore ::
  "DiskService \<Rightarrow> unicode \<Rightarrow> wording \<Rightarrow> Language \<Rightarrow> MainWindow \<Rightarrow> MainWindow \<times> RestoreRequest option \<times> window_effect list" where
  "startRestore svc U words lang w =
     (if restoreRunning w \<or> scanning w then (w, None, [])
      else if (case restoreDialog w of Some d \<Rightarrow> dialog_visible d | None \<Rightarrow> False) then (w, None, [])
      else case selectedDisk w of
        None \<Rightarrow> (w, None, [])
      | Some disk \<Rightarrow>
          if isSafeRestoreTarget U disk (window_guard w) \<noteq> None \<or> configuration_refusal svc w disk \<noteq> None
          then (updateRestoreState svc U words w, None, [RefusalBox])
          else (w\<lparr>restoreDialog := Some (show_dialog (new_dialog (service_plan svc)))\<rparr>,
                Some (window_request w lang disk), []))"

definition setRunning :: "DiskService \<Rightarrow> unicode \<Rightarrow> wording \<Rightarrow> bool \<Rightarrow> MainWindow \<Rightarrow> MainWindow" where
  "setRunning svc U words running w =
     (let w1 = w\<lparr>restoreRunning := running\<rparr>;
          w2 = (if running then w1\<lparr>restoreStep := 0, stallNoticeShown := False, stallTimer := True\<rparr>
                else w1\<lparr>stallTimer := False\<rparr>);
          usable = (\<not> running \<and> selectedDisk w \<noteq> None);
          w3 = w2\<lparr>list_enabled := \<not> running, refresh_enabled := \<not> running, language_enabled := \<not> running,
                  combos_enabled := usable, restore_enabled := \<not> running\<rparr>
      in if running then w3 else updateRestoreState svc U words (w3\<lparr>has_worker := False\<rparr>))"

definition beginRestore ::
  "DiskService \<Rightarrow> unicode \<Rightarrow> wording \<Rightarrow> RestoreRequest \<Rightarrow> MainWindow \<Rightarrow> MainWindow \<times> window_effect list" where
  "beginRestore svc U words request w =
     (if restoreRunning w then (w, [])
      else
        let w1 = setRunning svc U words True (w\<lparr>restoreFileSystem := request_fileSystem request\<rparr>);
            w2 = setStatus RunningStatus (RestoringDisk (displayId (request_disk request))) NoDetail w1
        in (w2\<lparr>has_worker := True\<rparr>, [LogLine ''Restore requested'', BeginWorker request]))"

definition on_dialog :: "(RestoreDialog \<Rightarrow> RestoreDialog) \<Rightarrow> MainWindow \<Rightarrow> MainWindow" where
  "on_dialog f w = w\<lparr>restoreDialog := map_option f (restoreDialog w)\<rparr>"

definition cancelRestore :: "DiskService \<Rightarrow> MainWindow \<Rightarrow> MainWindow \<times> window_effect list" where
  "cancelRestore svc w =
     (if \<not> restoreRunning w \<or> \<not> has_worker w \<or> restoreStep w \<ge> service_firstDestructiveStep svc then (w, [])
      else (on_dialog setCancelling w, [RequestCancel]))"

definition onRestoreProgress :: "int \<Rightarrow> int \<Rightarrow> int \<Rightarrow> qstring \<Rightarrow> MainWindow \<Rightarrow> MainWindow \<times> window_effect list" where
  "onRestoreProgress now step totalSteps message w =
     (let w1 = w\<lparr>restoreStep := step, stallNoticeShown := False\<rparr>
      in case restoreDialog w1 of
           None \<Rightarrow> (w1, [])
         | Some d \<Rightarrow>
             let (d', followed) = setProgress now step totalSteps message d
             in (w1\<lparr>restoreDialog := Some d'\<rparr>, if followed then [] else [LogLine ''Restore window ignored progress step'']))"

text \<open>\<open>seconds\<close> is how long ago the restore was last heard of; a dash in a text is written as a hyphen.\<close>

definition silence_text :: "int \<Rightarrow> qstring" where
  "silence_text seconds =
     (let rest = number_int (seconds mod 60)
      in number_int (seconds div 60) @ qs '':'' @ (if length rest < 2 then qs ''0'' @ rest else rest))"

definition respondingAgain :: shown_text where
  "respondingAgain = Tr ''The device is responding again. Keep it connected until the restore finishes.'' []"

definition stallNotice :: "int \<Rightarrow> bool \<Rightarrow> shown_text" where
  "stallNotice seconds writing =
     (if seconds < StallExplainSeconds then
        Tr ''No response from the device for %1. Keep it connected while the system waits.'' [silence_text seconds]
      else if \<not> writing then
        Tr (''The device has not responded for %1. Some sticks stall for minutes and then recover on '' @
            ''their own. The restore has not changed the disk, but the system may still be flushing '' @
            ''its own writes to it - unplug only if it never recovers, and expect to run the restore '' @
            ''again afterwards.'') [silence_text seconds]
      else
        Tr (''The device has not responded for %1. Some sticks stall for minutes and then recover on '' @
            ''their own. The disk is being rewritten - leave it plugged in and wait.'') [silence_text seconds])"

definition onStallTick :: "DiskService \<Rightarrow> int \<Rightarrow> MainWindow \<Rightarrow> MainWindow" where
  "onStallTick svc seconds w =
     (if \<not> restoreRunning w \<or> restoreStep w = 0 \<or> restoreDialog w = None then w
      else if seconds < StallCountSeconds then
        (if stallNoticeShown w then on_dialog (setNotice respondingAgain) (w\<lparr>stallNoticeShown := False\<rparr>) else w)
      else
        on_dialog (setNotice (stallNotice seconds (restoreStep w \<ge> service_firstDestructiveStep svc)))
          (w\<lparr>stallNoticeShown := True\<rparr>))"

definition onRestoreFailed ::
  "DiskService \<Rightarrow> unicode \<Rightarrow> wording \<Rightarrow> int \<Rightarrow> qstring \<Rightarrow> MainWindow \<Rightarrow> MainWindow \<times> window_effect list" where
  "onRestoreFailed svc U words now message w =
     refreshDisks svc U words (setRunning svc U words False (on_dialog (finishFailure now (Verbatim message)) w))"

definition onRestoreCancelled ::
  "DiskService \<Rightarrow> unicode \<Rightarrow> wording \<Rightarrow> int \<Rightarrow> MainWindow \<Rightarrow> MainWindow \<times> window_effect list" where
  "onRestoreCancelled svc U words now w =
     (let (w', es) = refreshDisks svc U words (setRunning svc U words False
           (on_dialog (finishCancelled now (Tr ''The restore stopped before erasing the disk.'' [])) w))
      in (w', LogLine ''Restore cancelled before erasing the disk'' # es))"

definition onRestoreFinished ::
  "DiskService \<Rightarrow> unicode \<Rightarrow> wording \<Rightarrow> int \<Rightarrow> qstring \<Rightarrow> MainWindow \<Rightarrow> MainWindow \<times> window_effect list" where
  "onRestoreFinished svc U words now location w =
     (let summary = Tr ''The disk is now one %1 volume labelled %2 at %3.''
            [qs (fileSystemTypeName (restoreFileSystem w)), RestoreVolumeLabel, location]
      in refreshDisks svc U words (setRunning svc U words False (on_dialog (finishSuccess now summary) w)))"

section \<open>Preferences and closing\<close>

fun next_language :: "Language \<Rightarrow> Language" where
  "next_language SystemLanguage = English"
| "next_language English = German"
| "next_language German = SystemLanguage"

definition cycleLanguage :: "MainWindow \<Rightarrow> MainWindow \<times> window_effect list" where
  "cycleLanguage w =
     (if restoreRunning w then (w, [])
      else (w\<lparr>language_setting := next_language (language_setting w)\<rparr>, [SaveSettings]))"

definition toggleTheme :: "MainWindow \<Rightarrow> MainWindow \<times> window_effect list" where
  "toggleTheme w = (w\<lparr>theme_setting := next_theme (theme_setting w)\<rparr>, [SaveSettings])"

text \<open>A saved file system the platform does not offer leaves the choice as it is.\<close>

definition loadSettings :: "DiskService \<Rightarrow> AppSettings \<Rightarrow> MainWindow \<Rightarrow> MainWindow" where
  "loadSettings svc settings w =
     w\<lparr>language_setting := language settings, styleChoice := settings_partitionStyle settings,
       fileSystemChoice := (if settings_fileSystem settings \<in> set (supportedFileSystems svc)
         then settings_fileSystem settings else fileSystemChoice w)\<rparr>"

definition window_settings :: "bytes \<Rightarrow> MainWindow \<Rightarrow> AppSettings" where
  "window_settings saved_geometry w =
     \<lparr>theme = theme_setting w, language = language_setting w, geometry = saved_geometry,
      settings_partitionStyle = selectedPartitionStyle w, settings_fileSystem = fileSystemChoice w\<rparr>"

text \<open>\<open>closeEvent\<close>: whether it is accepted, and whether the explanation says that the disk is being written.\<close>

datatype close_answer = CloseRefused bool | CloseAccepted

definition closeEvent :: "DiskService \<Rightarrow> bool \<Rightarrow> MainWindow \<Rightarrow> close_answer" where
  "closeEvent svc threadRunning w =
     (if restoreRunning w \<and> threadRunning then CloseRefused (restoreStep w \<ge> service_firstDestructiveStep svc)
      else CloseAccepted)"

end
