(* ===== verification/Window_Runs.thy ===== *)
theory Window_Runs
  imports Main_Window
begin

text \<open>
  The window as a running program: the user, the scan, the restore thread, the signals it has posted, the
  stall timer and the close button, in any order. \<open>reachable\<close> are the states the program can get into; their
  invariant \<open>app_ok\<close> is proved by rule induction, one lemma per kind of step.
\<close>

section \<open>The program and its steps\<close>

record restore_thread =
  thread_request :: RestoreRequest
  cancel_requested :: bool
  to_emit :: "worker_signal list"

text \<open>\<open>posted\<close> are the signals in the queue of the window's thread; \<open>begun\<close> the requests of the restores begun so
  far, newest first; \<open>dialog_request\<close> the request the dialog's signal is connected with.\<close>

record app =
  window :: MainWindow
  thread :: "restore_thread option"
  scan_pending :: bool
  posted :: "worker_signal list"
  dialog_request :: RestoreRequest
  begun :: "RestoreRequest list"
  closed :: bool

fun carry_out :: "worker_signal list \<Rightarrow> window_effect \<Rightarrow> app \<Rightarrow> app" where
  "carry_out signals StartScan a = a\<lparr>scan_pending := True\<rparr>"
| "carry_out signals (BeginWorker request) a =
     a\<lparr>thread := Some \<lparr>thread_request = request, cancel_requested = False, to_emit = signals\<rparr>,
       begun := request # begun a\<rparr>"
| "carry_out signals RequestCancel a =
     a\<lparr>thread := map_option (\<lambda>t. t\<lparr>cancel_requested := True\<rparr>) (thread a)\<rparr>"
| "carry_out signals _ a = a"

definition after_handler :: "worker_signal list \<Rightarrow> MainWindow \<times> window_effect list \<Rightarrow> app \<Rightarrow> app" where
  "after_handler signals result a = fold (carry_out signals) (snd result) (a\<lparr>window := fst result\<rparr>)"

datatype user_action =
    PressRefresh
  | SelectRow int
  | ChooseStyle PartitionStyle
  | ChooseFileSystem FileSystemType
  | PressRestore Language
  | PressLanguage
  | PressTheme

fun user_acts :: "DiskService \<Rightarrow> unicode \<Rightarrow> wording \<Rightarrow> user_action \<Rightarrow> app \<Rightarrow> app" where
  "user_acts svc U words PressRefresh a = after_handler [] (refreshDisks svc U words (window a)) a"
| "user_acts svc U words (SelectRow row) a =
     (if list_enabled (window a) \<and> row < int (length (disks (window a)))
      then a\<lparr>window := onSelectionChanged svc U words ((window a)\<lparr>currentRow := row\<rparr>)\<rparr> else a)"
| "user_acts svc U words (ChooseStyle style) a =
     (if combos_enabled (window a)
      then a\<lparr>window := updateRestoreState svc U words ((window a)\<lparr>styleChoice := style\<rparr>)\<rparr> else a)"
| "user_acts svc U words (ChooseFileSystem fs) a =
     (if combos_enabled (window a) \<and> fs \<in> set (supportedFileSystems svc)
      then a\<lparr>window := updateRestoreState svc U words ((window a)\<lparr>fileSystemChoice := fs\<rparr>)\<rparr> else a)"
| "user_acts svc U words (PressRestore lang) a =
     (if restore_enabled (window a) then
        (case startRestore svc U words lang (window a) of
           (w, None, es) \<Rightarrow> after_handler [] (w, es) a
         | (w, Some request, es) \<Rightarrow> after_handler [] (w, es) (a\<lparr>dialog_request := request\<rparr>))
      else a)"
| "user_acts svc U words PressLanguage a =
     (if language_enabled (window a) then after_handler [] (cycleLanguage (window a)) a else a)"
| "user_acts svc U words PressTheme a = after_handler [] (toggleTheme (window a)) a"

text \<open>What the signals of the dialog are connected to.\<close>

fun dialog_signalled ::
  "DiskService \<Rightarrow> unicode \<Rightarrow> wording \<Rightarrow> RestoreRequest \<Rightarrow> dialog_signal list \<Rightarrow> MainWindow \<Rightarrow> MainWindow \<times> window_effect list" where
  "dialog_signalled svc U words request [] w = (w, [])"
| "dialog_signalled svc U words request (RestoreConfirmed # rest) w = beginRestore svc U words request w"
| "dialog_signalled svc U words request (CancelRequested # rest) w = cancelRestore svc w"
| "dialog_signalled svc U words request (OpenLogRequested # rest) w = (w, [OpenLog])"

definition dialog_acts :: "DiskService \<Rightarrow> unicode \<Rightarrow> wording \<Rightarrow> worker_signal list \<Rightarrow> dialog_input \<Rightarrow> RestoreDialog \<Rightarrow> app \<Rightarrow> app" where
  "dialog_acts svc U words signals input d a =
     (let (d', emitted) = dialog_reacts input d
      in after_handler signals
           (dialog_signalled svc U words (dialog_request a) emitted ((window a)\<lparr>restoreDialog := Some d'\<rparr>)) a)"

fun deliver :: "DiskService \<Rightarrow> unicode \<Rightarrow> wording \<Rightarrow> int \<Rightarrow> worker_signal \<Rightarrow> MainWindow \<Rightarrow> MainWindow \<times> window_effect list" where
  "deliver svc U words now (Progress n t m) w = onRestoreProgress now n t m w"
| "deliver svc U words now (WorkerFailed m) w = onRestoreFailed svc U words now m w"
| "deliver svc U words now WorkerCancelled w = onRestoreCancelled svc U words now w"
| "deliver svc U words now (WorkerFinished location) w = onRestoreFinished svc U words now location w"
| "deliver svc U words now (LogMessage m) w = (w, [])"
| "deliver svc U words now (LogFileOnly m) w = (w, [])"

definition dialog_shown :: "app \<Rightarrow> bool" where
  "dialog_shown a \<longleftrightarrow> (case restoreDialog (window a) of Some d \<Rightarrow> dialog_visible d | None \<Rightarrow> False)"

definition still_emitting :: "app \<Rightarrow> bool" where
  "still_emitting a \<longleftrightarrow> (case thread a of Some t \<Rightarrow> to_emit t \<noteq> [] | None \<Rightarrow> False)"

inductive app_step :: "DiskService \<Rightarrow> unicode \<Rightarrow> wording \<Rightarrow> app \<Rightarrow> app \<Rightarrow> bool" for svc U words where
  user: "\<not> closed a \<Longrightarrow> \<not> dialog_shown a \<Longrightarrow> app_step svc U words a (user_acts svc U words action a)"
| scanned: "\<not> closed a \<Longrightarrow> scan_pending a \<Longrightarrow>
    app_step svc U words a (after_handler [] (applyScan svc U words found e g (window a)) (a\<lparr>scan_pending := False\<rparr>))"
| dialog: "\<not> closed a \<Longrightarrow> restoreDialog (window a) = Some d \<Longrightarrow>
    app_step svc U words a
      (dialog_acts svc U words (worker_run words (totalRestoreSteps svc) calls ended attemptMs result) input d a)"
| emitted: "thread a = Some t \<Longrightarrow> to_emit t = s # rest \<Longrightarrow>
    app_step svc U words a (a\<lparr>thread := Some (t\<lparr>to_emit := rest\<rparr>), posted := posted a @ [s]\<rparr>)"
| delivered: "\<not> closed a \<Longrightarrow> posted a = s # rest \<Longrightarrow>
    app_step svc U words a (after_handler [] (deliver svc U words now s (window a)) (a\<lparr>posted := rest\<rparr>))"
| ticked: "\<not> closed a \<Longrightarrow> stallTimer (window a) \<Longrightarrow>
    app_step svc U words a (a\<lparr>window := onStallTick svc seconds (window a)\<rparr>)"
| retranslated: "\<not> closed a \<Longrightarrow> app_step svc U words a (a\<lparr>window := retranslateUi svc U words (window a)\<rparr>)"
| close: "\<not> closed a \<Longrightarrow> (still_emitting a \<Longrightarrow> threadRunning) \<Longrightarrow> closeEvent svc threadRunning (window a) = CloseAccepted \<Longrightarrow>
    app_step svc U words a (a\<lparr>closed := True\<rparr>)"

text \<open>The window as \<open>buildUi\<close> leaves it, with the settings then loaded into it.\<close>

definition built_window :: "DiskService \<Rightarrow> MainWindow" where
  "built_window svc =
     \<lparr>scanning = False, restoreRunning = False, disks = [], scanError = plain_message [],
      window_guard = \<lparr>guard_mountPoints = [], guard_deviceIds = []\<rparr>, currentRow = -1, styleChoice = Gpt,
      fileSystemChoice = (case supportedFileSystems svc of fs # _ \<Rightarrow> fs | [] \<Rightarrow> ExFat),
      status = InfoStatus, statusText = Scanning, statusDetail = NoDetail, list_enabled = True, refresh_enabled = True,
      language_enabled = True, combos_enabled = True, restore_enabled = False, restoreDialog = None, restoreStep = 0,
      stallNoticeShown = False, stallTimer = False, restoreFileSystem = ExFat, has_worker = False,
      language_setting = SystemLanguage, theme_setting = SystemTheme\<rparr>"

definition new_window :: "DiskService \<Rightarrow> AppSettings \<Rightarrow> MainWindow" where
  "new_window svc settings = (loadSettings svc settings (built_window svc))\<lparr>theme_setting := theme settings\<rparr>"

definition some_request :: RestoreRequest where
  "some_request = \<lparr>request_disk = empty_disk, request_style = Gpt, request_fileSystem = ExFat, volumeLabel = [],
     request_guard = \<lparr>guard_mountPoints = [], guard_deviceIds = []\<rparr>, displayLanguage = English\<rparr>"

text \<open>The constructor ends with a scan.\<close>

definition app_start :: "DiskService \<Rightarrow> unicode \<Rightarrow> wording \<Rightarrow> AppSettings \<Rightarrow> app" where
  "app_start svc U words settings =
     after_handler [] (refreshDisks svc U words (new_window svc settings))
       \<lparr>window = new_window svc settings, thread = None, scan_pending = False, posted = [],
        dialog_request = some_request, begun = [], closed = False\<rparr>"

text \<open>
  \<open>main\<close> of \<open>src/gui/main.cpp\<close>, up to the event loop: it answers the catalog probe, ends with an exit code,
  explains that it lacks the privilege and ends with 1, or opens the window. \<open>resolve\<close> is \<open>resolveLanguage\<close>
  over the languages of the system.
\<close>

datatype program_start =
    ProbeAnswered qstring
  | EndedWith int
  | PermissionRefused
  | WindowOpened Translations MainWindow

definition gui_main ::
  "catalogs \<Rightarrow> (Language \<Rightarrow> qstring) \<Rightarrow> (Language \<Rightarrow> Language) \<Rightarrow> DiskService \<Rightarrow> PrivilegeMode \<Rightarrow> store \<Rightarrow> qstring list \<Rightarrow>
   program_start" where
  "gui_main cat title resolve svc mode settings arguments =
     (case catalogProbe cat title arguments of
        Ready line \<Rightarrow> ProbeAnswered line
      | MissingCatalog \<Rightarrow> EndedWith RestoreExitFailed
      | Usage \<Rightarrow> EndedWith RestoreExitUsage
      | NotRequested \<Rightarrow>
          let loaded = loadAppSettings settings;
              (_, translations) = activateInterfaceLanguage cat (resolve (language loaded))
          in if \<not> isPrivileged mode then PermissionRefused
             else WindowOpened translations (new_window svc loaded))"

inductive reachable :: "DiskService \<Rightarrow> unicode \<Rightarrow> wording \<Rightarrow> app \<Rightarrow> bool" for svc U words where
  start: "reachable svc U words (app_start svc U words settings)"
| step: "reachable svc U words a \<Longrightarrow> app_step svc U words a b \<Longrightarrow> reachable svc U words b"

section \<open>The invariant\<close>

definition vetted :: "DiskService \<Rightarrow> unicode \<Rightarrow> RestoreRequest \<Rightarrow> bool" where
  "vetted svc U request \<longleftrightarrow>
     isSafeRestoreTarget U (request_disk request) (request_guard request) = None \<and>
     canCreatePartitionLayout (request_style request) (request_disk request) = None \<and>
     canFormatFileSystem svc (request_fileSystem request) (request_disk request) = None \<and>
     volumeLabel request = RestoreVolumeLabel"

fun follows :: "int \<Rightarrow> int \<Rightarrow> (int \<times> int \<times> qstring) list \<Rightarrow> bool" where
  "follows n k [] \<longleftrightarrow> True"
| "follows n k ((i, t, m) # ps) \<longleftrightarrow> t = n \<and> i = min (k + 1) n \<and> follows n i ps"

definition one_verdict :: "worker_signal list \<Rightarrow> bool" where
  "one_verdict signals \<longleftrightarrow> signals \<noteq> [] \<and> verdicts_of (butlast signals) = [] \<and> verdicts_of [last signals] \<noteq> []"

text \<open>A running restore: its thread, its dialog and the signals still to come agree.\<close>

definition restore_ok :: "DiskService \<Rightarrow> app \<Rightarrow> bool" where
  "restore_ok svc a \<longleftrightarrow>
     has_worker (window a) \<and>
     (\<exists>t d. thread a = Some t \<and> restoreDialog (window a) = Some d \<and> stage d = Running \<and>
        begun a \<noteq> [] \<and> hd (begun a) = thread_request t \<and> cancelling d = cancel_requested t \<and>
        dialog_step d = restoreStep (window a) \<and>
        follows (totalRestoreSteps svc) (restoreStep (window a)) (progress_of (posted a @ to_emit t)) \<and>
        one_verdict (posted a @ to_emit t))"

definition app_ok :: "DiskService \<Rightarrow> unicode \<Rightarrow> app \<Rightarrow> bool" where
  "app_ok svc U a \<longleftrightarrow>
     scanning (window a) = scan_pending a \<and> \<not> (scanning (window a) \<and> restoreRunning (window a)) \<and>
     (case restoreDialog (window a) of
        None \<Rightarrow> \<not> restoreRunning (window a)
      | Some d \<Rightarrow>
          dialog_ok (service_plan svc) d \<and> (restoreRunning (window a) \<longleftrightarrow> stage d = Running) \<and>
          (dialog_visible d \<and> stage d = Confirmation \<longrightarrow> \<not> scanning (window a) \<and> vetted svc U (dialog_request a))) \<and>
     (\<forall>request \<in> set (begun a). vetted svc U request) \<and>
     (if restoreRunning (window a) then restore_ok svc a
      else posted a = [] \<and> \<not> still_emitting a) \<and>
     (closed a \<longrightarrow> \<not> still_emitting a)"

section \<open>What the handlers keep\<close>

text \<open>The fields of the window the invariant reads; the gate and the list do not touch them.\<close>

definition core :: "MainWindow \<Rightarrow> bool \<times> bool \<times> RestoreDialog option \<times> int \<times> bool" where
  "core w = (scanning w, restoreRunning w, restoreDialog w, restoreStep w, has_worker w)"

lemma core_eq: "core w = core w' \<longleftrightarrow> scanning w = scanning w' \<and> restoreRunning w = restoreRunning w' \<and>
    restoreDialog w = restoreDialog w' \<and> restoreStep w = restoreStep w' \<and> has_worker w = has_worker w'"
  by (simp add: core_def)

lemma core_setStatus [simp]: "core (setStatus k t d w) = core w"
  by (simp add: setStatus_def core_def)

lemma core_updateRestoreState [simp]: "core (updateRestoreState svc U words w) = core w"
proof -
  have "core (w\<lparr>combos_enabled := b, restore_enabled := c\<rparr>) = core w" for b c by (simp add: core_def)
  then show ?thesis
    by (simp add: updateRestoreState_def Let_def split: option.split)
qed

lemma core_fields [simp]:
  "scanning (updateRestoreState svc U words w) = scanning w"
  "restoreRunning (updateRestoreState svc U words w) = restoreRunning w"
  "restoreDialog (updateRestoreState svc U words w) = restoreDialog w"
  "restoreStep (updateRestoreState svc U words w) = restoreStep w"
  "has_worker (updateRestoreState svc U words w) = has_worker w"
  using core_updateRestoreState [of svc U words w, unfolded core_eq] by blast+

lemma refreshDisks_fields:
  "restoreRunning (fst (refreshDisks svc U words w)) = restoreRunning w"
  "restoreDialog (fst (refreshDisks svc U words w)) = restoreDialog w"
  "restoreStep (fst (refreshDisks svc U words w)) = restoreStep w"
  "has_worker (fst (refreshDisks svc U words w)) = has_worker w"
  "scanning (fst (refreshDisks svc U words w)) \<longleftrightarrow> scanning w \<or> \<not> restoreRunning w"
  "snd (refreshDisks svc U words w) = (if restoreRunning w \<or> scanning w then [] else [StartScan])"
  by (simp_all add: refreshDisks_def)

lemma setRunning_fields [simp]:
  "scanning (setRunning svc U words b w) = scanning w"
  "restoreRunning (setRunning svc U words b w) = b"
  "restoreDialog (setRunning svc U words b w) = restoreDialog w"
  "restoreStep (setRunning svc U words b w) = (if b then 0 else restoreStep w)"
  "has_worker (setRunning svc U words b w) = (b \<and> has_worker w)"
  by (simp_all add: setRunning_def Let_def)

lemma on_dialog_fields [simp]:
  "scanning (on_dialog f w) = scanning w" "restoreRunning (on_dialog f w) = restoreRunning w"
  "restoreDialog (on_dialog f w) = map_option f (restoreDialog w)" "restoreStep (on_dialog f w) = restoreStep w"
  "has_worker (on_dialog f w) = has_worker w"
  by (simp_all add: on_dialog_def)

lemma startRestore_result:
  assumes "startRestore svc U words lang w = (w', asked, es)"
  shows "(asked = None \<and> core w' = core w \<and> es \<in> {[], [RefusalBox]}) \<or>
    (\<exists>request. asked = Some request \<and> vetted svc U request \<and> \<not> restoreRunning w \<and> \<not> scanning w \<and> es = [] \<and>
       w' = w\<lparr>restoreDialog := Some (show_dialog (new_dialog (service_plan svc)))\<rparr>)"
  using assms
  by (auto simp: startRestore_def vetted_def window_request_def configuration_refusal_def split: if_splits option.splits)

section \<open>What a worker posts\<close>

lemma worker_calls_follow:
  assumes "worker_step w \<le> n"
  shows "follows n (worker_step w) (progress_of (snd (worker_calls n calls w))) \<and> verdicts_of (snd (worker_calls n calls w)) = []"
  using assms
proof (induction calls arbitrary: w)
  case (Cons c calls)
  obtain now call where c: "c = (now, call)" by (cases c)
  show ?case
  proof (cases call)
    case (StepCall m)
    let ?w = "fst (worker_call n c w)"
    have "worker_step ?w = min (worker_step w + 1) n"
      by (simp add: c StepCall worker_reports_def logStepDuration_def Let_def)
    then show ?thesis
      using Cons.IH [of ?w] StepCall
      by (simp add: c split_beta Let_def worker_reports_def logStepDuration_def)
  next
    case (DetailCall t)
    then show ?thesis using Cons.IH [of w] Cons.prems by (simp add: c split_beta Let_def)
  qed
qed simp

lemma worker_verdict_one: "one_verdict (worker_verdict words e)" and worker_verdict_progress: "progress_of (worker_verdict words e) = []"
  by (simp_all add: worker_verdict_def Let_def one_verdict_def)

lemma one_verdict_append: "verdicts_of xs = [] \<Longrightarrow> one_verdict ys \<Longrightarrow> one_verdict (xs @ ys)"
  by (simp add: one_verdict_def butlast_append)

lemma worker_run_follow:
  assumes "0 \<le> n"
  shows "follows n 0 (progress_of (worker_run words n calls ended attemptMs e))"
    and "one_verdict (worker_run words n calls ended attemptMs e)"
proof -
  let ?calls = "worker_calls n calls new_worker"
  obtain logged where logged: "progress_of logged = []" "verdicts_of logged = []"
    and run: "worker_run words n calls ended attemptMs e = (snd ?calls @ logged) @ worker_verdict words e"
    by (rule that [of "snd (logStepDuration ended (fst ?calls)) @ [LogFileOnly (qs ''Restore attempt took '' @ number_int attemptMs @ qs '' ms'')]"])
      (simp_all add: logStepDuration_def worker_run_def split_beta Let_def)
  have calls: "follows n 0 (progress_of (snd ?calls))" "verdicts_of (snd ?calls) = []"
    using worker_calls_follow [of new_worker n calls] assms by (simp_all add: new_worker_def)
  show "follows n 0 (progress_of (worker_run words n calls ended attemptMs e))"
    unfolding run by (simp add: calls logged worker_verdict_progress)
  show "one_verdict (worker_run words n calls ended attemptMs e)"
    unfolding run by (rule one_verdict_append) (simp_all add: calls logged worker_verdict_one)
qed

lemma one_verdict_Cons:
  "one_verdict (s # ss) \<longleftrightarrow> (if ss = [] then verdicts_of [s] \<noteq> [] else verdicts_of [s] = [] \<and> one_verdict ss)"
  by (cases s) (auto simp: one_verdict_def)

section \<open>Every step keeps the invariant\<close>

lemma app_ok_core: "core w = core (window a) \<Longrightarrow> app_ok svc U (a\<lparr>window := w\<rparr>) = app_ok svc U a"
  by (simp add: app_ok_def restore_ok_def core_eq still_emitting_def cong: option.case_cong)

lemma after_nothing [simp]: "after_handler signals (w, []) a = a\<lparr>window := w\<rparr>"
  by (simp add: after_handler_def)

lemma refresh_ok:
  assumes ok: "app_ok svc U a" and hidden: "\<not> dialog_shown a"
  shows "app_ok svc U (after_handler [] (refreshDisks svc U words (window a)) a)"
proof (cases "restoreRunning (window a) \<or> scanning (window a)")
  case True
  then show ?thesis using ok by (simp add: refreshDisks_def)
next
  case False
  then have "restoreRunning (fst (refreshDisks svc U words (window a))) = False"
    "scanning (fst (refreshDisks svc U words (window a)))" "snd (refreshDisks svc U words (window a)) = [StartScan]"
    by (simp_all add: refreshDisks_fields)
  then show ?thesis
    using ok hidden False
    by (auto simp: app_ok_def after_handler_def refreshDisks_fields dialog_shown_def still_emitting_def split: option.splits)
qed

lemma select_core: "core (onSelectionChanged svc U words w) = core w" "core (renderDisks w) = core w"
  by (simp_all add: onSelectionChanged_def) (simp add: renderDisks_def core_def)

lemma restore_pressed_ok:
  assumes ok: "app_ok svc U a" and hidden: "\<not> dialog_shown a"
  shows "app_ok svc U (user_acts svc U words (PressRestore lang) a)"
proof -
  obtain w asked es where start: "startRestore svc U words lang (window a) = (w, asked, es)"
    by (cases "startRestore svc U words lang (window a)") auto
  show ?thesis
  proof (cases asked)
    case None
    then have "core w = core (window a)" "es \<in> {[], [RefusalBox]}" using startRestore_result [OF start] by auto
    then show ?thesis using ok start None app_ok_core [of w a svc U] by (auto simp: after_handler_def)
  next
    case (Some request)
    then have new: "vetted svc U request" "\<not> restoreRunning (window a)" "\<not> scanning (window a)" "es = []"
      and w: "w = (window a)\<lparr>restoreDialog := Some (show_dialog (new_dialog (service_plan svc)))\<rparr>"
      using startRestore_result [OF start] by auto
    have "stage (show_dialog (new_dialog (service_plan svc))) = Confirmation"
      by (simp add: show_dialog_def new_dialog_def)
    then show ?thesis
      using ok new new_dialog_ok [of "service_plan svc"]
      by (simp add: start Some w app_ok_def restore_ok_def still_emitting_def)
  qed
qed

lemma user_ok:
  assumes ok: "app_ok svc U a" and hidden: "\<not> dialog_shown a"
  shows "app_ok svc U (user_acts svc U words action a)"
proof (cases action)
  case PressRefresh
  then show ?thesis using refresh_ok [OF assms] by simp
next
  case (PressRestore lang)
  then show ?thesis using restore_pressed_ok [OF assms] by simp
next
  case (SelectRow row)
  have "core (onSelectionChanged svc U words ((window a)\<lparr>currentRow := row\<rparr>)) = core (window a)"
    by (simp add: select_core) (simp add: core_def)
  then show ?thesis using SelectRow ok by (simp add: app_ok_core)
next
  case (ChooseStyle style)
  have "core ((window a)\<lparr>styleChoice := style\<rparr>) = core (window a)" by (simp add: core_def)
  then show ?thesis using ChooseStyle ok by (simp add: app_ok_core)
next
  case (ChooseFileSystem fs)
  have "core ((window a)\<lparr>fileSystemChoice := fs\<rparr>) = core (window a)" by (simp add: core_def)
  then show ?thesis using ChooseFileSystem ok by (simp add: app_ok_core)
next
  case PressLanguage
  have "core ((window a)\<lparr>language_setting := l\<rparr>) = core (window a)" for l by (simp add: core_def)
  then show ?thesis using PressLanguage ok by (simp add: app_ok_core after_handler_def cycleLanguage_def)
next
  case PressTheme
  have "core ((window a)\<lparr>theme_setting := t\<rparr>) = core (window a)" for t by (simp add: core_def)
  then show ?thesis using PressTheme ok by (simp add: app_ok_core after_handler_def toggleTheme_def)
qed

lemma scanned_ok:
  assumes "app_ok svc U a" "scan_pending a"
  shows "app_ok svc U (after_handler [] (applyScan svc U words found e g (window a)) (a\<lparr>scan_pending := False\<rparr>))"
proof -
  let ?w1 = "(window a)\<lparr>scanning := False, refresh_enabled := \<not> restoreRunning (window a), list_enabled := \<not> restoreRunning (window a),
                 window_guard := g, scanError := e, disks := found\<rparr>"
  let ?w = "onSelectionChanged svc U words (renderDisks ?w1)"
  have "core ?w = core ?w1" by (simp add: select_core)
  then have "core ?w = core ((window a)\<lparr>scanning := False\<rparr>)" by (simp add: core_def)
  moreover have "app_ok svc U (a\<lparr>scan_pending := False, window := (window a)\<lparr>scanning := False\<rparr>\<rparr>)"
    using assms by (auto simp: app_ok_def restore_ok_def still_emitting_def split: option.splits)
  ultimately have "app_ok svc U (a\<lparr>scan_pending := False, window := ?w\<rparr>)"
    using app_ok_core [of ?w "a\<lparr>scan_pending := False, window := (window a)\<lparr>scanning := False\<rparr>\<rparr>" svc U] by simp
  then show ?thesis by (simp add: applyScan_def Let_def after_handler_def)
qed

lemma emitted_ok:
  assumes "app_ok svc U a" "thread a = Some t" "to_emit t = s # rest"
  shows "app_ok svc U (a\<lparr>thread := Some (t\<lparr>to_emit := rest\<rparr>), posted := posted a @ [s]\<rparr>)"
  using assms by (auto simp: app_ok_def restore_ok_def still_emitting_def split: option.splits if_splits)

lemma close_ok:
  assumes "app_ok svc U a" "still_emitting a \<Longrightarrow> threadRunning" "closeEvent svc threadRunning (window a) = CloseAccepted"
  shows "app_ok svc U (a\<lparr>closed := True\<rparr>)"
  using assms by (auto simp: app_ok_def restore_ok_def still_emitting_def closeEvent_def split: if_splits option.splits)

lemma retranslated_ok: "app_ok svc U a \<Longrightarrow> app_ok svc U (a\<lparr>window := retranslateUi svc U words (window a)\<rparr>)"
proof -
  have "core (w\<lparr>currentRow := row\<rparr>) = core w" for w row by (simp add: core_def)
  then have "core (retranslateUi svc U words (window a)) = core (window a)"
    by (simp add: retranslateUi_def Let_def select_core)
  then show "app_ok svc U a \<Longrightarrow> ?thesis" by (simp add: app_ok_core)
qed

subsection \<open>The restore's own steps\<close>

lemma setProgress_followed:
  assumes ok: "dialog_ok plan d" and run: "stage d = Running" and n: "n = int (length plan)" and i: "i = min (dialog_step d + 1) n"
  shows "dialog_step (fst (setProgress now i n m d)) = i \<and> stage (fst (setProgress now i n m d)) = Running \<and>
    cancelling (fst (setProgress now i n m d)) = cancelling d \<and> dialog_visible (fst (setProgress now i n m d)) = dialog_visible d"
proof (cases "dialog_step d < n")
  case True
  then show ?thesis
    using ok run i unfolding n by (simp add: setProgress_def Let_def completeCurrentStep_def dialog_ok_def)
next
  case False
  then have "i = dialog_step d" using ok i unfolding n by (simp add: dialog_ok_def)
  then show ?thesis using run by (simp add: setProgress_def)
qed

lemma ticked_ok:
  assumes "app_ok svc U a"
  shows "app_ok svc U (a\<lparr>window := onStallTick svc seconds (window a)\<rparr>)"
proof -
  have notice: "stage (setNotice m d) = stage d" "cancelling (setNotice m d) = cancelling d"
    "dialog_step (setNotice m d) = dialog_step d" "dialog_visible (setNotice m d) = dialog_visible d" for m d
    by (simp_all add: setNotice_def)
  have "app_ok svc U (a\<lparr>window := on_dialog (setNotice m) (window a)\<rparr>)" for m
    using assms setNotice_ok
    by (auto simp: app_ok_def restore_ok_def still_emitting_def notice split: option.splits if_splits)
  moreover have "core (on_dialog f (w\<lparr>stallNoticeShown := b\<rparr>)) = core (on_dialog f w)" for f w b
    by (simp add: core_def on_dialog_def)
  ultimately have "app_ok svc U (a\<lparr>window := on_dialog (setNotice m) ((window a)\<lparr>stallNoticeShown := b\<rparr>)\<rparr>)" for m b
    using app_ok_core [of "on_dialog (setNotice m) ((window a)\<lparr>stallNoticeShown := b\<rparr>)"
        "a\<lparr>window := on_dialog (setNotice m) (window a)\<rparr>" svc U] by simp
  then show ?thesis using assms by (simp add: onStallTick_def Let_def)
qed

lemma progress_delivered_ok:
  assumes ok: "app_ok svc U a" and posted: "posted a = Progress i n m # rest"
  shows "app_ok svc U (after_handler [] (onRestoreProgress now i n m (window a)) (a\<lparr>posted := rest\<rparr>))"
proof -
  have running: "restoreRunning (window a)" using ok posted by (auto simp: app_ok_def split: if_splits)
  then obtain t d where t: "thread a = Some t" and d: "restoreDialog (window a) = Some d" "stage d = Running"
    "dialog_step d = restoreStep (window a)"
    and f: "n = totalRestoreSteps svc" "i = min (restoreStep (window a) + 1) n"
      "follows n i (progress_of (rest @ to_emit t))" "one_verdict (rest @ to_emit t)"
    and more: "has_worker (window a)" "begun a \<noteq> []" "hd (begun a) = thread_request t" "cancelling d = cancel_requested t"
    using ok posted by (auto simp: app_ok_def restore_ok_def one_verdict_Cons split: if_splits)
  have dok: "dialog_ok (service_plan svc) d" using ok d by (simp add: app_ok_def)
  let ?d = "fst (setProgress now i n m d)"
  have new: "dialog_step ?d = i" "stage ?d = Running" "cancelling ?d = cancelling d" "dialog_ok (service_plan svc) ?d"
    using setProgress_followed [OF dok d(2), of n i now m] setProgress_ok [OF dok] f(1,2) d(3)
    by (simp_all add: totalRestoreSteps_def)
  obtain es where es: "onRestoreProgress now i n m (window a) =
      ((window a)\<lparr>restoreStep := i, stallNoticeShown := False, restoreDialog := Some ?d\<rparr>, es)" "es = [] \<or> es = [LogLine ''Restore window ignored progress step'']"
    using d(1) by (simp add: onRestoreProgress_def split_beta Let_def)
  then have "after_handler [] (onRestoreProgress now i n m (window a)) (a\<lparr>posted := rest\<rparr>) =
      a\<lparr>posted := rest, window := (window a)\<lparr>restoreStep := i, stallNoticeShown := False, restoreDialog := Some ?d\<rparr>\<rparr>"
    by (auto simp: after_handler_def)
  then show ?thesis
    using ok running t d f(1,3,4) more new by (auto simp: app_ok_def restore_ok_def still_emitting_def)
qed

text \<open>The verdict is the last signal, so nothing is left of the restore when the window concludes it.\<close>

lemma concluded_ok:
  assumes ok: "app_ok svc U a" and posted: "posted a = s # rest" and verdict: "verdicts_of [s] \<noteq> []"
    and finisher: "\<And>d. dialog_ok (service_plan svc) d \<Longrightarrow> dialog_ok (service_plan svc) (f d)"
      "\<And>d. stage d = Running \<Longrightarrow> stage (f d) = Finished"
    and logs: "\<forall>e \<in> set es. \<exists>t. e = LogLine t"
  shows "app_ok svc U (after_handler []
    (fst (refreshDisks svc U words (setRunning svc U words False (on_dialog f (window a)))),
     es @ snd (refreshDisks svc U words (setRunning svc U words False (on_dialog f (window a))))) (a\<lparr>posted := rest\<rparr>))"
proof -
  have running: "restoreRunning (window a)" using ok posted by (auto simp: app_ok_def split: if_splits)
  then obtain t d where t: "thread a = Some t" "to_emit t = []" "rest = []"
    and d: "restoreDialog (window a) = Some d" "stage d = Running"
    using ok posted verdict by (auto simp: app_ok_def restore_ok_def one_verdict_Cons split: if_splits)
  have scan: "\<not> scanning (window a)" "\<not> scan_pending a" using ok running by (auto simp: app_ok_def)
  let ?w = "setRunning svc U words False (on_dialog f (window a))"
  have w: "scanning ?w = False" "restoreRunning ?w = False" "restoreDialog ?w = Some (f d)"
    using scan d by simp_all
  let ?r = "refreshDisks svc U words ?w"
  have r: "scanning (fst ?r)" "restoreRunning (fst ?r) = False" "restoreDialog (fst ?r) = Some (f d)" "snd ?r = [StartScan]"
    using w by (simp_all add: refreshDisks_fields)
  have fold: "fold (carry_out []) es b = b" for b using logs by (induction es) auto
  have "after_handler [] (fst ?r, es @ snd ?r) (a\<lparr>posted := rest\<rparr>) = a\<lparr>posted := rest, window := fst ?r, scan_pending := True\<rparr>"
    by (simp add: after_handler_def r(4) fold)
  moreover have "dialog_ok (service_plan svc) (f d)" "stage (f d) = Finished"
    using ok d finisher by (simp_all add: app_ok_def)
  ultimately show ?thesis using ok t r by (simp add: app_ok_def still_emitting_def)
qed

lemma delivered_ok:
  assumes ok: "app_ok svc U a" and posted: "posted a = s # rest"
  shows "app_ok svc U (after_handler [] (deliver svc U words now s (window a)) (a\<lparr>posted := rest\<rparr>))"
proof (cases s)
  case (Progress i n m)
  then show ?thesis using progress_delivered_ok [OF ok] posted by simp
next
  case (WorkerFailed m)
  then show ?thesis
    using concluded_ok [OF ok posted, of "finishFailure now (Verbatim m)" "[]" words] finishers_ok finish_fields(1)
    by (simp add: onRestoreFailed_def finishFailure_def)
next
  case (WorkerFinished l)
  define m where "m = Tr ''The disk is now one %1 volume labelled %2 at %3.''
            [qs (fileSystemTypeName (restoreFileSystem (window a))), RestoreVolumeLabel, l]"
  show ?thesis
    using concluded_ok [OF ok posted, of "finishSuccess now m" "[]" words] finishers_ok finish_fields(1) WorkerFinished
    by (simp add: onRestoreFinished_def finishSuccess_def m_def)
next
  case WorkerCancelled
  then show ?thesis
    using concluded_ok [OF ok posted, of "finishCancelled now (Tr ''The restore stopped before erasing the disk.'' [])"
        "[LogLine ''Restore cancelled before erasing the disk'']" words] finishers_ok finish_fields(1)
    by (simp add: onRestoreCancelled_def finishCancelled_def split_beta Let_def)
qed (use ok posted in \<open>auto simp: app_ok_def restore_ok_def still_emitting_def one_verdict_Cons split: if_splits option.splits\<close>)

lemma dialog_step_ok:
  assumes ok: "app_ok svc U a" and open_: "\<not> closed a" and d: "restoreDialog (window a) = Some d"
    and plan: "1 < firstDestructiveStepOf (service_plan svc)"
    and signals: "follows (totalRestoreSteps svc) 0 (progress_of signals)" "one_verdict signals"
  shows "app_ok svc U (dialog_acts svc U words signals input d a)"
proof -
  obtain d' emitted where r: "dialog_reacts input d = (d', emitted)" by (cases "dialog_reacts input d")
  have dok: "dialog_ok (service_plan svc) d" "restoreRunning (window a) = (stage d = Running)"
    using ok d by (simp_all add: app_ok_def)
  have d'ok: "dialog_ok (service_plan svc) d'" using reacts_ok [OF dok(1) plan, of input] r by simp
  note sig = reacts_signals [OF r]
  show ?thesis
  proof (cases "RestoreConfirmed \<in> set emitted")
    case True
    then have e: "emitted = [RestoreConfirmed]" using sig(6) by auto
    have conf: "stage d = Confirmation" "stage d' = Running" "dialog_visible d" using True sig(1,2) by auto
    have idle: "\<not> restoreRunning (window a)" "\<not> scanning (window a)" "vetted svc U (dialog_request a)" "posted a = []"
      using ok d conf dok by (auto simp: app_ok_def)
    have fresh: "dialog_step d' = 0" "\<not> cancelling d'"
      using dok(1) conf(1) sig(7) [OF True] by (simp_all add: dialog_ok_def)
    let ?w = "(window a)\<lparr>restoreDialog := Some d'\<rparr>"
    obtain w where w: "beginRestore svc U words (dialog_request a) ?w = (w, [LogLine ''Restore requested'', BeginWorker (dialog_request a)])"
      and c: "core w = (False, True, Some d', 0, True)"
      using idle by (simp add: beginRestore_def Let_def core_def setStatus_def)
    have "dialog_acts svc U words signals input d a =
        a\<lparr>window := w, thread := Some \<lparr>thread_request = dialog_request a, cancel_requested = False, to_emit = signals\<rparr>,
          begun := dialog_request a # begun a\<rparr>"
      by (simp add: dialog_acts_def r e w after_handler_def)
    then show ?thesis
      using ok open_ idle fresh conf d'ok signals c by (auto simp: app_ok_def restore_ok_def core_def)
  next
    case False
    show ?thesis
    proof (cases "CancelRequested \<in> set emitted")
      case True
      then have e: "emitted = [CancelRequested]" and run: "stage d = Running" "d' = d" using sig(3,6) by auto
      have same: "(window a)\<lparr>restoreDialog := Some d\<rparr> = window a" using d by simp
      show ?thesis
      proof (cases "restoreStep (window a) \<ge> service_firstDestructiveStep svc")
        case True
        then show ?thesis using ok by (simp add: dialog_acts_def r e run same cancelRestore_def)
      next
        case False
        have rok: "restore_ok svc a" "restoreRunning (window a)" using ok dok run by (simp_all add: app_ok_def)
        then obtain t where t: "thread a = Some t" "dialog_step d = restoreStep (window a)"
          using d by (auto simp: restore_ok_def)
        have c: "cancelling (setCancelling d)" "stage (setCancelling d) = Running" "dialog_step (setCancelling d) = dialog_step d"
          "dialog_visible (setCancelling d) = dialog_visible d"
          using False run t dok(1) by (auto simp: setCancelling_def dialog_ok_def service_firstDestructiveStep_def)
        have acts: "dialog_acts svc U words signals input d a =
            a\<lparr>window := on_dialog setCancelling (window a), thread := Some (t\<lparr>cancel_requested := True\<rparr>)\<rparr>"
          using False rok t by (auto simp: dialog_acts_def r e run same cancelRestore_def after_handler_def restore_ok_def)
        show ?thesis
          unfolding acts using ok rok t c d setCancelling_ok [OF dok(1)]
          by (auto simp: app_ok_def restore_ok_def still_emitting_def)
      qed
    next
      case quiet: False
      have w: "dialog_acts svc U words signals input d a = a\<lparr>window := (window a)\<lparr>restoreDialog := Some d'\<rparr>\<rparr>"
        using sig(6) False quiet by (auto simp: dialog_acts_def r after_handler_def)
      show ?thesis
      proof (cases "stage d = Running")
        case True
        then have "d' = d" using running_unmoved [OF dok(1), of input] r by simp
        then have "core ((window a)\<lparr>restoreDialog := Some d'\<rparr>) = core (window a)" using d by (simp add: core_def)
        then show ?thesis unfolding w using ok by (simp add: app_ok_core)
      next
        case idle: False
        have stages: "stage d' \<noteq> Running" "stage d' = Confirmation \<Longrightarrow> stage d = Confirmation"
          using idle False sig(1) sig(4) by metis+
        have shows': "dialog_visible d' \<and> stage d' = Confirmation \<Longrightarrow>
            \<not> scanning (window a) \<and> vetted svc U (dialog_request a)"
          using ok d sig(5) stages(2) by (auto simp: app_ok_def)
        have rest: "scanning (window a) = scan_pending a" "\<not> restoreRunning (window a)" "posted a = []" "\<not> still_emitting a"
          "\<forall>request \<in> set (begun a). vetted svc U request"
          using ok dok(2) idle by (simp_all add: app_ok_def)
        have "still_emitting (a\<lparr>window := w\<rparr>) = still_emitting a" for w by (simp add: still_emitting_def)
        then show ?thesis
          unfolding w app_ok_def using rest stages(1) shows' d'ok by simp
      qed
    qed
  qed
qed

lemma app_step_ok:
  assumes "app_step svc U words a b" "app_ok svc U a" "1 < firstDestructiveStepOf (service_plan svc)"
  shows "app_ok svc U b"
  using assms
proof (cases rule: app_step.cases)
  case (dialog d calls ended attemptMs result input)
  have "0 \<le> totalRestoreSteps svc" by (simp add: totalRestoreSteps_def)
  then show ?thesis
    unfolding dialog using dialog_step_ok [OF assms(2) dialog(2,3) assms(3)] worker_run_follow by blast
qed (use user_ok scanned_ok emitted_ok delivered_ok ticked_ok retranslated_ok close_ok in \<open>metis\<close>)+

lemma start_ok: "app_ok svc U (app_start svc U words settings)"
  by (simp add: app_start_def after_handler_def refreshDisks_fields new_window_def built_window_def loadSettings_def app_ok_def still_emitting_def)
    (simp add: refreshDisks_def)?

context disk_service
begin

lemma reachable_ok: "reachable svc U words a \<Longrightarrow> app_ok svc U a"
proof (induction rule: reachable.induct)
  case (start settings)
  show ?case by (rule start_ok)
next
  case (step a b)
  then show ?case using app_step_ok boundary_positive by blast
qed

end

end
