(* ===== verification/Windows_Rules.thy ===== *)
theory Windows_Rules
  imports Restore_Worker Fat32
begin

text \<open>
  What the Windows backend decides without asking the system, from
  \<open>src/win/windows_disk_service.cpp\<close> and \<open>src/win/windows_util.cpp\<close>: which file systems it formats on which disk,
  the drive letters it protects and the letter it hands out. The service it offers the window is an instance
  of the contract \<open>disk_service\<close>.
\<close>

section \<open>File systems\<close>

definition NewVolumeTimeoutMs :: nat where "NewVolumeTimeoutMs = 60 * 1000"
definition OldVolumeTimeoutMs :: nat where "OldVolumeTimeoutMs = 30 * 1000"

definition MaximumWindowsFat32VolumeBytes :: u64 where
  "MaximumWindowsFat32VolumeBytes = 32 * 1024 * 1024 * 1024"

text \<open>\<open>Some 0\<close> is no unit; the search of \<open>Fat32\<close> always answers.\<close>

definition windowsFat32AllocationUnitSize :: "DiskInfo \<Rightarrow> u32 option" where
  "windowsFat32AllocationUnitSize disk =
     (let layout = calculateGptLayout (disk_size disk) (sectorSize disk)
      in fat32AllocationUnitSize (layout_length layout) (sectorSize disk) MaximumWindowsFat32VolumeBytes)"

definition windowsCanFormat :: "FileSystemType \<Rightarrow> DiskInfo \<Rightarrow> FormatRefusal option" where
  "windowsCanFormat fs disk =
     (case fs of
        ExFat \<Rightarrow> None
      | Ntfs \<Rightarrow> None
      | Fat32 \<Rightarrow>
          if layout_length (calculateGptLayout (disk_size disk) (sectorSize disk)) > MaximumWindowsFat32VolumeBytes
          then Some WindowsFat32TooLarge
          else if windowsFat32AllocationUnitSize disk = Some 0 then Some (WindowsFat32TooSmall (sectorSize disk))
          else None
      | Ext4 \<Rightarrow> Some WindowsNoExt4)"

definition windowsSupportedFileSystems :: "FileSystemType list" where
  "windowsSupportedFileSystems = [ExFat, Fat32, Ntfs]"

definition windowsDiskService :: DiskService where
  "windowsDiskService =
     \<lparr>service_plan = windowsRestorePlan, supportedFileSystems = windowsSupportedFileSystems,
      canFormatFileSystem = windowsCanFormat\<rparr>"

interpretation windows_disks: disk_service windowsDiskService
proof
  show "fs \<in> set (supportedFileSystems windowsDiskService)" if "canFormatFileSystem windowsDiskService fs disk = None" for fs disk
    using that by (cases fs) (simp_all add: windowsDiskService_def windowsSupportedFileSystems_def windowsCanFormat_def)
qed (use windows_plan.restore_plan_axioms in \<open>simp_all add: windowsDiskService_def restore_plan_def\<close>)

text \<open>A FAT32 restore Windows accepts has a unit the FAT32 rules allow.\<close>

lemma windows_fat32_unit:
  assumes "windowsCanFormat Fat32 disk = None"
  shows "\<exists>u. windowsFat32AllocationUnitSize disk = Some u \<and> u \<noteq> 0 \<and>
    unit_choice (fat32_unit_legal (layout_length (calculateGptLayout (disk_size disk) (sectorSize disk))) (sectorSize disk))
      (fat32PreferredUnit (layout_length (calculateGptLayout (disk_size disk) (sectorSize disk)))) fat32AllocationUnitSizes u"
proof -
  let ?v = "layout_length (calculateGptLayout (disk_size disk) (sectorSize disk))"
  obtain u where u: "windowsFat32AllocationUnitSize disk = Some u"
    and spec: "if isSupportedSectorSize (sectorSize disk) \<and> ?v \<noteq> 0 \<and> ?v \<le> MaximumWindowsFat32VolumeBytes
      then unit_choice (fat32_unit_legal ?v (sectorSize disk)) (fat32PreferredUnit ?v) fat32AllocationUnitSizes u else u = 0"
    using fat32AllocationUnitSize_spec [of ?v "sectorSize disk" MaximumWindowsFat32VolumeBytes]
    by (auto simp: windowsFat32AllocationUnitSize_def Let_def)
  with assms have "u \<noteq> 0" by (auto simp: windowsCanFormat_def split: if_splits)
  with u spec show ?thesis by (auto split: if_splits)
qed

section \<open>Drive letters\<close>

text \<open>\<open>logicalDrivesMask\<close> has one bit per letter, from \<open>A\<close>; the loop looks at \<open>D\<close> to \<open>Z\<close>.\<close>

definition firstAvailableDriveLetter :: "u32 \<Rightarrow> qstring" where
  "firstAvailableDriveLetter drives =
     (case find (\<lambda>k. \<not> Bit_Operations.bit drives k) [3..<26] of
        Some k \<Rightarrow> of_nat (65 + k) # qs '':'' @ [0x5C]
      | None \<Rightarrow> [])"

definition append_letter :: "unicode \<Rightarrow> qstring \<Rightarrow> qstring list \<Rightarrow> qstring list" where
  "append_letter U path letters =
     (if 2 \<le> length path \<and> path ! 1 = qc (CHR '':'')
      then let letter = upper_case U (take 1 path) in if letter \<in> set letters then letters else letters @ [letter]
      else letters)"

text \<open>The Windows, system and program directories; \<open>None\<close> when the system does not say.\<close>

definition protectedSystemDriveLetters :: "unicode \<Rightarrow> qstring option list \<Rightarrow> qstring list" where
  "protectedSystemDriveLetters U paths =
     fold (\<lambda>p letters. case p of Some path \<Rightarrow> append_letter U path letters | None \<Rightarrow> letters) paths []"

definition windowsRestoreGuard :: "unicode \<Rightarrow> qstring option list \<Rightarrow> RestoreGuard" where
  "windowsRestoreGuard U paths =
     (let letters = protectedSystemDriveLetters U paths
      in \<lparr>guard_mountPoints = (if qs ''C'' \<in> set letters then letters else letters @ [qs ''C'']), guard_deviceIds = []\<rparr>)"

lemma letters_kept: "set letters \<subseteq> set (fold (\<lambda>p ls. case p of Some path \<Rightarrow> append_letter U path ls | None \<Rightarrow> ls) paths letters)"
proof (induction paths arbitrary: letters)
  case (Cons p paths)
  have "set letters \<subseteq> set (case p of Some path \<Rightarrow> append_letter U path letters | None \<Rightarrow> letters)"
    by (auto simp: append_letter_def Let_def split: option.split)
  then show ?case using Cons by fastforce
qed simp

text \<open>The letter of every system directory is guarded, and drive C always.\<close>

lemma windows_guard_covers:
  "qs ''C'' \<in> set (guard_mountPoints (windowsRestoreGuard U paths))"
  "Some path \<in> set paths \<Longrightarrow> 2 \<le> length path \<Longrightarrow> path ! 1 = qc (CHR '':'') \<Longrightarrow>
   upper_case U (take 1 path) \<in> set (guard_mountPoints (windowsRestoreGuard U paths))"
proof -
  show "qs ''C'' \<in> set (guard_mountPoints (windowsRestoreGuard U paths))"
    by (simp add: windowsRestoreGuard_def Let_def)
  assume p: "Some path \<in> set paths" "2 \<le> length path" "path ! 1 = qc (CHR '':'')"
  have "upper_case U (take 1 path) \<in> set (fold (\<lambda>p ls. case p of Some path \<Rightarrow> append_letter U path ls | None \<Rightarrow> ls) paths letters)" for letters
    using p(1)
  proof (induction paths arbitrary: letters)
    case (Cons q paths)
    show ?case
    proof (cases "q = Some path")
      case True
      have "upper_case U (take 1 path) \<in> set (append_letter U path letters)"
        using p(2,3) by (simp add: append_letter_def Let_def)
      then show ?thesis using letters_kept True by fastforce
    next
      case False
      then show ?thesis using Cons by simp
    qed
  qed simp
  then show "upper_case U (take 1 path) \<in> set (guard_mountPoints (windowsRestoreGuard U paths))"
    by (simp add: windowsRestoreGuard_def protectedSystemDriveLetters_def Let_def)
qed

lemma first_letter_free:
  assumes "firstAvailableDriveLetter drives = root" "root \<noteq> []"
  shows "\<exists>k. 3 \<le> k \<and> k < 26 \<and> root = of_nat (65 + k) # qs '':'' @ [0x5C] \<and> \<not> Bit_Operations.bit drives k \<and>
    (\<forall>j. 3 \<le> j \<and> j < k \<longrightarrow> Bit_Operations.bit drives j)"
proof -
  have "find (\<lambda>k. \<not> Bit_Operations.bit drives k) [3..<26] \<noteq> None"
    using assms unfolding firstAvailableDriveLetter_def by (metis option.case(1))
  then obtain k where k: "find (\<lambda>k. \<not> Bit_Operations.bit drives k) [3..<26] = Some k" by blast
  then have root: "root = of_nat (65 + k) # qs '':'' @ [0x5C]"
    using assms(1) unfolding firstAvailableDriveLetter_def by (metis option.case(2))
  define letters :: "nat list" where "letters = [3..<26]"
  have at: "letters ! j = 3 + j" if "j < length letters" for j
    using that by (simp add: letters_def del: upt_rec_numeral)
  have len: "length letters = 23" by (simp add: letters_def del: upt_rec_numeral)
  obtain i where i: "i < 23" "\<not> Bit_Operations.bit drives (letters ! i)" "k = letters ! i"
    "\<And>j. j < i \<Longrightarrow> Bit_Operations.bit drives (letters ! j)"
    using k unfolding letters_def [symmetric] find_Some_iff len by auto
  then have i: "i < 23" "\<not> Bit_Operations.bit drives (3 + i)" "k = 3 + i" "\<And>j. j < i \<Longrightarrow> Bit_Operations.bit drives (3 + j)"
    using at len by (metis, metis, metis) (metis at i(1) len less_trans i(4))
  have "Bit_Operations.bit drives j" if "3 \<le> j" "j < k" for j
    using i(4) [of "j - 3"] i(3) that by (metis add_diff_inverse_nat less_diff_conv2 not_less add.commute nat_add_left_cancel_less)
  then show ?thesis using i(1-3) root by (intro exI [of _ k] conjI) auto
qed

end
