(* ===== verification/Window_Properties.thy ===== *)
theory Window_Properties
  imports Window_Runs Windows_Rules Helper_Exchange
begin

text \<open>
  What the invariant of the window's reachable states gives for the services of both platforms, and how a
  Linux restore in the window's own process appears in the dialog: \<open>performLinuxRestore\<close>, the worker and the
  dialog composed.
\<close>

section \<open>Reachable windows\<close>

lemma reachable_app_ok:
  assumes "reachable svc U words a" "svc = linuxDiskService \<or> svc = windowsDiskService"
  shows "app_ok svc U a"
  using assms linux_disks.reachable_ok disk_service.reachable_ok [OF windows_disks.disk_service_axioms] by auto

text \<open>C5. The window begins a restore only for a request that passed every gate: whatever the user, the scans and
  the restore thread do, each request handed to a worker names a disk that was safe under the guard it carries,
  with a layout and a file system the backend accepts and the label the dialog showed; while a restore runs no
  scan does, its dialog was acknowledged and shows it, and its cancel flag is what the dialog shows; and as
  long as the worker has something to say the window stays open.\<close>

theorem window_restores_only_vetted:
  assumes "reachable svc U words a" "svc = linuxDiskService \<or> svc = windowsDiskService"
  shows "(\<forall>request \<in> set (begun a). vetted svc U request) \<and>
    (restoreRunning (window a) \<longrightarrow> \<not> scanning (window a) \<and>
       (\<exists>t d. thread a = Some t \<and> restoreDialog (window a) = Some d \<and> stage d = Running \<and> acknowledged d \<and>
          hd (begun a) = thread_request t \<and> cancelling d = cancel_requested t)) \<and>
    (still_emitting a \<longrightarrow> restoreRunning (window a) \<and> \<not> closed a)"
proof -
  have ok: "app_ok svc U a" by (rule reachable_app_ok [OF assms])
  have "\<exists>t d. thread a = Some t \<and> restoreDialog (window a) = Some d \<and> stage d = Running \<and> acknowledged d \<and>
          hd (begun a) = thread_request t \<and> cancelling d = cancel_requested t" if "restoreRunning (window a)"
  proof -
    have "restore_ok svc a" using ok that by (simp add: app_ok_def)
    then obtain t d where "thread a = Some t" "restoreDialog (window a) = Some d" "stage d = Running"
      "hd (begun a) = thread_request t" "cancelling d = cancel_requested t"
      unfolding restore_ok_def by blast
    moreover have "acknowledged d" using ok calculation(2,3) by (simp add: app_ok_def dialog_ok_def)
    ultimately show ?thesis by blast
  qed
  moreover have "\<forall>request \<in> set (begun a). vetted svc U request" using ok by (simp add: app_ok_def)
  moreover have "restoreRunning (window a) \<Longrightarrow> \<not> scanning (window a)"
    using ok by (auto simp: app_ok_def restore_ok_def)
  moreover have "restoreRunning (window a) \<and> \<not> closed a" if "still_emitting a"
    using ok that by (cases "restoreRunning (window a)") (simp_all add: app_ok_def)
  ultimately show ?thesis by blast
qed

text \<open>C37. The restore dialog stays well formed: in every reachable state it has one row per step of the plan; the
  steps before the current one are complete, the current one carries the state of the restore, which is running,
  concluded or, before it began, not there, and the rest are pending. The erase button can be used, and confirms
  the restore, exactly in the confirmation and after the acknowledgement; the cancel button of a running restore
  can be used, and asks to cancel it, exactly before the first step that changes the disk and before it was used.\<close>

theorem dialog_stays_well_formed:
  assumes "reachable svc U words a" "svc = linuxDiskService \<or> svc = windowsDiskService"
    and "restoreDialog (window a) = Some d"
  shows "length (dialog_rows d) = length (service_plan svc) \<and> 0 \<le> dialog_step d \<and> dialog_step d \<le> totalRestoreSteps svc \<and>
    states_of d = row_states (length (service_plan svc)) (nat (dialog_step d)) (hero d) \<and>
    (case stage d of
       Confirmation \<Rightarrow> hero d = ''confirmation'' \<and> dialog_step d = 0
     | Running \<Rightarrow> hero d = ''active''
     | Finished \<Rightarrow> hero d \<in> {''complete'', ''error'', ''cancelled''} \<or> hero d = ''confirmation'' \<and> dialog_step d = 0) \<and>
    (erase_enabled d \<longleftrightarrow> stage d = Confirmation \<and> acknowledged d) \<and>
    (RestoreConfirmed \<in> set (snd (dialog_reacts ClickErase d)) \<longleftrightarrow> stage d = Confirmation \<and> acknowledged d) \<and>
    (stage d = Running \<longrightarrow>
       (cancel_enabled d \<longleftrightarrow> dialog_step d < service_firstDestructiveStep svc \<and> \<not> cancelling d)) \<and>
    (CancelRequested \<in> set (snd (dialog_reacts ClickCancel d)) \<longleftrightarrow>
       stage d = Running \<and> dialog_step d < service_firstDestructiveStep svc \<and> \<not> cancelling d)"
proof -
  have ok: "dialog_ok (service_plan svc) d" using reachable_app_ok [OF assms(1,2)] assms(3) by (simp add: app_ok_def)
  then have "erase_enabled d \<longleftrightarrow> stage d = Confirmation \<and> acknowledged d"
    by (cases "stage d") (simp_all add: dialog_ok_def)
  with ok show ?thesis unfolding erase_click [OF ok] cancel_click [OF ok]
    by (cases "stage d") (simp_all add: dialog_ok_def totalRestoreSteps_def service_firstDestructiveStep_def)
qed

section \<open>A restore in the window's process, as the dialog shows it\<close>

definition deliver_all ::
  "DiskService \<Rightarrow> unicode \<Rightarrow> wording \<Rightarrow> (int \<times> worker_signal) list \<Rightarrow> MainWindow \<Rightarrow> MainWindow" where
  "deliver_all svc U words signals w = fold (\<lambda>(now, s) w. fst (deliver svc U words now s w)) signals w"

lemma deliver_all_simps [simp]:
  "deliver_all svc U words [] w = w"
  "deliver_all svc U words (s # ss) w = deliver_all svc U words ss (fst (deliver svc U words (fst s) (snd s) w))"
  "deliver_all svc U words (ss @ ss') w = deliver_all svc U words ss' (deliver_all svc U words ss w)"
  by (simp_all add: deliver_all_def split_beta)

lemma deliver_progress:
  assumes "restoreDialog w = Some d" "dialog_ok (service_plan svc) d" "stage d = Running"
    and "progress_of (map snd signals) = numbered_from (dialog_step d) (totalRestoreSteps svc) ms"
    and "verdicts_of (map snd signals) = []" "dialog_step d + int (length ms) \<le> totalRestoreSteps svc"
  shows "\<exists>d'. restoreDialog (deliver_all svc U words signals w) = Some d' \<and> dialog_ok (service_plan svc) d' \<and>
    stage d' = Running \<and> dialog_step d' = dialog_step d + int (length ms)"
  using assms
proof (induction signals arbitrary: w d ms)
  case Nil
  then show ?case by (cases ms) auto
next
  case (Cons x signals)
  obtain now s where x: "x = (now, s)" by (cases x)
  show ?case
  proof (cases s)
    case (Progress i n m)
    then obtain m' ms' where ms: "ms = m' # ms'" and i: "i = dialog_step d + 1" "n = totalRestoreSteps svc"
      and rest: "progress_of (map snd signals) = numbered_from (dialog_step d + 1) (totalRestoreSteps svc) ms'"
      using Cons.prems(4) by (cases ms) (auto simp: x)
    let ?d = "fst (setProgress now i n m d)"
    have new: "dialog_step ?d = i" "stage ?d = Running" "dialog_ok (service_plan svc) ?d"
      using setProgress_followed [OF Cons.prems(2,3), of n i now m] setProgress_ok [OF Cons.prems(2)] i Cons.prems(6) ms
      by (simp_all add: totalRestoreSteps_def)
    have "restoreDialog (fst (deliver svc U words now s w)) = Some ?d"
      using Cons.prems(1) by (simp add: Progress onRestoreProgress_def split_beta Let_def)
    from Cons.IH [OF this new(3,2), of ms'] show ?thesis
      using rest Cons.prems(5,6) i new(1) ms by (simp add: x Progress add.assoc)
  qed (use Cons.IH [OF Cons.prems(1-3), of ms] Cons.prems in \<open>simp_all add: x\<close>)
qed

lemma worker_run_parts:
  assumes "int (length (step_calls (map snd calls))) \<le> n"
  obtains pre where "worker_run words n calls ended attemptMs e = pre @ worker_verdict words e" "verdicts_of pre = []"
    "progress_of pre = numbered_from 0 n (step_calls (map snd calls))"
proof -
  let ?c = "worker_calls n calls new_worker"
  let ?logs = "snd (logStepDuration ended (fst ?c)) @ [LogFileOnly (qs ''Restore attempt took '' @ number_int attemptMs @ qs '' ms'')]"
  have "progress_of (snd ?c) = numbered_from 0 n (step_calls (map snd calls))" "verdicts_of (snd ?c) = []"
    using worker_calls_signals [of new_worker calls n] assms by (simp_all add: new_worker_def)
  then show thesis
    by (intro that [of "snd ?c @ ?logs"]) (simp_all add: worker_run_def split_beta Let_def logStepDuration_def)
qed

text \<open>What the dialog shows at the end, by the end of the restore; a run that stopped shows as cancelled when
  the worker's flag is up.\<close>

definition shown_result :: "bool \<Rightarrow> qstring ending \<Rightarrow> string" where
  "shown_result cancel r =
     (case r of Ok _ \<Rightarrow> ''complete'' | outcome.Failed _ \<Rightarrow> ''error'' | Stopped \<Rightarrow> if cancel then ''cancelled'' else ''error'')"

lemma deliver_verdict:
  assumes w: "restoreDialog w = Some d" and texts: "\<And>e. error_text texts e EnglishText \<noteq> []"
    and signals: "map snd signals = worker_verdict words (direct_end texts cancel r)"
  shows "\<exists>now title message. restoreDialog (deliver_all svc U words signals w) =
    Some (finish_dialog now title message (shown_result cancel r) d)"
proof -
  have failed: "\<exists>now t m. restoreDialog (deliver_all svc U words signals w) = Some (finish_dialog now t m ''error'' d)"
    if fs: "map snd signals = [LogMessage l, WorkerFailed m]" for l m
  proof -
    obtain n1 n2 where "signals = [(n1, LogMessage l), (n2, WorkerFailed m)]"
      using fs by (cases signals; cases "tl signals") auto
    then show ?thesis
      using w by (auto simp: onRestoreFailed_def finishFailure_def refreshDisks_fields)
  qed
  show ?thesis
  proof (cases r)
    case (Ok p)
    then obtain n where "signals = [(n, WorkerFinished p)]"
      using signals by (auto simp: worker_verdict_def direct_end_def map_eq_Cons_conv)
    then show ?thesis
      using w Ok by (auto simp: onRestoreFinished_def finishSuccess_def refreshDisks_fields shown_result_def Let_def)
  next
    case (Failed e)
    then have "\<exists>l m. map snd signals = [LogMessage l, WorkerFailed m]"
      using signals texts by (auto simp: worker_verdict_def direct_end_def Let_def)
    then show ?thesis using failed Failed by (auto simp: shown_result_def)
  next
    case Stopped
    show ?thesis
    proof (cases cancel)
      case True
      then obtain n where "signals = [(n, WorkerCancelled)]"
        using signals Stopped by (auto simp: worker_verdict_def direct_end_def map_eq_Cons_conv)
      then show ?thesis
        using w Stopped True
        by (auto simp: onRestoreCancelled_def finishCancelled_def refreshDisks_fields shown_result_def split_beta Let_def)
    next
      case False
      then have "\<exists>l m. map snd signals = [LogMessage l, WorkerFailed m]"
        using signals Stopped by (auto simp: worker_verdict_def direct_end_def Let_def)
      then show ?thesis using failed Stopped False by (auto simp: shown_result_def)
    qed
  qed
qed

text \<open>C38. The dialog shows how far a restore came and how it ended: when a window that has just begun a restore is
  delivered every signal of the worker that ran \<open>performLinuxRestore\<close>, in order and at any times, its dialog
  ends with exactly the reported steps behind it; all of them are shown complete exactly when the restore
  succeeded, an error is shown for every failure, and when it shows that the restore was cancelled nothing was
  written to the disk.\<close>

theorem dialog_shows_the_restore:
  assumes run: "performLinuxRestore req S new_world = Some (r, world')"
    and calls: "map snd calls = direct_calls texts req (happened world')"
    and signals: "map snd signals =
      worker_run words (totalRestoreSteps linuxDiskService) calls ended attemptMs (direct_end texts cancel r)"
    and texts: "\<And>e. error_text texts e EnglishText \<noteq> []"
    and dialog: "restoreDialog w = Some d" "dialog_ok linuxRestorePlan d" "stage d = Running" "dialog_step d = 0"
  shows "\<exists>d'. restoreDialog (deliver_all linuxDiskService U words signals w) = Some d' \<and> stage d' = Finished \<and>
    hero d' = shown_result cancel r \<and>
    states_of d' = row_states 10 (length (reported (happened world'))) (shown_result cancel r) \<and>
    (states_of d' = replicate 10 ''complete'' \<longleftrightarrow> (\<exists>location. r = Ok location)) \<and>
    (hero d' = ''cancelled'' \<longrightarrow> unwritten (happened world'))"
proof -
  note steps = restore_steps [OF run]
  have plan: "service_plan linuxDiskService = linuxRestorePlan" "totalRestoreSteps linuxDiskService = 10"
    by (simp_all add: linuxDiskService_def totalRestoreSteps_def)
  let ?n = "length (reported (happened world'))"
  have n: "?n \<le> 10" using steps prefix_length_le [of "reported (happened world')" linuxRestorePlan] by simp
  have msgs: "length (step_calls (map snd calls)) = ?n" by (simp add: calls direct_step_calls)
  obtain pre where pre: "map snd signals = pre @ worker_verdict words (direct_end texts cancel r)" "verdicts_of pre = []"
    "progress_of pre = numbered_from 0 10 (step_calls (map snd calls))"
    using worker_run_parts [of calls 10 words ended attemptMs "direct_end texts cancel r"] n msgs signals plan(2) by auto
  obtain s1 s2 where s: "signals = s1 @ s2" "map snd s1 = pre" "map snd s2 = worker_verdict words (direct_end texts cancel r)"
    using pre(1) by (auto simp: map_eq_append_conv)
  obtain d1 where d1: "restoreDialog (deliver_all linuxDiskService U words s1 w) = Some d1"
    "dialog_ok linuxRestorePlan d1" "stage d1 = Running" "dialog_step d1 = int ?n"
    using deliver_progress [of w d linuxDiskService s1 "step_calls (map snd calls)" U words] dialog pre s(2) n msgs
    by (auto simp: plan)
  obtain now t m where fin: "restoreDialog (deliver_all linuxDiskService U words signals w) =
      Some (finish_dialog now t m (shown_result cancel r) d1)"
    using deliver_verdict [OF d1(1) texts s(3), of linuxDiskService U] s(1) by auto
  have res: "shown_result cancel r \<in> {''complete'', ''error'', ''cancelled''}" by (simp add: shown_result_def split: outcome.split)
  have st: "states_of (finish_dialog now t m (shown_result cancel r) d1) = row_states 10 ?n (shown_result cancel r)"
    using finish_states [OF d1(2,3) res, of now t m] d1(4) by simp
  have all: "row_states 10 ?n (shown_result cancel r) = replicate 10 ''complete'' \<longleftrightarrow> (\<exists>location. r = Ok location)"
  proof
    assume eq: "row_states 10 ?n (shown_result cancel r) = replicate 10 ''complete''"
    have "?n \<noteq> 0" using eq by (auto simp: row_states_def numeral_eq_Suc)
    moreover have "shown_result cancel r = row_states 10 ?n (shown_result cancel r) ! (?n - 1)"
      using \<open>?n \<noteq> 0\<close> by (simp add: row_states_def nth_append)
    ultimately have "shown_result cancel r = ''complete''" using n by (simp add: eq)
    then show "\<exists>location. r = Ok location" by (auto simp: shown_result_def split: outcome.splits if_splits)
  next
    assume "\<exists>location. r = Ok location"
    then have "?n = 10" "shown_result cancel r = ''complete''" using steps by (auto simp: shown_result_def)
    then show "row_states 10 ?n (shown_result cancel r) = replicate 10 ''complete''" using row_states_complete by metis
  qed
  have "unwritten (happened world')" if "shown_result cancel r = ''cancelled''"
    using that steps justified_cancel [OF restore_justified [OF run]]
    by (auto simp: shown_result_def split: outcome.splits if_splits)
  then show ?thesis
    using fin st all finish_fields(1,4) [OF d1(3)] by auto
qed

section \<open>A restore that begins\<close>

text \<open>The window starts, a scan finds one stick, the user opens the dialog, acknowledges it and erases the disk.\<close>

definition stick_guard_shown :: RestoreGuard where
  "stick_guard_shown = linuxRestoreGuard ascii_tables plugged_stick"

definition stick_settings :: AppSettings where
  "stick_settings = \<lparr>theme = DarkTheme, language = SystemLanguage, geometry = [], settings_partitionStyle = Gpt,
     settings_fileSystem = ExFat\<rparr>"

abbreviation stick_words :: wording where
  "stick_words \<equiv> ui_wording latin1_window"

definition stick_scanned :: app where
  "stick_scanned = (let a = app_start linuxDiskService ascii_tables stick_words stick_settings
     in after_handler [] (applyScan linuxDiskService ascii_tables stick_words [stick_disk] (plain_message [])
          stick_guard_shown (window a)) (a\<lparr>scan_pending := False\<rparr>))"

definition stick_shown :: app where
  "stick_shown = user_acts linuxDiskService ascii_tables stick_words (PressRestore English) stick_scanned"

definition dialog_used :: "dialog_input \<Rightarrow> app \<Rightarrow> app" where
  "dialog_used input a = (case restoreDialog (window a) of
       Some d \<Rightarrow> dialog_acts linuxDiskService ascii_tables stick_words
         (worker_run stick_words (totalRestoreSteps linuxDiskService) [] 0 0
           \<lparr>end_restored = False, end_location = [], end_error = [], end_displayError = [], end_cancelRequested = True\<rparr>)
         input d a
     | None \<Rightarrow> a)"

definition stick_begun :: app where
  "stick_begun = dialog_used ClickErase (dialog_used (Acknowledge True) stick_shown)"

lemma stick_configured:
  assumes "styleChoice w = Gpt" "fileSystemChoice w = ExFat"
  shows "configuration_refusal linuxDiskService w stick_disk = None"
proof -
  have "canCreatePartitionLayout Gpt stick_disk = None" "canCreateFileSystemOn ExFat stick_disk = None" by code_simp+
  then show ?thesis
    using assms by (simp add: configuration_refusal_def selectedPartitionStyle_def linuxDiskService_def)
qed

lemma stick_chosen:
  assumes "disks w = [stick_disk]" "currentRow w = 0"
  shows "selectedDisk w = Some stick_disk"
  using assms by (simp add: selectedDisk_def)

lemma stick_accepted: "isSafeRestoreTarget ascii_tables stick_disk stick_guard_shown = None"
  using stick_safe by (simp add: stick_guard_shown_def)

lemma app_start_fields:
  "scan_pending (app_start svc U words settings)" "\<not> closed (app_start svc U words settings)"
  "thread (app_start svc U words settings) = None" "begun (app_start svc U words settings) = []"
  "restoreDialog (window (app_start svc U words settings)) = None"
  "\<not> restoreRunning (window (app_start svc U words settings))"
  "styleChoice (window (app_start svc U words settings)) = settings_partitionStyle settings"
  "settings_fileSystem settings \<in> set (supportedFileSystems svc) \<Longrightarrow>
     fileSystemChoice (window (app_start svc U words settings)) = settings_fileSystem settings"
  by (simp_all add: app_start_def refreshDisks_def new_window_def built_window_def loadSettings_def after_handler_def updateRestoreState_def setStatus_def)

lemma stick_scanned_reached: "reachable linuxDiskService ascii_tables stick_words stick_scanned"
  using reachable.step [OF reachable.start app_step.scanned] unfolding stick_scanned_def Let_def
  by (meson app_start_fields reachable.start reachable.step app_step.scanned)

lemma updateRestoreState_accepts:
  assumes "\<not> restoreRunning w" "\<not> scanning w" "english (scanError w) = []" "selectedDisk w = Some disk"
    and "isSafeRestoreTarget U disk (window_guard w) = None" "configuration_refusal svc w disk = None"
  shows "\<exists>kind txt detail. updateRestoreState svc U words w =
    setStatus kind txt detail (w\<lparr>combos_enabled := True, restore_enabled := True\<rparr>)"
proof -
  have "configuration_refusal svc (w\<lparr>combos_enabled := True\<rparr>) disk = None"
    using assms(6) by (simp add: configuration_refusal_def selectedPartitionStyle_def cong: option.case_cong)
  then show ?thesis using assms by (auto simp: updateRestoreState_def Let_def)
qed

lemma stick_scanned_fields:
  "restoreDialog (window stick_scanned) = None" "\<not> restoreRunning (window stick_scanned)" "\<not> scanning (window stick_scanned)"
  "disks (window stick_scanned) = [stick_disk]" "currentRow (window stick_scanned) = 0"
  "styleChoice (window stick_scanned) = Gpt" "fileSystemChoice (window stick_scanned) = ExFat"
  "window_guard (window stick_scanned) = stick_guard_shown" "restore_enabled (window stick_scanned)"
  "\<not> closed stick_scanned" "begun stick_scanned = []"
proof -
  define w where "w = renderDisks ((window (app_start linuxDiskService ascii_tables stick_words stick_settings))
    \<lparr>scanning := False, refresh_enabled := True, list_enabled := True, window_guard := stick_guard_shown,
     scanError := plain_message [], disks := [stick_disk]\<rparr>)"
  have f: "\<not> restoreRunning w" "\<not> scanning w" "english (scanError w) = []" "window_guard w = stick_guard_shown"
    "disks w = [stick_disk]" "currentRow w = 0" "styleChoice w = Gpt" "fileSystemChoice w = ExFat" "restoreDialog w = None"
    by (simp_all add: w_def renderDisks_def app_start_fields plain_message_def stick_settings_def linuxDiskService_def
        linuxSupportedFileSystems_def)
  obtain k t s where "updateRestoreState linuxDiskService ascii_tables stick_words w =
      setStatus k t s (w\<lparr>combos_enabled := True, restore_enabled := True\<rparr>)"
    using updateRestoreState_accepts [OF f(1-3) stick_chosen [OF f(5,6)]] stick_accepted stick_configured [OF f(7,8)] f(4)
    by metis
  then have scanned: "window stick_scanned = setStatus k t s (w\<lparr>combos_enabled := True, restore_enabled := True\<rparr>)"
    by (simp add: stick_scanned_def applyScan_def after_handler_def onSelectionChanged_def app_start_fields w_def plain_message_def
        Let_def)
  show "restoreDialog (window stick_scanned) = None" "\<not> restoreRunning (window stick_scanned)"
    "\<not> scanning (window stick_scanned)" "disks (window stick_scanned) = [stick_disk]" "currentRow (window stick_scanned) = 0"
    "styleChoice (window stick_scanned) = Gpt" "fileSystemChoice (window stick_scanned) = ExFat"
    "window_guard (window stick_scanned) = stick_guard_shown" "restore_enabled (window stick_scanned)"
    unfolding scanned using f by (simp_all add: setStatus_def)
  show "\<not> closed stick_scanned" "begun stick_scanned = []"
    by (simp_all add: stick_scanned_def applyScan_def after_handler_def app_start_fields plain_message_def Let_def)
qed

definition stick_asked :: RestoreRequest where
  "stick_asked = window_request (window stick_scanned) English stick_disk"

lemma stick_shown_is:
  "stick_shown = stick_scanned\<lparr>window := (window stick_scanned)\<lparr>restoreDialog := Some (show_dialog (new_dialog linuxRestorePlan))\<rparr>,
     dialog_request := stick_asked\<rparr>"
  by (simp add: stick_shown_def startRestore_def stick_scanned_fields stick_chosen stick_configured stick_accepted
      stick_asked_def after_handler_def linuxDiskService_def [THEN arg_cong [where f = service_plan]])

lemma stick_shown_reached: "reachable linuxDiskService ascii_tables stick_words stick_shown"
  unfolding stick_shown_def
  by (rule reachable.step [OF stick_scanned_reached app_step.user]) (simp_all add: stick_scanned_fields dialog_shown_def)

lemma dialog_used_reached:
  assumes "reachable linuxDiskService ascii_tables stick_words a" "\<not> closed a"
  shows "reachable linuxDiskService ascii_tables stick_words (dialog_used input a)"
proof (cases "restoreDialog (window a)")
  case (Some d)
  show ?thesis unfolding dialog_used_def Some option.case
    by (rule reachable.step [OF assms(1) app_step.dialog [OF assms(2) Some]])
qed (simp add: dialog_used_def assms)

lemma stick_acknowledged:
  "dialog_used (Acknowledge True) stick_shown =
     stick_shown\<lparr>window := (window stick_shown)\<lparr>restoreDialog :=
       Some (toggle_acknowledgement True (show_dialog (new_dialog linuxRestorePlan)))\<rparr>\<rparr>"
  by (simp add: dialog_used_def stick_shown_is dialog_acts_def show_dialog_def new_dialog_def after_handler_def)

lemma stick_begun_reached: "reachable linuxDiskService ascii_tables stick_words stick_begun"
  unfolding stick_begun_def
  by (intro dialog_used_reached stick_shown_reached)
    (simp_all only: stick_acknowledged, simp_all add: stick_shown_is stick_scanned_fields)

definition stick_dialog :: RestoreDialog where
  "stick_dialog = fst (confirmRestore (toggle_acknowledgement True (show_dialog (new_dialog linuxRestorePlan))))"

lemma stick_dialog_fields: "stage stick_dialog = Running" "dialog_step stick_dialog = 0" "acknowledged stick_dialog"
  "dialog_rows stick_dialog = dialog_rows (new_dialog linuxRestorePlan)"
  by (simp_all add: stick_dialog_def confirmRestore_def toggle_acknowledgement_def show_dialog_def new_dialog_def)

lemma stick_begun_fields:
  "restoreRunning (window stick_begun)" "begun stick_begun = [stick_asked]" "still_emitting stick_begun"
  "restoreDialog (window stick_begun) = Some stick_dialog"
proof -
  let ?d = "toggle_acknowledgement True (show_dialog (new_dialog linuxRestorePlan))"
  have react: "dialog_reacts ClickErase ?d = (stick_dialog, [RestoreConfirmed])"
    by (simp add: stick_dialog_def confirmRestore_def toggle_acknowledgement_def show_dialog_def new_dialog_def)
  have begun: "stick_begun = after_handler (worker_run stick_words (totalRestoreSteps linuxDiskService) [] 0 0
       \<lparr>end_restored = False, end_location = [], end_error = [], end_displayError = [], end_cancelRequested = True\<rparr>)
     (beginRestore linuxDiskService ascii_tables stick_words stick_asked
       ((window stick_shown)\<lparr>restoreDialog := Some stick_dialog\<rparr>)) (dialog_used (Acknowledge True) stick_shown)"
    unfolding stick_begun_def stick_acknowledged
    by (simp add: dialog_used_def dialog_acts_def react stick_shown_is Let_def del: dialog_reacts.simps)
  show "restoreRunning (window stick_begun)" "begun stick_begun = [stick_asked]" "still_emitting stick_begun"
    "restoreDialog (window stick_begun) = Some stick_dialog"
    unfolding begun stick_acknowledged
    by (simp_all add: stick_shown_is stick_scanned_fields beginRestore_def after_handler_def setRunning_def
        setStatus_def still_emitting_def worker_run_def split_beta Let_def)
qed

theorem window_restores_only_vetted_witness:
  "vetted linuxDiskService ascii_tables stick_asked \<and> \<not> scanning (window stick_begun) \<and> \<not> closed stick_begun"
  using window_restores_only_vetted [OF stick_begun_reached] stick_begun_fields by simp

theorem dialog_stays_well_formed_witness:
  "states_of stick_dialog = replicate 10 ''pending'' \<and> hero stick_dialog = ''active'' \<and> cancel_enabled stick_dialog \<and>
   CancelRequested \<in> set (snd (dialog_reacts ClickCancel stick_dialog))"
proof -
  have plan: "service_firstDestructiveStep linuxDiskService = 5" "length (service_plan linuxDiskService) = 10"
    "\<not> cancelling stick_dialog"
    by (simp_all add: stick_dialog_def confirmRestore_def toggle_acknowledgement_def show_dialog_def new_dialog_def
        linuxDiskService_def service_firstDestructiveStep_def linuxRestorePlan_def)
  show ?thesis
    using dialog_stays_well_formed [OF stick_begun_reached _ stick_begun_fields(4)] stick_dialog_fields plan
    by (simp add: row_states_def del: dialog_reacts.simps)
qed

text \<open>The restore of the stick without its formatting tool fails before its first step, and so says the dialog.\<close>

theorem dialog_shows_the_restore_witness:
  "\<exists>d'. restoreDialog (deliver_all linuxDiskService ascii_tables stick_words
       (map (Pair 7) (worker_run stick_words 10 [] 3 4
          (direct_end (machine_texts stick_machine) False (outcome.Failed (ToolMissing ExFat))))) (window stick_begun)) = Some d' \<and>
     hero d' = ''error'' \<and> states_of d' = replicate 10 ''pending''"
proof -
  obtain w where w: "performLinuxRestore stick_request (helper_os stick_machine) new_world =
      Some (outcome.Failed (ToolMissing ExFat), w)" "happened w = [Looked plugged_stick, Looked plugged_stick]"
    using stick_run by blast
  have silent: "direct_calls (machine_texts stick_machine) stick_request (happened w) = []" "reported (happened w) = []"
    using w(2) by (simp_all add: direct_calls_def reported_def)
  have plan: "totalRestoreSteps linuxDiskService = 10"
    by (simp add: linuxDiskService_def totalRestoreSteps_def linuxRestorePlan_def)
  have ok: "dialog_ok linuxRestorePlan stick_dialog"
    using reachable_app_ok [OF stick_begun_reached] stick_begun_fields(4)
    by (simp add: app_ok_def linuxDiskService_def)
  have "error_text (machine_texts stick_machine) e EnglishText \<noteq> []" for e
    by (simp add: stick_machine_def qs_def)
  then show ?thesis
    using dialog_shows_the_restore [OF w(1), where calls = "[]" and texts = "machine_texts stick_machine" and cancel = False
        and signals = "map (Pair 7) (worker_run stick_words 10 [] 3 4
          (direct_end (machine_texts stick_machine) False (outcome.Failed (ToolMissing ExFat))))"
        and words = stick_words and ended = 3 and attemptMs = 4 and w = "window stick_begun" and d = stick_dialog]
      stick_begun_fields(4) ok stick_dialog_fields silent plan
    by (auto simp: comp_def shown_result_def row_states_def)
qed

end
