(* ===== verification/Windows_Session.thy ===== *)
theory Windows_Session
  imports Action_Monad Windows_Rules
begin

text \<open>
  The world a Windows restore runs in, for \<open>src/win\<close>: the calls of the Windows API and of WMI with their
  answers, the raw disk and the storage connection of one restore, and the errors as constructors with the
  arguments of their texts, which are in \<open>Windows_Messages\<close>.

  \<^item> A \<open>win_code\<close> is what \<open>GetLastError\<close> says after a failed call; a call that only succeeds or fails is
    answered with \<open>win_code option\<close>. A handle that could not be opened is no handle, so
    \<open>INVALID_HANDLE_VALUE\<close> does not occur.
  \<^item> A \<open>wmi_object\<close> is what its properties read as; the conversions of a \<open>VARIANT\<close> behind it are in \<open>Windows_Wmi\<close>.
    A WMI call is one event, with the failure the program would word.
  \<^item> An enumeration of volumes is the list of names the finder goes through.
\<close>

section \<open>Codes and errors\<close>

type_synonym win_code = u32
type_synonym win_handle = nat

definition ERROR_SUCCESS :: win_code where "ERROR_SUCCESS = 0"
definition ERROR_FILE_NOT_FOUND :: win_code where "ERROR_FILE_NOT_FOUND = 2"
definition ERROR_PATH_NOT_FOUND :: win_code where "ERROR_PATH_NOT_FOUND = 3"
definition ERROR_ACCESS_DENIED :: win_code where "ERROR_ACCESS_DENIED = 5"
definition ERROR_INVALID_DATA :: win_code where "ERROR_INVALID_DATA = 13"
definition ERROR_WRITE_PROTECT :: win_code where "ERROR_WRITE_PROTECT = 19"
definition ERROR_NOT_READY :: win_code where "ERROR_NOT_READY = 21"
definition ERROR_CRC :: win_code where "ERROR_CRC = 23"
definition ERROR_WRITE_FAULT :: win_code where "ERROR_WRITE_FAULT = 29"
definition ERROR_READ_FAULT :: win_code where "ERROR_READ_FAULT = 30"
definition ERROR_SHARING_VIOLATION :: win_code where "ERROR_SHARING_VIOLATION = 32"
definition ERROR_LOCK_VIOLATION :: win_code where "ERROR_LOCK_VIOLATION = 33"
definition ERROR_HANDLE_DISK_FULL :: win_code where "ERROR_HANDLE_DISK_FULL = 39"
definition ERROR_DEV_NOT_EXIST :: win_code where "ERROR_DEV_NOT_EXIST = 55"
definition ERROR_OPEN_FAILED :: win_code where "ERROR_OPEN_FAILED = 110"
definition ERROR_DISK_FULL :: win_code where "ERROR_DISK_FULL = 112"
definition ERROR_INSUFFICIENT_BUFFER :: win_code where "ERROR_INSUFFICIENT_BUFFER = 122"
definition ERROR_DIR_NOT_EMPTY :: win_code where "ERROR_DIR_NOT_EMPTY = 145"
definition ERROR_BUSY :: win_code where "ERROR_BUSY = 170"
definition ERROR_MORE_DATA :: win_code where "ERROR_MORE_DATA = 234"
definition ERROR_NO_MEDIA_IN_DRIVE :: win_code where "ERROR_NO_MEDIA_IN_DRIVE = 1112"
definition ERROR_IO_DEVICE :: win_code where "ERROR_IO_DEVICE = 1117"
definition ERROR_DEVICE_NOT_CONNECTED :: win_code where "ERROR_DEVICE_NOT_CONNECTED = 1167"
definition ERROR_NOT_A_REPARSE_POINT :: win_code where "ERROR_NOT_A_REPARSE_POINT = 4390"

datatype wmi_context =
    ComNotInitialized
  | NoLocator
  | NotConnected
  | NoProxyBlanket
  | QueryFailed qstring
  | EnumerationFailed qstring
  | ObjectNotRead qstring
  | ClassNotRead string
  | MethodNotFound string string
  | NoInputObject
  | NoInputSignature string
  | InputFailed qstring
  | MethodFailed string string

datatype wmi_error = WmiError wmi_context u32

text \<open>The operations of \<open>RawDisk::lastError\<close>.\<close>

datatype raw_operation =
    OpenTheDrive
  | ReadDeviceNumber
  | ReadStorageProperties
  | ReadDriveSize
  | CheckWriteAccess
  | EnableExtendedIo
  | RefreshProperties
  | ResetTable
  | WriteGptTable
  | WriteMbrTable
  | ReadTable
  | CreateGptPartition
  | CreateMbrPartition
  | SeekToPosition

text \<open>The operations \<open>failOperation\<close> names in \<open>WindowsDiskService::restore\<close>.\<close>

datatype restore_operation =
    VerifyTheDrive
  | RefreshTheMetadata
  | DetachTheVolumes
  | DeleteThePartitions
  | FindTheNewVolume
  | VerifyTheNewVolume
  | AssignALetter
  | FormatTheVolume FileSystemType

datatype WindowsError =
    TargetUnsafe SafetyRefusal
  | TargetDiffers IdentityRefusal
  | LayoutImpossible LayoutError
  | FormatImpossible FormatRefusal
  | RawFailed raw_operation u32 win_code
  | DriveNotOpen u32
  | HandleNotADisk u32
  | HandleOfAnotherDisk u32 u32
  | DiskNotOnUsb u32
  | AnotherSerial u32
  | AnotherDiskSize u32 u64 u64
  | AnotherDiskSector u32 u32 u32
  | LockFailed u32 win_code
  | TooSmallToClear u32
  | UnalignedClearing u32 u64 u64 u32
  | ClearingFailed u32 win_code
  | WritesNotAccepted u32
  | NoTableGuid u32
  | NoPartitionGuid u32
  | NoMbrSignature u32
  | IncompleteTable u32
  | PartitionStillListed u32
  | PartitionImpossible u32 LayoutError
  | StorageFailed wmi_error
  | DiskNotReported u32
  | DiskNoLongerUsb u32
  | MethodRefused string string u32 "wmi_error option" qstring
  | JobWithoutPath
  | JobUnconfirmed wmi_error
  | JobStateUnusable
  | JobNotSuccessful "u64 option" qstring
  | JobFailedInState u64
  | JobFailedSaying qstring
  | JobTimedOut nat
  | VolumeNotOpened qstring win_code
  | VolumeNotLocked qstring win_code
  | VolumeNotDismounted qstring win_code
  | MountPointKept qstring win_code
  | NoNewVolume u32 nat
  | NoFreeLetter
  | VolumeNotMounted qstring win_code
  | VolumeNotReopened win_code
  | VolumeMovedAway u32
  | NoWindowsFormatter FileSystemType
  | NoAllocationUnit
  | VolumeNotReported u32
  | FormatNotSeen string qstring qstring
  | CouldNot restore_operation u32 WindowsError
  | StoppedBeforeFormatting u32 WindowsError

section \<open>What is asked of Windows\<close>

type_synonym win_guid = "u32 \<times> u16 \<times> u16 \<times> bytes"

record StorageDeviceNumber =
  DeviceType :: u32
  DeviceNumber :: u32
  PartitionNumber :: u32

datatype create_disk = CreateRaw | CreateGpt win_guid | CreateMbr u32

text \<open>An entry of a \<open>DRIVE_LAYOUT_INFORMATION_EX\<close>, with the fields the program sets.\<close>

datatype partition_entry =
    GptPartition u64 u64 u32 win_guid win_guid string
  | MbrPartition u64 u64 u32 u8 u32
  | UnusedMbrEntry

datatype drive_layout =
    GptDrive win_guid u64 u64 u32 "partition_entry list"
  | MbrDrive u32 "partition_entry list"

record wmi_object =
  object_text :: "string \<Rightarrow> qstring"
  object_uint :: "string \<Rightarrow> u32 option"
  object_uint64 :: "string \<Rightarrow> u64 option"
  object_bool :: "string \<Rightarrow> bool option"

datatype wmi_input = TextInput qstring | BoolInput bool | UIntInput u32

type_synonym wmi_inputs = "(string \<times> wmi_input) list"

text \<open>How a storage call went, for the log.\<close>

datatype job_note =
    JobUnreadable wmi_error
  | JobUnusable "u64 option"
  | JobFinished "u64 option"
  | JobStillRunning "u64 option"

datatype storage_outcome =
    CompletedImmediately
  | ReturnedCode u32
  | QueuedWithoutPath
  | QueuedAsJob job_note nat nat "u64 option"

datatype win_note =
    WOutOfPlanOrder RestoreStep
  | PartitionAtDiskStart u32
  | OldVolumeStays u32 nat
  | DriveLockSkipped WindowsError
  | ExtendedIoSkipped WindowsError
  | FirstWriteRetried u32 nat
  | StorageCalled string storage_outcome
  | VolumeDismounted qstring u32
  | WaitingForRemoval nat
  | WaitingForNewVolume nat

datatype win_event =
    WStepReported RestoreStep
  | WDetailReported win_note
  | WCancelAsked bool
  | PathOpened qstring bool "win_code + win_handle"
  | HandleClosed win_handle
  | NumberRead win_handle "win_code + StorageDeviceNumber"
  | DescriptorHeaderRead win_handle "win_code + u32 \<times> u32"
  | DescriptorRead win_handle u32 "win_code + bytes"
  | LengthRead win_handle "win_code + u64"
  | GeometryRead win_handle "u32 option"
  | WritableChecked win_handle "win_code option"
  | LockAsked win_handle "win_code option"
  | UnlockAsked win_handle
  | DismountAsked win_handle "win_code option"
  | ExtendedIoAsked win_handle "win_code option"
  | PropertiesUpdated win_handle "win_code option"
  | DiskCreated win_handle create_disk "win_code option"
  | LayoutRead win_handle "win_code + u32 \<times> u32 \<times> u64 list"
  | LayoutSet win_handle drive_layout "win_code option"
  | PointerSet win_handle u64 "win_code option"
  | ZerosWritten win_handle u64 u32 "win_code + u32"
  | BuffersFlushed win_handle
  | GuidMade "win_guid option"
  | NapTaken nat
  | TimerStarted
  | TimerRead nat
  | WmiConnected "wmi_error option"
  | WmiQueried qstring "wmi_object list" "wmi_error option"
  | WmiCalled string qstring string wmi_inputs "wmi_error + wmi_object option"
  | WmiRead qstring "wmi_error + wmi_object"
  | DrivesRead u32
  | ExtentsRead win_handle nat "win_code + u32 \<times> u32 \<times> u32 list"
  | OfflineAsked win_handle bool
  | VolumesListed "qstring list"
  | PathNamesRead qstring "qstring list option"
  | MountPointDeleted qstring "win_code option"
  | MountPointSet qstring qstring "win_code option"
  | VolumeInfoRead qstring "(qstring \<times> qstring) option"
  | LabelSet qstring qstring bool
  | DosDeviceRead qstring "qstring option"

type_synonym win_history = "win_event list"

text \<open>
  \<open>letter_or_number\<close> and \<open>upper_char\<close> are the character tables of \<open>QChar\<close>. \<open>timer_answer\<close> is the
  \<open>QElapsedTimer\<close> started last.
\<close>

record winos =
  win_tables :: unicode
  letter_or_number :: "qchar \<Rightarrow> bool"
  upper_char :: "qchar \<Rightarrow> qchar"
  win_cancel_answer :: "win_history \<Rightarrow> bool"
  create_file_answer :: "win_history \<Rightarrow> qstring \<Rightarrow> bool \<Rightarrow> win_code + win_handle"
  number_answer :: "win_history \<Rightarrow> win_handle \<Rightarrow> win_code + StorageDeviceNumber"
  header_answer :: "win_history \<Rightarrow> win_handle \<Rightarrow> win_code + u32 \<times> u32"
  descriptor_answer :: "win_history \<Rightarrow> win_handle \<Rightarrow> u32 \<Rightarrow> win_code + bytes"
  length_answer :: "win_history \<Rightarrow> win_handle \<Rightarrow> win_code + u64"
  geometry_answer :: "win_history \<Rightarrow> win_handle \<Rightarrow> u32 option"
  writable_answer :: "win_history \<Rightarrow> win_handle \<Rightarrow> win_code option"
  lock_answer :: "win_history \<Rightarrow> win_handle \<Rightarrow> win_code option"
  dismount_answer :: "win_history \<Rightarrow> win_handle \<Rightarrow> win_code option"
  extended_io_answer :: "win_history \<Rightarrow> win_handle \<Rightarrow> win_code option"
  update_answer :: "win_history \<Rightarrow> win_handle \<Rightarrow> win_code option"
  create_disk_answer :: "win_history \<Rightarrow> win_handle \<Rightarrow> create_disk \<Rightarrow> win_code option"
  layout_answer :: "win_history \<Rightarrow> win_handle \<Rightarrow> win_code + u32 \<times> u32 \<times> u64 list"
  set_layout_answer :: "win_history \<Rightarrow> win_handle \<Rightarrow> drive_layout \<Rightarrow> win_code option"
  seek_answer :: "win_history \<Rightarrow> win_handle \<Rightarrow> u64 \<Rightarrow> win_code option"
  write_answer :: "win_history \<Rightarrow> win_handle \<Rightarrow> u64 \<Rightarrow> u32 \<Rightarrow> win_code + u32"
  guid_answer :: "win_history \<Rightarrow> win_guid option"
  timer_answer :: "win_history \<Rightarrow> nat"
  connect_answer :: "win_history \<Rightarrow> wmi_error option"
  query_answer :: "win_history \<Rightarrow> qstring \<Rightarrow> wmi_object list \<times> wmi_error option"
  method_answer :: "win_history \<Rightarrow> string \<Rightarrow> qstring \<Rightarrow> string \<Rightarrow> wmi_inputs \<Rightarrow> wmi_error + wmi_object option"
  object_answer :: "win_history \<Rightarrow> qstring \<Rightarrow> wmi_error + wmi_object"
  drives_answer :: "win_history \<Rightarrow> u32"
  extents_answer :: "win_history \<Rightarrow> win_handle \<Rightarrow> nat \<Rightarrow> win_code + u32 \<times> u32 \<times> u32 list"
  offline_answer :: "win_history \<Rightarrow> win_handle \<Rightarrow> bool"
  volumes_answer :: "win_history \<Rightarrow> qstring list"
  path_names_answer :: "win_history \<Rightarrow> qstring \<Rightarrow> qstring list option"
  delete_mount_answer :: "win_history \<Rightarrow> qstring \<Rightarrow> win_code option"
  set_mount_answer :: "win_history \<Rightarrow> qstring \<Rightarrow> qstring \<Rightarrow> win_code option"
  volume_info_answer :: "win_history \<Rightarrow> qstring \<Rightarrow> (qstring \<times> qstring) option"
  set_label_answer :: "win_history \<Rightarrow> qstring \<Rightarrow> qstring \<Rightarrow> bool"
  dos_device_answer :: "win_history \<Rightarrow> qstring \<Rightarrow> qstring option"

section \<open>The world\<close>

text \<open>\<open>raw_pointer\<close> is the position of the handle, which a write advances.\<close>

record RawDisk =
  raw_number :: u32
  raw_handle :: "win_handle option"
  raw_locked :: bool
  writeAccepted :: bool
  notReadyRetries :: nat
  raw_pointer :: u64

record winworld = "win_event session" +
  raw :: RawDisk
  storage :: "wmi_error option"

definition new_raw :: "u32 \<Rightarrow> RawDisk" where
  "new_raw n = \<lparr>raw_number = n, raw_handle = None, raw_locked = False, writeAccepted = False, notReadyRetries = 0,
     raw_pointer = 0\<rparr>"

definition new_winworld :: winworld where
  "new_winworld = \<lparr>happened = [], steps_counter = new_counter windowsRestorePlan, raw = new_raw 0, storage = None\<rparr>"

type_synonym 'a winding = "('a, WindowsError) outcome"
type_synonym 'a win_action = "('a, WindowsError, winos, winworld) act"

definition win_env :: "(winos \<Rightarrow> 'a) \<Rightarrow> 'a win_action" where
  "win_env f S w = Some (Ok (f S), w)"

definition win_detail :: "win_note \<Rightarrow> unit win_action" where
  "win_detail d = tell (WDetailReported d)"

definition set_raw :: "(RawDisk \<Rightarrow> RawDisk) \<Rightarrow> unit win_action" where
  "set_raw f = change (\<lambda>w. w\<lparr>raw := f (raw w)\<rparr>)"

definition beginStep :: "RestoreStep \<Rightarrow> unit win_action" where
  "beginStep = report_with (\<lambda>s. WDetailReported (WOutOfPlanOrder s)) WStepReported"

definition win_stop_if_cancelled :: "unit win_action" where
  "win_stop_if_cancelled = andThen (ask win_cancel_answer WCancelAsked) (\<lambda>c. if c then stop else give ())"

lemma wp_win_env [run_simps]: "wp t (win_env f) S Q R w = Q (f S) w"
  by (simp add: wp_def win_env_def)

lemma winworld_noting [simp]: "raw (noting e w) = raw w" "storage (noting e w) = storage w"
  by (simp_all add: noting_def)

section \<open>What operations leave alone\<close>

text \<open>
  \<open>within K m\<close>: \<open>m\<close> only adds events of the class \<open>K\<close> and does not touch the counter, the connection, the
  handle or the number of the raw disk.
\<close>

definition fixed :: "winworld \<Rightarrow> RestoreStepCounter \<times> wmi_error option \<times> win_handle option \<times> u32" where
  "fixed w = (steps_counter w, storage w, raw_handle (raw w), raw_number (raw w))"

lemma fixed_noting [simp]: "fixed (noting e w) = fixed w"
  by (simp add: fixed_def)

definition within :: "(win_event \<Rightarrow> bool) \<Rightarrow> 'a win_action \<Rightarrow> bool" where
  "within K m \<longleftrightarrow> keeps K fixed m"

named_theorems within_intro \<open>operations that add only events of a class\<close>

lemma within_basic [within_intro]:
  "within K (give x)" "within K (fail e)" "within K (get g)" "within K (check b e)" "within K (gate h r)"
  "within K (win_env f)"
  unfolding within_def by (rule keeps_basic)+ (simp add: keeps_def run_simps)

lemma within_andThen [within_intro]: "within K m \<Longrightarrow> (\<And>x. within K (k x)) \<Longrightarrow> within K (andThen m k)"
  unfolding within_def by (rule keeps_andThen)

lemma within_ask [within_intro]: "(\<And>a. K (ev a)) \<Longrightarrow> within K (ask answer ev)"
  unfolding within_def by (rule keeps_ask) simp_all

lemma within_tell [within_intro]: "K e \<Longrightarrow> within K (tell e)"
  unfolding within_def by (rule keeps_tell) simp_all

lemma within_detail [within_intro]: "K (WDetailReported d) \<Longrightarrow> within K (win_detail d)"
  by (simp add: win_detail_def within_tell)

lemma within_attempt [within_intro]: "within K m \<Longrightarrow> within K (attempt m)"
  unfolding within_def by (rule keeps_attempt)

lemma within_rewording [within_intro]: "within K m \<Longrightarrow> within K (rewording g m)"
  unfolding within_def by (rule keeps_rewording)

lemma within_iterate [within_intro]: "(\<And>s. within K (body s)) \<Longrightarrow> within K (iterate body s)"
  unfolding within_def by (rule keeps_iterate)

lemma within_set_raw [within_intro]:
  "(\<And>r. raw_handle (f r) = raw_handle r) \<Longrightarrow> (\<And>r. raw_number (f r) = raw_number r) \<Longrightarrow> within K (set_raw f)"
  unfolding within_def set_raw_def by (rule keeps_change) (simp_all add: fixed_def)

lemma within_if [within_intro]: "within K m \<Longrightarrow> within K n \<Longrightarrow> within K (if b then m else n)"
  by simp

lemma within_weaken: "within K m \<Longrightarrow> (\<And>e. K e \<Longrightarrow> K' e) \<Longrightarrow> within K' m"
  unfolding within_def by (rule keeps_weaken)

end
