(* ===== verification/Windows_Disk.thy ===== *)
theory Windows_Disk
  imports Windows_Session "HOL-Library.Sublist"
begin

text \<open>
  The raw disk of a Windows restore, \<open>src/win/raw_disk.cpp\<close>, and the questions about handles of
  \<open>src/win/windows_util.cpp\<close>. The bytes of a storage descriptor are read at the offsets of
  \<open>STORAGE_DEVICE_DESCRIPTOR\<close>; the header and entry sizes of the variable-length answers are those of
  the 64-bit Windows headers.
\<close>

section \<open>Volumes and handles\<close>

text \<open>\<open>volumeDiskNumbers\<close>: five attempts, each with room for sixteen more extents.\<close>

fun disk_numbers_from :: "nat \<Rightarrow> nat \<Rightarrow> win_handle \<Rightarrow> u32 list win_action" where
  "disk_numbers_from 0 room h = give []"
| "disk_numbers_from (Suc n) room h =
     andThen (ask (\<lambda>S past. extents_answer S past h room) (ExtentsRead h room)) (\<lambda>r.
     case r of
       Inr (count, returned, numbers) \<Rightarrow>
         give (take (unat (boundedEntryCount count (ucast returned) 8 24)) numbers)
     | Inl code \<Rightarrow>
         if code \<noteq> ERROR_MORE_DATA \<and> code \<noteq> ERROR_INSUFFICIENT_BUFFER then give []
         else disk_numbers_from n (room + 24 * 16) h)"

definition volumeDiskNumbers :: "win_handle \<Rightarrow> u32 list win_action" where
  "volumeDiskNumbers = disk_numbers_from 5 32"

definition openVolumePath :: "qstring \<Rightarrow> bool \<Rightarrow> (win_code + win_handle) win_action" where
  "openVolumePath path writable = ask (\<lambda>S past. create_file_answer S past path writable) (PathOpened path writable)"

definition volumeHasDiskExtent :: "win_handle \<Rightarrow> u32 \<Rightarrow> bool win_action" where
  "volumeHasDiskExtent h disk = andThen (volumeDiskNumbers h) (\<lambda>numbers. give (disk \<in> set numbers))"

text \<open>Whether the volume is on the disk, and the code of the open when it failed.\<close>

definition volumePathIsOnDisk :: "qstring \<Rightarrow> u32 \<Rightarrow> (bool \<times> win_code) win_action" where
  "volumePathIsOnDisk path disk =
     andThen (openVolumePath path False) (\<lambda>r.
     case r of
       Inl code \<Rightarrow> give (False, if code = ERROR_SUCCESS then ERROR_OPEN_FAILED else code)
     | Inr h \<Rightarrow>
         andThen (volumeHasDiskExtent h disk) (\<lambda>belongs.
         andThen (tell (HandleClosed h)) (\<lambda>_. give (belongs, ERROR_SUCCESS))))"

definition drive_name :: "nat \<Rightarrow> qstring" where
  "drive_name k = [of_nat (65 + k), qc (CHR '':'')]"

definition device_prefix :: qstring where
  "device_prefix = [0x5C, 0x5C, qc (CHR ''.''), 0x5C]"

definition add_letter :: "qstring \<Rightarrow> (u32 \<Rightarrow> qstring list) \<Rightarrow> u32 \<Rightarrow> u32 \<Rightarrow> qstring list" where
  "add_letter name letters disk =
     (if name \<in> set (letters disk) then letters else letters(disk := letters disk @ [name]))"

fun letters_of :: "u32 \<Rightarrow> nat list \<Rightarrow> (u32 \<Rightarrow> qstring list) \<Rightarrow> (u32 \<Rightarrow> qstring list) win_action" where
  "letters_of drives [] letters = give letters"
| "letters_of drives (k # ks) letters =
     (if \<not> Bit_Operations.bit drives k then letters_of drives ks letters
      else
        andThen (openVolumePath (device_prefix @ drive_name k) False) (\<lambda>r.
        case r of
          Inl _ \<Rightarrow> letters_of drives ks letters
        | Inr h \<Rightarrow>
            andThen (volumeDiskNumbers h) (\<lambda>disks.
            andThen (tell (HandleClosed h)) (\<lambda>_.
            letters_of drives ks (foldl (add_letter (drive_name k)) letters disks)))))"

definition driveLettersByDisk :: "(u32 \<Rightarrow> qstring list) win_action" where
  "driveLettersByDisk =
     andThen (ask drives_answer DrivesRead) (\<lambda>drives. letters_of drives [0..<26] (\<lambda>_. []))"

section \<open>The identity of a raw disk\<close>

definition MaxNotReadyRetries :: nat where "MaxNotReadyRetries = 10"
definition NotReadyRetryDelayMs :: nat where "NotReadyRetryDelayMs = 500"

definition alignDown :: "u64 \<Rightarrow> u64 \<Rightarrow> u64" where
  "alignDown value alignment = (if alignment = 0 then value else (value div alignment) * alignment)"

text \<open>\<open>sizeof(STORAGE_DEVICE_DESCRIPTOR)\<close>, and the little-endian field at an offset of the buffer.\<close>

definition DescriptorBytes :: nat where "DescriptorBytes = 40"

definition field32 :: "bytes \<Rightarrow> nat \<Rightarrow> u32" where
  "field32 b k = foldr (\<lambda>c v. v * 256 + ucast c) (take 4 (drop k b)) 0"

definition serialFromDescriptor :: "bytes \<Rightarrow> qstring" where
  "serialFromDescriptor buffer =
     (if length buffer < DescriptorBytes then []
      else
        let at = unat (field32 buffer 24)
        in if at = 0 \<or> length buffer \<le> at then []
           else trimmed (from_latin1 (takeWhile (\<lambda>c. c \<noteq> 0) (drop at buffer))))"

definition busFromDescriptor :: "bytes \<Rightarrow> u32" where
  "busFromDescriptor buffer = field32 buffer 28"

definition normalizedSerial :: "(qchar \<Rightarrow> bool) \<Rightarrow> (qchar \<Rightarrow> qchar) \<Rightarrow> qstring \<Rightarrow> qstring" where
  "normalizedSerial alnum upper v = map upper (filter alnum v)"

definition serialsAgree :: "(qchar \<Rightarrow> bool) \<Rightarrow> (qchar \<Rightarrow> qchar) \<Rightarrow> qstring \<Rightarrow> qstring \<Rightarrow> bool" where
  "serialsAgree alnum upper found expected =
     (let a = normalizedSerial alnum upper found; b = normalizedSerial alnum upper expected
      in if a = [] \<or> b = [] then True else a = b \<or> sublist b a \<or> sublist a b)"

definition raw_failed :: "raw_operation \<Rightarrow> win_code \<Rightarrow> 'a win_action" where
  "raw_failed op code = andThen (get (\<lambda>w. raw_number (raw w))) (\<lambda>n. fail (RawFailed op n code))"

text \<open>An operation of the open handle; without one every control fails, which the callers exclude.\<close>

definition ERROR_INVALID_HANDLE :: win_code where "ERROR_INVALID_HANDLE = 6"

definition with_handle :: "(win_code \<Rightarrow> 'a win_action) \<Rightarrow> (win_handle \<Rightarrow> 'a win_action) \<Rightarrow> 'a win_action" where
  "with_handle none some =
     andThen (get (\<lambda>w. raw_handle (raw w))) (\<lambda>h. case h of None \<Rightarrow> none ERROR_INVALID_HANDLE | Some h \<Rightarrow> some h)"

definition readStorageDeviceDescriptor :: "win_handle \<Rightarrow> (win_code + bytes) win_action" where
  "readStorageDeviceDescriptor h =
     andThen (ask (\<lambda>S past. header_answer S past h) (DescriptorHeaderRead h)) (\<lambda>r.
     case r of
       Inl code \<Rightarrow> give (Inl code)
     | Inr (returned, size') \<Rightarrow>
         if returned < 8 \<or> size' < of_nat DescriptorBytes \<or> size' > 64 * 1024 then give (Inl ERROR_INVALID_DATA)
         else
           andThen (ask (\<lambda>S past. descriptor_answer S past h size') (DescriptorRead h size')) (\<lambda>r.
           case r of
             Inl code \<Rightarrow> give (Inl code)
           | Inr full \<Rightarrow> give (if length full < DescriptorBytes then Inl ERROR_INVALID_DATA else Inr full)))"

definition FILE_DEVICE_DISK :: u32 where "FILE_DEVICE_DISK = 7"

definition physical_drive :: "u32 \<Rightarrow> qstring" where
  "physical_drive n = device_prefix @ qs ''PhysicalDrive'' @ number (unat n)"

definition open_raw :: "unit win_action" where
  "open_raw =
     andThen (get (\<lambda>w. raw_number (raw w))) (\<lambda>n.
     andThen (openVolumePath (physical_drive n) True) (\<lambda>r.
     case r of
       Inl code \<Rightarrow> raw_failed OpenTheDrive code
     | Inr h \<Rightarrow> set_raw (\<lambda>d. d\<lparr>raw_handle := Some h\<rparr>)))"

definition verify_raw :: "DiskInfo \<Rightarrow> unit win_action" where
  "verify_raw expected =
     andThen (get raw) (\<lambda>d.
     let n = raw_number d
     in case raw_handle d of
       None \<Rightarrow> fail (DriveNotOpen n)
     | Some h \<Rightarrow>
         andThen (ask (\<lambda>S past. number_answer S past h) (NumberRead h)) (\<lambda>r.
         case r of
           Inl code \<Rightarrow> raw_failed ReadDeviceNumber code
         | Inr number' \<Rightarrow>
             andThen (check (DeviceType number' = FILE_DEVICE_DISK) (HandleNotADisk n)) (\<lambda>_.
             andThen (check (DeviceNumber number' = n \<and> PartitionNumber number' = 0)
               (HandleOfAnotherDisk (DeviceNumber number') n)) (\<lambda>_.
             andThen (readStorageDeviceDescriptor h) (\<lambda>r.
             case r of
               Inl code \<Rightarrow> raw_failed ReadStorageProperties code
             | Inr descriptor \<Rightarrow>
                 andThen (check (busFromDescriptor descriptor = UsbBusType) (DiskNotOnUsb n)) (\<lambda>_.
                 andThen (win_env letter_or_number) (\<lambda>alnum.
                 andThen (win_env upper_char) (\<lambda>upper.
                 andThen (check (serialsAgree alnum upper (serialFromDescriptor descriptor) (serialNumber expected))
                   (AnotherSerial n)) (\<lambda>_.
                 andThen (ask (\<lambda>S past. length_answer S past h) (LengthRead h)) (\<lambda>r.
                 case r of
                   Inl code \<Rightarrow> raw_failed ReadDriveSize code
                 | Inr reportedSize \<Rightarrow>
                     andThen (check (disk_size expected = 0 \<or> reportedSize = disk_size expected)
                       (AnotherDiskSize n reportedSize (disk_size expected))) (\<lambda>_.
                     andThen (ask (\<lambda>S past. geometry_answer S past h) (GeometryRead h)) (\<lambda>geometry'.
                     andThen (check (case geometry' of
                           None \<Rightarrow> True
                         | Some sector \<Rightarrow> sector = 0 \<or> sectorSize expected = 0 \<or> sector = sectorSize expected)
                       (AnotherDiskSector n (case geometry' of Some sector \<Rightarrow> sector | None \<Rightarrow> 0) (sectorSize expected))) (\<lambda>_.
                     andThen (ask (\<lambda>S past. writable_answer S past h) (WritableChecked h)) (\<lambda>r.
                     case r of None \<Rightarrow> give () | Some code \<Rightarrow> raw_failed CheckWriteAccess code))))))))))))))"

section \<open>Locking and controls\<close>

text \<open>The ten attempts; the code is the one of the last attempt.\<close>

fun lock_attempts :: "win_handle \<Rightarrow> nat \<Rightarrow> win_code \<Rightarrow> win_code option win_action" where
  "lock_attempts h 0 code = give (Some code)"
| "lock_attempts h (Suc n) code =
     andThen (ask (\<lambda>S past. lock_answer S past h) (LockAsked h)) (\<lambda>r.
     case r of
       None \<Rightarrow> andThen (set_raw (\<lambda>d. d\<lparr>raw_locked := True\<rparr>)) (\<lambda>_. give None)
     | Some code \<Rightarrow>
         if code \<noteq> ERROR_ACCESS_DENIED \<and> code \<noteq> ERROR_SHARING_VIOLATION \<and> code \<noteq> ERROR_LOCK_VIOLATION \<and>
            code \<noteq> ERROR_BUSY then give (Some code)
         else andThen (if n > 0 then tell (NapTaken 500) else give ()) (\<lambda>_. lock_attempts h n code))"

definition lock_raw :: "unit win_action" where
  "lock_raw =
     andThen (get (\<lambda>w. raw_number (raw w))) (\<lambda>n.
     with_handle (\<lambda>code. fail (LockFailed n code)) (\<lambda>h.
     andThen (lock_attempts h 10 ERROR_SUCCESS) (\<lambda>r.
     case r of None \<Rightarrow> give () | Some code \<Rightarrow> fail (LockFailed n code))))"

definition allowExtendedIo :: "unit win_action" where
  "allowExtendedIo =
     with_handle (raw_failed EnableExtendedIo) (\<lambda>h.
     andThen (ask (\<lambda>S past. extended_io_answer S past h) (ExtendedIoAsked h)) (\<lambda>r.
     case r of None \<Rightarrow> give () | Some code \<Rightarrow> raw_failed EnableExtendedIo code))"

definition refreshLayout :: "unit win_action" where
  "refreshLayout =
     with_handle (raw_failed RefreshProperties) (\<lambda>h.
     andThen (ask (\<lambda>S past. update_answer S past h) (PropertiesUpdated h)) (\<lambda>r.
     case r of None \<Rightarrow> give () | Some code \<Rightarrow> raw_failed RefreshProperties code))"

definition createDisk :: "raw_operation \<Rightarrow> create_disk \<Rightarrow> unit win_action" where
  "createDisk op c =
     with_handle (raw_failed op) (\<lambda>h.
     andThen (ask (\<lambda>S past. create_disk_answer S past h c) (DiskCreated h c)) (\<lambda>r.
     case r of None \<Rightarrow> give () | Some code \<Rightarrow> raw_failed op code))"

text \<open>A refresh whose failure is ignored.\<close>

definition try_refresh :: "unit win_action" where
  "try_refresh = andThen (attempt refreshLayout) (\<lambda>_. give ())"

definition setRaw :: "unit win_action" where
  "setRaw = andThen (createDisk ResetTable CreateRaw) (\<lambda>_. try_refresh)"

definition createGptDisk :: "win_guid win_action" where
  "createGptDisk =
     andThen (get (\<lambda>w. raw_number (raw w))) (\<lambda>n.
     andThen (ask guid_answer GuidMade) (\<lambda>g.
     case g of
       None \<Rightarrow> fail (NoTableGuid n)
     | Some guid \<Rightarrow> andThen (createDisk WriteGptTable (CreateGpt guid)) (\<lambda>_. give guid)))"

text \<open>\<open>offsetof(DRIVE_LAYOUT_INFORMATION_EX, PartitionEntry)\<close> is 48, \<open>sizeof(PARTITION_INFORMATION_EX)\<close> 144.\<close>

definition layoutHasPartitions :: "bool win_action" where
  "layoutHasPartitions =
     andThen (get (\<lambda>w. raw_number (raw w))) (\<lambda>n.
     with_handle (raw_failed ReadTable) (\<lambda>h.
     andThen (ask (\<lambda>S past. layout_answer S past h) (LayoutRead h)) (\<lambda>r.
     case r of
       Inl code \<Rightarrow> raw_failed ReadTable code
     | Inr (returned, count, lengths) \<Rightarrow>
         if returned < 48 then fail (IncompleteTable n)
         else give (\<exists>len \<in> set (take (unat (boundedEntryCount count (ucast returned) 48 144)) lengths). 0 < sint len))))"

text \<open>The twenty looks at the layout; the argument is what the last look that failed said.\<close>

fun empty_layout_attempts :: "nat \<Rightarrow> WindowsError option \<Rightarrow> unit win_action" where
  "empty_layout_attempts 0 readError =
     andThen (get (\<lambda>w. raw_number (raw w))) (\<lambda>n.
     fail (case readError of None \<Rightarrow> PartitionStillListed n | Some e \<Rightarrow> e))"
| "empty_layout_attempts (Suc k) readError =
     andThen try_refresh (\<lambda>_.
     andThen (attempt layoutHasPartitions) (\<lambda>r.
     if r = Ok False then give ()
     else
       andThen (tell (NapTaken 250)) (\<lambda>_.
       empty_layout_attempts k (case r of Failed e \<Rightarrow> Some e | _ \<Rightarrow> None))))"

definition replaceLayoutWithEmptyGpt :: "unit win_action" where
  "replaceLayoutWithEmptyGpt = andThen createGptDisk (\<lambda>_. empty_layout_attempts 20 None)"

section \<open>Creating the partition\<close>

definition BasicDataPartitionGuid :: win_guid where
  "BasicDataPartitionGuid = (0xEBD0A0A2, 0xB9E5, 0x4433, [0x87, 0xC0, 0x68, 0xB6, 0xB7, 0x26, 0x99, 0xC7])"

definition setDriveLayout :: "raw_operation \<Rightarrow> drive_layout \<Rightarrow> unit win_action" where
  "setDriveLayout op layout =
     with_handle (raw_failed op) (\<lambda>h.
     andThen (ask (\<lambda>S past. set_layout_answer S past h layout) (LayoutSet h layout)) (\<lambda>r.
     case r of Some code \<Rightarrow> raw_failed op code | None \<Rightarrow> refreshLayout))"

definition createSingleMbrPartition :: "GptLayout \<Rightarrow> FileSystemType \<Rightarrow> u32 \<Rightarrow> unit win_action" where
  "createSingleMbrPartition layout fs sector =
     andThen (get (\<lambda>w. raw_number (raw w))) (\<lambda>n.
     andThen (ask guid_answer GuidMade) (\<lambda>g.
     case g of
       None \<Rightarrow> fail (NoMbrSignature n)
     | Some (signature, _) \<Rightarrow>
         andThen (createDisk WriteMbrTable (CreateMbr signature)) (\<lambda>_.
         andThen refreshLayout (\<lambda>_.
         setDriveLayout CreateMbrPartition
           (MbrDrive signature
             [MbrPartition (startOffset layout) (layout_length layout) 1 (mbrPartitionType fs)
                (ucast (startOffset layout div ucast sector)),
              UnusedMbrEntry, UnusedMbrEntry, UnusedMbrEntry])))))"

definition createSinglePartition :: "PartitionStyle \<Rightarrow> FileSystemType \<Rightarrow> u64 \<Rightarrow> u32 \<Rightarrow> unit win_action" where
  "createSinglePartition style fs diskSize sector =
     (let layout = calculateGptLayout diskSize sector
      in andThen (get (\<lambda>w. raw_number (raw w))) (\<lambda>n.
         andThen (gate (PartitionImpossible n) (partitionLayoutError style layout sector)) (\<lambda>_.
         if style = Mbr then createSingleMbrPartition layout fs sector
         else
           andThen createGptDisk (\<lambda>diskId.
           andThen refreshLayout (\<lambda>_.
           andThen (ask guid_answer GuidMade) (\<lambda>g.
           case g of
             None \<Rightarrow> fail (NoPartitionGuid n)
           | Some partitionId \<Rightarrow>
               setDriveLayout CreateGptPartition
                 (GptDrive diskId (startOffset layout) (layout_length layout) 128
                   [GptPartition (startOffset layout) (layout_length layout) 1 BasicDataPartitionGuid partitionId ''USB''])))))))"

section \<open>Clearing\<close>

definition seek_to :: "u64 \<Rightarrow> unit win_action" where
  "seek_to position =
     with_handle (raw_failed SeekToPosition) (\<lambda>h.
     andThen (ask (\<lambda>S past. seek_answer S past h position) (PointerSet h position)) (\<lambda>r.
     case r of None \<Rightarrow> set_raw (\<lambda>d. d\<lparr>raw_pointer := position\<rparr>) | Some code \<Rightarrow> raw_failed SeekToPosition code))"

definition zero_buffer :: "u32 \<Rightarrow> u64" where
  "zero_buffer sectorSize' =
     (let sector = (if sectorSize' = 0 then 512 else ucast sectorSize');
          bufferSize = alignDown (1024 * 1024) sector
      in if bufferSize > 0 then bufferSize else sector)"

text \<open>One round of the loop of \<open>writeZeros\<close>; the state is what remains.\<close>

definition zero_round :: "u64 \<Rightarrow> u64 \<Rightarrow> u32 \<Rightarrow> u64 \<Rightarrow> (u64 + unit) win_action" where
  "zero_round off amount sector remaining =
     (if remaining = 0 then give (Inr ())
      else
        andThen (get raw) (\<lambda>d.
        let n = raw_number d; toWrite = ucast (min remaining (zero_buffer sector)) :: u32
        in with_handle (\<lambda>code. fail (ClearingFailed n code)) (\<lambda>h.
           andThen (ask (\<lambda>S past. write_answer S past h (raw_pointer d) toWrite) (ZerosWritten h (raw_pointer d) toWrite)) (\<lambda>r.
           case r of
             Inl code \<Rightarrow>
               if code = ERROR_NOT_READY \<and> \<not> writeAccepted d \<and> notReadyRetries d < MaxNotReadyRetries then
                 andThen (set_raw (\<lambda>d. d\<lparr>notReadyRetries := notReadyRetries d + 1\<rparr>)) (\<lambda>_.
                 andThen (tell (NapTaken NotReadyRetryDelayMs)) (\<lambda>_.
                 andThen (seek_to (off + (amount - remaining))) (\<lambda>_. give (Inl remaining))))
               else fail (ClearingFailed n code)
           | Inr written \<Rightarrow>
               if written = 0 then fail (WritesNotAccepted n)
               else
                 andThen (set_raw (\<lambda>d. d\<lparr>writeAccepted := True, raw_pointer := raw_pointer d + ucast written\<rparr>)) (\<lambda>_.
                 give (Inl (remaining - ucast written)))))))"

definition writeZeros_raw :: "u64 \<Rightarrow> u64 \<Rightarrow> u32 \<Rightarrow> unit win_action" where
  "writeZeros_raw off amount sector =
     (if amount = 0 then give ()
      else
        andThen (get (\<lambda>w. raw_number (raw w))) (\<lambda>n.
        andThen (check (\<not> unalignedZeroRangeError off amount sector) (UnalignedClearing n off amount sector)) (\<lambda>_.
        andThen (seek_to off) (\<lambda>_.
        iterate (zero_round off amount sector) amount))))"

definition clearPartitionSignatures :: "u64 \<Rightarrow> u32 \<Rightarrow> unit win_action" where
  "clearPartitionSignatures diskSize sector =
     (let clear = signatureClearRange diskSize sector
      in andThen (get (\<lambda>w. raw_number (raw w))) (\<lambda>n.
         andThen (check (clear_bytes clear \<noteq> 0) (TooSmallToClear n)) (\<lambda>_.
         andThen (writeZeros_raw 0 (clear_bytes clear) (clear_sectorSize clear)) (\<lambda>_.
         andThen (writeZeros_raw (tailOffset clear) (clear_bytes clear) (clear_sectorSize clear)) (\<lambda>_.
         andThen (with_handle (\<lambda>_. give ()) (\<lambda>h. tell (BuffersFlushed h))) (\<lambda>_.
         try_refresh))))))"

text \<open>The destructor of \<open>RawDisk\<close>.\<close>

definition close_raw :: "unit win_action" where
  "close_raw =
     andThen (get raw) (\<lambda>d.
     case raw_handle d of
       None \<Rightarrow> give ()
     | Some h \<Rightarrow>
         andThen (if raw_locked d then tell (UnlockAsked h) else give ()) (\<lambda>_.
         andThen (tell (HandleClosed h)) (\<lambda>_. set_raw (\<lambda>d. d\<lparr>raw_handle := None\<rparr>))))"

end
