(* ===== verification/Windows_Volumes.thy ===== *)
theory Windows_Volumes
  imports Windows_Disk
begin

text \<open>
  Storage jobs of \<open>src/win/wmi.cpp\<close> and the volumes of a disk, \<open>src/win/volume_manager.cpp\<close>. A WMI method
  call that Windows queues as a job is waited for; how it went is returned beside the verdict, because the
  program logs it either way.
\<close>

section \<open>WMI objects, calls and jobs\<close>

definition WmiMethodStartedJob :: u32 where "WmiMethodStartedJob = 4096"
definition JobStateCompleted :: u64 where "JobStateCompleted = 7"
definition JobStateTerminated :: u64 where "JobStateTerminated = 8"
definition JobStateKilled :: u64 where "JobStateKilled = 9"
definition JobStateException :: u64 where "JobStateException = 10"

definition uintValue :: "wmi_object \<Rightarrow> string \<Rightarrow> u32 \<Rightarrow> u32" where
  "uintValue ob name fallback = (case object_uint ob name of Some v \<Rightarrow> v | None \<Rightarrow> fallback)"

definition uint64Value :: "wmi_object \<Rightarrow> string \<Rightarrow> u64 \<Rightarrow> u64" where
  "uint64Value ob name fallback = (case object_uint64 ob name of Some v \<Rightarrow> v | None \<Rightarrow> fallback)"

definition boolValue :: "wmi_object \<Rightarrow> string \<Rightarrow> bool" where
  "boolValue ob name = (case object_bool ob name of Some v \<Rightarrow> v | None \<Rightarrow> False)"

definition objectPath :: "wmi_object \<Rightarrow> qstring" where
  "objectPath ob = object_text ob ''__PATH''"

record WmiCallResult =
  returnValue :: u32
  jobPath :: qstring
  extendedStatus :: qstring
  call_error :: "wmi_error option"

definition accepted :: "WmiCallResult \<Rightarrow> bool" where
  "accepted r \<longleftrightarrow> returnValue r = 0 \<or> returnValue r = WmiMethodStartedJob"

definition callMethod :: "string \<Rightarrow> qstring \<Rightarrow> string \<Rightarrow> wmi_inputs \<Rightarrow> WmiCallResult win_action" where
  "callMethod cls path method' inputs =
     andThen (ask (\<lambda>S past. method_answer S past cls path method' inputs) (WmiCalled cls path method' inputs)) (\<lambda>r.
     give (case r of
         Inl e \<Rightarrow> \<lparr>returnValue = -1, jobPath = [], extendedStatus = [], call_error = Some e\<rparr>
       | Inr None \<Rightarrow> \<lparr>returnValue = 0, jobPath = [], extendedStatus = [], call_error = None\<rparr>
       | Inr (Some out) \<Rightarrow>
           \<lparr>returnValue = uintValue out ''ReturnValue'' 0, jobPath = object_text out ''CreatedStorageJob'',
            extendedStatus = object_text out ''ExtendedStatus'', call_error = None\<rparr>))"

text \<open>
  One round of \<open>waitForStorageJob\<close>; the state is the number of reads and the last usable state. It ends with
  the note for the log and the error, if there is one.
\<close>

definition job_end :: "nat \<Rightarrow> u64 option \<Rightarrow> job_note \<Rightarrow> WindowsError option \<Rightarrow>
    (nat \<times> u64 option + storage_outcome \<times> WindowsError option) win_action" where
  "job_end readings state what result =
     andThen (ask timer_answer TimerRead) (\<lambda>ms. give (Inr (QueuedAsJob what ms readings state, result)))"

definition job_round :: "qstring \<Rightarrow> nat \<Rightarrow> nat \<times> u64 option \<Rightarrow>
    (nat \<times> u64 option + storage_outcome \<times> WindowsError option) win_action" where
  "job_round path timeoutMs st =
     (let readings = fst st + 1
      in andThen (ask (\<lambda>S past. object_answer S past path) (WmiRead path)) (\<lambda>r.
         case r of
           Inl e \<Rightarrow> job_end readings (snd st) (JobUnreadable e) (Some (JobUnconfirmed e))
         | Inr job \<Rightarrow>
             let code = object_uint64 job ''ErrorCode''
             in case object_uint64 job ''JobState'' of
                  None \<Rightarrow> job_end readings (snd st) (JobUnusable code) (Some JobStateUnusable)
                | Some state \<Rightarrow>
                    if state < 2 \<or> state > 12 then job_end readings (snd st) (JobUnusable code) (Some JobStateUnusable)
                    else if state = JobStateCompleted then
                      job_end readings (Some state) (JobFinished code)
                        (if code = Some 0 then None
                         else Some (JobNotSuccessful code (object_text job ''ErrorDescription'')))
                    else if state = JobStateTerminated \<or> state = JobStateKilled \<or> state = JobStateException then
                      (let said = trimmed (object_text job ''ErrorDescription'')
                       in job_end readings (Some state) (JobFinished code)
                            (Some (if said = [] then JobFailedInState state else JobFailedSaying said)))
                    else
                      andThen (ask timer_answer TimerRead) (\<lambda>ms.
                      if ms \<ge> timeoutMs
                      then job_end readings (Some state) (JobStillRunning code) (Some (JobTimedOut (timeoutMs div 1000)))
                      else andThen (tell (NapTaken 250)) (\<lambda>_. give (Inl (readings, Some state))))))"

definition waitForStorageJob :: "qstring \<Rightarrow> nat \<Rightarrow> (storage_outcome \<times> WindowsError option) win_action" where
  "waitForStorageJob path timeoutMs =
     (if path = [] then give (QueuedWithoutPath, Some JobWithoutPath)
      else andThen (tell TimerStarted) (\<lambda>_. iterate (job_round path timeoutMs) (0, None)))"

definition callMethodAndWait :: "string \<Rightarrow> qstring \<Rightarrow> string \<Rightarrow> wmi_inputs \<Rightarrow> nat \<Rightarrow>
    (storage_outcome \<times> WindowsError option) win_action" where
  "callMethodAndWait cls path method' inputs timeoutMs =
     andThen (callMethod cls path method' inputs) (\<lambda>r.
     if \<not> accepted r then
       give (ReturnedCode (returnValue r),
         Some (MethodRefused cls method' (returnValue r) (call_error r) (trimmed (extendedStatus r))))
     else if returnValue r = 0 then give (CompletedImmediately, None)
     else waitForStorageJob (jobPath r) timeoutMs)"

definition query :: "qstring \<Rightarrow> (wmi_object list \<times> wmi_error option) win_action" where
  "query wql = ask (\<lambda>S past. query_answer S past wql) (\<lambda>(objects, e). WmiQueried wql objects e)"

text \<open>A call whose way is noted in the log and whose error ends the operation.\<close>

definition storage_call :: "string \<Rightarrow> qstring \<Rightarrow> string \<Rightarrow> wmi_inputs \<Rightarrow> nat \<Rightarrow> unit win_action" where
  "storage_call cls path method' inputs timeoutMs =
     andThen (callMethodAndWait cls path method' inputs timeoutMs) (\<lambda>(how, e).
     andThen (win_detail (StorageCalled (cls @ ''.'' @ method') how)) (\<lambda>_.
     case e of None \<Rightarrow> give () | Some e \<Rightarrow> fail e))"

text \<open>The connection of a \<open>VolumeManager\<close>, made when it is constructed.\<close>

definition new_volume_manager :: "unit win_action" where
  "new_volume_manager = andThen (ask connect_answer WmiConnected) (\<lambda>e. change (\<lambda>w. w\<lparr>storage := e\<rparr>))"

definition check_storage :: "unit win_action" where
  "check_storage = andThen (get storage) (gate StorageFailed)"

section \<open>Preparing the disk\<close>

definition RefreshJobTimeoutMs :: nat where "RefreshJobTimeoutMs = 60 * 1000"
definition DeleteJobTimeoutMs :: nat where "DeleteJobTimeoutMs = 120 * 1000"
definition FormatJobTimeoutMs :: nat where "FormatJobTimeoutMs = 15 * 60 * 1000"

definition withoutTrailingSlash :: "qstring \<Rightarrow> qstring" where
  "withoutTrailingSlash v = rev (dropWhile (\<lambda>c. c = 0x5C) (rev v))"

definition normalizedVolumePath :: "unicode \<Rightarrow> qstring \<Rightarrow> qstring" where
  "normalizedVolumePath U v = fold_case U (trimmed v)"

definition normalizedLetter :: "unicode \<Rightarrow> qstring \<Rightarrow> qstring" where
  "normalizedLetter U v =
     (let l = withoutTrailingSlash (trimmed v)
      in upper_case U (if l \<noteq> [] \<and> last l = qc (CHR '':'') then butlast l else l))"

definition firstDriveRootFromMultiSz :: "qstring list \<Rightarrow> qstring" where
  "firstDriveRootFromMultiSz paths =
     (case find (\<lambda>p. length p = 3 \<and> p ! 1 = qc (CHR '':'') \<and> last p = 0x5C) paths of Some p \<Rightarrow> p | None \<Rightarrow> [])"

text \<open>The first drive root of the volume, \<open>None\<close> when Windows could not be asked.\<close>

definition firstDriveRootForVolume :: "qstring \<Rightarrow> qstring option win_action" where
  "firstDriveRootForVolume v =
     andThen (ask (\<lambda>S past. path_names_answer S past v) (PathNamesRead v)) (\<lambda>r.
     give (map_option firstDriveRootFromMultiSz r))"

definition mayHaveDriveLetter :: "qstring \<Rightarrow> bool win_action" where
  "mayHaveDriveLetter v = andThen (firstDriveRootForVolume v) (\<lambda>r. give (r \<noteq> Some []))"

definition lockAndDismount :: "win_handle \<Rightarrow> qstring \<Rightarrow> unit win_action" where
  "lockAndDismount h path =
     andThen (ask (\<lambda>S past. lock_answer S past h) (LockAsked h)) (\<lambda>r.
     case r of
       Some code \<Rightarrow> fail (VolumeNotLocked path code)
     | None \<Rightarrow>
         andThen (ask (\<lambda>S past. dismount_answer S past h) (DismountAsked h)) (\<lambda>r.
         case r of Some code \<Rightarrow> fail (VolumeNotDismounted path code) | None \<Rightarrow> give ()))"

definition disk_query :: "u32 \<Rightarrow> qstring" where
  "disk_query n = qs ''SELECT * FROM MSFT_Disk WHERE Number = '' @ number (unat n) @ qs '' AND BusType = '' @
     number (unat UsbBusType)"

definition refreshDisk :: "u32 \<Rightarrow> unit win_action" where
  "refreshDisk n =
     andThen check_storage (\<lambda>_.
     andThen (query (disk_query n)) (\<lambda>(found, e).
     case found of
       [] \<Rightarrow> fail (case e of None \<Rightarrow> DiskNotReported n | Some e \<Rightarrow> StorageFailed e)
     | disk # _ \<Rightarrow> storage_call ''MSFT_Disk'' (objectPath disk) ''Refresh'' [] RefreshJobTimeoutMs))"

text \<open>Whether a partition at the start of the disk was left for the empty table to replace.\<close>

fun delete_partitions :: "bool \<Rightarrow> wmi_object list \<Rightarrow> bool win_action" where
  "delete_partitions atStart [] = give atStart"
| "delete_partitions atStart (p # ps) =
     (if isPartitionAtDiskStart (object_uint64 p ''Offset'') then delete_partitions True ps
      else
        andThen (storage_call ''MSFT_Partition'' (objectPath p) ''DeleteObject'' [] DeleteJobTimeoutMs) (\<lambda>_.
        delete_partitions atStart ps))"

definition partition_query :: "u32 \<Rightarrow> qstring" where
  "partition_query n = qs ''SELECT * FROM MSFT_Partition WHERE DiskNumber = '' @ number (unat n)"

definition deletePartitionsForDisk :: "u32 \<Rightarrow> bool win_action" where
  "deletePartitionsForDisk n =
     andThen check_storage (\<lambda>_.
     andThen (query (partition_query n)) (\<lambda>(found, e).
     case e of
       Some e \<Rightarrow> if found = [] then fail (StorageFailed e) else delete_partitions False found
     | None \<Rightarrow> delete_partitions False found))"

fun protected_letters :: "unicode \<Rightarrow> qstring list \<Rightarrow> qstring list \<Rightarrow> qstring list" where
  "protected_letters U chosen [] = chosen"
| "protected_letters U chosen (l # ls) =
     (let n = normalizedLetter U l
      in protected_letters U (if n \<noteq> [] \<and> n \<notin> set chosen then chosen @ [n] else chosen) ls)"

text \<open>\<open>QString\<close>'s order, by code units.\<close>

fun text_less :: "qstring \<Rightarrow> qstring \<Rightarrow> bool" where
  "text_less a [] = False"
| "text_less [] (d # ds) = True"
| "text_less (c # cs) (d # ds) = (c < d \<or> (c = d \<and> text_less cs ds))"

definition remove_mount_point :: "u32 \<Rightarrow> qstring \<Rightarrow> unit win_action" where
  "remove_mount_point n name =
     (let devicePath' = device_prefix @ name; mountPoint = name @ [0x5C]
      in andThen (openVolumePath devicePath' True) (\<lambda>r.
         case r of
           Inl code \<Rightarrow> fail (VolumeNotOpened devicePath' code)
         | Inr h \<Rightarrow>
             leaving
               (andThen (volumeHasDiskExtent h n) (\<lambda>belongs.
                if \<not> belongs then give ()
                else
                  andThen (lockAndDismount h devicePath') (\<lambda>_.
                  andThen (ask (\<lambda>S past. delete_mount_answer S past mountPoint) (MountPointDeleted mountPoint)) (\<lambda>r.
                  case r of
                    None \<Rightarrow> give ()
                  | Some code \<Rightarrow>
                      check (code = ERROR_DIR_NOT_EMPTY \<or> code = ERROR_FILE_NOT_FOUND \<or> code = ERROR_PATH_NOT_FOUND \<or>
                          code = ERROR_NOT_A_REPARSE_POINT) (MountPointKept mountPoint code)))))
               (tell (HandleClosed h))))"

fun remove_mount_points :: "unicode \<Rightarrow> qstring list \<Rightarrow> u32 \<Rightarrow> qstring list \<Rightarrow> unit win_action" where
  "remove_mount_points U guarded n [] = give ()"
| "remove_mount_points U guarded n (name # names) =
     (let l = normalizedLetter U name
      in if text_less l (qs ''D'') \<or> l \<in> set guarded then remove_mount_points U guarded n names
         else andThen (remove_mount_point n name) (\<lambda>_. remove_mount_points U guarded n names))"

definition removeMountPointsForDisk :: "u32 \<Rightarrow> qstring list \<Rightarrow> unit win_action" where
  "removeMountPointsForDisk n protectedLetters =
     andThen (win_env win_tables) (\<lambda>U.
     andThen driveLettersByDisk (\<lambda>letters.
     remove_mount_points U (protected_letters U [qs ''C''] protectedLetters) n (letters n)))"

definition dismount_unlettered :: "u32 \<Rightarrow> qstring \<Rightarrow> unit win_action" where
  "dismount_unlettered n name =
     andThen (mayHaveDriveLetter name) (\<lambda>lettered.
     if lettered then give ()
     else
       andThen (openVolumePath (withoutTrailingSlash name) False) (\<lambda>r.
       case r of
         Inl _ \<Rightarrow> give ()
       | Inr h \<Rightarrow>
           andThen (volumeHasDiskExtent h n) (\<lambda>belongs.
           andThen (ask (\<lambda>S past. offline_answer S past h) (OfflineAsked h)) (\<lambda>offline.
           andThen (tell (HandleClosed h)) (\<lambda>_.
           if \<not> belongs \<or> offline then give ()
           else
             andThen (openVolumePath (withoutTrailingSlash name) True) (\<lambda>r.
             case r of
               Inl code \<Rightarrow> fail (VolumeNotOpened name code)
             | Inr h \<Rightarrow>
                 andThen (volumeHasDiskExtent h n) (\<lambda>belongs.
                 if \<not> belongs then tell (HandleClosed h)
                 else
                   andThen (leaving (lockAndDismount h name) (tell (HandleClosed h))) (\<lambda>_.
                   win_detail (VolumeDismounted name n)))))))))"

fun dismount_all :: "u32 \<Rightarrow> qstring list \<Rightarrow> unit win_action" where
  "dismount_all n [] = give ()"
| "dismount_all n (name # names) = andThen (dismount_unlettered n name) (\<lambda>_. dismount_all n names)"

definition dismountUnletteredVolumesOnDisk :: "u32 \<Rightarrow> unit win_action" where
  "dismountUnletteredVolumesOnDisk n = andThen (ask volumes_answer VolumesListed) (dismount_all n)"

section \<open>Waiting for volumes\<close>

definition partition_link :: "u32 \<Rightarrow> nat \<Rightarrow> qstring" where
  "partition_link n k = qs ''Harddisk'' @ number (unat n) @ qs ''Partition'' @ number k"

fun link_targets :: "u32 \<Rightarrow> nat list \<Rightarrow> qstring list win_action" where
  "link_targets n [] = give []"
| "link_targets n (k # ks) =
     andThen (ask (\<lambda>S past. dos_device_answer S past (partition_link n k)) (DosDeviceRead (partition_link n k))) (\<lambda>r.
     andThen (link_targets n ks) (\<lambda>rest. give (case r of Some target \<Rightarrow> target # rest | None \<Rightarrow> rest)))"

definition partitionVolumeDevices :: "u32 \<Rightarrow> qstring list win_action" where
  "partitionVolumeDevices n = link_targets n [1..<Suc (unat GptEntryCount)]"

fun any_on_disk :: "u32 \<Rightarrow> qstring list \<Rightarrow> bool win_action" where
  "any_on_disk n [] = give False"
| "any_on_disk n (d # ds) =
     andThen (volumePathIsOnDisk ([0x5C, 0x5C, qc (CHR ''?''), 0x5C] @ qs ''GLOBALROOT'' @ d) n) (\<lambda>(there, _).
     if there then give True else any_on_disk n ds)"

text \<open>A note at most every five seconds; the state is when the last one was made.\<close>

definition wait_note :: "(nat \<Rightarrow> win_note) \<Rightarrow> nat \<Rightarrow> nat win_action" where
  "wait_note note' lastNote =
     andThen (ask timer_answer TimerRead) (\<lambda>ms.
     if ms - lastNote \<ge> 5000 then
       andThen (ask timer_answer TimerRead) (\<lambda>noted.
       andThen (win_detail (note' (noted div 1000))) (\<lambda>_. give noted))
     else give lastNote)"

definition removal_round :: "qstring list \<Rightarrow> u32 \<Rightarrow> nat \<Rightarrow> nat \<Rightarrow> (nat + bool) win_action" where
  "removal_round old n timeoutMs lastNote =
     andThen (any_on_disk n old) (\<lambda>there.
     if \<not> there then give (Inr True)
     else
       andThen (ask timer_answer TimerRead) (\<lambda>ms.
       if ms \<ge> timeoutMs then give (Inr False)
       else
         andThen (wait_note WaitingForRemoval lastNote) (\<lambda>noted.
         andThen (tell (NapTaken 250)) (\<lambda>_. give (Inl noted)))))"

definition waitForVolumesToLeaveDisk :: "qstring list \<Rightarrow> u32 \<Rightarrow> nat \<Rightarrow> bool win_action" where
  "waitForVolumesToLeaveDisk old n timeoutMs =
     andThen (tell TimerStarted) (\<lambda>_. iterate (removal_round old n timeoutMs) 0)"

fun first_on_disk :: "u32 \<Rightarrow> qstring list \<Rightarrow> qstring win_action" where
  "first_on_disk n [] = give []"
| "first_on_disk n (v # vs) =
     andThen (volumePathIsOnDisk (withoutTrailingSlash v) n) (\<lambda>(there, _).
     if there then give v else first_on_disk n vs)"

definition findVolumeNameForDisk :: "u32 \<Rightarrow> qstring win_action" where
  "findVolumeNameForDisk n = andThen (ask volumes_answer VolumesListed) (first_on_disk n)"

definition new_volume_round :: "u32 \<Rightarrow> nat \<Rightarrow> nat \<Rightarrow> (nat + qstring) win_action" where
  "new_volume_round n timeoutMs lastNote =
     andThen (findVolumeNameForDisk n) (\<lambda>v.
     if v \<noteq> [] then give (Inr v)
     else
       andThen (ask timer_answer TimerRead) (\<lambda>ms.
       if ms \<ge> timeoutMs then fail (NoNewVolume n (timeoutMs div 1000))
       else
         andThen (wait_note WaitingForNewVolume lastNote) (\<lambda>noted.
         andThen (tell (NapTaken 500)) (\<lambda>_. give (Inl noted)))))"

definition waitForVolumeOnDisk :: "u32 \<Rightarrow> nat \<Rightarrow> qstring win_action" where
  "waitForVolumeOnDisk n timeoutMs = andThen (tell TimerStarted) (\<lambda>_. iterate (new_volume_round n timeoutMs) 0)"

section \<open>The new volume\<close>

definition mountVolume :: "qstring \<Rightarrow> qstring win_action" where
  "mountVolume v =
     andThen (firstDriveRootForVolume v) (\<lambda>existing.
     if existing \<noteq> None \<and> existing \<noteq> Some [] then give (the existing)
     else
       andThen (ask drives_answer DrivesRead) (\<lambda>drives.
       let mountPoint = firstAvailableDriveLetter drives
       in andThen (check (mountPoint \<noteq> []) NoFreeLetter) (\<lambda>_.
          andThen (ask (\<lambda>S past. set_mount_answer S past mountPoint v) (MountPointSet mountPoint v)) (\<lambda>r.
          case r of None \<Rightarrow> give mountPoint | Some code \<Rightarrow> fail (VolumeNotMounted mountPoint code)))))"

definition volumePathBelongsToDisk :: "qstring \<Rightarrow> u32 \<Rightarrow> unit win_action" where
  "volumePathBelongsToDisk v n =
     andThen (volumePathIsOnDisk (withoutTrailingSlash v) n) (\<lambda>(there, code).
     if there then give ()
     else if code \<noteq> ERROR_SUCCESS then fail (VolumeNotReopened code)
     else fail (VolumeMovedAway n))"

fun formatName :: "FileSystemType \<Rightarrow> string" where
  "formatName Fat32 = ''FAT32''"
| "formatName Ntfs = ''NTFS''"
| "formatName ExFat = ''exFAT''"
| "formatName Ext4 = ''''"

definition volume_query :: qstring where
  "volume_query = qs ''SELECT * FROM MSFT_Volume''"

text \<open>The object of the volume, \<open>None\<close> after the timeout; the state is the last error of a query.\<close>

definition target_round :: "unicode \<Rightarrow> qstring \<Rightarrow> wmi_error option \<Rightarrow>
    (wmi_error option + wmi_object option \<times> wmi_error option) win_action" where
  "target_round U v queryError =
     andThen (ask timer_answer TimerRead) (\<lambda>ms.
     if \<not> ms < 30 * 1000 then give (Inr (None, queryError))
     else
       andThen (query volume_query) (\<lambda>(found, e).
       let seen = (if e \<noteq> None then e else queryError)
       in case find (\<lambda>ob. normalizedVolumePath U (object_text ob ''Path'') = normalizedVolumePath U v) found of
            Some ob \<Rightarrow> give (Inr (Some ob, seen))
          | None \<Rightarrow> andThen (tell (NapTaken 250)) (\<lambda>_. give (Inl seen))))"

definition format_inputs :: "FileSystemType \<Rightarrow> qstring \<Rightarrow> u32 \<Rightarrow> wmi_inputs" where
  "format_inputs fs lab unit' =
     [(''FileSystem'', TextInput (qs (formatName fs))), (''FileSystemLabel'', TextInput lab),
      (''Full'', BoolInput False), (''Force'', BoolInput True)] @
     (if fs = Fat32 then [(''AllocationUnitSize'', UIntInput unit')] else [])"

definition same_ignoring_case :: "unicode \<Rightarrow> qstring \<Rightarrow> qstring \<Rightarrow> bool" where
  "same_ignoring_case U a b \<longleftrightarrow> fold_case U a = fold_case U b"

text \<open>The drive root serves the new file system under its label, which is set once more when it did not take.\<close>

definition served_round :: "unicode \<Rightarrow> FileSystemType \<Rightarrow> qstring \<Rightarrow> qstring \<Rightarrow> unit \<Rightarrow> (unit + unit) win_action" where
  "served_round U fs lab root _ =
     andThen (ask timer_answer TimerRead) (\<lambda>ms.
     if \<not> ms < 60 * 1000 then fail (FormatNotSeen (formatName fs) lab root)
     else
       let later = andThen (tell (NapTaken 500)) (\<lambda>_. give (Inl ()))
       in andThen (ask (\<lambda>S past. volume_info_answer S past root) (VolumeInfoRead root)) (\<lambda>info.
          case info of
            None \<Rightarrow> later
          | Some (current, served) \<Rightarrow>
              if same_ignoring_case U served (qs (formatName fs)) then
                (if same_ignoring_case U current lab then give (Inr ())
                 else
                   andThen (ask (\<lambda>S past. set_label_answer S past root lab) (LabelSet root lab)) (\<lambda>ok.
                   if ok then give (Inr ()) else later))
              else later))"

definition formatVolume :: "qstring \<Rightarrow> qstring \<Rightarrow> u32 \<Rightarrow> FileSystemType \<Rightarrow> u32 \<Rightarrow> qstring \<Rightarrow> unit win_action" where
  "formatVolume v root n fs unit' lab =
     andThen (check (formatName fs \<noteq> []) (NoWindowsFormatter fs)) (\<lambda>_.
     andThen (check (\<not> (fs = Fat32 \<and> unit' = 0)) NoAllocationUnit) (\<lambda>_.
     andThen (volumePathBelongsToDisk v n) (\<lambda>_.
     andThen check_storage (\<lambda>_.
     andThen (win_env win_tables) (\<lambda>U.
     andThen (andThen (tell TimerStarted) (\<lambda>_. iterate (target_round U v) None)) (\<lambda>(target, queryError).
     case target of
       None \<Rightarrow> fail (case queryError of None \<Rightarrow> VolumeNotReported n | Some e \<Rightarrow> StorageFailed e)
     | Some ob \<Rightarrow>
         andThen (storage_call ''MSFT_Volume'' (objectPath ob) ''Format'' (format_inputs fs lab unit') FormatJobTimeoutMs) (\<lambda>_.
         andThen (tell TimerStarted) (\<lambda>_. iterate (served_round U fs lab root) ()))))))))"

end
