(* ===== verification/Windows_Restore.thy ===== *)
theory Windows_Restore
  imports Windows_Volumes
begin

text \<open>
  The enumeration of disks and the restore of the Windows backend, \<open>src/win/windows_disk_service.cpp\<close>. The
  restore is cut at its two cancel points; \<open>failOperation\<close> is \<open>rewording (CouldNot op n)\<close>, and the raw disk is closed
  on every way out.
\<close>

section \<open>Enumerating\<close>

definition info_root :: "qstring \<Rightarrow> qstring" where
  "info_root letter' = take 1 letter' @ [qc (CHR '':''), 0x5C]"

fun volumeInfoForLetters :: "qstring list \<Rightarrow> qstring list \<Rightarrow> qstring list \<Rightarrow> (qstring list \<times> qstring list) win_action" where
  "volumeInfoForLetters [] ls fs = give (ls, fs)"
| "volumeInfoForLetters (l # rest) ls fs =
     andThen (ask (\<lambda>S past. volume_info_answer S past (info_root l)) (VolumeInfoRead (info_root l))) (\<lambda>info.
     case info of
       None \<Rightarrow> volumeInfoForLetters rest ls fs
     | Some (v, f) \<Rightarrow>
         let lab = trimmed v; fsName = trimmed f
         in volumeInfoForLetters rest (if lab \<noteq> [] then ls @ [lab] else ls)
              (if fsName \<noteq> [] \<and> fsName \<notin> set fs then fs @ [fsName] else fs))"

text \<open>The properties of an \<open>MSFT_Disk\<close> object; the labels and file systems are only read for display.\<close>

definition disk_of_object :: "wmi_object \<Rightarrow> (u32 \<Rightarrow> qstring list) \<Rightarrow> DiskInfo" where
  "disk_of_object ob letters =
     (let n = uintValue ob ''Number'' 0
      in \<lparr>deviceId = physical_drive n, displayId = qs ''Disk '' @ number (unat n), disk_number = n,
          busType = uintValue ob ''BusType'' 0, disk_name = trimmed (object_text ob ''FriendlyName''),
          uniqueId = trimmed (object_text ob ''UniqueId''), serialNumber = trimmed (object_text ob ''SerialNumber''),
          disk_path = trimmed (object_text ob ''Path''), deviceSequence = None,
          disk_size = uint64Value ob ''Size'' 0, sectorSize = uintValue ob ''LogicalSectorSize'' 512,
          partitionStyle = ucast (uintValue ob ''PartitionStyle'' 0), mountPoints = letters n, labels = [],
          fileSystems = [], isBoot = boolValue ob ''IsBoot'', isSystem = boolValue ob ''IsSystem'',
          isReadOnly = boolValue ob ''IsReadOnly'', isOffline = boolValue ob ''IsOffline''\<rparr>)"

definition diskInfoFromObject :: "wmi_object \<Rightarrow> (u32 \<Rightarrow> qstring list) \<Rightarrow> DiskDetails \<Rightarrow> DiskInfo win_action" where
  "diskInfoFromObject ob letters details =
     (let disk = disk_of_object ob letters
      in if details = DisplayDetails then
           andThen (volumeInfoForLetters (mountPoints disk) [] []) (\<lambda>(ls, fs).
           give (disk\<lparr>labels := ls, fileSystems := fs\<rparr>))
         else give disk)"

definition diskByNumber :: "u32 \<Rightarrow> DiskDetails \<Rightarrow> DiskInfo win_action" where
  "diskByNumber n details =
     andThen (ask connect_answer WmiConnected) (\<lambda>e.
     andThen (gate StorageFailed e) (\<lambda>_.
     andThen (query (disk_query n)) (\<lambda>(found, e).
     case found of
       [] \<Rightarrow> fail (case e of None \<Rightarrow> DiskNoLongerUsb n | Some e \<Rightarrow> StorageFailed e)
     | ob # _ \<Rightarrow> andThen driveLettersByDisk (\<lambda>letters. diskInfoFromObject ob letters details))))"

definition all_disks_query :: qstring where
  "all_disks_query = qs ''SELECT * FROM MSFT_Disk WHERE BusType = '' @ number (unat UsbBusType)"

fun infos_of :: "(u32 \<Rightarrow> qstring list) \<Rightarrow> wmi_object list \<Rightarrow> DiskInfo list win_action" where
  "infos_of letters [] = give []"
| "infos_of letters (ob # obs) =
     andThen (diskInfoFromObject ob letters DisplayDetails) (\<lambda>d.
     andThen (infos_of letters obs) (\<lambda>rest. give (d # rest)))"

text \<open>\<open>std::sort\<close> by number; disks of equal number keep their order here.\<close>

definition windows_listUsbDisks :: "DiskInfo list win_action" where
  "windows_listUsbDisks =
     andThen (ask connect_answer WmiConnected) (\<lambda>e.
     andThen (gate StorageFailed e) (\<lambda>_.
     andThen (query all_disks_query) (\<lambda>(found, e).
     andThen (if found = [] then gate StorageFailed e else give ()) (\<lambda>_.
     andThen (if found = [] then give (\<lambda>_. []) else driveLettersByDisk) (\<lambda>letters.
     andThen (infos_of letters found) (\<lambda>disks. give (sort_key disk_number disks)))))))"

section \<open>The restore\<close>

definition confirmStillSelected :: "DiskInfo \<Rightarrow> unit win_action" where
  "confirmStillSelected disk = rewording (StoppedBeforeFormatting (disk_number disk)) (verify_raw disk)"

text \<open>Both gates on the request, the disk described anew, and the gates on what was found.\<close>

definition win_restore_checks :: "RestoreRequest \<Rightarrow> DiskInfo win_action" where
  "win_restore_checks req =
     andThen (win_env win_tables) (\<lambda>U.
     andThen (gate TargetUnsafe (isSafeRestoreTarget U (request_disk req) (request_guard req))) (\<lambda>_.
     andThen (gate LayoutImpossible (canCreatePartitionLayout (request_style req) (request_disk req))) (\<lambda>_.
     andThen (change (\<lambda>w. w\<lparr>steps_counter := new_counter windowsRestorePlan\<rparr>)) (\<lambda>_.
     andThen (beginStep VerifyDisk) (\<lambda>_.
     let n = disk_number (request_disk req)
     in andThen (rewording (CouldNot VerifyTheDrive n) (diskByNumber n RestoreDetails)) (\<lambda>current.
        andThen (gate TargetDiffers (isSameRestoreTarget U (request_disk req) current)) (\<lambda>_.
        andThen (gate TargetUnsafe (isSafeRestoreTarget U current (request_guard req))) (\<lambda>_.
        andThen (gate LayoutImpossible (canCreatePartitionLayout (request_style req) current)) (\<lambda>_.
        andThen (gate FormatImpossible (windowsCanFormat (request_fileSystem req) current)) (\<lambda>_.
        give current))))))))))"

definition allocation_unit :: "FileSystemType \<Rightarrow> DiskInfo \<Rightarrow> u32" where
  "allocation_unit fs disk =
     (if fs = Fat32 then (case windowsFat32AllocationUnitSize disk of Some u \<Rightarrow> u | None \<Rightarrow> 0) else 0)"

text \<open>From the opened drive to the last moment it can be left as it was.\<close>

definition win_prepare :: "RestoreRequest \<Rightarrow> DiskInfo \<Rightarrow> unit win_action" where
  "win_prepare req disk =
     (let n = disk_number disk
      in andThen open_raw (\<lambda>_.
         andThen (verify_raw disk) (\<lambda>_.
         andThen win_stop_if_cancelled (\<lambda>_.
         andThen (beginStep RefreshMetadata) (\<lambda>_.
         andThen new_volume_manager (\<lambda>_.
         andThen (rewording (CouldNot RefreshTheMetadata n) (refreshDisk n)) (\<lambda>_.
         andThen (beginStep DetachDriveLetters) (\<lambda>_.
         andThen (rewording (CouldNot DetachTheVolumes n)
           (andThen (dismountUnletteredVolumesOnDisk n) (\<lambda>_.
            removeMountPointsForDisk n (guard_mountPoints (request_guard req))))) (\<lambda>_.
         andThen win_stop_if_cancelled (\<lambda>_.
         verify_raw disk))))))))))"

definition delete_stage :: "u32 \<Rightarrow> unit win_action" where
  "delete_stage n =
     andThen (beginStep DeletePartitions) (\<lambda>_.
     andThen (rewording (CouldNot DeleteThePartitions n) (deletePartitionsForDisk n)) (\<lambda>atStart.
     andThen (if atStart then win_detail (PartitionAtDiskStart n) else give ()) (\<lambda>_.
     andThen (partitionVolumeDevices n) (\<lambda>oldVolumes.
     andThen replaceLayoutWithEmptyGpt (\<lambda>_.
     andThen (waitForVolumesToLeaveDisk oldVolumes n OldVolumeTimeoutMs) (\<lambda>gone.
     if gone then give () else win_detail (OldVolumeStays n (OldVolumeTimeoutMs div 1000))))))))"

definition lock_stage :: "DiskInfo \<Rightarrow> unit win_action" where
  "lock_stage disk =
     andThen (beginStep LockDrive) (\<lambda>_.
     andThen (attempt lock_raw) (\<lambda>r.
     andThen (case r of Failed e \<Rightarrow> win_detail (DriveLockSkipped e) | _ \<Rightarrow> give ()) (\<lambda>_.
     andThen (attempt allowExtendedIo) (\<lambda>r.
     andThen (case r of Failed e \<Rightarrow> win_detail (ExtendedIoSkipped e) | _ \<Rightarrow> give ()) (\<lambda>_.
     andThen try_refresh (\<lambda>_.
     verify_raw disk))))))"

text \<open>The retries are logged whether the clearing succeeded or not.\<close>

definition clear_stage :: "DiskInfo \<Rightarrow> unit win_action" where
  "clear_stage disk =
     andThen (beginStep ClearSignatures) (\<lambda>_.
     andThen (attempt (clearPartitionSignatures (disk_size disk) (sectorSize disk))) (\<lambda>cleared.
     andThen (get (\<lambda>w. notReadyRetries (raw w))) (\<lambda>retries.
     andThen (if retries > 0 then win_detail (FirstWriteRetried (disk_number disk) retries) else give ()) (\<lambda>_.
     case cleared of Ok _ \<Rightarrow> give () | Failed e \<Rightarrow> fail e | Stopped \<Rightarrow> stop))))"

definition partition_stage :: "RestoreRequest \<Rightarrow> DiskInfo \<Rightarrow> unit win_action" where
  "partition_stage req disk =
     andThen (beginStep ResetToRaw) (\<lambda>_.
     andThen setRaw (\<lambda>_.
     andThen (beginStep CreatePartition) (\<lambda>_.
     createSinglePartition (request_style req) (request_fileSystem req) (disk_size disk) (sectorSize disk))))"

definition volume_stage :: "DiskInfo \<Rightarrow> (qstring \<times> qstring) win_action" where
  "volume_stage disk =
     (let n = disk_number disk
      in andThen (beginStep WaitForVolume) (\<lambda>_.
         andThen (rewording (CouldNot FindTheNewVolume n) (waitForVolumeOnDisk n NewVolumeTimeoutMs)) (\<lambda>v.
         andThen (beginStep RefreshNewVolume) (\<lambda>_.
         andThen (rewording (CouldNot VerifyTheNewVolume n)
           (andThen (refreshDisk n) (\<lambda>_. volumePathBelongsToDisk v n))) (\<lambda>_.
         andThen (confirmStillSelected disk) (\<lambda>_.
         andThen (beginStep AssignDriveLetter) (\<lambda>_.
         andThen (rewording (CouldNot AssignALetter n) (mountVolume v)) (\<lambda>root.
         give (v, root)))))))))"

definition format_stage :: "RestoreRequest \<Rightarrow> DiskInfo \<Rightarrow> qstring \<times> qstring \<Rightarrow> qstring win_action" where
  "format_stage req disk = (\<lambda>(v, root).
     andThen (beginStep Format) (\<lambda>_.
     andThen (confirmStillSelected disk) (\<lambda>_.
     andThen (rewording (CouldNot (FormatTheVolume (request_fileSystem req)) (disk_number disk))
       (formatVolume v root (disk_number disk) (request_fileSystem req)
         (allocation_unit (request_fileSystem req) disk) (volumeLabel req))) (\<lambda>_.
     andThen (beginStep Complete) (\<lambda>_. give root)))))"

definition win_rewrite :: "RestoreRequest \<Rightarrow> DiskInfo \<Rightarrow> qstring win_action" where
  "win_rewrite req disk =
     andThen (delete_stage (disk_number disk)) (\<lambda>_.
     andThen (lock_stage disk) (\<lambda>_.
     andThen (clear_stage disk) (\<lambda>_.
     andThen (partition_stage req disk) (\<lambda>_.
     andThen (volume_stage disk) (format_stage req disk)))))"

definition windows_restore :: "RestoreRequest \<Rightarrow> qstring win_action" where
  "windows_restore req =
     andThen (win_restore_checks req) (\<lambda>disk.
     andThen (beginStep OpenDrive) (\<lambda>_.
     andThen (set_raw (\<lambda>_. new_raw (disk_number disk))) (\<lambda>_.
     leaving (andThen (win_prepare req disk) (\<lambda>_. win_rewrite req disk)) close_raw)))"

end
