(* ===== verification/Windows_Effects.thy ===== *)
theory Windows_Effects
  imports Windows_Restore
begin

text \<open>
  What the operations of the Windows backend can do, class by class. \<open>changing\<close> events change a disk, its
  volumes or their mount points; \<open>guiding\<close> events are the reported steps and the questions about
  cancelling. A \<open>calm\<close> operation does neither; an \<open>inner\<close> one is no part of the course of the restore. The
  rules \<open>within_intro\<close> follow the structure of the code.
\<close>

section \<open>Classes of events\<close>

fun changing :: "win_event \<Rightarrow> bool" where
  "changing (DismountAsked _ _) = True"
| "changing (DiskCreated _ _ _) = True"
| "changing (LayoutSet _ _ _) = True"
| "changing (ZerosWritten _ _ _ _) = True"
| "changing (WmiCalled _ _ _ _ _) = True"
| "changing (MountPointDeleted _ _) = True"
| "changing (MountPointSet _ _ _) = True"
| "changing (LabelSet _ _ _) = True"
| "changing _ = False"

fun guiding :: "win_event \<Rightarrow> bool" where
  "guiding (WStepReported _) = True"
| "guiding (WCancelAsked _) = True"
| "guiding (WDetailReported (WOutOfPlanOrder _)) = True"
| "guiding _ = False"

text \<open>What cannot be undone by plugging the drive in again.\<close>

fun erasing :: "win_event \<Rightarrow> bool" where
  "erasing (DiskCreated _ _ _) = True"
| "erasing (LayoutSet _ _ _) = True"
| "erasing (ZerosWritten _ _ _ _) = True"
| "erasing (WmiCalled _ _ method' _ _) = (method' \<noteq> ''Refresh'')"
| "erasing (MountPointSet _ _ _) = True"
| "erasing (LabelSet _ _ _) = True"
| "erasing _ = False"

definition inner :: "win_event \<Rightarrow> bool" where
  "inner e \<longleftrightarrow> \<not> guiding e"

definition calm :: "win_event \<Rightarrow> bool" where
  "calm e \<longleftrightarrow> \<not> guiding e \<and> \<not> changing e"

definition mild :: "win_event \<Rightarrow> bool" where
  "mild e \<longleftrightarrow> \<not> guiding e \<and> \<not> erasing e"

lemma calm_mild: "calm e \<Longrightarrow> mild e"
  by (cases e) (simp_all add: calm_def mild_def)

lemma mild_inner: "mild e \<Longrightarrow> inner e"
  by (simp add: mild_def inner_def)

lemma calm_inner: "calm e \<Longrightarrow> inner e"
  by (simp add: calm_def inner_def)

lemmas class_defs = calm_def inner_def mild_def

lemma within_cases [within_intro]:
  "(\<And>x. within K (f x)) \<Longrightarrow> (\<And>y. within K (g y)) \<Longrightarrow> within K (case s of Inl x \<Rightarrow> f x | Inr y \<Rightarrow> g y)"
  "within K m \<Longrightarrow> (\<And>y. within K (h y)) \<Longrightarrow> within K (case opt of None \<Rightarrow> m | Some y \<Rightarrow> h y)"
  "(\<And>x y. within K (k x y)) \<Longrightarrow> within K (case p of (x, y) \<Rightarrow> k x y)"
  "within K m \<Longrightarrow> (\<And>x xs. within K (l x xs)) \<Longrightarrow> within K (case ys of [] \<Rightarrow> m | x # xs \<Rightarrow> l x xs)"
  "(\<And>x. within K (f x)) \<Longrightarrow> (\<And>e. within K (q e)) \<Longrightarrow> within K m \<Longrightarrow>
   within K (case r of Ok x \<Rightarrow> f x | Failed e \<Rightarrow> q e | Stopped \<Rightarrow> m)"
  by (auto split: sum.split option.split prod.split list.split outcome.split)

lemma keeps_leaving:
  assumes "keeps K f m" "keeps K f d"
  shows "keeps K f (leaving m d)"
  unfolding keeps_def wp_leaving
proof (intro allI, rule wp_mono [OF keepsD [OF assms(1)]])
  fix S w x w' assume "adds K w w' \<and> f w' = f w"
  then show "wp True d S (\<lambda>_ w'. adds K w w' \<and> f w' = f w) (\<lambda>_ w'. adds K w w' \<and> f w' = f w) w'"
    by (intro wp_mono [OF keepsD [OF assms(2)]]) (auto intro: adds_trans)
next
  fix S w r w' assume "r \<noteq> None \<and> adds K w w' \<and> f w' = f w"
  then show "wp True d S (\<lambda>_ w'. r \<noteq> None \<and> adds K w w' \<and> f w' = f w) (\<lambda>_ w'. r \<noteq> None \<and> adds K w w' \<and> f w' = f w) w'"
    by (intro wp_mono [OF keepsD [OF assms(2)]]) (auto intro: adds_trans)
qed

lemma within_leaving [within_intro]: "within K m \<Longrightarrow> within K d \<Longrightarrow> within K (leaving m d)"
  unfolding within_def by (rule keeps_leaving)

lemma wp_within:
  assumes "within K m"
    and "\<And>x w'. adds K w w' \<Longrightarrow> fixed w' = fixed w \<Longrightarrow> Q x w'"
    and "\<And>e w'. adds K w w' \<Longrightarrow> fixed w' = fixed w \<Longrightarrow> R (Some e) w'"
  shows "wp True m S Q R w"
  using assms by (intro wp_mono [OF keepsD [of K fixed m]]) (auto simp: within_def)

lemma adds_record [simp]:
  "adds K w (v\<lparr>raw := d\<rparr>) = adds K w v" "adds K w (v\<lparr>storage := e\<rparr>) = adds K w v"
  "adds K w (v\<lparr>steps_counter := c\<rparr>) = adds K w v" for w v :: winworld
  by (simp_all add: adds_def)

section \<open>Volumes and the raw disk\<close>

lemma within_disk_numbers: "within calm (disk_numbers_from n room h)"
  by (induction n arbitrary: room) (auto intro!: within_intro simp: class_defs split: if_splits)

lemma within_questions [within_intro]:
  "within calm (volumeDiskNumbers h)" "within calm (openVolumePath path a)" "within calm (volumeHasDiskExtent h d)"
  "within calm (volumePathIsOnDisk path d)"
  unfolding volumeDiskNumbers_def openVolumePath_def volumeHasDiskExtent_def volumePathIsOnDisk_def
  by (rule within_intro within_disk_numbers | simp add: class_defs)+

lemma within_letters_of: "within calm (letters_of drives ks letters)"
  by (induction ks arbitrary: letters) (auto intro!: within_intro simp: class_defs)

lemma within_letters [within_intro]: "within calm driveLettersByDisk"
  unfolding driveLettersByDisk_def by (rule within_intro within_letters_of | simp add: class_defs)+

lemma within_raw_failed [within_intro]: "within K (raw_failed op code)"
  unfolding raw_failed_def by (rule within_intro)+

lemma within_with_handle [within_intro]:
  "(\<And>c. within K (m c)) \<Longrightarrow> (\<And>h. within K (k h)) \<Longrightarrow> within K (with_handle m k)"
  unfolding with_handle_def by (rule within_intro | assumption)+

lemma within_descriptor [within_intro]: "within calm (readStorageDeviceDescriptor h)"
  unfolding readStorageDeviceDescriptor_def by (rule within_intro | simp add: class_defs)+

lemma within_verify [within_intro]: "within calm (verify_raw disk)"
  unfolding verify_raw_def Let_def by (rule within_intro | simp add: class_defs)+

lemma within_lock_attempts: "within calm (lock_attempts h n code)"
  by (induction n arbitrary: code) (auto intro!: within_intro simp: class_defs)

lemma within_controls [within_intro]:
  "within calm lock_raw" "within calm allowExtendedIo" "within calm refreshLayout" "within calm try_refresh"
  "within calm layoutHasPartitions"
  unfolding lock_raw_def allowExtendedIo_def try_refresh_def refreshLayout_def layoutHasPartitions_def
  by (rule within_intro within_lock_attempts | simp add: class_defs)+

lemma within_empty_layout: "within calm (empty_layout_attempts n e)"
  by (induction n arbitrary: e) (auto intro!: within_intro simp: class_defs)

lemma within_seek [within_intro]: "within calm (seek_to a)"
  unfolding seek_to_def by (rule within_intro | simp add: class_defs)+

section \<open>Operations that change something\<close>

lemma within_calm: "within calm m \<Longrightarrow> within inner m"
  by (erule within_weaken) (rule calm_inner)

lemma within_calm_mild: "within calm m \<Longrightarrow> within mild m"
  by (erule within_weaken) (rule calm_mild)

lemma within_mild: "within mild m \<Longrightarrow> within inner m"
  by (erule within_weaken) (rule mild_inner)

lemma within_writers [within_intro]:
  "within inner (createDisk op c)" "within inner (setDriveLayout op l)" "within inner (createGptDisk)"
  "within inner setRaw" "within inner replaceLayoutWithEmptyGpt" "within inner (createSingleMbrPartition layout fs sector)"
  "within inner (createSinglePartition style fs size' sector)"
  unfolding createSinglePartition_def createSingleMbrPartition_def replaceLayoutWithEmptyGpt_def setRaw_def
    createGptDisk_def createDisk_def setDriveLayout_def Let_def
  by (rule within_intro within_empty_layout | rule within_calm | simp add: class_defs)+

lemma within_zero_round [within_intro]: "within inner (zero_round a b s r)"
  unfolding zero_round_def Let_def by (rule within_intro | rule within_calm | simp add: class_defs)+

lemma within_clearing [within_intro]: "within inner (writeZeros_raw a b s)" "within inner (clearPartitionSignatures size' s)"
  unfolding writeZeros_raw_def clearPartitionSignatures_def Let_def
  by (rule within_intro | rule within_calm | simp add: class_defs)+

section \<open>Storage calls\<close>

lemma within_job_round [within_intro]: "within calm (job_round path timeoutMs st)"
  unfolding job_round_def job_end_def Let_def by (rule within_intro | simp add: class_defs)+

lemma within_storage [within_intro]:
  "within calm (waitForStorageJob path timeoutMs)" "within calm (query wql)" "within calm check_storage"
  unfolding waitForStorageJob_def query_def check_storage_def
  by (rule within_intro | simp add: class_defs split: prod.split)+

lemma within_calls [within_intro]:
  "within inner (callMethod cls path m ins)" "within inner (callMethodAndWait cls path m ins t)"
  "within inner (storage_call cls path m ins t)"
  unfolding storage_call_def callMethodAndWait_def callMethod_def
  by (rule within_intro | rule within_calm | simp add: class_defs)+

lemma within_refresh [within_intro]: "within mild (refreshDisk n)"
  unfolding refreshDisk_def storage_call_def callMethodAndWait_def callMethod_def
  by (rule within_intro | rule within_calm_mild | simp add: class_defs)+

lemmas within_refresh_inner [within_intro] = within_refresh [THEN within_mild]

lemma within_delete_partitions: "within inner (delete_partitions b ps)"
  by (induction ps arbitrary: b) (auto intro!: within_intro)

lemma within_delete [within_intro]: "within inner (deletePartitionsForDisk n)"
  unfolding deletePartitionsForDisk_def by (rule within_intro within_delete_partitions | rule within_calm)+

section \<open>Volumes\<close>

lemma within_lettering [within_intro]: "within calm (firstDriveRootForVolume v)" "within calm (mayHaveDriveLetter v)"
  unfolding mayHaveDriveLetter_def firstDriveRootForVolume_def by (rule within_intro | simp add: class_defs)+

lemma within_remove_one [within_intro]:
  "within mild (lockAndDismount h path)" "within mild (remove_mount_point n name)"
  unfolding remove_mount_point_def lockAndDismount_def Let_def
  by (rule within_intro | rule within_calm_mild | simp add: class_defs)+

lemma within_remove_points: "within mild (remove_mount_points U guarded n names)"
  by (induction names) (auto intro!: within_intro simp: Let_def)

lemma within_dismount_one [within_intro]: "within mild (dismount_unlettered n name)"
  unfolding dismount_unlettered_def by (rule within_intro | rule within_calm_mild | simp add: class_defs)+

lemma within_dismount_all: "within mild (dismount_all n names)"
  by (induction names) (auto intro!: within_intro)

lemma within_detaching [within_intro]:
  "within mild (dismountUnletteredVolumesOnDisk n)" "within mild (removeMountPointsForDisk n letters)"
  unfolding dismountUnletteredVolumesOnDisk_def removeMountPointsForDisk_def
  by (rule within_intro within_remove_points within_dismount_all | rule within_calm_mild | simp add: class_defs)+

lemmas within_detaching_inner [within_intro] = within_detaching [THEN within_mild]

lemma within_link_targets: "within calm (link_targets n ks)"
  by (induction ks) (auto intro!: within_intro simp: class_defs)

lemma within_any_on_disk [within_intro]: "within calm (any_on_disk n ds)"
  by (induction ds) (auto intro!: within_intro split: prod.split)

lemma within_first_on_disk: "within calm (first_on_disk n ds)"
  by (induction ds) (auto intro!: within_intro split: prod.split)

lemma within_wait_note [within_intro]: "(\<And>k. calm (WDetailReported (f k))) \<Longrightarrow> within calm (wait_note f t)"
  unfolding wait_note_def by (rule within_intro | simp add: class_defs)+

lemma within_waiting [within_intro]:
  "within calm (partitionVolumeDevices n)" "within calm (waitForVolumesToLeaveDisk old n timeoutMs)"
  "within calm (waitForVolumeOnDisk n timeoutMs)"
  unfolding partitionVolumeDevices_def waitForVolumesToLeaveDisk_def removal_round_def waitForVolumeOnDisk_def
    new_volume_round_def findVolumeNameForDisk_def
  by (rule within_intro within_link_targets within_first_on_disk | simp add: class_defs)+

lemma within_new_volume [within_intro]:
  "within inner (mountVolume v)" "within calm (volumePathBelongsToDisk v n)" "within calm (target_round U v e)"
  "within inner (served_round U fs lab root u)"
  unfolding mountVolume_def volumePathBelongsToDisk_def target_round_def served_round_def Let_def
  by (rule within_intro | rule within_calm | simp add: class_defs)+

lemma within_format [within_intro]: "within inner (formatVolume v root n fs u lab)"
  unfolding formatVolume_def by (rule within_intro | rule within_calm | simp add: class_defs)+

section \<open>Describing a disk\<close>

lemma within_volume_info: "within calm (volumeInfoForLetters letters ls fs)"
  by (induction letters arbitrary: ls fs) (auto intro!: within_intro simp: class_defs Let_def)

lemma within_describing [within_intro]: "within calm (diskInfoFromObject ob letters d)" "within calm (diskByNumber n d)"
  unfolding diskByNumber_def diskInfoFromObject_def Let_def
  by (rule within_intro within_volume_info | simp add: class_defs)+

lemma within_confirm [within_intro]: "within calm (confirmStillSelected disk)"
  unfolding confirmStillSelected_def by (rule within_intro)+

end
