(* ===== verification/Windows_Order.thy ===== *)
theory Windows_Order
  imports Windows_Effects
begin

text \<open>
  The steps of the Windows restore as the reporter sees them. An operation that only adds \<open>inner\<close> events and
  leaves the counter alone stays at its step; \<open>climbs k j\<close> operations take a run from the \<open>k\<close>-th step of
  \<open>windowsRestorePlan\<close> to the \<open>j\<close>-th. The stages of the restore are walked by the rules for both.
\<close>

section \<open>The position in the plan\<close>

fun win_step_of :: "win_event \<Rightarrow> RestoreStep option" where
  "win_step_of (WStepReported s) = Some s"
| "win_step_of _ = None"

definition win_reported :: "win_history \<Rightarrow> RestoreStep list" where
  "win_reported h = rev (List.map_filter win_step_of h)"

definition win_complained :: "win_history \<Rightarrow> bool" where
  "win_complained h \<longleftrightarrow> (\<exists>s. WDetailReported (WOutOfPlanOrder s) \<in> set h)"

definition win_at :: "nat \<Rightarrow> winworld \<Rightarrow> bool" where
  "win_at k w \<longleftrightarrow> steps_counter w = \<lparr>counter_plan = windowsRestorePlan, counter_done = k\<rparr> \<and>
     win_reported (happened w) = take k windowsRestorePlan \<and> \<not> win_complained (happened w)"

definition win_early :: "WindowsError option \<Rightarrow> winworld \<Rightarrow> bool" where
  "win_early r w \<longleftrightarrow> (\<exists>k < length windowsRestorePlan. win_at k w) \<and> (r = None \<longrightarrow> WCancelAsked True \<in> set (happened w))"

definition climbs :: "nat \<Rightarrow> nat \<Rightarrow> 'a win_action \<Rightarrow> bool" where
  "climbs k j m \<longleftrightarrow> (\<forall>S w. win_at k w \<longrightarrow> wp True m S (\<lambda>_. win_at j) win_early w)"

lemma reported_inner: "list_all inner new \<Longrightarrow> win_reported (new @ h) = win_reported h"
proof (induction new)
  case (Cons e new)
  then have "win_step_of e = None" by (cases e) (simp_all add: inner_def)
  then show ?case using Cons by (simp add: win_reported_def List.map_filter_def)
qed simp

lemma complained_inner: "list_all inner new \<Longrightarrow> win_complained (new @ h) = win_complained h"
  by (auto simp: win_complained_def list_all_iff inner_def)

lemma win_at_inner: "win_at k w \<Longrightarrow> adds inner w w' \<Longrightarrow> steps_counter w' = steps_counter w \<Longrightarrow> win_at k w'"
  by (auto simp: win_at_def adds_def reported_inner complained_inner)

lemma windows_plan_length: "length windowsRestorePlan = 14"
  by (simp add: windowsRestorePlan_def)

section \<open>Rules\<close>

lemma staying_within: "within inner m \<Longrightarrow> keeps inner steps_counter m"
  unfolding keeps_def by (auto intro!: wp_within [of inner m] simp: fixed_def)

lemma staying_calm: "within calm m \<Longrightarrow> keeps inner steps_counter m"
  by (intro staying_within within_calm)

lemma staying_raw:
  "keeps inner steps_counter (set_raw f)" "keeps inner steps_counter open_raw" "keeps inner steps_counter new_volume_manager"
  "keeps inner steps_counter close_raw"
  unfolding set_raw_def open_raw_def new_volume_manager_def close_raw_def openVolumePath_def keeps_def
  by (auto simp: run_simps set_raw_def raw_failed_def class_defs split: option.split sum.split)

lemma climbs_stay: "keeps inner steps_counter m \<Longrightarrow> k < 14 \<Longrightarrow> k = j \<Longrightarrow> climbs k j m"
  unfolding climbs_def win_early_def windows_plan_length
  by (intro allI impI wp_mono [OF keepsD [of inner steps_counter m]]) (blast intro: win_at_inner)+

lemma climbs_andThen: "climbs k j m \<Longrightarrow> (\<And>x. climbs j i (n x)) \<Longrightarrow> climbs k i (andThen m n)"
  unfolding climbs_def wp_andThen by (blast intro: wp_mono)

lemma climbs_quietly: "keeps inner steps_counter m \<Longrightarrow> k < 14 \<Longrightarrow> (\<And>x. climbs k j (n x)) \<Longrightarrow> climbs k j (andThen m n)"
  by (rule climbs_andThen [OF climbs_stay]) simp_all

lemma climbs_give: "k = j \<Longrightarrow> climbs k j (give x)"
  by (simp add: climbs_def wp_give)

lemma climbs_report: "k < 14 \<Longrightarrow> s = windowsRestorePlan ! k \<Longrightarrow> climbs k (Suc k) (beginStep s)"
  by (auto simp: climbs_def beginStep_def report_with_def run_simps win_at_def advance_def windows_plan_length
      win_reported_def List.map_filter_def win_complained_def take_Suc_conv_app_nth)

lemma climbs_reporting:
  "k < 14 \<Longrightarrow> s = windowsRestorePlan ! k \<Longrightarrow> climbs (Suc k) j (n ()) \<Longrightarrow> climbs k j (andThen (beginStep s) n)"
  by (rule climbs_andThen [OF climbs_report]) simp_all

lemma climbs_cancel: "k < 14 \<Longrightarrow> climbs k j (n ()) \<Longrightarrow> climbs k j (andThen win_stop_if_cancelled n)"
  by (auto simp: climbs_def win_stop_if_cancelled_def run_simps win_early_def windows_plan_length win_at_def win_reported_def
      List.map_filter_def win_complained_def)

lemma climbs_leaving:
  assumes "climbs k j m" "keeps inner steps_counter d"
  shows "climbs k j (leaving m d)"
proof -
  have out: "wp True d S (\<lambda>_. P) (\<lambda>_. P) w" if "P w" "\<And>w'. adds inner w w' \<Longrightarrow> steps_counter w' = steps_counter w \<Longrightarrow> P w'" for P S w
    by (rule wp_mono [OF keepsD [OF assms(2)]]) (use that in auto)
  have early: "win_early r w'" if "win_early r w" "adds inner w w'" "steps_counter w' = steps_counter w" for r w w'
    using that adds_set [OF that(2)] by (auto simp: win_early_def intro: win_at_inner)
  show ?thesis using assms(1) unfolding climbs_def wp_leaving
    by (blast intro: wp_mono out win_at_inner early)
qed

lemma climbs_restart: "climbs 0 0 (change (\<lambda>w. w\<lparr>steps_counter := new_counter windowsRestorePlan\<rparr>))"
  by (simp add: climbs_def wp_change win_at_def new_counter_def)

lemma windows_plan_nth:
  "windowsRestorePlan ! 0 = VerifyDisk" "windowsRestorePlan ! Suc 0 = OpenDrive"
  "windowsRestorePlan ! 2 = RefreshMetadata" "windowsRestorePlan ! 3 = DetachDriveLetters"
  "windowsRestorePlan ! 4 = DeletePartitions" "windowsRestorePlan ! 5 = LockDrive" "windowsRestorePlan ! 6 = ClearSignatures"
  "windowsRestorePlan ! 7 = ResetToRaw" "windowsRestorePlan ! 8 = CreatePartition" "windowsRestorePlan ! 9 = WaitForVolume"
  "windowsRestorePlan ! 10 = RefreshNewVolume" "windowsRestorePlan ! 11 = AssignDriveLetter"
  "windowsRestorePlan ! 12 = Format" "windowsRestorePlan ! 13 = Complete"
  by (simp_all add: windowsRestorePlan_def)

section \<open>The stages\<close>

text \<open>One operation of a sequence: a report, a cancel point, or an operation that stays.\<close>

lemmas climb = climbs_reporting climbs_cancel climbs_quietly

lemma checks_climb: "climbs 0 1 (win_restore_checks req)"
proof -
  have described: "climbs 1 1 (andThen (rewording (CouldNot VerifyTheDrive n) (diskByNumber n RestoreDetails)) (\<lambda>current.
        andThen (gate TargetDiffers (isSameRestoreTarget U d current)) (\<lambda>_.
        andThen (gate TargetUnsafe (isSafeRestoreTarget U current g)) (\<lambda>_.
        andThen (gate LayoutImpossible (canCreatePartitionLayout st current)) (\<lambda>_.
        andThen (gate FormatImpossible (windowsCanFormat fs current)) (\<lambda>_. give current))))))" for n U d g st fs
    by (rule climbs_stay, rule staying_within) (rule within_intro | rule within_calm | simp)+
  show ?thesis
    unfolding win_restore_checks_def Let_def
    by (rule climbs_quietly, rule staying_within, rule within_intro, simp, rule climbs_quietly, rule staying_within,
        rule within_intro, simp, rule climbs_quietly, rule staying_within, rule within_intro, simp,
        rule climbs_andThen [OF climbs_restart], rule climbs_reporting) (simp_all add: windows_plan_nth described [simplified])
qed

lemma prepare_climbs: "climbs 2 4 (win_prepare req disk)"
  unfolding win_prepare_def Let_def
  by (rule climb climbs_stay
      | rule staying_raw | rule staying_within, (rule within_intro | rule within_calm, rule within_intro)+
      | simp add: windows_plan_nth)+

text \<open>The attempt of an operation that asks no cancel question was not stopped.\<close>

lemma climbs_attempt:
  assumes m: "within inner m" "k < 14" and n: "\<And>r. r \<noteq> Stopped \<Longrightarrow> climbs k j (n r)"
  shows "climbs k j (andThen (attempt m) n)"
  unfolding climbs_def wp_andThen wp_attempt
proof (intro allI impI, rule wp_within [OF m(1)])
  have rest: "wp True (n r) S (\<lambda>_. win_at j) win_early w'"
    if "win_at k w" "adds inner w w'" "fixed w' = fixed w" "r \<noteq> Stopped" for S w w' r
    using n [OF that(4)] win_at_inner [OF that(1,2)] that(3) by (simp add: climbs_def fixed_def)
  show "wp True (n (Ok x)) S (\<lambda>_. win_at j) win_early w'"
    if "win_at k w" "adds inner w w'" "fixed w' = fixed w" for S w x w' by (rule rest [OF that]) simp
  show "wp True (n (case Some e of None \<Rightarrow> Stopped | Some e \<Rightarrow> Failed e)) S (\<lambda>_. win_at j) win_early w'"
    if "win_at k w" "adds inner w w'" "fixed w' = fixed w" for S w e w' by (rule rest [OF that]) simp
qed

lemma delete_and_lock_climb: "climbs 4 5 (delete_stage n)" "climbs 5 6 (lock_stage disk)"
  unfolding delete_stage_def lock_stage_def
  by (rule climb climbs_stay
      | rule staying_within, (rule within_intro | rule within_calm, rule within_intro | simp add: class_defs)+
      | simp add: windows_plan_nth)+

lemma clear_climbs: "climbs 6 7 (clear_stage disk)"
proof -
  have rest: "climbs 7 7 (andThen (get (\<lambda>w. notReadyRetries (raw w))) (\<lambda>retries.
     andThen (if retries > 0 then win_detail (FirstWriteRetried n retries) else give ()) (\<lambda>_.
     case r of Ok _ \<Rightarrow> give () | Failed e \<Rightarrow> fail e | Stopped \<Rightarrow> stop)))" if "r \<noteq> Stopped" for n r
    by (rule climbs_stay, rule staying_within; (use that in \<open>cases r; auto intro!: within_intro simp: class_defs\<close>)?)
  show ?thesis
    unfolding clear_stage_def
    by (rule climbs_reporting, simp, simp add: windows_plan_nth, rule climbs_attempt, rule within_intro, simp)
      (simp add: rest)
qed

lemma later_stages_climb:
  "climbs 7 9 (partition_stage req disk)" "climbs 9 12 (volume_stage disk)" "climbs 12 14 (format_stage req disk (v, root))"
  unfolding partition_stage_def volume_stage_def format_stage_def Let_def prod.case
  by (rule climb climbs_give climbs_stay
      | rule staying_within, (rule within_intro | rule within_calm, rule within_intro | simp add: class_defs)+
      | simp add: windows_plan_nth)+

lemma windows_restore_climbs: "climbs 0 14 (windows_restore req)"
proof -
  have rewrite: "climbs 4 14 (win_rewrite req disk)" for disk
    unfolding win_rewrite_def
    by (intro climbs_andThen [OF delete_and_lock_climb(1)] climbs_andThen [OF delete_and_lock_climb(2)]
        climbs_andThen [OF clear_climbs] climbs_andThen [OF later_stages_climb(1)] climbs_andThen [OF later_stages_climb(2)])
      (simp add: later_stages_climb(3) split_paired_all)
  have inside: "climbs 2 14 (leaving (andThen (win_prepare req disk) (\<lambda>_. win_rewrite req disk)) close_raw)" for disk
    by (intro climbs_leaving climbs_andThen [OF prepare_climbs] rewrite staying_raw)
  have "climbs 1 14 (andThen (beginStep OpenDrive) (\<lambda>_. andThen (set_raw (\<lambda>_. new_raw (disk_number disk))) (\<lambda>_.
     leaving (andThen (win_prepare req disk) (\<lambda>_. win_rewrite req disk)) close_raw)))" for disk
    by (rule climbs_reporting, simp, simp add: windows_plan_nth, rule climbs_quietly, rule staying_raw, simp)
      (use inside in \<open>simp add: numeral_2_eq_2\<close>)
  then show ?thesis
    unfolding windows_restore_def by (intro climbs_andThen [OF checks_climb])
qed

section \<open>The property\<close>

lemma windows_steps:
  assumes "windows_restore req S new_winworld = Some (r, w)"
  shows "prefix (win_reported (happened w)) windowsRestorePlan \<and> \<not> win_complained (happened w) \<and>
    (win_reported (happened w) = windowsRestorePlan \<longleftrightarrow> (\<exists>root. r = Ok root)) \<and>
    (r = Stopped \<longrightarrow> WCancelAsked True \<in> set (happened w))"
proof -
  have "win_at 0 new_winworld" by (simp add: win_at_def new_winworld_def new_counter_def win_complained_def win_reported_def)
  then have run: "wp True (windows_restore req) S (\<lambda>_. win_at 14) win_early new_winworld"
    using windows_restore_climbs by (simp add: climbs_def)
  have short: "take i windowsRestorePlan \<noteq> windowsRestorePlan" if "i < 14" for i
    using that windows_plan_length by (metis length_take min.absorb4 nat_neq_iff)
  show ?thesis
    using run short windows_plan_length
    by (cases r) (auto simp: assms wp_def win_early_def win_at_def take_is_prefix dest: sym)
qed

text \<open>C15. A Windows restore reports its plan: the steps it reports are, in order, a prefix of the plan the window
  was shown, never with the complaint that a step is out of order, and it reports the whole plan exactly when it
  succeeds.\<close>

theorem windows_reports_its_plan:
  "case windows_restore req S new_winworld of
     None \<Rightarrow> True
   | Some (r, w) \<Rightarrow>
       prefix (win_reported (happened w)) windowsRestorePlan \<and> \<not> win_complained (happened w) \<and>
       (win_reported (happened w) = windowsRestorePlan \<longleftrightarrow> (\<exists>root. r = Ok root))"
  using windows_steps by (auto split: option.split)

end
