(* ===== verification/Windows_Evidence.thy ===== *)
theory Windows_Evidence
  imports Windows_Effects
begin

text \<open>
  What a history proves about handles, volumes and the selected disk. Each reading operation of the backend is
  shown to leave the evidence its answer rests on: a volume is on a disk when Windows named the disk among its
  extents through the handle of its path, a drive has an identity when every question of \<open>verify_raw\<close> was
  answered as it should be, a letter is known when its volume was asked.
\<close>

section \<open>Segments of a history\<close>

text \<open>What happened since the last event of a kind, newest first.\<close>

definition since :: "(win_event \<Rightarrow> bool) \<Rightarrow> win_history \<Rightarrow> win_history" where
  "since p h = takeWhile (\<lambda>e. \<not> p e) h"

lemma since_append: "list_all (\<lambda>e. \<not> p e) new \<Longrightarrow> since p (new @ h) = new @ since p h"
  by (induction new) (simp_all add: since_def)

lemma since_Cons: "\<not> p e \<Longrightarrow> since p (e # h) = e # since p h"
  by (simp add: since_def)

text \<open>An action adds a segment that satisfies \<open>P\<close> of its result, made of events of a class.\<close>

definition tells :: "(win_event \<Rightarrow> bool) \<Rightarrow> ('a \<Rightarrow> win_history \<Rightarrow> bool) \<Rightarrow> winos \<Rightarrow> 'a win_action \<Rightarrow> bool" where
  "tells K P S m \<longleftrightarrow>
     (\<forall>w. wp True m S
        (\<lambda>x w'. \<exists>new. happened w' = new @ happened w \<and> list_all K new \<and> P x new \<and> fixed w' = fixed w)
        (\<lambda>r w'. r \<noteq> None \<and> adds K w w' \<and> fixed w' = fixed w) w)"

lemma tells_wp:
  assumes "tells K P S m"
    and "\<And>x w' new. happened w' = new @ happened w \<Longrightarrow> list_all K new \<Longrightarrow> P x new \<Longrightarrow> fixed w' = fixed w \<Longrightarrow> Q x w'"
    and "\<And>e w'. adds K w w' \<Longrightarrow> fixed w' = fixed w \<Longrightarrow> R (Some e) w'"
  shows "wp True m S Q R w"
  by (rule wp_mono [OF assms(1) [unfolded tells_def, rule_format]]) (use assms(2,3) in auto)

lemma tells_mono: "tells K P S m \<Longrightarrow> (\<And>x new. list_all K new \<Longrightarrow> P x new \<Longrightarrow> P' x new) \<Longrightarrow> tells K P' S m"
  unfolding tells_def by (blast intro: wp_mono)

lemma tells_within: "within K m \<Longrightarrow> tells K (\<lambda>_ _. True) S m"
  unfolding tells_def by (auto intro!: wp_within [of K m] simp: adds_def)

text \<open>A sequence tells what its second part makes of what the first part told.\<close>

lemma tells_andThen:
  assumes m: "tells K P S m" and k: "\<And>x old. P x old \<Longrightarrow> tells K (\<lambda>y new. Q y (new @ old)) S (k x)"
  shows "tells K Q S (andThen m k)"
  unfolding tells_def wp_andThen
proof (intro allI, rule tells_wp [OF m])
  fix w x w' old assume o: "happened w' = old @ happened w" "list_all K old" "P x old" "fixed w' = fixed w"
  show "wp True (k x) S
      (\<lambda>x w'. \<exists>new. happened w' = new @ happened w \<and> list_all K new \<and> Q x new \<and> fixed w' = fixed w)
      (\<lambda>r w'. r \<noteq> None \<and> adds K w w' \<and> fixed w' = fixed w) w'"
  proof (rule tells_wp [OF k [OF o(3)]])
    show "\<exists>new. happened v = new @ happened w \<and> list_all K new \<and> Q y new \<and> fixed v = fixed w"
      if "happened v = new @ happened w'" "list_all K new" "Q y (new @ old)" "fixed v = fixed w'" for y v new
      using that o by (intro exI [of _ "new @ old"]) simp
  next
    fix e v assume "adds K w' v" "fixed v = fixed w'"
    moreover have "adds K w w'" using o(1,2) by (auto simp: adds_def)
    ultimately show "Some e \<noteq> None \<and> adds K w v \<and> fixed v = fixed w" using o(4) by (auto intro: adds_trans)
  qed
qed (auto simp: adds_def)

lemma tells_give: "P x [] \<Longrightarrow> tells K P S (give x)"
  by (simp add: tells_def wp_give)

lemma tells_fail: "tells K P S (fail e)"
  by (simp add: tells_def wp_fail)

lemma tells_ask: "(\<And>a. K (ev a)) \<Longrightarrow> (\<And>a. P a [ev a]) \<Longrightarrow> tells K P S (ask answer ev)"
  by (simp add: tells_def wp_ask)

lemma tells_tell: "K e \<Longrightarrow> P () [e] \<Longrightarrow> tells K P S (tell e)"
  by (simp add: tells_def wp_tell)

lemma tells_check: "(b \<Longrightarrow> P () []) \<Longrightarrow> tells K P S (check b e)"
  by (simp add: tells_def wp_check)

lemma tells_env: "P (f S) [] \<Longrightarrow> tells K P S (win_env f)"
  by (simp add: tells_def wp_win_env)

lemma tells_get: "(\<And>w. P (g w) []) \<Longrightarrow> tells K P S (get g)"
  by (simp add: tells_def wp_get)

section \<open>Volumes\<close>

fun asks_extents :: "win_handle \<Rightarrow> win_event \<Rightarrow> bool" where
  "asks_extents h (ExtentsRead h' _ _) = (h' = h)"
| "asks_extents h _ = False"

definition extents_name :: "u32 \<Rightarrow> win_handle \<Rightarrow> win_history \<Rightarrow> bool" where
  "extents_name n h seg \<longleftrightarrow>
     (\<exists>room count returned numbers. ExtentsRead h room (Inr (count, returned, numbers)) \<in> set seg \<and>
        n \<in> set (take (unat (boundedEntryCount count (ucast returned) 8 24)) numbers))"

text \<open>The path was opened as this handle, and the volume behind it was then asked and named the disk.\<close>

definition volume_held :: "u32 \<Rightarrow> qstring \<Rightarrow> bool \<Rightarrow> win_handle \<Rightarrow> win_history \<Rightarrow> bool" where
  "volume_held n path a h seg \<longleftrightarrow>
     (\<exists>mid rest. seg = mid @ PathOpened path a (Inr h) # rest \<and> list_all (\<lambda>e. \<forall>p b. e \<noteq> PathOpened p b (Inr h)) mid \<and>
        extents_name n h mid)"

definition volume_found :: "u32 \<Rightarrow> qstring \<Rightarrow> win_history \<Rightarrow> bool" where
  "volume_found n path seg \<longleftrightarrow> (\<exists>later earlier h. seg = later @ earlier \<and> volume_held n path False h earlier)"

lemma extents_append: "extents_name n h (a @ b) \<longleftrightarrow> extents_name n h a \<or> extents_name n h b"
  by (auto simp: extents_name_def)

lemma volume_found_append: "volume_found n path seg \<Longrightarrow> volume_found n path (later @ seg @ earlier)"
proof -
  assume "volume_found n path seg"
  then obtain l e h where "seg = l @ e" and held: "volume_held n path False h e" by (auto simp: volume_found_def)
  then have split: "later @ seg @ earlier = (later @ l) @ (e @ earlier)" by simp
  obtain mid rest where "e = mid @ PathOpened path False (Inr h) # rest"
    "list_all (\<lambda>e. \<forall>p b. e \<noteq> PathOpened p b (Inr h)) mid" "extents_name n h mid"
    using held by (auto simp: volume_held_def)
  then have "volume_held n path False h (e @ earlier)"
    unfolding volume_held_def by (intro exI [of _ mid] exI [of _ "rest @ earlier"]) simp
  then show ?thesis unfolding volume_found_def split by blast
qed

lemma volume_foundI: "volume_held n path False h seg \<Longrightarrow> volume_found n path (later @ seg)"
  by (auto simp: volume_found_def)

lemma tells_disk_numbers:
  "tells (asks_extents h) (\<lambda>numbers new. \<forall>n. n \<in> set numbers \<longleftrightarrow> extents_name n h new) S (disk_numbers_from k room h)"
proof (induction k arbitrary: room)
  case (Suc k)
  have none: "\<not> extents_name n h [ExtentsRead h room (Inl c)]" for n c by (simp add: extents_name_def)
  show ?case
    unfolding disk_numbers_from.simps
  proof (rule tells_andThen [where P = "\<lambda>r new. new = [ExtentsRead h room r]"])
    fix r old assume old: "old = [ExtentsRead h room r]"
    show "tells (asks_extents h) (\<lambda>y new. \<forall>n. n \<in> set y \<longleftrightarrow> extents_name n h (new @ old)) S
      (case r of
         Inl code \<Rightarrow> if code \<noteq> ERROR_MORE_DATA \<and> code \<noteq> ERROR_INSUFFICIENT_BUFFER then give []
           else disk_numbers_from k (room + 24 * 16) h
       | Inr (count, returned, numbers) \<Rightarrow> give (take (unat (boundedEntryCount count (ucast returned) 8 24)) numbers))"
      using Suc.IH [of "room + 24 * 16"] unfolding old
      by (auto simp: extents_append none extents_name_def split: sum.split intro!: tells_give)
  qed (rule tells_ask; simp)
qed (auto simp: extents_name_def intro!: tells_give)

lemma tells_mono_class: "tells K P S m \<Longrightarrow> (\<And>e. K e \<Longrightarrow> K' e) \<Longrightarrow> tells K' P S m"
  unfolding tells_def
proof (intro allI, elim allE, erule wp_mono)
  fix w x w'
  assume K: "\<And>e. K e \<Longrightarrow> K' e" and "\<exists>new. happened w' = new @ happened w \<and> list_all K new \<and> P x new \<and> fixed w' = fixed w"
  then obtain new where "happened w' = new @ happened w" "list_all K new" "P x new" "fixed w' = fixed w" by blast
  moreover have "list_all K' new" using \<open>list_all K new\<close> K by (rule list.pred_mono_strong)
  ultimately show "\<exists>new. happened w' = new @ happened w \<and> list_all K' new \<and> P x new \<and> fixed w' = fixed w" by blast
qed (auto intro: adds_mono)

lemma asks_extents_calm: "asks_extents h e \<Longrightarrow> calm e \<and> (\<forall>p b. e \<noteq> PathOpened p b (Inr h'))"
  by (cases e) (simp_all add: calm_def)

lemma tells_numbers:
  "tells (asks_extents h) (\<lambda>numbers new. \<forall>n. n \<in> set numbers \<longleftrightarrow> extents_name n h new) S (volumeDiskNumbers h)"
  unfolding volumeDiskNumbers_def by (rule tells_disk_numbers)

lemma tells_extent:
  "tells (asks_extents h) (\<lambda>belongs new. belongs \<longleftrightarrow> extents_name n h new) S (volumeHasDiskExtent h n)"
  unfolding volumeHasDiskExtent_def
  by (rule tells_andThen [OF tells_numbers]) (rule tells_give, simp)

lemma tells_on_disk:
  "tells calm (\<lambda>r new. fst r \<longrightarrow> volume_found n path new) S (volumePathIsOnDisk path n)"
  unfolding volumePathIsOnDisk_def openVolumePath_def
proof (rule tells_andThen [where P = "\<lambda>r new. new = [PathOpened path False r]"])
  fix r old assume old: "old = [PathOpened path False r]"
  have held: "volume_held n path False h (new @ old)"
    if "r = Inr h" "list_all (asks_extents h) new" "extents_name n h new" for h new
    using that old unfolding volume_held_def
    by (intro exI [of _ new] exI [of _ "[]"]) (auto simp: list_all_iff dest: asks_extents_calm [of h _ h])
  have asked: "tells calm (\<lambda>belongs new. belongs \<longrightarrow> volume_held n path False h (new @ old)) S (volumeHasDiskExtent h n)"
    if "r = Inr h" for h
    by (rule tells_mono_class [OF tells_mono [OF tells_extent]]) (use that held asks_extents_calm in blast)+
  have close: "tells calm (\<lambda>r new. fst r \<longrightarrow> volume_found n path ((new @ mid) @ old)) S
      (andThen (tell (HandleClosed h)) (\<lambda>_. give (belongs, ERROR_SUCCESS)))"
    if "belongs \<longrightarrow> volume_held n path False h (mid @ old)" for belongs h mid
    by (rule tells_andThen [where P = "\<lambda>_ new. new = [HandleClosed h]"])
      (use that in \<open>auto intro!: tells_give tells_tell simp: class_defs dest: volume_foundI [of _ _ _ _ "[HandleClosed h]"]\<close>)
  show "tells calm (\<lambda>y new. fst y \<longrightarrow> volume_found n path (new @ old)) S
      (case r of
         Inl code \<Rightarrow> give (False, if code = ERROR_SUCCESS then ERROR_OPEN_FAILED else code)
       | Inr h \<Rightarrow> andThen (volumeHasDiskExtent h n) (\<lambda>belongs.
           andThen (tell (HandleClosed h)) (\<lambda>_. give (belongs, ERROR_SUCCESS))))"
  proof (cases r)
    case (Inr h)
    show ?thesis unfolding Inr sum.case by (rule tells_andThen [OF asked [OF Inr]]) (rule close)
  qed (simp add: tells_give)
qed (rule tells_ask; simp add: class_defs)

lemma tells_belongs: "tells calm (\<lambda>_. volume_found n (withoutTrailingSlash v)) S (volumePathBelongsToDisk v n)"
  unfolding volumePathBelongsToDisk_def
  by (rule tells_andThen [OF tells_on_disk]) (auto intro!: tells_give tells_fail split: prod.split)

section \<open>The selected drive\<close>

text \<open>Every question of \<open>verify_raw\<close> was answered about this handle as the expected disk answers it.\<close>

definition identity_seen :: "winos \<Rightarrow> DiskInfo \<Rightarrow> u32 \<Rightarrow> win_handle \<Rightarrow> win_event set \<Rightarrow> bool" where
  "identity_seen S disk n h E \<longleftrightarrow>
     (\<exists>d. NumberRead h (Inr d) \<in> E \<and> DeviceType d = FILE_DEVICE_DISK \<and> DeviceNumber d = n \<and> PartitionNumber d = 0) \<and>
     (\<exists>k b. DescriptorRead h k (Inr b) \<in> E \<and> busFromDescriptor b = UsbBusType \<and>
        serialsAgree (letter_or_number S) (upper_char S) (serialFromDescriptor b) (serialNumber disk)) \<and>
     (\<exists>s. LengthRead h (Inr s) \<in> E \<and> (disk_size disk = 0 \<or> s = disk_size disk)) \<and>
     (\<exists>g. GeometryRead h g \<in> E \<and>
        (case g of None \<Rightarrow> True | Some sector \<Rightarrow> sector = 0 \<or> sectorSize disk = 0 \<or> sector = sectorSize disk)) \<and>
     WritableChecked h None \<in> E"

lemma identity_mono: "identity_seen S disk n h E \<Longrightarrow> E \<subseteq> E' \<Longrightarrow> identity_seen S disk n h E'"
  unfolding identity_seen_def by blast

text \<open>The rules that collect the answers of a sequence of questions and checks.\<close>

lemma tells_raw_failed: "tells K P S (raw_failed op code)"
  by (simp add: raw_failed_def tells_def run_simps)

lemma collect_ask: "(\<And>a. K (ev a)) \<Longrightarrow> tells K (\<lambda>a new. ev a \<in> set new) S (ask answer ev)"
  by (rule tells_ask) simp_all

lemma collect_check: "tells K (\<lambda>_ _. b) S (check b e)"
  by (rule tells_check)

lemma collect_env: "tells K (\<lambda>x _. x = f S) S (win_env f)"
  by (rule tells_env) simp

lemma collect_cases:
  "(\<And>x. s = Inl x \<Longrightarrow> tells K P S (f x)) \<Longrightarrow> (\<And>y. s = Inr y \<Longrightarrow> tells K P S (g y)) \<Longrightarrow>
   tells K P S (case s of Inl x \<Rightarrow> f x | Inr y \<Rightarrow> g y)"
  "(opt = None \<Longrightarrow> tells K P S m) \<Longrightarrow> (\<And>y. opt = Some y \<Longrightarrow> tells K P S (q y)) \<Longrightarrow>
   tells K P S (case opt of None \<Rightarrow> m | Some y \<Rightarrow> q y)"
  by (simp_all split: sum.split option.split)

lemma collect_descriptor:
  "tells calm (\<lambda>r new. \<forall>b. r = Inr b \<longrightarrow> (\<exists>k. DescriptorRead h k (Inr b) \<in> set new)) S (readStorageDeviceDescriptor h)"
  unfolding readStorageDeviceDescriptor_def
  by (rule tells_andThen [OF collect_ask])
    (auto simp: class_defs split: sum.split intro!: tells_give tells_andThen [OF collect_ask])

lemmas collect = tells_andThen [OF collect_ask] tells_andThen [OF collect_check] tells_andThen [OF collect_env]
  tells_andThen [OF collect_descriptor] collect_cases tells_raw_failed

lemma verify_identity:
  assumes "raw_handle (raw w) = Some h" "raw_number (raw w) = n"
  shows "wp True (verify_raw disk) S
    (\<lambda>_ w'. \<exists>new. happened w' = new @ happened w \<and> list_all calm new \<and> identity_seen S disk n h (set new) \<and> fixed w' = fixed w)
    (\<lambda>r w'. r \<noteq> None \<and> adds calm w w' \<and> fixed w' = fixed w) w"
  unfolding verify_raw_def Let_def wp_andThen wp_get assms option.case
  unfolding wp_andThen [symmetric]
  by (rule tells_def [THEN iffD1, rule_format])
    ((rule collect | simp only: sum.case | (simp add: class_defs; fail))+,
      (rule tells_give, auto simp: identity_seen_def intro!: tells_raw_failed)+)

section \<open>The letters of a disk\<close>

text \<open>Every drive letter was asked: its volume could not be opened, or it did not name the disk, or it is listed.\<close>

definition letter_asked :: "u32 \<Rightarrow> qstring list \<Rightarrow> win_history \<Rightarrow> nat \<Rightarrow> bool" where
  "letter_asked n letters seg k \<longleftrightarrow>
     (\<exists>code. PathOpened (device_prefix @ drive_name k) False (Inl code) \<in> set seg) \<or>
     (\<exists>later h es rest. seg = later @ HandleClosed h # es @ PathOpened (device_prefix @ drive_name k) False (Inr h) # rest \<and>
        list_all (asks_extents h) es \<and> (extents_name n h es \<longrightarrow> drive_name k \<in> set letters))"

definition letters_complete :: "u32 \<Rightarrow> qstring list \<Rightarrow> win_history \<Rightarrow> bool" where
  "letters_complete n letters seg \<longleftrightarrow>
     (\<exists>drives. DrivesRead drives \<in> set seg \<and> (\<forall>k < 26. Bit_Operations.bit drives k \<longrightarrow> letter_asked n letters seg k))"

lemma letter_asked_mono:
  assumes "letter_asked n letters seg k" "set letters \<subseteq> set letters'"
  shows "letter_asked n letters' (a @ seg @ b) k"
proof -
  consider code where "PathOpened (device_prefix @ drive_name k) False (Inl code) \<in> set seg"
    | later h es rest where "seg = later @ HandleClosed h # es @ PathOpened (device_prefix @ drive_name k) False (Inr h) # rest"
      "list_all (asks_extents h) es" "extents_name n h es \<longrightarrow> drive_name k \<in> set letters"
    using assms(1) unfolding letter_asked_def by blast
  then show ?thesis
  proof cases
    case 1
    then show ?thesis unfolding letter_asked_def by auto
  next
    case 2
    then show ?thesis unfolding letter_asked_def using assms(2)
      by (intro disjI2 exI [of _ "a @ later"] exI [of _ h] exI [of _ es] exI [of _ "rest @ b"]) auto
  qed
qed

lemma letters_complete_mono:
  assumes "letters_complete n letters seg"
  shows "letters_complete n letters (a @ seg @ b)"
proof -
  obtain drives where "DrivesRead drives \<in> set seg" "\<forall>k < 26. Bit_Operations.bit drives k \<longrightarrow> letter_asked n letters seg k"
    using assms unfolding letters_complete_def by blast
  then show ?thesis unfolding letters_complete_def
    by (intro exI [of _ drives]) (use letter_asked_mono [of n letters seg _ letters a b] in auto)
qed

lemma add_letters_set:
  "set (foldl (add_letter name) letters disks n) = set (letters n) \<union> (if n \<in> set disks then {name} else {})"
  by (induction disks arbitrary: letters) (auto simp: add_letter_def)

lemma tells_letters_of:
  "tells calm (\<lambda>letters' new. set (letters n) \<subseteq> set (letters' n) \<and>
     (\<forall>k \<in> set ks. Bit_Operations.bit drives k \<longrightarrow> letter_asked n (letters' n) new k)) S (letters_of drives ks letters)"
proof (induction ks arbitrary: letters)
  case (Cons k ks)
  let ?path = "device_prefix @ drive_name k"
  let ?goal = "\<lambda>letters' new. set (letters n) \<subseteq> set (letters' n) \<and>
     (\<forall>k \<in> set (k # ks). Bit_Operations.bit drives k \<longrightarrow> letter_asked n (letters' n) new k)"
  have more: "tells calm (\<lambda>letters' new. ?goal letters' (new @ seg)) S (letters_of drives ks letters1)"
    if "set (letters n) \<subseteq> set (letters1 n)" "letter_asked n (letters1 n) seg k" for letters1 seg
    using Cons.IH [of letters1]
  proof (rule tells_mono)
    fix letters' new
    assume new: "set (letters1 n) \<subseteq> set (letters' n) \<and>
      (\<forall>k \<in> set ks. Bit_Operations.bit drives k \<longrightarrow> letter_asked n (letters' n) new k)"
    then show "?goal letters' (new @ seg)"
      using that letter_asked_mono [of n "letters1 n" seg k "letters' n" new "[]"]
        letter_asked_mono [of n "letters' n" new _ "letters' n" "[]" seg] by auto
  qed
  show ?case
  proof (cases "Bit_Operations.bit drives k")
    case False
    then show ?thesis using Cons.IH [of letters] by (auto intro: tells_mono)
  next
    case True
    have ask: "tells calm (\<lambda>r new. new = [PathOpened ?path False r]) S (openVolumePath ?path False)"
      unfolding openVolumePath_def by (rule tells_ask) (simp_all add: class_defs)
    have told: "tells calm (\<lambda>letters' new. ?goal letters' (new @ old)) S
      (case r of Inl _ \<Rightarrow> letters_of drives ks letters
       | Inr h \<Rightarrow> andThen (volumeDiskNumbers h) (\<lambda>disks. andThen (tell (HandleClosed h)) (\<lambda>_.
           letters_of drives ks (foldl (add_letter (drive_name k)) letters disks))))"
      if old: "old = [PathOpened ?path False r]" for r old
    proof (cases r)
      case (Inl code)
      then show ?thesis using more [of letters old] by (auto simp: old letter_asked_def)
    next
      case (Inr h)
      have numbers: "tells calm (\<lambda>numbers new. list_all (asks_extents h) new \<and> (\<forall>n. n \<in> set numbers \<longleftrightarrow> extents_name n h new)) S
          (volumeDiskNumbers h)"
        by (rule tells_mono_class [OF tells_mono [OF tells_numbers]]) (use asks_extents_calm in auto)
      have closed: "tells calm (\<lambda>_ new. new = [HandleClosed h]) S (tell (HandleClosed h))"
        by (rule tells_tell) (simp_all add: class_defs)
      show ?thesis unfolding Inr sum.case
      proof (rule tells_andThen [OF numbers], rule tells_andThen [OF closed])
        fix disks es x closing
        let ?letters = "foldl (add_letter (drive_name k)) letters disks"
        assume asked: "list_all (asks_extents h) es \<and> (\<forall>n. n \<in> set disks \<longleftrightarrow> extents_name n h es)" "closing = [HandleClosed h]"
        have "letter_asked n (?letters n) (closing @ es @ old) k"
          unfolding letter_asked_def
          by (intro disjI2 exI [of _ "[]"] exI [of _ h] exI [of _ es] exI [of _ "[]"]) (use asked in \<open>simp add: add_letters_set old Inr\<close>)
        then show "tells calm (\<lambda>letters' new. ?goal letters' (((new @ closing) @ es) @ old)) S
            (letters_of drives ks (foldl (add_letter (drive_name k)) letters disks))"
          using more [of ?letters "closing @ es @ old"] by (simp only: append_assoc) (simp add: add_letters_set)
      qed
    qed
    show ?thesis unfolding letters_of.simps
      using True by (simp only: not_True_eq_False if_False) (rule tells_andThen [OF ask], erule told)
  qed
qed (simp add: tells_give)

lemma tells_letters: "tells calm (\<lambda>letters new. letters_complete n (letters n) new) S driveLettersByDisk"
  unfolding driveLettersByDisk_def
proof (rule tells_andThen [OF collect_ask])
  fix drives old assume d: "DrivesRead drives \<in> set old"
  have "letters_complete n (letters n) (new @ old)"
    if "\<forall>k \<in> set [0..<26]. Bit_Operations.bit drives k \<longrightarrow> letter_asked n (letters n) new k" for letters :: "u32 \<Rightarrow> qstring list" and new
    using that d letter_asked_mono [of n "letters n" new _ "letters n" "[]" old]
    unfolding letters_complete_def by (intro exI [of _ drives]) auto
  then show "tells calm (\<lambda>letters new. letters_complete n (letters n) (new @ old)) S (letters_of drives [0..<26] (\<lambda>_. []))"
    by (intro tells_mono [OF tells_letters_of [of _ n]]) blast
qed (simp add: class_defs)

end
