(* ===== verification/Windows_Safety.thy ===== *)
theory Windows_Safety
  imports Windows_Evidence
begin

text \<open>
  The safety of the Windows restore. An event is \<open>win_allowed\<close> by what happened before it: whatever changes the
  drive needs both gates passed on the disk Windows described, the verified handle of that drive, and no cancel
  request; what goes by disk number or by volume needs the handle verified since the step it belongs to, and the
  volume proven to lie on the disk. A history is \<open>win_justified\<close> when every event was allowed. \<open>leads\<close>
  operations keep it so under a condition on the world; they are closed under the ways the code composes them.
\<close>

section \<open>When an event is allowed\<close>

text \<open>Windows described the disk of that number, and its letters were asked after that.\<close>

definition described :: "u32 \<Rightarrow> DiskInfo \<Rightarrow> win_history \<Rightarrow> bool" where
  "described n disk h \<longleftrightarrow>
     (\<exists>later seg past ob obs e letters. h = later @ seg @ WmiQueried (disk_query n) (ob # obs) e # past \<and>
        disk = disk_of_object ob letters \<and> letters_complete (disk_number disk) (mountPoints disk) seg)"

text \<open>Both gates accepted that disk.\<close>

definition win_target_checked :: "winos \<Rightarrow> RestoreRequest \<Rightarrow> DiskInfo \<Rightarrow> win_history \<Rightarrow> bool" where
  "win_target_checked S req disk h \<longleftrightarrow>
     isSafeRestoreTarget (win_tables S) (request_disk req) (request_guard req) = None \<and>
     described (disk_number (request_disk req)) disk h \<and>
     isSameRestoreTarget (win_tables S) (request_disk req) disk = None \<and>
     isSafeRestoreTarget (win_tables S) disk (request_guard req) = None \<and>
     canCreatePartitionLayout (request_style req) disk = None \<and>
     windowsCanFormat (request_fileSystem req) disk = None"

text \<open>The drive is open, and its handle was verified since the last event of a kind.\<close>

definition win_may_touch :: "winos \<Rightarrow> RestoreRequest \<Rightarrow> (win_event \<Rightarrow> bool) \<Rightarrow> DiskInfo \<Rightarrow> win_handle \<Rightarrow> win_history \<Rightarrow> bool" where
  "win_may_touch S req p disk h past \<longleftrightarrow>
     win_target_checked S req disk past \<and> WCancelAsked True \<notin> set past \<and>
     PathOpened (physical_drive (disk_number disk)) True (Inr h) \<in> set past \<and>
     identity_seen S disk (disk_number disk) h (set (since p past))"

fun is_cancel :: "win_event \<Rightarrow> bool" where
  "is_cancel (WCancelAsked _) = True"
| "is_cancel _ = False"

definition removable_letter :: "winos \<Rightarrow> RestoreRequest \<Rightarrow> qstring \<Rightarrow> bool" where
  "removable_letter S req name \<longleftrightarrow>
     (let l = normalizedLetter (win_tables S) name
      in \<not> text_less l (qs ''D'') \<and>
         l \<notin> set (protected_letters (win_tables S) [qs ''C''] (guard_mountPoints (request_guard req))))"

text \<open>The one partition of a table, by its place.\<close>

fun sole_place :: "drive_layout \<Rightarrow> (u64 \<times> u64) option" where
  "sole_place (GptDrive _ _ _ _ [GptPartition start len _ _ _ _]) = Some (start, len)"
| "sole_place (MbrDrive _ [MbrPartition start len _ _ _, UnusedMbrEntry, UnusedMbrEntry, UnusedMbrEntry]) = Some (start, len)"
| "sole_place _ = None"

fun win_allowed :: "winos \<Rightarrow> RestoreRequest \<Rightarrow> win_event \<Rightarrow> win_history \<Rightarrow> bool" where
  "win_allowed S req (WCancelAsked _) past \<longleftrightarrow> list_all (\<lambda>e. \<not> erasing e) past"
| "win_allowed S req (DismountAsked h _) past \<longleftrightarrow>
     (\<exists>disk drive path. win_may_touch S req ((=) (WStepReported OpenDrive)) disk drive past \<and>
        WStepReported DetachDriveLetters \<in> set past \<and> volume_held (disk_number disk) path True h past \<and>
        ((\<exists>name. path = device_prefix @ name \<and> removable_letter S req name) \<or>
         (\<exists>name paths. path = withoutTrailingSlash name \<and> PathNamesRead name (Some paths) \<in> set past \<and>
            firstDriveRootFromMultiSz paths = [])))"
| "win_allowed S req (MountPointDeleted root _) past \<longleftrightarrow>
     (\<exists>disk drive name h. win_may_touch S req ((=) (WStepReported OpenDrive)) disk drive past \<and>
        WStepReported DetachDriveLetters \<in> set past \<and> root = name @ [0x5C] \<and> removable_letter S req name \<and>
        volume_held (disk_number disk) (device_prefix @ name) True h past \<and> DismountAsked h None \<in> set past)"
| "win_allowed S req (DiskCreated h c _) past \<longleftrightarrow>
     (\<exists>disk. WStepReported DeletePartitions \<in> set past \<and>
        (if WStepReported LockDrive \<in> set past
         then win_may_touch S req ((=) (WStepReported LockDrive)) disk h past \<and> WStepReported ResetToRaw \<in> set past
         else win_may_touch S req is_cancel disk h past \<and> (\<exists>g. c = CreateGpt g)))"
| "win_allowed S req (ZerosWritten h _ _ _) past \<longleftrightarrow>
     (\<exists>disk. win_may_touch S req ((=) (WStepReported LockDrive)) disk h past \<and> WStepReported ClearSignatures \<in> set past)"
| "win_allowed S req (LayoutSet h layout _) past \<longleftrightarrow>
     (\<exists>disk. win_may_touch S req ((=) (WStepReported LockDrive)) disk h past \<and> WStepReported CreatePartition \<in> set past \<and>
        (let place = calculateGptLayout (disk_size disk) (sectorSize disk)
         in partitionLayoutError (request_style req) place (sectorSize disk) = None \<and>
            sole_place layout = Some (startOffset place, layout_length place)))"
| "win_allowed S req (WmiCalled cls path method' ins _) past \<longleftrightarrow>
     (\<exists>disk drive wql obs e ob. WmiQueried wql obs e \<in> set past \<and> ob \<in> set obs \<and> path = objectPath ob \<and>
        (if method' = ''Refresh'' then
           cls = ''MSFT_Disk'' \<and> ins = [] \<and> wql = disk_query (disk_number disk) \<and> win_target_checked S req disk past
         else if method' = ''DeleteObject'' then
           cls = ''MSFT_Partition'' \<and> ins = [] \<and> wql = partition_query (disk_number disk) \<and>
           \<not> isPartitionAtDiskStart (object_uint64 ob ''Offset'') \<and> WStepReported DeletePartitions \<in> set past \<and>
           win_may_touch S req is_cancel disk drive past
         else
           method' = ''Format'' \<and> cls = ''MSFT_Volume'' \<and> wql = volume_query \<and>
           ins = format_inputs (request_fileSystem req) (volumeLabel req) (allocation_unit (request_fileSystem req) disk) \<and>
           win_may_touch S req ((=) (WStepReported Format)) disk drive past \<and>
           (\<exists>v. volume_found (disk_number disk) (withoutTrailingSlash v) (since ((=) (WStepReported Format)) past) \<and>
              normalizedVolumePath (win_tables S) (object_text ob ''Path'') = normalizedVolumePath (win_tables S) v)))"
| "win_allowed S req (MountPointSet root v _) past \<longleftrightarrow>
     (\<exists>disk drive drives. win_may_touch S req ((=) (WStepReported RefreshNewVolume)) disk drive past \<and>
        WStepReported AssignDriveLetter \<in> set past \<and>
        volume_found (disk_number disk) (withoutTrailingSlash v) (since ((=) (WStepReported RefreshNewVolume)) past) \<and>
        DrivesRead drives \<in> set past \<and> root = firstAvailableDriveLetter drives \<and> root \<noteq> [])"
| "win_allowed S req (LabelSet _ lab _) past \<longleftrightarrow>
     (\<exists>disk drive path ins r. win_may_touch S req ((=) (WStepReported Format)) disk drive past \<and> lab = volumeLabel req \<and>
        WmiCalled ''MSFT_Volume'' path ''Format'' ins r \<in> set past)"
| "win_allowed S req _ past \<longleftrightarrow> True"

primrec win_justified :: "winos \<Rightarrow> RestoreRequest \<Rightarrow> win_history \<Rightarrow> bool" where
  "win_justified S req [] \<longleftrightarrow> True"
| "win_justified S req (e # past) \<longleftrightarrow> win_allowed S req e past \<and> win_justified S req past"

section \<open>What stays proven\<close>

lemma described_append: "described n disk h \<Longrightarrow> described n disk (later @ h @ past)"
  unfolding described_def by (metis append.assoc append_Cons)

lemma target_checked_append: "win_target_checked S req disk h \<Longrightarrow> win_target_checked S req disk (new @ h)"
  unfolding win_target_checked_def using described_append [of _ disk h new "[]"] by simp

lemma may_touch_append:
  assumes "win_may_touch S req p disk d h" "list_all (\<lambda>e. \<not> p e \<and> e \<noteq> WCancelAsked True) new"
  shows "win_may_touch S req p disk d (new @ h)"
proof -
  have "since p (new @ h) = new @ since p h"
    using assms(2) by (intro since_append) (auto simp: list_all_iff)
  moreover have "identity_seen S disk (disk_number disk) d (set (new @ since p h))"
    using assms(1) unfolding win_may_touch_def by (auto elim: identity_mono)
  moreover have "WCancelAsked True \<notin> set (new @ h)"
    using assms by (auto simp: win_may_touch_def list_all_iff)
  ultimately show ?thesis
    using assms(1) unfolding win_may_touch_def by (simp add: target_checked_append)
qed

lemma calm_justified: "list_all calm new \<Longrightarrow> win_justified S req h \<Longrightarrow> win_justified S req (new @ h)"
proof (induction new)
  case (Cons e new)
  then have "win_allowed S req e (new @ h)" by (cases e) (simp_all add: calm_def)
  then show ?case using Cons by simp
qed simp

section \<open>Triples\<close>

text \<open>From a justified world with \<open>J\<close> the run stays justified and, unless it leaves early, ends with \<open>K\<close> of its result.\<close>

definition leads :: "winos \<Rightarrow> RestoreRequest \<Rightarrow> (winworld \<Rightarrow> bool) \<Rightarrow> 'a win_action \<Rightarrow> ('a \<Rightarrow> winworld \<Rightarrow> bool) \<Rightarrow> bool" where
  "leads S req J m K \<longleftrightarrow> (\<forall>w. J w \<longrightarrow> win_justified S req (happened w) \<longrightarrow>
     wp True m S (\<lambda>x w'. K x w' \<and> win_justified S req (happened w')) (\<lambda>_ w'. win_justified S req (happened w')) w)"

definition lasting :: "(win_event \<Rightarrow> bool) \<Rightarrow> (winworld \<Rightarrow> bool) \<Rightarrow> bool" where
  "lasting K J \<longleftrightarrow> (\<forall>w w'. J w \<longrightarrow> adds K w w' \<longrightarrow> fixed w' = fixed w \<longrightarrow> J w')"

lemma lasting_classes: "lasting inner J \<Longrightarrow> lasting mild J" "lasting mild J \<Longrightarrow> lasting calm J" "lasting inner J \<Longrightarrow> lasting calm J"
  unfolding lasting_def using adds_mono calm_mild mild_inner calm_inner by blast+

lemma lasting_conj: "lasting K J \<Longrightarrow> lasting K J' \<Longrightarrow> lasting K (\<lambda>w. J w \<and> J' w)"
  unfolding lasting_def by blast

lemma lasting_noting: "lasting K J \<Longrightarrow> J w \<Longrightarrow> K e \<Longrightarrow> J (noting e w)"
  unfolding lasting_def by (elim allE [of _ w] allE [of _ "noting e w"]) simp

lemma lasting_known: "lasting K (\<lambda>w. e \<in> set (happened w))" "lasting K (\<lambda>_. b)"
  by (auto simp: lasting_def dest: adds_set)

lemma leads_andThen: "leads S req J m K \<Longrightarrow> (\<And>x. leads S req (K x) (k x) L) \<Longrightarrow> leads S req J (andThen m k) L"
  unfolding leads_def wp_andThen by (blast intro: wp_mono)

lemma leads_weaken:
  "leads S req J m K \<Longrightarrow> (\<And>w. J' w \<Longrightarrow> J w) \<Longrightarrow> (\<And>x w. K x w \<Longrightarrow> K' x w) \<Longrightarrow> leads S req J' m K'"
  unfolding leads_def by (blast intro: wp_mono)

lemma leads_tells:
  assumes m: "tells calm P S m" and J: "lasting calm J"
    and F: "\<And>x new w w'. J w \<Longrightarrow> happened w' = new @ happened w \<Longrightarrow> list_all calm new \<Longrightarrow> P x new \<Longrightarrow> fixed w' = fixed w \<Longrightarrow>
      J w' \<Longrightarrow> K x w'"
  shows "leads S req J m K"
  unfolding leads_def
proof (intro allI impI, rule tells_wp [OF m])
  fix w x w' new
  assume w: "J w" "win_justified S req (happened w)"
    and n: "happened w' = new @ happened w" "list_all calm new" "P x new" "fixed w' = fixed w"
  then have "J w'" using J by (auto simp: lasting_def adds_def)
  then show "K x w' \<and> win_justified S req (happened w')" using F [OF w(1) n] w(2) n(1,2) by (simp add: calm_justified)
qed (auto simp: adds_def calm_justified)

lemma leads_calm: "within calm m \<Longrightarrow> lasting calm J \<Longrightarrow> leads S req J m (\<lambda>_. J)"
  by (rule leads_tells [OF tells_within])

lemma leads_calm_then:
  "within calm m \<Longrightarrow> lasting calm J \<Longrightarrow> (\<And>x. leads S req J (k x) L) \<Longrightarrow> leads S req J (andThen m k) L"
  by (rule leads_andThen [OF leads_calm])

lemma leads_noting:
  "(\<And>a w. J w \<Longrightarrow> win_allowed S req (ev a) (happened w)) \<Longrightarrow> (\<And>a w. J w \<Longrightarrow> K a (noting (ev a) w)) \<Longrightarrow>
   leads S req J (ask answer ev) K"
  by (simp add: leads_def wp_ask)

text \<open>An event of a class that keeps the condition, where it is allowed.\<close>

lemma leads_ask:
  "lasting K J \<Longrightarrow> (\<And>a. K (ev a)) \<Longrightarrow> (\<And>a w. J w \<Longrightarrow> win_allowed S req (ev a) (happened w)) \<Longrightarrow>
   leads S req J (ask answer ev) (\<lambda>a w. J w \<and> ev a \<in> set (happened w))"
  by (auto simp: leads_def wp_ask lasting_def)

lemma leads_tell_calm: "calm e \<Longrightarrow> lasting calm J \<Longrightarrow> leads S req J (tell e) (\<lambda>_. J)"
  by (rule leads_calm [OF within_tell])

lemma leads_leaving:
  assumes "leads S req J m K" "calm e" "\<And>x. lasting calm (K x)"
  shows "leads S req J (leaving m (tell e)) K"
  unfolding leads_def wp_leaving wp_tell
proof (intro allI impI, rule wp_mono [OF assms(1) [unfolded leads_def, rule_format]])
  fix w x w' assume x: "K x w' \<and> win_justified S req (happened w')"
  moreover have "K x (noting e w')" using lasting_noting [OF assms(3)] x assms(2) by blast
  ultimately show "K x (noting e w') \<and> win_justified S req (happened (noting e w'))"
    using calm_justified [of "[e]"] assms(2) by simp
qed (use calm_justified [of "[e]"] assms(2) in simp_all)

lemma leads_pure: "(P \<Longrightarrow> leads S req J m K) \<Longrightarrow> leads S req (\<lambda>w. J w \<and> P) m K"
  by (auto simp: leads_def)

lemma leads_check: "(b \<Longrightarrow> leads S req J (k ()) K) \<Longrightarrow> leads S req J (andThen (check b e) k) K"
  by (auto simp: leads_def run_simps)

lemma leads_gate: "(r = None \<Longrightarrow> leads S req J (k ()) K) \<Longrightarrow> leads S req J (andThen (gate f r) k) K"
  by (auto simp: leads_def run_simps split: option.split)

lemma leads_basic:
  "(\<And>w. J w \<Longrightarrow> K x w) \<Longrightarrow> leads S req J (give x) K" "leads S req J (fail e) K" "leads S req J stop K"
  "(\<And>w. J w \<Longrightarrow> L (f w) w) \<Longrightarrow> leads S req J (get f) L" "(\<And>w. J w \<Longrightarrow> b \<Longrightarrow> M () w) \<Longrightarrow> leads S req J (check b e') M"
  "(\<And>w. J w \<Longrightarrow> N (g S) w) \<Longrightarrow> leads S req J (win_env g) N" "leads S req J (raw_failed op code) O'"
  by (simp_all add: leads_def run_simps raw_failed_def)

lemma leads_rewording: "leads S req J m K \<Longrightarrow> leads S req J (rewording f m) K"
  by (simp add: leads_def wp_rewording)

lemma leads_cases:
  "(\<And>x. s = Inl x \<Longrightarrow> leads S req J (f x) K) \<Longrightarrow> (\<And>y. s = Inr y \<Longrightarrow> leads S req J (g y) K) \<Longrightarrow>
   leads S req J (case s of Inl x \<Rightarrow> f x | Inr y \<Rightarrow> g y) K"
  "(opt = None \<Longrightarrow> leads S req J m K) \<Longrightarrow> (\<And>y. opt = Some y \<Longrightarrow> leads S req J (q y) K) \<Longrightarrow>
   leads S req J (case opt of None \<Rightarrow> m | Some y \<Rightarrow> q y) K"
  "(\<And>x y. p = (x, y) \<Longrightarrow> leads S req J (k x y) K) \<Longrightarrow> leads S req J (case p of (x, y) \<Rightarrow> k x y) K"
  "(b \<Longrightarrow> leads S req J m1 K) \<Longrightarrow> (\<not> b \<Longrightarrow> leads S req J m2 K) \<Longrightarrow> leads S req J (if b then m1 else m2) K"
  "(l = [] \<Longrightarrow> leads S req J n1 K) \<Longrightarrow> (\<And>x xs. l = x # xs \<Longrightarrow> leads S req J (n2 x xs) K) \<Longrightarrow>
   leads S req J (case l of [] \<Rightarrow> n1 | x # xs \<Rightarrow> n2 x xs) K"
  by (simp_all split: sum.split option.split prod.split list.split)

lemma leads_handle:
  "(\<And>w. J w \<Longrightarrow> raw_handle (raw w) = Some h) \<Longrightarrow> leads S req J (k h) K \<Longrightarrow> leads S req J (with_handle m k) K"
  by (simp add: leads_def with_handle_def run_simps)

lemma leads_iterate:
  assumes "\<And>s. leads S req (I s) (body s) (\<lambda>r w. case r of Inl s' \<Rightarrow> I s' w | Inr a \<Rightarrow> K a w)"
  shows "leads S req (I s) (iterate body s) K"
  unfolding leads_def
proof (intro allI impI)
  fix w assume "I s w" "win_justified S req (happened w)"
  then show "wp True (iterate body s) S (\<lambda>x w'. K x w' \<and> win_justified S req (happened w'))
      (\<lambda>_ w'. win_justified S req (happened w')) w"
  proof (intro wp_iterate [where I = "\<lambda>s w. I s w \<and> win_justified S req (happened w)"])
    fix s w assume "I s w \<and> win_justified S req (happened w)"
    then show "wp True (body s) S (\<lambda>r w'. case r of Inl s' \<Rightarrow> I s' w' \<and> win_justified S req (happened w')
          | Inr a \<Rightarrow> K a w' \<and> win_justified S req (happened w'))
        (\<lambda>_ w'. win_justified S req (happened w')) w"
      using assms [of s] unfolding leads_def by (auto elim!: wp_mono split: sum.splits)
  qed simp
qed

lemma leads_attempt: "leads S req J m K \<Longrightarrow> leads S req J (attempt m) (\<lambda>r w. \<forall>x. r = Ok x \<longrightarrow> K x w)"
proof -
  have no: "(case e of None \<Rightarrow> Stopped | Some e \<Rightarrow> Failed e) \<noteq> Ok x" for e :: "WindowsError option" and x :: 'a
    by (cases e) simp_all
  assume "leads S req J m K"
  then show ?thesis unfolding leads_def wp_attempt by (auto elim!: wp_mono simp: no)
qed

lemma leads_ex: "(\<And>d. leads S req (J d) m K) \<Longrightarrow> leads S req (\<lambda>w. \<exists>d. J d w) m K"
  by (auto simp: leads_def)

text \<open>A condition an operation cannot touch is carried along.\<close>

lemma leads_frame:
  assumes m: "leads S req J m K" "within C m" "lasting C F"
  shows "leads S req (\<lambda>w. J w \<and> F w) m (\<lambda>x w. K x w \<and> F w)"
  unfolding leads_def
proof (intro allI impI)
  fix w assume w: "J w \<and> F w" "win_justified S req (happened w)"
  have F: "wp True m S (\<lambda>_. F) (\<lambda>_ _. True) w"
    using m(3) w(1) by (intro wp_within [OF m(2)]) (auto simp: lasting_def)
  have J: "wp True m S (\<lambda>x w'. K x w' \<and> win_justified S req (happened w')) (\<lambda>_ w'. win_justified S req (happened w')) w"
    using m(1) w by (simp add: leads_def)
  show "wp True m S (\<lambda>x w'. (K x w' \<and> F w') \<and> win_justified S req (happened w'))
      (\<lambda>_ w'. win_justified S req (happened w')) w"
    by (rule wp_mono [OF wp_conj [OF J F]]) simp_all
qed

end
