(* ===== verification/Windows_Stages.thy ===== *)
theory Windows_Stages
  imports Windows_Safety
begin

text \<open>
  The stages of the Windows restore, each from what it can rely on to what it leaves for the next one.
  \<open>drive_ready\<close> says that the checked drive is open, with the steps reported so far; \<open>holding\<close> that its handle was
  verified since an event of a kind. Every operation that changes something is shown to be allowed where it is.
\<close>

section \<open>Conditions between operations\<close>

definition drive_ready ::
  "winos \<Rightarrow> RestoreRequest \<Rightarrow> RestoreStep set \<Rightarrow> RestoreStep set \<Rightarrow> DiskInfo \<Rightarrow> win_handle \<Rightarrow> winworld \<Rightarrow> bool" where
  "drive_ready S req yes no disk d w \<longleftrightarrow>
     win_target_checked S req disk (happened w) \<and> WCancelAsked True \<notin> set (happened w) \<and>
     PathOpened (physical_drive (disk_number disk)) True (Inr d) \<in> set (happened w) \<and>
     raw_handle (raw w) = Some d \<and> raw_number (raw w) = disk_number disk \<and>
     (\<forall>s \<in> yes. WStepReported s \<in> set (happened w)) \<and> (\<forall>s \<in> no. WStepReported s \<notin> set (happened w))"

definition holding ::
  "winos \<Rightarrow> RestoreRequest \<Rightarrow> (win_event \<Rightarrow> bool) \<Rightarrow> RestoreStep set \<Rightarrow> RestoreStep set \<Rightarrow> DiskInfo \<Rightarrow> win_handle \<Rightarrow> winworld \<Rightarrow> bool" where
  "holding S req p yes no disk d w \<longleftrightarrow>
     drive_ready S req yes no disk d w \<and> identity_seen S disk (disk_number disk) d (set (since p (happened w)))"

definition guides :: "(win_event \<Rightarrow> bool) \<Rightarrow> bool" where
  "guides p \<longleftrightarrow> (\<forall>e. p e \<longrightarrow> guiding e)"

lemma guides_markers [simp]: "guides ((=) (WStepReported s))" "guides is_cancel"
proof -
  show "guides is_cancel" unfolding guides_def by (metis is_cancel.elims(2) guiding.simps(2))
qed (auto simp: guides_def)

lemma inner_plain: "guides p \<Longrightarrow> inner e \<Longrightarrow> \<not> p e \<and> e \<noteq> WCancelAsked b \<and> e \<noteq> WStepReported s"
  by (auto simp: guides_def inner_def)

lemma holding_touch: "holding S req p yes no disk d w \<Longrightarrow> win_may_touch S req p disk d (happened w)"
  by (simp add: holding_def drive_ready_def win_may_touch_def)

lemma holding_ready: "holding S req p yes no disk d w \<Longrightarrow> drive_ready S req yes no disk d w"
  by (simp add: holding_def)

lemma holding_parts:
  assumes "holding S req p yes no disk d w"
  shows "raw_handle (raw w) = Some d" "win_target_checked S req disk (happened w)"
    "s \<in> yes \<Longrightarrow> WStepReported s \<in> set (happened w)" "s' \<in> no \<Longrightarrow> WStepReported s' \<notin> set (happened w)"
  using assms by (auto simp: holding_def drive_ready_def)

lemma lasting_ready: "lasting inner (drive_ready S req yes no disk d)"
  unfolding lasting_def
proof (intro allI impI)
  fix w w' assume r: "drive_ready S req yes no disk d w" "adds inner w w'" "fixed w' = fixed w"
  then obtain new where n: "happened w' = new @ happened w" "list_all inner new" by (auto simp: adds_def)
  then have "WCancelAsked b \<notin> set new" "WStepReported s \<notin> set new" for b s by (auto simp: list_all_iff inner_def)
  then show "drive_ready S req yes no disk d w'"
    using r(1,3) by (auto simp: drive_ready_def n(1) fixed_def target_checked_append)
qed

lemma lasting_holding: "guides p \<Longrightarrow> lasting inner (holding S req p yes no disk d)"
  unfolding lasting_def
proof (intro allI impI)
  fix w w' assume r: "guides p" "holding S req p yes no disk d w" "adds inner w w'" "fixed w' = fixed w"
  then obtain new where n: "happened w' = new @ happened w" "list_all inner new" by (auto simp: adds_def)
  have "since p (new @ happened w) = new @ since p (happened w)"
    using n(2) inner_plain [OF r(1)] by (intro since_append) (auto simp: list_all_iff)
  then show "holding S req p yes no disk d w'"
    using r lasting_ready unfolding holding_def lasting_def by (auto simp: n(1) elim: identity_mono)
qed

text \<open>A volume found on the disk since a marker stays found.\<close>

lemma lasting_found: "guides p \<Longrightarrow> lasting inner (\<lambda>w. volume_found n path (since p (happened w)))"
  unfolding lasting_def
proof (intro allI impI)
  fix w w' assume r: "guides p" "volume_found n path (since p (happened w))" "adds inner w w'"
  then obtain new where n: "happened w' = new @ happened w" "list_all inner new" by (auto simp: adds_def)
  then have "since p (happened w') = new @ since p (happened w) @ []"
    using inner_plain [OF r(1)] by (simp add: since_append list_all_iff)
  then show "volume_found n path (since p (happened w'))" using volume_found_append [OF r(2), of new "[]"] by simp
qed

lemma leads_verify:
  assumes "guides p"
  shows "leads S req (drive_ready S req yes no disk d) (verify_raw disk) (\<lambda>_. holding S req p yes no disk d)"
  unfolding leads_def
proof (intro allI impI, rule wp_mono)
  fix w assume w: "drive_ready S req yes no disk d w" "win_justified S req (happened w)"
  then have raw: "raw_handle (raw w) = Some d" "raw_number (raw w) = disk_number disk" by (simp_all add: drive_ready_def)
  show "wp True (verify_raw disk) S
    (\<lambda>_ w'. \<exists>new. happened w' = new @ happened w \<and> list_all calm new \<and>
       identity_seen S disk (disk_number disk) d (set new) \<and> fixed w' = fixed w)
    (\<lambda>r w'. r \<noteq> None \<and> adds calm w w' \<and> fixed w' = fixed w) w"
    by (rule verify_identity [OF raw])
  fix w' assume "\<exists>new. happened w' = new @ happened w \<and> list_all calm new \<and>
       identity_seen S disk (disk_number disk) d (set new) \<and> fixed w' = fixed w"
  then obtain new where n: "happened w' = new @ happened w" "list_all calm new"
    "identity_seen S disk (disk_number disk) d (set new)" "fixed w' = fixed w" by blast
  have "adds inner w w'" using n(1,2) by (auto simp: adds_def list_all_iff calm_inner)
  then have "drive_ready S req yes no disk d w'" using lasting_ready w(1) n(4) unfolding lasting_def by blast
  moreover have "since p (new @ happened w) = new @ since p (happened w)"
    using n(2) inner_plain [OF assms calm_inner] by (intro since_append) (auto simp: list_all_iff)
  ultimately show "holding S req p yes no disk d w' \<and> win_justified S req (happened w')"
    using n w(2) by (auto simp: holding_def calm_justified elim: identity_mono)
next
  fix w e w' assume "win_justified S req (happened w)" "e \<noteq> None \<and> adds calm w w' \<and> fixed w' = fixed w"
  then show "win_justified S req (happened w')" by (auto simp: adds_def calm_justified)
qed

text \<open>A reported step is added to those the stage can rely on.\<close>

lemma step_events: "wp True (beginStep s) S Q R w \<longleftrightarrow>
  Q () (noting (WStepReported s) (let (n, c) = advance (steps_counter w) s
    in if n = 0 then noting (WDetailReported (WOutOfPlanOrder s)) (w\<lparr>steps_counter := c\<rparr>) else w\<lparr>steps_counter := c\<rparr>))"
  by (simp add: beginStep_def report_with_def run_simps split: prod.split)

lemma leads_step:
  assumes "s \<notin> no"
  shows "leads S req (drive_ready S req yes no disk d) (beginStep s) (\<lambda>_. drive_ready S req (insert s yes) no disk d)"
  unfolding leads_def step_events
  using assms target_checked_append [of S req disk _ "[WStepReported s]"]
    target_checked_append [of S req disk _ "[WStepReported s, WDetailReported (WOutOfPlanOrder s)]"]
  by (auto simp: drive_ready_def split: prod.split)

lemma leads_step_holding:
  assumes "s \<notin> no" "\<not> p (WStepReported s)" "guides p" "\<not> p (WDetailReported (WOutOfPlanOrder s))"
  shows "leads S req (holding S req p yes no disk d) (beginStep s) (\<lambda>_. holding S req p (insert s yes) no disk d)"
  unfolding leads_def step_events holding_def
  using assms target_checked_append [of S req disk _ "[WStepReported s]"]
    target_checked_append [of S req disk _ "[WStepReported s, WDetailReported (WOutOfPlanOrder s)]"]
  by (auto simp: drive_ready_def since_Cons split: prod.split elim: identity_mono)

section \<open>Storage calls\<close>

lemma leads_query:
  "lasting calm J \<Longrightarrow> leads S req J (query wql) (\<lambda>r w. J w \<and> WmiQueried wql (fst r) (snd r) \<in> set (happened w))"
  unfolding query_def
  by (rule leads_weaken [OF leads_ask [of calm]]) (auto simp: calm_def split: prod.splits)

lemma leads_query_then:
  assumes "lasting calm J"
    and "\<And>found e. leads S req (\<lambda>w. J w \<and> WmiQueried wql found e \<in> set (happened w)) (k (found, e)) K"
  shows "leads S req J (andThen (query wql) k) K"
proof (rule leads_andThen [OF leads_query [OF assms(1)]])
  show "leads S req (\<lambda>w. J w \<and> WmiQueried wql (fst r) (snd r) \<in> set (happened w)) (k r) K" for r
    using assms(2) [of "fst r" "snd r"] by simp
qed

lemma leads_storage_call:
  assumes J: "lasting K J" "\<And>e. calm e \<Longrightarrow> K e" "\<And>r. K (WmiCalled cls path m ins r)"
    and allow: "\<And>r w. J w \<Longrightarrow> win_allowed S req (WmiCalled cls path m ins r) (happened w)"
  shows "leads S req J (storage_call cls path m ins timeoutMs)
    (\<lambda>_ w. J w \<and> (\<exists>r. WmiCalled cls path m ins r \<in> set (happened w)))"
proof -
  let ?K = "\<lambda>w. J w \<and> (\<exists>r. WmiCalled cls path m ins r \<in> set (happened w))"
  have calmJ: "lasting calm J" using J(1,2) adds_mono unfolding lasting_def by blast
  have st: "lasting calm ?K" using calmJ unfolding lasting_def by (blast dest: adds_set)
  have call: "leads S req J (callMethod cls path m ins) (\<lambda>_. ?K)"
    unfolding callMethod_def
    by (rule leads_andThen [OF leads_ask [OF J(1)]]) (use J(3) allow in \<open>auto intro!: leads_basic\<close>)
  have wait: "leads S req J (callMethodAndWait cls path m ins timeoutMs) (\<lambda>_. ?K)"
    unfolding callMethodAndWait_def
    by (rule leads_andThen [OF call])
      (auto intro!: leads_cases(4) leads_basic(1) leads_calm [OF within_storage(1) st])
  show ?thesis
    unfolding storage_call_def split_beta
    by (rule leads_andThen [OF wait], rule leads_calm_then, rule within_intro, simp add: calm_def, rule st)
      (auto intro!: leads_cases(2) leads_basic)
qed

lemma leads_check_storage: "lasting calm J \<Longrightarrow> leads S req J check_storage (\<lambda>_. J)"
  by (rule leads_calm [OF within_storage(3)])

text \<open>A refresh of the disk, which erases nothing.\<close>

lemma leads_refresh:
  assumes J: "lasting mild J" and checked: "\<And>w. J w \<Longrightarrow> win_target_checked S req disk (happened w)"
  shows "leads S req J (refreshDisk (disk_number disk)) (\<lambda>_. J)"
proof -
  have calm: "lasting calm J" by (rule lasting_classes(2) [OF J])
  have call: "leads S req (\<lambda>w. J w \<and> WmiQueried (disk_query (disk_number disk)) (ob # obs) e \<in> set (happened w))
      (storage_call ''MSFT_Disk'' (objectPath ob) ''Refresh'' [] RefreshJobTimeoutMs) (\<lambda>_. J)" for ob obs e
  proof (rule leads_weaken [OF leads_storage_call [where K = mild]])
    show "lasting mild (\<lambda>w. J w \<and> WmiQueried (disk_query (disk_number disk)) (ob # obs) e \<in> set (happened w))"
      by (intro lasting_conj J lasting_known)
    show "win_allowed S req (WmiCalled ''MSFT_Disk'' (objectPath ob) ''Refresh'' [] r) (happened w)"
      if "J w \<and> WmiQueried (disk_query (disk_number disk)) (ob # obs) e \<in> set (happened w)" for r w
      unfolding win_allowed.simps using that checked
      by (intro exI [of _ disk] exI [of _ 0] exI [of _ "disk_query (disk_number disk)"] exI [of _ "ob # obs"] exI [of _ e] exI [of _ ob]) auto
  qed (use calm_mild in \<open>auto simp: mild_def\<close>)
  show ?thesis
    unfolding refreshDisk_def
    by (rule leads_andThen [OF leads_check_storage [OF calm]], rule leads_query_then [OF calm])
      (simp only: prod.case, rule leads_cases(5), rule leads_basic(2), simp only:, rule call)
qed

section \<open>Detaching\<close>

lemma held_append:
  "volume_held n path a h seg \<Longrightarrow> list_all (\<lambda>e. \<forall>p b. e \<noteq> PathOpened p b (Inr h)) new \<Longrightarrow> volume_held n path a h (new @ seg)"
proof -
  assume "volume_held n path a h seg" and new: "list_all (\<lambda>e. \<forall>p b. e \<noteq> PathOpened p b (Inr h)) new"
  then obtain mid rest where m: "seg = mid @ PathOpened path a (Inr h) # rest"
    "list_all (\<lambda>e. \<forall>p b. e \<noteq> PathOpened p b (Inr h)) mid" "extents_name n h mid"
    unfolding volume_held_def by blast
  show ?thesis unfolding volume_held_def
    by (intro exI [of _ "new @ mid"] exI [of _ rest]) (use m new in \<open>simp add: extents_append\<close>)
qed

text \<open>A volume that is opened for writing and then asked for its extents is held when it names the disk.\<close>

lemma leads_open:
  assumes "lasting calm J"
  shows "leads S req J (openVolumePath path True)
    (\<lambda>r w. J w \<and> (\<forall>h. r = Inr h \<longrightarrow> (\<exists>rest. happened w = PathOpened path True (Inr h) # rest)))"
  unfolding openVolumePath_def leads_def wp_ask
proof (intro allI impI conjI)
  fix w h assume w: "J w" "win_justified S req (happened w)"
  have "calm (PathOpened path True r)" for r by (simp add: calm_def)
  then show "J (noting (PathOpened path True (create_file_answer S (happened w) path True)) w)"
    using assms w(1) unfolding lasting_def by (blast intro: adds_noting adds_refl fixed_noting)
qed simp_all

lemma leads_extent:
  assumes "lasting calm J"
  shows "leads S req (\<lambda>w. J w \<and> (\<exists>rest. happened w = PathOpened path True (Inr h) # rest)) (volumeHasDiskExtent h n)
    (\<lambda>belongs w. J w \<and> (belongs \<longrightarrow> volume_held n path True h (happened w)))"
  unfolding leads_def
proof (intro allI impI, rule tells_wp [OF tells_extent])
  fix w b w' new
  assume w: "J w \<and> (\<exists>rest. happened w = PathOpened path True (Inr h) # rest)" "win_justified S req (happened w)"
    and n: "happened w' = new @ happened w" "list_all (asks_extents h) new" "b \<longleftrightarrow> extents_name n h new" "fixed w' = fixed w"
  have new: "list_all calm new" "list_all (\<lambda>e. \<forall>p b. e \<noteq> PathOpened p b (Inr h)) new"
    using n(2) asks_extents_calm [of h _ h] by (auto simp: list_all_iff)
  have "adds calm w w'" using n(1) new(1) by (auto simp: adds_def)
  then have "J w'" using assms w(1) n(4) unfolding lasting_def by blast
  moreover obtain rest where rest: "happened w = PathOpened path True (Inr h) # rest" using w(1) by blast
  then have "b \<longrightarrow> volume_held n path True h (happened w')" unfolding volume_held_def n(1) rest using n(3) new(2) by blast
  ultimately show "(J w' \<and> (b \<longrightarrow> volume_held n path True h (happened w'))) \<and> win_justified S req (happened w')"
    using new(1) w(2) by (simp add: n(1) calm_justified)
next
  fix w e w' assume "adds (asks_extents h) w w'" "win_justified S req (happened w)"
  then show "win_justified S req (happened w')"
    using asks_extents_calm [of h _ h] by (auto simp: adds_def list_all_iff intro!: calm_justified)
qed

text \<open>What the detaching stage relies on: the verified drive, untouched so far.\<close>

definition detaching :: "winos \<Rightarrow> RestoreRequest \<Rightarrow> DiskInfo \<Rightarrow> win_handle \<Rightarrow> RestoreStep set \<Rightarrow> winworld \<Rightarrow> bool" where
  "detaching S req disk d yes w \<longleftrightarrow>
     holding S req ((=) (WStepReported OpenDrive)) yes {LockDrive} disk d w \<and> list_all (\<lambda>e. \<not> erasing e) (happened w)"

lemma lasting_detaching: "lasting mild (detaching S req disk d yes)"
proof -
  have "lasting mild (holding S req ((=) (WStepReported OpenDrive)) yes {LockDrive} disk d)"
    by (rule lasting_classes(1), rule lasting_holding) simp
  moreover have "lasting mild (\<lambda>w. list_all (\<lambda>e. \<not> erasing e) (happened w))"
    by (auto simp: lasting_def adds_def list_all_iff mild_def)
  ultimately show ?thesis unfolding detaching_def by (rule lasting_conj)
qed

lemmas calm_detaching = lasting_classes(2) [OF lasting_detaching]

lemma lasting_detaching_held:
  "detaching S req disk d yes w \<and> volume_held n path True h (happened w) \<Longrightarrow> mild e \<Longrightarrow> (\<forall>p b r. e \<noteq> PathOpened p b r) \<Longrightarrow>
   detaching S req disk d yes (noting e w) \<and> volume_held n path True h (happened (noting e w))"
  using lasting_noting [OF lasting_detaching, of S req disk d yes w e] held_append [of n path True h "happened w" "[e]"] by simp

text \<open>The letter of the path may be removed, or the volume has none.\<close>

definition detachable :: "winos \<Rightarrow> RestoreRequest \<Rightarrow> qstring \<Rightarrow> win_history \<Rightarrow> bool" where
  "detachable S req path h \<longleftrightarrow>
     (\<exists>name. path = device_prefix @ name \<and> removable_letter S req name) \<or>
     (\<exists>name paths. path = withoutTrailingSlash name \<and> PathNamesRead name (Some paths) \<in> set h \<and>
        firstDriveRootFromMultiSz paths = [])"

lemma detachable_more: "detachable S req path h \<Longrightarrow> detachable S req path (e # h)"
  by (auto simp: detachable_def)

lemma leads_dismount:
  assumes "DetachDriveLetters \<in> yes"
  shows "leads S req (\<lambda>w. detaching S req disk d yes w \<and> volume_held (disk_number disk) path True h (happened w) \<and>
      detachable S req path (happened w))
    (lockAndDismount h label')
    (\<lambda>_ w. detaching S req disk d yes w \<and> volume_held (disk_number disk) path True h (happened w) \<and>
      DismountAsked h None \<in> set (happened w))"
  unfolding lockAndDismount_def
proof (rule leads_andThen [OF leads_noting])
  let ?J = "\<lambda>w. detaching S req disk d yes w \<and> volume_held (disk_number disk) path True h (happened w) \<and>
      detachable S req path (happened w)"
  have keep: "?J (noting e w)" if "?J w" "mild e" "\<forall>p b r. e \<noteq> PathOpened p b r" for e w
    using that lasting_detaching_held [of S req disk d yes w "disk_number disk" path h e] by (simp add: detachable_more)
  show "win_allowed S req (LockAsked h r) (happened w)" for r w by simp
  show "?J (noting (LockAsked h r) w)" if "?J w" for r w using keep [OF that] by (simp add: mild_def)
  show "leads S req ?J (case r of Some code \<Rightarrow> fail (VolumeNotLocked label' code)
     | None \<Rightarrow> andThen (ask (\<lambda>S past. dismount_answer S past h) (DismountAsked h)) (\<lambda>r.
         case r of Some code \<Rightarrow> fail (VolumeNotDismounted label' code) | None \<Rightarrow> give ()))
    (\<lambda>_ w. detaching S req disk d yes w \<and> volume_held (disk_number disk) path True h (happened w) \<and>
      DismountAsked h None \<in> set (happened w))" for r
  proof (rule leads_cases(2), rule leads_andThen [OF leads_noting])
    show "win_allowed S req (DismountAsked h r) (happened w)" if J: "?J w" for r w
      unfolding win_allowed.simps
      using J assms holding_touch holding_parts(3)
      by (intro exI [of _ disk] exI [of _ d] exI [of _ path]) (auto simp: detaching_def detachable_def)
    show "?J (noting (DismountAsked h r) w) \<and> DismountAsked h r \<in> set (happened (noting (DismountAsked h r) w))"
      if "?J w" for r w using keep [OF that, of "DismountAsked h r"] by (simp add: mild_def)
  qed (auto intro!: leads_cases leads_basic)
qed

definition no_letter :: "qstring \<Rightarrow> winworld \<Rightarrow> bool" where
  "no_letter v w \<longleftrightarrow> (\<exists>paths. PathNamesRead v (Some paths) \<in> set (happened w) \<and> firstDriveRootFromMultiSz paths = [])"

lemma lasting_no_letter: "lasting K (no_letter v)"
  unfolding lasting_def no_letter_def using adds_set by blast

lemma leads_lettered:
  assumes "lasting calm J"
  shows "leads S req J (mayHaveDriveLetter v) (\<lambda>lettered w. J w \<and> (\<not> lettered \<longrightarrow> no_letter v w))"
  unfolding mayHaveDriveLetter_def firstDriveRootForVolume_def
  by (rule leads_andThen [where K = "\<lambda>r w. J w \<and> (r = Some [] \<longrightarrow> no_letter v w)"],
      rule leads_andThen [OF leads_ask [OF assms]])
    (auto simp: calm_def no_letter_def intro!: leads_basic)

lemma leads_dismount_unlettered:
  assumes "DetachDriveLetters \<in> yes"
  shows "leads S req (detaching S req disk d yes) (dismount_unlettered (disk_number disk) name) (\<lambda>_. detaching S req disk d yes)"
proof -
  let ?J = "detaching S req disk d yes" and ?n = "disk_number disk" and ?path = "withoutTrailingSlash name"
  let ?N = "\<lambda>w. ?J w \<and> no_letter name w"
  have N: "lasting calm ?N" by (intro lasting_conj calm_detaching lasting_no_letter)
  have held: "leads S req (\<lambda>w. ?N w \<and> volume_held ?n ?path True h (happened w))
      (andThen (leaving (lockAndDismount h name) (tell (HandleClosed h))) (\<lambda>_. win_detail (VolumeDismounted name ?n))) (\<lambda>_. ?J)" for h
  proof (rule leads_andThen [OF leads_leaving])
    show "leads S req (\<lambda>w. ?N w \<and> volume_held ?n ?path True h (happened w)) (lockAndDismount h name) (\<lambda>_. ?J)"
      by (rule leads_weaken [OF leads_dismount [OF assms, of _ _ _ _ ?path]]) (auto simp: detachable_def no_letter_def)
    show "leads S req ?J (win_detail (VolumeDismounted name ?n)) (\<lambda>_. ?J)"
      by (rule leads_calm [OF within_detail calm_detaching]) (simp add: calm_def)
  qed (simp_all add: calm_def calm_detaching)
  have extent: "leads S req (\<lambda>w. ?N w \<and> (\<exists>rest. happened w = PathOpened ?path True (Inr h) # rest))
      (andThen (volumeHasDiskExtent h ?n) (\<lambda>belongs.
         if \<not> belongs then tell (HandleClosed h)
         else andThen (leaving (lockAndDismount h name) (tell (HandleClosed h))) (\<lambda>_.
           win_detail (VolumeDismounted name ?n)))) (\<lambda>_. ?J)" for h
    by (rule leads_andThen [OF leads_extent [OF N]])
      (auto intro!: leads_cases(4) leads_weaken [OF held] leads_weaken [OF leads_tell_calm [OF _ calm_detaching]] simp: calm_def)
  have writing: "leads S req ?N (andThen (openVolumePath ?path True) (\<lambda>r.
         case r of Inl code \<Rightarrow> fail (VolumeNotOpened name code)
         | Inr h \<Rightarrow> andThen (volumeHasDiskExtent h ?n) (\<lambda>belongs.
             if \<not> belongs then tell (HandleClosed h)
             else andThen (leaving (lockAndDismount h name) (tell (HandleClosed h))) (\<lambda>_.
               win_detail (VolumeDismounted name ?n))))) (\<lambda>_. ?J)"
    by (rule leads_andThen [OF leads_open [OF N]]) (auto intro!: leads_cases leads_basic leads_weaken [OF extent])
  have reading: "leads S req ?N (andThen (openVolumePath ?path False) (\<lambda>r.
       case r of Inl _ \<Rightarrow> give ()
       | Inr h \<Rightarrow>
           andThen (volumeHasDiskExtent h ?n) (\<lambda>belongs.
           andThen (ask (\<lambda>S past. offline_answer S past h) (OfflineAsked h)) (\<lambda>offline.
           andThen (tell (HandleClosed h)) (\<lambda>_.
           if \<not> belongs \<or> offline then give () else k))))) (\<lambda>_. ?J)"
    if "leads S req ?N k (\<lambda>_. ?J)" for k
    by (rule leads_calm_then [OF _ N], rule within_intro, rule leads_cases(1), rule leads_basic, simp,
        rule leads_calm_then [OF _ N], rule within_intro, rule leads_calm_then [OF _ N], rule within_intro, simp add: calm_def,
        rule leads_calm_then [OF _ N], rule within_intro, simp add: calm_def, rule leads_cases(4), rule leads_basic, simp, rule that)
  show ?thesis
    unfolding dismount_unlettered_def
    by (rule leads_andThen [OF leads_lettered [OF calm_detaching]], rule leads_cases(4), rule leads_basic, simp,
        rule leads_weaken [OF reading [OF writing]]) simp_all
qed

lemma leads_dismount_all:
  assumes "DetachDriveLetters \<in> yes"
  shows "leads S req (detaching S req disk d yes) (dismountUnletteredVolumesOnDisk (disk_number disk)) (\<lambda>_. detaching S req disk d yes)"
proof -
  have "leads S req (detaching S req disk d yes) (dismount_all (disk_number disk) names) (\<lambda>_. detaching S req disk d yes)" for names
    by (induction names) (auto intro!: leads_basic leads_andThen [OF leads_dismount_unlettered [OF assms]])
  then show ?thesis
    unfolding dismountUnletteredVolumesOnDisk_def
    by (intro leads_calm_then [OF _ calm_detaching] within_ask) (simp_all add: calm_def)
qed

lemma leads_remove_mount_point:
  assumes "DetachDriveLetters \<in> yes" "removable_letter S req name"
  shows "leads S req (detaching S req disk d yes) (remove_mount_point (disk_number disk) name) (\<lambda>_. detaching S req disk d yes)"
proof -
  let ?J = "detaching S req disk d yes" and ?n = "disk_number disk" and ?path = "device_prefix @ name"
  let ?root = "name @ [0x5C]"
  have remove: "leads S req (\<lambda>w. ?J w \<and> volume_held ?n ?path True h (happened w) \<and> DismountAsked h None \<in> set (happened w))
      (andThen (ask (\<lambda>S past. delete_mount_answer S past ?root) (MountPointDeleted ?root)) (\<lambda>r.
         case r of None \<Rightarrow> give () | Some code \<Rightarrow> check (P code) (MountPointKept ?root code))) (\<lambda>_. ?J)" for h P
  proof (rule leads_andThen [OF leads_noting [where K = "\<lambda>_. ?J"]])
    fix r w assume w: "?J w \<and> volume_held ?n ?path True h (happened w) \<and> DismountAsked h None \<in> set (happened w)"
    then show "win_allowed S req (MountPointDeleted ?root r) (happened w)"
      unfolding win_allowed.simps using assms holding_touch holding_parts(3)
      by (intro exI [of _ disk] exI [of _ d] exI [of _ name] exI [of _ h]) (auto simp: detaching_def)
    show "?J (noting (MountPointDeleted ?root r) w)"
      using w by (intro lasting_noting [OF lasting_detaching]) (simp_all add: mild_def)
  qed (auto intro!: leads_cases leads_basic)
  have held: "leads S req (\<lambda>w. ?J w \<and> volume_held ?n ?path True h (happened w))
      (andThen (lockAndDismount h ?path) (\<lambda>_.
       andThen (ask (\<lambda>S past. delete_mount_answer S past ?root) (MountPointDeleted ?root)) (\<lambda>r.
         case r of None \<Rightarrow> give () | Some code \<Rightarrow> check (P code) (MountPointKept ?root code)))) (\<lambda>_. ?J)" for h P
    by (rule leads_weaken [OF leads_andThen [OF leads_dismount [OF assms(1), of S req disk d ?path h] remove]])
      (use assms(2) in \<open>auto simp: detachable_def\<close>)
  have extent: "leads S req (\<lambda>w. ?J w \<and> (\<exists>rest. happened w = PathOpened ?path True (Inr h) # rest))
      (andThen (volumeHasDiskExtent h ?n) (\<lambda>belongs. if \<not> belongs then give () else
         andThen (lockAndDismount h ?path) (\<lambda>_.
         andThen (ask (\<lambda>S past. delete_mount_answer S past ?root) (MountPointDeleted ?root)) (\<lambda>r.
           case r of None \<Rightarrow> give () | Some code \<Rightarrow> check (P code) (MountPointKept ?root code))))) (\<lambda>_. ?J)" for h P
    by (rule leads_andThen [OF leads_extent [OF calm_detaching]]) (auto intro!: leads_cases(4) leads_basic(1) leads_weaken [OF held])
  show ?thesis
    unfolding remove_mount_point_def Let_def
    by (rule leads_andThen [OF leads_open [OF calm_detaching]], rule leads_cases(1), rule leads_basic,
        rule leads_leaving [OF leads_weaken [OF extent]]) (simp_all add: calm_def calm_detaching)
qed

lemma leads_remove_mount_points:
  assumes "DetachDriveLetters \<in> yes"
  shows "leads S req (detaching S req disk d yes)
    (removeMountPointsForDisk (disk_number disk) (guard_mountPoints (request_guard req))) (\<lambda>_. detaching S req disk d yes)"
proof -
  let ?guarded = "protected_letters (win_tables S) [qs ''C''] (guard_mountPoints (request_guard req))"
  have "leads S req (detaching S req disk d yes) (remove_mount_points (win_tables S) ?guarded (disk_number disk) names)
      (\<lambda>_. detaching S req disk d yes)" for names
    by (induction names)
      (auto intro!: leads_basic leads_cases(4) leads_andThen [OF leads_remove_mount_point [OF assms]]
        simp: Let_def removable_letter_def)
  then show ?thesis
    unfolding removeMountPointsForDisk_def
    by (intro leads_andThen [OF leads_basic(6) [where N = "\<lambda>U w. detaching S req disk d yes w \<and> U = win_tables S"]] leads_pure
        leads_calm_then [OF within_letters calm_detaching]) simp_all
qed

section \<open>Up to the last harmless moment\<close>

definition untouched :: "winworld \<Rightarrow> bool" where
  "untouched w \<longleftrightarrow> list_all (\<lambda>e. \<not> erasing e) (happened w)"

lemma lasting_untouched: "lasting mild untouched"
  by (auto simp: lasting_def untouched_def adds_def list_all_iff mild_def)

lemma detaching_iff:
  "detaching S req disk d yes w \<longleftrightarrow> holding S req ((=) (WStepReported OpenDrive)) yes {LockDrive} disk d w \<and> untouched w"
  by (simp add: detaching_def untouched_def)

text \<open>The checked disk, with the drive not opened yet.\<close>

definition begun :: "winos \<Rightarrow> RestoreRequest \<Rightarrow> DiskInfo \<Rightarrow> winworld \<Rightarrow> bool" where
  "begun S req disk w \<longleftrightarrow>
     win_target_checked S req disk (happened w) \<and> WCancelAsked True \<notin> set (happened w) \<and> untouched w \<and>
     WStepReported OpenDrive \<in> set (happened w) \<and> WStepReported LockDrive \<notin> set (happened w) \<and>
     raw_number (raw w) = disk_number disk"

lemma leads_open_raw:
  "leads S req (begun S req disk) open_raw (\<lambda>_ w. \<exists>d. drive_ready S req {OpenDrive} {LockDrive} disk d w \<and> untouched w)"
  unfolding leads_def open_raw_def openVolumePath_def set_raw_def
  using target_checked_append [of S req disk _ "[PathOpened p True r]" for p r]
  by (auto simp: run_simps begun_def drive_ready_def untouched_def raw_failed_def split: sum.split)

lemma leads_cancel:
  assumes "\<And>w. J w \<Longrightarrow> untouched w" "\<And>w. J w \<Longrightarrow> K (noting (WCancelAsked False) w)"
  shows "leads S req J win_stop_if_cancelled (\<lambda>_. K)"
  using assms by (auto simp: leads_def win_stop_if_cancelled_def run_simps untouched_def)

lemma cancel_ready: "drive_ready S req yes no disk d w \<Longrightarrow> drive_ready S req yes no disk d (noting (WCancelAsked False) w)"
  using target_checked_append [of S req disk "happened w" "[WCancelAsked False]"] by (auto simp: drive_ready_def)

lemma cancel_detaching: "detaching S req disk d yes w \<Longrightarrow> detaching S req disk d yes (noting (WCancelAsked False) w)"
  by (auto simp: detaching_def holding_def cancel_ready since_Cons elim: identity_mono)

lemma leads_step_detaching:
  "s \<noteq> LockDrive \<Longrightarrow> s \<noteq> OpenDrive \<Longrightarrow>
   leads S req (detaching S req disk d yes) (beginStep s) (\<lambda>_. detaching S req disk d (insert s yes))"
  unfolding detaching_def
  using leads_step_holding [of s "{LockDrive}" "(=) (WStepReported OpenDrive)" S req yes disk d]
  by (auto simp: leads_def step_events split: prod.splits)

lemma leads_connect: "leads S req (detaching S req disk d yes) new_volume_manager (\<lambda>_. detaching S req disk d yes)"
  unfolding leads_def new_volume_manager_def
proof (intro allI impI)
  fix w assume w: "detaching S req disk d yes w" "win_justified S req (happened w)"
  have "detaching S req disk d yes (noting (WmiConnected r) w)" for r
    using w(1) by (intro lasting_noting [OF lasting_detaching]) (simp_all add: mild_def)
  then have "detaching S req disk d yes (noting (WmiConnected r) w\<lparr>storage := r'\<rparr>)" for r r'
    by (simp add: detaching_def holding_def drive_ready_def)
  then show "wp True (andThen (ask connect_answer WmiConnected) (\<lambda>e. change (\<lambda>w. w\<lparr>storage := e\<rparr>))) S
      (\<lambda>_ w'. detaching S req disk d yes w' \<and> win_justified S req (happened w')) (\<lambda>_ w'. win_justified S req (happened w')) w"
    using w(2) by (simp add: run_simps)
qed

lemma leads_prepare:
  "leads S req (begun S req disk) (win_prepare req disk)
     (\<lambda>_ w. \<exists>d. holding S req is_cancel {OpenDrive, RefreshMetadata, DetachDriveLetters} {LockDrive} disk d w)"
proof -
  let ?yes = "{DetachDriveLetters, RefreshMetadata, OpenDrive}"
  have verified: "leads S req (\<lambda>w. drive_ready S req {OpenDrive} {LockDrive} disk d w \<and> untouched w) (verify_raw disk)
      (\<lambda>_. detaching S req disk d {OpenDrive})" for d
    unfolding detaching_iff
    by (rule leads_frame [OF leads_verify within_calm_mild [OF within_verify] lasting_untouched]) simp
  have checked: "win_target_checked S req disk (happened w)" if "detaching S req disk d yes w" for d yes w
    using that holding_parts(2) by (auto simp: detaching_def)
  have last_look: "leads S req (detaching S req disk d ?yes) (andThen win_stop_if_cancelled (\<lambda>_. verify_raw disk))
      (\<lambda>_. holding S req is_cancel ?yes {LockDrive} disk d)" for d
    by (rule leads_andThen [OF leads_cancel leads_verify])
      (auto simp: detaching_iff intro: cancel_ready holding_ready)
  have "leads S req (detaching S req disk d {OpenDrive})
      (andThen win_stop_if_cancelled (\<lambda>_.
       andThen (beginStep RefreshMetadata) (\<lambda>_.
       andThen new_volume_manager (\<lambda>_.
       andThen (rewording g (refreshDisk (disk_number disk))) (\<lambda>_.
       andThen (beginStep DetachDriveLetters) (\<lambda>_.
       andThen (rewording g' (andThen (dismountUnletteredVolumesOnDisk (disk_number disk)) (\<lambda>_.
         removeMountPointsForDisk (disk_number disk) (guard_mountPoints (request_guard req))))) (\<lambda>_.
       andThen win_stop_if_cancelled (\<lambda>_. verify_raw disk))))))))
      (\<lambda>_. holding S req is_cancel ?yes {LockDrive} disk d)" for d g g'
    by (rule leads_andThen [OF leads_cancel [where K = "detaching S req disk d {OpenDrive}"]])
      (simp_all add: cancel_detaching detaching_iff [THEN iffD1, THEN conjunct2]
        leads_andThen [OF leads_step_detaching leads_andThen [OF leads_connect leads_andThen [OF leads_rewording [OF
          leads_refresh [OF lasting_detaching checked]] leads_andThen [OF leads_step_detaching leads_andThen [OF leads_rewording [OF
          leads_andThen [OF leads_dismount_all leads_remove_mount_points]] last_look]]]]])
  then show ?thesis
    unfolding win_prepare_def Let_def insert_commute [of OpenDrive]
    by (intro leads_andThen [OF leads_open_raw] leads_ex leads_andThen [OF verified]) (auto intro: leads_weaken simp: insert_commute)
qed

section \<open>Rewriting the drive\<close>

lemma calm_holding: "guides p \<Longrightarrow> lasting calm (holding S req p yes no disk d)"
  by (rule lasting_classes(3) [OF lasting_holding])

lemma leads_create_disk:
  assumes "guides p"
    and allow: "\<And>r w. holding S req p yes no disk d w \<Longrightarrow> win_allowed S req (DiskCreated d c r) (happened w)"
  shows "leads S req (holding S req p yes no disk d) (createDisk op c) (\<lambda>_. holding S req p yes no disk d)"
  unfolding createDisk_def
proof (rule leads_handle [OF holding_parts(1)], assumption, rule leads_andThen [OF leads_ask [OF lasting_holding [OF assms(1)]]])
  show "win_allowed S req (DiskCreated d c r) (happened w)" if "holding S req p yes no disk d w" for r w
    using that by (rule allow)
qed (auto intro!: leads_cases leads_basic simp: inner_def)

lemma leads_gpt_disk:
  assumes "guides p"
    and allow: "\<And>g r w. holding S req p yes no disk d w \<Longrightarrow> win_allowed S req (DiskCreated d (CreateGpt g) r) (happened w)"
  shows "leads S req (holding S req p yes no disk d) createGptDisk (\<lambda>_. holding S req p yes no disk d)"
  unfolding createGptDisk_def
  by (rule leads_calm_then [OF _ calm_holding], rule within_intro, rule assms, rule leads_calm_then [OF _ calm_holding],
      rule within_intro, simp add: calm_def, rule assms)
    (auto intro!: leads_cases leads_basic leads_andThen [OF leads_create_disk] allow assms(1))

lemma leads_delete_partitions:
  assumes "DeletePartitions \<in> yes"
  shows "leads S req (\<lambda>w. holding S req is_cancel yes no disk d w \<and>
      (\<exists>obs e. WmiQueried (partition_query (disk_number disk)) obs e \<in> set (happened w) \<and> set ps \<subseteq> set obs))
    (delete_partitions atStart ps) (\<lambda>_. holding S req is_cancel yes no disk d)"
proof (induction ps arbitrary: atStart)
  case (Cons ob ps)
  let ?J = "\<lambda>w. holding S req is_cancel yes no disk d w \<and>
      (\<exists>obs e. WmiQueried (partition_query (disk_number disk)) obs e \<in> set (happened w) \<and> set (ob # ps) \<subseteq> set obs)"
  have J: "lasting inner ?J"
    using lasting_holding [OF guides_markers(2), of S req yes no disk d] unfolding lasting_def by (meson adds_set subsetD)
  have rest: "leads S req ?J (delete_partitions b ps) (\<lambda>_. holding S req is_cancel yes no disk d)" for b
    by (rule leads_weaken [OF Cons.IH]) auto
  have call: "leads S req ?J (storage_call ''MSFT_Partition'' (objectPath ob) ''DeleteObject'' [] DeleteJobTimeoutMs) (\<lambda>_. ?J)"
    if "\<not> isPartitionAtDiskStart (object_uint64 ob ''Offset'')"
  proof (rule leads_weaken [OF leads_storage_call [where K = inner, OF J]])
    fix r w assume w: "?J w"
    then obtain obs e where "WmiQueried (partition_query (disk_number disk)) obs e \<in> set (happened w)" "ob \<in> set obs" by auto
    then show "win_allowed S req (WmiCalled ''MSFT_Partition'' (objectPath ob) ''DeleteObject'' [] r) (happened w)"
      unfolding win_allowed.simps using that w assms holding_touch holding_parts(3)
      by (intro exI [of _ disk] exI [of _ d] exI [of _ "partition_query (disk_number disk)"] exI [of _ obs] exI [of _ e]
          exI [of _ ob]) auto
  qed (auto simp: calm_inner, simp add: inner_def)
  show ?case
    unfolding delete_partitions.simps by (rule leads_cases(4), rule rest, rule leads_andThen [OF call], assumption, rule rest)
qed (auto intro!: leads_basic)

lemma leads_delete:
  assumes "DeletePartitions \<in> yes"
  shows "leads S req (holding S req is_cancel yes no disk d) (deletePartitionsForDisk (disk_number disk))
    (\<lambda>_. holding S req is_cancel yes no disk d)"
proof -
  let ?J = "holding S req is_cancel yes no disk d"
  have J: "lasting calm ?J" by (rule calm_holding) simp
  have "leads S req (\<lambda>w. ?J w \<and> WmiQueried (partition_query (disk_number disk)) found e \<in> set (happened w))
      (delete_partitions False found) (\<lambda>_. ?J)" for found e
    by (rule leads_weaken [OF leads_delete_partitions [OF assms]]) auto
  then show ?thesis
    unfolding deletePartitionsForDisk_def
    by (intro leads_andThen [OF leads_check_storage [OF J]] leads_query_then [OF J])
      (auto intro!: leads_cases leads_basic(2) split: option.split)
qed

lemma leads_delete_stage:
  "leads S req (holding S req is_cancel yes {LockDrive} disk d) (delete_stage (disk_number disk))
    (\<lambda>_. holding S req is_cancel (insert DeletePartitions yes) {LockDrive} disk d)"
proof -
  let ?J = "holding S req is_cancel (insert DeletePartitions yes) {LockDrive} disk d"
  have J: "lasting calm ?J" by (rule calm_holding) simp
  have gpt: "leads S req ?J replaceLayoutWithEmptyGpt (\<lambda>_. ?J)"
    unfolding replaceLayoutWithEmptyGpt_def
  proof (rule leads_andThen [OF leads_gpt_disk])
    show "win_allowed S req (DiskCreated d (CreateGpt g) r) (happened w)" if "?J w" for g r w
      unfolding win_allowed.simps using that holding_touch holding_parts(3,4) by (cases g, intro exI [of _ disk]) auto
    show "leads S req ?J (empty_layout_attempts 20 None) (\<lambda>_. ?J)" by (rule leads_calm [OF within_empty_layout J])
  qed simp
  show ?thesis
    unfolding delete_stage_def
    by (rule leads_andThen [OF leads_step_holding], simp, simp, simp, simp,
        rule leads_andThen [OF leads_rewording [OF leads_delete]], simp,
        rule leads_calm_then [OF _ J], (rule within_intro | simp add: calm_def)+,
        rule leads_calm_then [OF _ J], rule within_intro, rule leads_andThen [OF gpt],
        rule leads_calm_then [OF _ J], rule within_intro, rule leads_calm [OF _ J], (rule within_intro | simp add: calm_def)+)
qed

lemma leads_lock_stage:
  "leads S req (holding S req p yes {LockDrive} disk d) (lock_stage disk)
    (\<lambda>_. holding S req ((=) (WStepReported LockDrive)) (insert LockDrive yes) {} disk d)"
proof -
  let ?J = "drive_ready S req (insert LockDrive yes) {} disk d"
  have J: "lasting calm ?J" by (rule lasting_classes(3) [OF lasting_ready])
  have start: "drive_ready S req yes {} disk d w" if "holding S req p yes {LockDrive} disk d w" for w
    using that by (simp add: holding_def drive_ready_def)
  have first: "leads S req (holding S req p yes {LockDrive} disk d) (beginStep LockDrive) (\<lambda>_. ?J)"
    by (rule leads_weaken [OF leads_step [of _ "{}" S req yes disk d]]) (simp_all add: start)
  show ?thesis
    unfolding lock_stage_def
    by (rule leads_andThen [OF first],
        rule leads_calm_then [OF _ J], (rule within_intro)+,
        rule leads_calm_then [OF _ J], (rule within_intro | simp add: calm_def)+,
        rule leads_calm_then [OF _ J], (rule within_intro)+,
        rule leads_calm_then [OF _ J], (rule within_intro | simp add: calm_def)+,
        rule leads_calm_then [OF _ J], (rule within_intro)+, rule leads_verify, simp)
qed

lemma leads_clear:
  assumes yes: "ClearSignatures \<in> yes"
    and J_def: "J = holding S req ((=) (WStepReported LockDrive)) yes no disk d"
  shows "leads S req J (clearPartitionSignatures size' sector) (\<lambda>_. J)"
proof -
  have J: "lasting calm J" unfolding J_def by (rule calm_holding) simp
  have handle: "J w \<Longrightarrow> raw_handle (raw w) = Some d" for w unfolding J_def by (rule holding_parts(1))
  have zero: "leads S req J (ask (\<lambda>S past. write_answer S past d a n) (ZerosWritten d a n)) (\<lambda>_. J)" for a n
  proof (rule leads_weaken [OF leads_ask [of inner J]])
    show "lasting inner J" unfolding J_def by (rule lasting_holding) simp
    show "win_allowed S req (ZerosWritten d a n r) (happened w)" if "J w" for r w
      unfolding win_allowed.simps using that yes holding_touch holding_parts(3) unfolding J_def by blast
  qed (simp_all add: inner_def)
  have round': "leads S req J (zero_round off amount sector' remaining) (\<lambda>r w. case r of Inl _ \<Rightarrow> J w | Inr _ \<Rightarrow> J w)"
    for off amount sector' remaining
  proof -
    have retry: "leads S req J (andThen (set_raw (\<lambda>d. d\<lparr>notReadyRetries := notReadyRetries d + 1\<rparr>)) (\<lambda>_.
        andThen (tell (NapTaken NotReadyRetryDelayMs)) (\<lambda>_. andThen (seek_to p) (\<lambda>_. give (Inl remaining)))))
        (\<lambda>r w. case r of Inl _ \<Rightarrow> J w | Inr _ \<Rightarrow> J w)" for p
      by (rule leads_calm_then [OF _ J], rule within_intro, simp, simp, rule leads_calm_then [OF _ J], rule within_intro,
          simp add: calm_def, rule leads_calm_then [OF _ J], rule within_intro, rule leads_basic, simp)
    have on: "leads S req J (andThen (set_raw (\<lambda>d. d\<lparr>writeAccepted := True, raw_pointer := raw_pointer d + a\<rparr>)) (\<lambda>_.
        give (Inl rest))) (\<lambda>r w. case r of Inl _ \<Rightarrow> J w | Inr _ \<Rightarrow> J w)" for a rest
      by (rule leads_calm_then [OF _ J], rule within_intro, simp, simp, rule leads_basic, simp)
    show ?thesis
      unfolding zero_round_def Let_def
      by (rule leads_cases(4), rule leads_basic, simp, rule leads_calm_then [OF _ J], rule within_intro,
          rule leads_handle [OF handle], assumption, rule leads_andThen [OF zero], rule leads_cases(1),
          rule leads_cases(4), rule retry, rule leads_basic(2), rule leads_cases(4), rule leads_basic(2), rule on)
  qed
  have zeros: "leads S req J (writeZeros_raw off amount sector') (\<lambda>_. J)" for off amount sector'
    unfolding writeZeros_raw_def
    by (rule leads_cases(4), rule leads_basic, simp, rule leads_calm_then [OF _ J], rule within_intro,
        rule leads_calm_then [OF _ J], rule within_intro, rule leads_calm_then [OF _ J], rule within_intro,
        rule leads_iterate [where I = "\<lambda>_. J", OF round'])
  show ?thesis
    unfolding clearPartitionSignatures_def Let_def
    by (rule leads_calm_then [OF _ J], rule within_intro, rule leads_calm_then [OF _ J], rule within_intro,
        rule leads_andThen [OF zeros], rule leads_andThen [OF zeros],
        rule leads_calm_then [OF _ J], (rule within_intro | simp add: calm_def)+, rule leads_calm [OF _ J], rule within_intro)
qed

lemma leads_clear_stage:
  "leads S req (holding S req ((=) (WStepReported LockDrive)) yes {} disk d) (clear_stage disk)
    (\<lambda>_. holding S req ((=) (WStepReported LockDrive)) (insert ClearSignatures yes) {} disk d)"
proof -
  let ?J = "holding S req ((=) (WStepReported LockDrive)) (insert ClearSignatures yes) {} disk d"
  have J: "lasting calm (\<lambda>w. \<forall>x. r = Ok x \<longrightarrow> ?J w)" for r :: "unit winding"
    using calm_holding [of "(=) (WStepReported LockDrive)" S req "insert ClearSignatures yes" "{}" disk d]
    unfolding lasting_def by simp blast
  show ?thesis
    unfolding clear_stage_def
    by (rule leads_andThen [OF leads_step_holding], simp, simp, simp, simp,
        rule leads_andThen [OF leads_attempt [OF leads_clear [OF _ refl]]], simp,
        rule leads_calm_then [OF _ J], rule within_intro, rule leads_calm_then [OF _ J], (rule within_intro | simp add: calm_def)+)
      (auto intro: leads_basic split: outcome.split)
qed

lemma leads_set_layout:
  assumes yes: "CreatePartition \<in> yes" and J_def: "J = holding S req ((=) (WStepReported LockDrive)) yes {} disk d"
    and place: "sole_place layout = Some (startOffset (calculateGptLayout (disk_size disk) (sectorSize disk)),
      layout_length (calculateGptLayout (disk_size disk) (sectorSize disk)))"
      "partitionLayoutError (request_style req) (calculateGptLayout (disk_size disk) (sectorSize disk)) (sectorSize disk) = None"
  shows "leads S req J (setDriveLayout op layout) (\<lambda>_. J)"
  unfolding setDriveLayout_def
proof (rule leads_handle, unfold J_def, rule holding_parts(1), assumption,
    rule leads_andThen [OF leads_ask [OF lasting_holding]], simp)
  show "win_allowed S req (LayoutSet d layout r) (happened w)"
    if "holding S req ((=) (WStepReported LockDrive)) yes {} disk d w" for r w
    unfolding win_allowed.simps Let_def using that yes place holding_touch holding_parts(3) by (intro exI [of _ disk]) blast
qed (auto simp: inner_def intro!: leads_cases leads_basic leads_calm within_intro leads_weaken [OF leads_calm [OF within_controls(3) calm_holding]])

lemma leads_partition:
  assumes yes: "{DeletePartitions, LockDrive, ResetToRaw, CreatePartition} \<subseteq> yes"
    and J_def: "J = holding S req ((=) (WStepReported LockDrive)) yes {} disk d"
  shows "leads S req J (createSinglePartition (request_style req) (request_fileSystem req) (disk_size disk) (sectorSize disk)) (\<lambda>_. J)"
proof -
  let ?place = "calculateGptLayout (disk_size disk) (sectorSize disk)"
  have J: "lasting calm J" unfolding J_def by (rule calm_holding) simp
  have table: "win_allowed S req (DiskCreated d c r) (happened w)" if "J w" for c r w
    unfolding win_allowed.simps using that yes holding_touch holding_parts(3) unfolding J_def by (intro exI [of _ disk]) auto
  have create: "leads S req J (createDisk op c) (\<lambda>_. J)" for op c
    unfolding J_def by (rule leads_create_disk) (simp, rule table, simp add: J_def)
  have gpt: "leads S req J createGptDisk (\<lambda>_. J)"
    unfolding J_def by (rule leads_gpt_disk) (simp, rule table, simp add: J_def)
  have layout: "leads S req J (setDriveLayout op layout) (\<lambda>_. J)"
    if "partitionLayoutError (request_style req) ?place (sectorSize disk) = None"
      "sole_place layout = Some (startOffset ?place, layout_length ?place)" for op layout
    by (rule leads_set_layout [OF _ J_def]) (use yes that in auto)
  have mbr: "leads S req J (createSingleMbrPartition ?place fs (sectorSize disk)) (\<lambda>_. J)"
    if "partitionLayoutError (request_style req) ?place (sectorSize disk) = None" for fs
    unfolding createSingleMbrPartition_def
    by (rule leads_calm_then [OF _ J], rule within_intro, rule leads_calm_then [OF _ J], rule within_intro, simp add: calm_def,
        rule leads_cases(2), rule leads_basic(2), rule leads_cases(3), rule leads_andThen [OF create],
        rule leads_calm_then [OF _ J], rule within_intro, rule layout [OF that]) simp
  show ?thesis
    unfolding createSinglePartition_def Let_def
    by (rule leads_calm_then [OF _ J], rule within_intro, rule leads_gate, rule leads_cases(4), rule mbr, assumption,
        rule leads_andThen [OF gpt], rule leads_calm_then [OF _ J], rule within_intro,
        rule leads_calm_then [OF _ J], rule within_intro, simp add: calm_def, rule leads_cases(2), rule leads_basic(2),
        rule layout, assumption, simp)
qed

lemma leads_partition_stage:
  assumes "{DeletePartitions, LockDrive} \<subseteq> yes"
  shows "leads S req (holding S req ((=) (WStepReported LockDrive)) yes {} disk d) (partition_stage req disk)
    (\<lambda>_. holding S req ((=) (WStepReported LockDrive)) (insert CreatePartition (insert ResetToRaw yes)) {} disk d)"
proof -
  let ?J = "holding S req ((=) (WStepReported LockDrive)) (insert ResetToRaw yes) {} disk d"
  have J: "lasting calm ?J" by (rule calm_holding) simp
  have raw: "leads S req ?J setRaw (\<lambda>_. ?J)"
    unfolding setRaw_def
  proof (rule leads_andThen [OF leads_create_disk])
    show "win_allowed S req (DiskCreated d CreateRaw r) (happened w)" if "?J w" for r w
      unfolding win_allowed.simps using that assms holding_touch holding_parts(3)
      by (intro exI [of _ disk]) auto
    show "leads S req ?J try_refresh (\<lambda>_. ?J)" by (rule leads_calm [OF _ J], rule within_intro)
  qed simp
  show ?thesis
    unfolding partition_stage_def
    by (rule leads_andThen [OF leads_step_holding], simp, simp, simp, simp, rule leads_andThen [OF raw],
        rule leads_andThen [OF leads_step_holding], simp, simp, simp, simp, rule leads_partition [OF _ refl])
      (use assms in auto)
qed

section \<open>The new volume\<close>

text \<open>The verified drive, and a volume proven to be on it since the same step.\<close>

definition with_volume ::
  "winos \<Rightarrow> RestoreRequest \<Rightarrow> RestoreStep \<Rightarrow> RestoreStep set \<Rightarrow> DiskInfo \<Rightarrow> win_handle \<Rightarrow> qstring \<Rightarrow> winworld \<Rightarrow> bool" where
  "with_volume S req s yes disk d v w \<longleftrightarrow>
     holding S req ((=) (WStepReported s)) yes {} disk d w \<and>
     volume_found (disk_number disk) (withoutTrailingSlash v) (since ((=) (WStepReported s)) (happened w))"

lemma lasting_with_volume: "lasting inner (with_volume S req s yes disk d v)"
  unfolding with_volume_def by (intro lasting_conj lasting_holding lasting_found) simp_all

lemmas calm_with_volume = lasting_classes(3) [OF lasting_with_volume]

lemma leads_belongs:
  assumes J: "lasting calm J" and p: "guides p"
  shows "leads S req J (volumePathBelongsToDisk v n)
    (\<lambda>_ w. J w \<and> volume_found n (withoutTrailingSlash v) (since p (happened w)))"
proof (rule leads_tells [OF tells_belongs J])
  fix w w' :: winworld and new
  assume n: "happened w' = new @ happened w" "list_all calm new" "volume_found n (withoutTrailingSlash v) new" "J w'"
  have "since p (new @ happened w) = new @ since p (happened w)"
    using n(2) inner_plain [OF p calm_inner] by (intro since_append) (auto simp: list_all_iff)
  then show "J w' \<and> volume_found n (withoutTrailingSlash v) (since p (happened w'))"
    using volume_found_append [OF n(3), of "[]" "since p (happened w)"] n(1,4) by simp
qed

lemma leads_confirm:
  "leads S req (\<lambda>w. drive_ready S req yes {} disk d w \<and>
      volume_found (disk_number disk) (withoutTrailingSlash v) (since ((=) (WStepReported s)) (happened w)))
    (confirmStillSelected disk) (\<lambda>_. with_volume S req s yes disk d v)"
  unfolding confirmStillSelected_def with_volume_def
  by (intro leads_rewording leads_frame [OF leads_verify within_verify] lasting_classes(3) lasting_found) simp_all

lemma leads_step_volume:
  assumes "s' \<noteq> s"
  shows "leads S req (with_volume S req s yes disk d v) (beginStep s') (\<lambda>_. with_volume S req s (insert s' yes) disk d v)"
proof -
  have found: "volume_found n x (since p h) \<Longrightarrow> \<not> p e \<Longrightarrow> volume_found n x (since p (e # h))" for n x p e h
    using volume_found_append [of n x "since p h" "[e]" "[]"] by (simp add: since_Cons)
  show ?thesis
    unfolding with_volume_def
    using leads_step_holding [of s' "{}" "(=) (WStepReported s)" S req yes disk d] assms found
    unfolding leads_def step_events by (auto split: prod.splits simp: found)
qed

lemma leads_mount:
  assumes "AssignDriveLetter \<in> yes"
  shows "leads S req (with_volume S req RefreshNewVolume yes disk d v) (mountVolume v)
    (\<lambda>_. with_volume S req RefreshNewVolume yes disk d v)"
proof -
  let ?J = "with_volume S req RefreshNewVolume yes disk d v"
  have set: "leads S req (\<lambda>w. ?J w \<and> DrivesRead drives \<in> set (happened w))
      (ask (\<lambda>S past. set_mount_answer S past (firstAvailableDriveLetter drives) v) (MountPointSet (firstAvailableDriveLetter drives) v))
      (\<lambda>_. ?J)" if "firstAvailableDriveLetter drives \<noteq> []" for drives
  proof (rule leads_weaken [OF leads_ask [of inner "\<lambda>w. ?J w \<and> DrivesRead drives \<in> set (happened w)"]])
    show "lasting inner (\<lambda>w. ?J w \<and> DrivesRead drives \<in> set (happened w))"
      by (intro lasting_conj lasting_with_volume lasting_known)
    show "win_allowed S req (MountPointSet (firstAvailableDriveLetter drives) v r) (happened w)"
      if "?J w \<and> DrivesRead drives \<in> set (happened w)" for r w
      unfolding win_allowed.simps
      using that \<open>firstAvailableDriveLetter drives \<noteq> []\<close> assms holding_touch holding_parts(3)
      by (intro exI [of _ disk] exI [of _ d] exI [of _ drives]) (auto simp: with_volume_def)
  qed (simp_all add: inner_def)
  have assign: "leads S req (\<lambda>w. ?J w \<and> DrivesRead drives \<in> set (happened w))
      (andThen (check (firstAvailableDriveLetter drives \<noteq> []) NoFreeLetter) (\<lambda>_.
       andThen (ask (\<lambda>S past. set_mount_answer S past (firstAvailableDriveLetter drives) v)
         (MountPointSet (firstAvailableDriveLetter drives) v)) (\<lambda>r.
       case r of None \<Rightarrow> give (firstAvailableDriveLetter drives)
         | Some code \<Rightarrow> fail (VolumeNotMounted (firstAvailableDriveLetter drives) code)))) (\<lambda>_. ?J)" for drives
    by (rule leads_check, rule leads_andThen [OF set]) (auto intro!: leads_cases leads_basic)
  show ?thesis
    unfolding mountVolume_def Let_def
    by (rule leads_calm_then [OF _ calm_with_volume], rule within_intro, rule leads_cases(4), rule leads_basic, assumption,
        rule leads_andThen [OF leads_ask [OF calm_with_volume]], simp add: calm_def, simp, rule assign)
qed

lemma leads_volume_stage:
  "leads S req (holding S req p yes {} disk d) (volume_stage disk)
    (\<lambda>r. with_volume S req RefreshNewVolume (insert AssignDriveLetter (insert RefreshNewVolume (insert WaitForVolume yes))) disk d (fst r))"
proof -
  let ?n = "disk_number disk" and ?yes = "insert RefreshNewVolume (insert WaitForVolume yes)"
  have wait: "leads S req (holding S req p yes {} disk d) (beginStep WaitForVolume)
      (\<lambda>_. drive_ready S req (insert WaitForVolume yes) {} disk d)"
    by (rule leads_weaken [OF leads_step [of _ "{}" S req yes disk d]]) (simp_all add: holding_ready)
  have waiting: "lasting calm (drive_ready S req (insert WaitForVolume yes) {} disk d)"
    by (rule lasting_classes(3) [OF lasting_ready])
  have ready: "lasting mild (drive_ready S req ?yes {} disk d)" by (rule lasting_classes(1) [OF lasting_ready])
  have refresh: "leads S req (drive_ready S req ?yes {} disk d) (rewording g (andThen (refreshDisk ?n) (\<lambda>_. volumePathBelongsToDisk v ?n)))
      (\<lambda>_ w. drive_ready S req ?yes {} disk d w \<and>
        volume_found ?n (withoutTrailingSlash v) (since ((=) (WStepReported RefreshNewVolume)) (happened w)))" for g v
    by (rule leads_rewording, rule leads_andThen [OF leads_refresh [OF ready] leads_belongs [OF lasting_classes(2) [OF ready]]])
      (simp_all add: drive_ready_def)
  have mount: "leads S req (with_volume S req RefreshNewVolume (insert AssignDriveLetter ?yes) disk d v)
      (andThen (rewording g (mountVolume v)) (\<lambda>root. give (v, root)))
      (\<lambda>r. with_volume S req RefreshNewVolume (insert AssignDriveLetter ?yes) disk d (fst r))" for g v
    by (rule leads_andThen [OF leads_rewording [OF leads_mount]]) (auto intro!: leads_basic)
  show ?thesis
    unfolding volume_stage_def Let_def
    by (rule leads_andThen [OF wait], rule leads_calm_then [OF _ waiting], (rule within_intro)+,
        rule leads_andThen [OF leads_step], simp, rule leads_andThen [OF refresh],
        rule leads_andThen [OF leads_confirm], rule leads_andThen [OF leads_step_volume], simp, rule mount)
qed

section \<open>Formatting\<close>

lemma leads_target:
  assumes J: "lasting calm J"
  shows "leads S req J (andThen (tell TimerStarted) (\<lambda>_. iterate (target_round U v) e0))
    (\<lambda>r w. J w \<and> (\<forall>ob. fst r = Some ob \<longrightarrow> (\<exists>obs e. WmiQueried volume_query obs e \<in> set (happened w) \<and> ob \<in> set obs \<and>
       normalizedVolumePath U (object_text ob ''Path'') = normalizedVolumePath U v)))"
proof (rule leads_andThen [OF leads_tell_calm [OF _ J]], simp add: calm_def, rule leads_iterate [where I = "\<lambda>_. J"])
  fix s
  let ?K = "\<lambda>r w. case r of Inl (s' :: wmi_error option) \<Rightarrow> J w | Inr a \<Rightarrow> J w \<and> (\<forall>ob. fst a = Some ob \<longrightarrow>
      (\<exists>obs e. WmiQueried volume_query obs e \<in> set (happened w) \<and> ob \<in> set obs \<and>
       normalizedVolumePath U (object_text ob ''Path'') = normalizedVolumePath U v))"
  have later: "leads S req (\<lambda>w. J w \<and> WmiQueried volume_query obs e \<in> set (happened w))
      (andThen (tell (NapTaken 250)) (\<lambda>_. give (Inl x))) ?K" for obs e x
    by (rule leads_andThen [OF leads_tell_calm], simp add: calm_def, intro lasting_conj J lasting_known) (auto intro: leads_basic)
  have found: "P ob \<and> ob \<in> set obs" if "find P obs = Some ob" for P :: "wmi_object \<Rightarrow> bool" and obs ob
    using that by (auto simp: find_Some_iff)
  show "leads S req J (target_round U v s) ?K"
    unfolding target_round_def Let_def
    by (rule leads_calm_then [OF _ J], rule within_intro, simp add: calm_def, rule leads_cases(4), rule leads_basic, simp,
        rule leads_query_then [OF J])
      (auto intro!: leads_cases(2) later leads_basic(1) dest!: found, blast+)
qed

lemma leads_format:
  assumes "Format \<in> yes"
  shows "leads S req (holding S req ((=) (WStepReported Format)) yes {} disk d)
    (formatVolume v root (disk_number disk) (request_fileSystem req) (allocation_unit (request_fileSystem req) disk) (volumeLabel req))
    (\<lambda>_ _. True)"
proof -
  let ?J = "with_volume S req Format yes disk d v"
  let ?fs = "request_fileSystem req" and ?lab = "volumeLabel req"
  let ?ins = "format_inputs ?fs ?lab (allocation_unit ?fs disk)"
  let ?named = "\<lambda>ob w. \<exists>obs e. WmiQueried volume_query obs e \<in> set (happened w) \<and> ob \<in> set obs \<and>
       normalizedVolumePath (win_tables S) (object_text ob ''Path'') = normalizedVolumePath (win_tables S) v"
  let ?F = "\<lambda>w. ?J w \<and> (\<exists>path ins r. WmiCalled ''MSFT_Volume'' path ''Format'' ins r \<in> set (happened w))"
  have F: "lasting inner ?F"
    using lasting_with_volume [of S req Format yes disk d v] unfolding lasting_def by (meson adds_set subsetD)
  have named: "lasting inner (\<lambda>w. ?J w \<and> ?named ob w)" for ob
    using lasting_with_volume [of S req Format yes disk d v] unfolding lasting_def by (meson adds_set subsetD)
  have call: "leads S req (\<lambda>w. ?J w \<and> ?named ob w)
      (storage_call ''MSFT_Volume'' (objectPath ob) ''Format'' ?ins FormatJobTimeoutMs) (\<lambda>_. ?F)" for ob
  proof (rule leads_weaken [OF leads_storage_call [where K = inner, OF named]])
    fix r w assume w: "?J w \<and> ?named ob w"
    then obtain obs e where "WmiQueried volume_query obs e \<in> set (happened w)" "ob \<in> set obs"
      "normalizedVolumePath (win_tables S) (object_text ob ''Path'') = normalizedVolumePath (win_tables S) v" by blast
    then show "win_allowed S req (WmiCalled ''MSFT_Volume'' (objectPath ob) ''Format'' ?ins r) (happened w)"
      unfolding win_allowed.simps using w holding_touch
      by (intro exI [of _ disk] exI [of _ d] exI [of _ volume_query] exI [of _ obs] exI [of _ e] exI [of _ ob])
        (auto simp: with_volume_def)
  qed (auto simp: calm_inner, simp add: inner_def)
  have relabel: "leads S req ?F (ask (\<lambda>S past. set_label_answer S past root ?lab) (LabelSet root ?lab)) (\<lambda>_. ?F)"
  proof (rule leads_weaken [OF leads_ask [OF F]])
    show "win_allowed S req (LabelSet root ?lab r) (happened w)" if "?F w" for r w
      unfolding win_allowed.simps using that holding_touch by (intro exI [of _ disk] exI [of _ d]) (auto simp: with_volume_def)
  qed (simp_all add: inner_def)
  have later: "leads S req ?F (andThen (tell (NapTaken 500)) (\<lambda>_. give (Inl ()))) (\<lambda>_. ?F)"
    by (rule leads_andThen [OF leads_tell_calm [OF _ lasting_classes(3) [OF F]]]) (auto simp: calm_def intro: leads_basic)
  have served: "leads S req ?F (served_round (win_tables S) ?fs ?lab root u) (\<lambda>r w. case r of Inl _ \<Rightarrow> ?F w | Inr _ \<Rightarrow> True)" for u
    unfolding served_round_def Let_def
    by (rule leads_weaken [where K = "\<lambda>_. ?F"], rule leads_calm_then [OF _ lasting_classes(3) [OF F]], rule within_intro,
        simp add: calm_def, rule leads_cases(4), rule leads_basic, rule leads_calm_then [OF _ lasting_classes(3) [OF F]],
        rule within_intro, simp add: calm_def)
      (auto intro!: leads_cases later leads_andThen [OF relabel] leads_basic split: sum.split)
  have use: "leads S req (\<lambda>w. ?J w \<and> ?named ob w)
      (andThen (storage_call ''MSFT_Volume'' (objectPath ob) ''Format'' ?ins FormatJobTimeoutMs) (\<lambda>_.
        andThen (tell TimerStarted) (\<lambda>_. iterate (served_round (win_tables S) ?fs ?lab root) ()))) (\<lambda>_ _. True)" for ob
    by (rule leads_andThen [OF call], rule leads_andThen [OF leads_tell_calm [OF _ lasting_classes(3) [OF F]]], simp add: calm_def,
        rule leads_iterate [where I = "\<lambda>_. ?F", OF served])
  have found: "leads S req ?J (andThen (win_env win_tables) (\<lambda>U. andThen (andThen (tell TimerStarted) (\<lambda>_. iterate (target_round U v) None)) (\<lambda>(target, queryError).
      case target of None \<Rightarrow> fail (case queryError of None \<Rightarrow> VolumeNotReported (disk_number disk) | Some e \<Rightarrow> StorageFailed e)
      | Some ob \<Rightarrow> andThen (storage_call ''MSFT_Volume'' (objectPath ob) ''Format'' ?ins FormatJobTimeoutMs) (\<lambda>_.
          andThen (tell TimerStarted) (\<lambda>_. iterate (served_round U ?fs ?lab root) ()))))) (\<lambda>_ _. True)"
    by (rule leads_andThen [OF leads_basic(6) [where N = "\<lambda>U w. ?J w \<and> U = win_tables S"]], simp, rule leads_pure, clarify,
        rule leads_andThen [OF leads_target [OF calm_with_volume]], rule leads_cases(3), rule leads_cases(2), rule leads_basic(2),
        rule leads_weaken [OF use]) simp_all
  have belongs: "leads S req (holding S req ((=) (WStepReported Format)) yes {} disk d)
      (volumePathBelongsToDisk v (disk_number disk)) (\<lambda>_. ?J)"
    unfolding with_volume_def by (rule leads_belongs [OF calm_holding]) simp_all
  show ?thesis
    unfolding formatVolume_def
    by (rule leads_check, rule leads_check, rule leads_andThen [OF belongs],
        rule leads_andThen [OF leads_check_storage [OF calm_with_volume]], rule found)
qed

lemma leads_format_stage:
  "leads S req (holding S req p yes {} disk d) (format_stage req disk (v, root)) (\<lambda>_ _. True)"
proof -
  let ?n = "disk_number disk" and ?fs = "request_fileSystem req"
  have first: "leads S req (holding S req p yes {} disk d) (beginStep Format) (\<lambda>_. drive_ready S req (insert Format yes) {} disk d)"
    by (rule leads_weaken [OF leads_step [of _ "{}" S req yes disk d]]) (simp_all add: holding_ready)
  have confirm: "leads S req (drive_ready S req (insert Format yes) {} disk d) (confirmStillSelected disk)
      (\<lambda>_. holding S req ((=) (WStepReported Format)) (insert Format yes) {} disk d)"
    unfolding confirmStillSelected_def by (intro leads_rewording leads_verify) simp
  have complete: "leads S req (\<lambda>_. True) (andThen (beginStep Complete) (\<lambda>_. give root)) (\<lambda>_ _. True)"
    unfolding leads_def wp_andThen step_events by (auto simp: run_simps split: prod.split)
  show ?thesis
    unfolding format_stage_def prod.case
    by (rule leads_andThen [OF first], rule leads_andThen [OF confirm],
        rule leads_andThen [OF leads_rewording [OF leads_format]], simp, rule complete)
qed

section \<open>The whole restore\<close>

lemma leads_rewrite:
  "leads S req (holding S req is_cancel yes {LockDrive} disk d) (win_rewrite req disk) (\<lambda>_ _. True)"
proof -
  have volume: "leads S req (holding S req p' yes' {} disk d) (andThen (volume_stage disk) (format_stage req disk)) (\<lambda>_ _. True)" for p' yes'
  proof (rule leads_andThen [OF leads_volume_stage])
    fix r :: "qstring \<times> qstring"
    show "leads S req (with_volume S req RefreshNewVolume
        (insert AssignDriveLetter (insert RefreshNewVolume (insert WaitForVolume yes'))) disk d (fst r)) (format_stage req disk r) (\<lambda>_ _. True)"
      by (cases r) (auto intro: leads_weaken [OF leads_format_stage] simp: with_volume_def)
  qed
  show ?thesis
    unfolding win_rewrite_def
    by (rule leads_andThen [OF leads_delete_stage], rule leads_andThen [OF leads_lock_stage],
        rule leads_andThen [OF leads_clear_stage], rule leads_andThen [OF leads_partition_stage], simp, rule volume)
qed

end
