(* ===== verification/Windows_Outcomes.thy ===== *)
theory Windows_Outcomes
  imports Windows_Stages Windows_Order
begin

text \<open>
  The properties of the Windows restore: every run keeps its history justified, so whatever changes the drive is
  preceded by the checks and the verified handle, and a confirmed cancel request leaves the drive as it was.
\<close>

section \<open>The checks\<close>

lemma tells_described: "tells calm (described n) S (diskByNumber n RestoreDetails)"
proof -
  have letters: "tells calm (\<lambda>disk new. described n disk (new @ [WmiQueried (disk_query n) (ob # obs) e])) S
      (andThen driveLettersByDisk (\<lambda>letters. diskInfoFromObject ob letters RestoreDetails))" for ob obs e
  proof (rule tells_andThen [OF tells_letters [where n = "uintValue ob ''Number'' 0"]])
    fix letters seg assume c: "letters_complete (uintValue ob ''Number'' 0) (letters (uintValue ob ''Number'' 0)) seg"
    have "described n (disk_of_object ob letters) ([] @ seg @ WmiQueried (disk_query n) (ob # obs) e # [])"
      unfolding described_def
      by (intro exI [of _ "[]"] exI [of _ seg] exI [of _ ob] exI [of _ obs] exI [of _ e] exI [of _ letters] conjI refl)
        (use c in \<open>simp add: disk_of_object_def Let_def\<close>)
    then show "tells calm (\<lambda>disk new. described n disk ((new @ seg) @ [WmiQueried (disk_query n) (ob # obs) e])) S
        (diskInfoFromObject ob letters RestoreDetails)"
      unfolding diskInfoFromObject_def Let_def by (auto intro!: tells_give)
  qed
  have asked: "tells calm (\<lambda>r new. new = [WmiQueried wql (fst r) (snd r)]) S (query wql)" for wql
    unfolding query_def by (rule tells_ask) (auto simp: calm_def)
  have found: "tells calm (\<lambda>disk new. described n disk (new @ seg @ past)) S
      (case r of (found, e) \<Rightarrow> case found of
         [] \<Rightarrow> fail (case e of None \<Rightarrow> DiskNoLongerUsb n | Some e \<Rightarrow> StorageFailed e)
       | ob # _ \<Rightarrow> andThen driveLettersByDisk (\<lambda>letters. diskInfoFromObject ob letters RestoreDetails))"
    if "seg = [WmiQueried (disk_query n) (fst r) (snd r)]" for r seg past
  proof (cases "fst r")
    case (Cons ob obs)
    have "described n x (new @ seg @ past)" if "described n x (new @ [WmiQueried (disk_query n) (ob # obs) (snd r)])" for x new
      using described_append [OF that, of "[]" past] \<open>seg = _\<close> Cons by simp
    then show ?thesis
      by (cases r) (use Cons in \<open>auto intro!: tells_mono [OF letters]\<close>)
  qed (cases r, simp add: tells_fail)
  have gated: "tells calm (\<lambda>_ _. True) S (gate StorageFailed e)" for e
    by (rule tells_within) (rule within_intro)
  show ?thesis
    unfolding diskByNumber_def
    by (rule tells_andThen [OF tells_within], rule within_intro, simp add: calm_def,
        rule tells_andThen [OF gated], rule tells_andThen [OF asked], simp only: append_assoc, rule found, simp)
qed

text \<open>The checks leave the disk they accepted, and have touched nothing.\<close>

definition fresh :: "winworld \<Rightarrow> bool" where
  "fresh w \<longleftrightarrow> WCancelAsked True \<notin> set (happened w) \<and> untouched w \<and> WStepReported LockDrive \<notin> set (happened w)"

lemma lasting_fresh: "lasting calm fresh"
proof -
  have "lasting calm (\<lambda>w. e \<notin> set (happened w))" if "\<not> calm e" for e
    using that by (auto simp: lasting_def adds_def list_all_iff)
  then show ?thesis
    unfolding fresh_def by (intro lasting_conj lasting_untouched [THEN lasting_classes(2)]) (simp_all add: calm_def)
qed

lemma leads_fresh_step: "s \<noteq> LockDrive \<Longrightarrow> leads S req fresh (beginStep s) (\<lambda>_. fresh)"
  unfolding leads_def step_events by (auto simp: fresh_def untouched_def split: prod.split)

lemma leads_checks:
  "leads S req fresh (win_restore_checks req) (\<lambda>disk w. fresh w \<and> win_target_checked S req disk (happened w))"
proof -
  let ?U = "win_tables S"
  have described: "leads S req fresh (rewording g (diskByNumber n RestoreDetails)) (\<lambda>disk w. fresh w \<and> described n disk (happened w))" for g n
    by (rule leads_rewording, rule leads_tells [OF tells_described lasting_fresh])
      (use described_append [where later = "[]"] in auto)
  have gates: "leads S req (\<lambda>w. fresh w \<and> described (disk_number (request_disk req)) current (happened w))
      (andThen (gate TargetDiffers (isSameRestoreTarget ?U (request_disk req) current)) (\<lambda>_.
       andThen (gate TargetUnsafe (isSafeRestoreTarget ?U current (request_guard req))) (\<lambda>_.
       andThen (gate LayoutImpossible (canCreatePartitionLayout (request_style req) current)) (\<lambda>_.
       andThen (gate FormatImpossible (windowsCanFormat (request_fileSystem req) current)) (\<lambda>_. give current)))))
      (\<lambda>disk w. fresh w \<and> win_target_checked S req disk (happened w))"
    if "isSafeRestoreTarget ?U (request_disk req) (request_guard req) = None" for current
    by (rule leads_gate, rule leads_gate, rule leads_gate, rule leads_gate, rule leads_basic)
      (use that in \<open>simp add: win_target_checked_def\<close>)
  have counter: "leads S req fresh (change (\<lambda>w. w\<lparr>steps_counter := c\<rparr>)) (\<lambda>_. fresh)" for c
    by (simp add: leads_def wp_change fresh_def untouched_def)
  have env: "leads S req fresh (andThen (win_env win_tables) k) K" if "leads S req fresh (k ?U) K" for k :: "unicode \<Rightarrow> 'b win_action" and K
    using that by (simp add: leads_def wp_andThen wp_win_env)
  show ?thesis
    unfolding win_restore_checks_def Let_def
    by (rule env, rule leads_gate, rule leads_gate, rule leads_andThen [OF counter],
        rule leads_andThen [OF leads_fresh_step], simp, rule leads_andThen [OF described], rule gates, assumption)
qed

lemma leads_closing:
  assumes "leads S req J m K"
  shows "leads S req J (leaving m close_raw) (\<lambda>_ _. True)"
proof -
  have close: "wp True close_raw S (\<lambda>_ w'. True \<and> win_justified S req (happened w')) (\<lambda>_ w'. True \<and> win_justified S req (happened w')) w"
    if "win_justified S req (happened w)" for w
    using that by (auto simp: close_raw_def run_simps set_raw_def split: option.split)
  show ?thesis
    using assms close unfolding leads_def wp_leaving by (auto elim!: wp_mono)
qed

lemma leads_restore: "leads S req fresh (windows_restore req) (\<lambda>_ _. True)"
proof -
  let ?J = "\<lambda>disk w. fresh w \<and> win_target_checked S req disk (happened w)"
  have start: "leads S req (?J disk) (andThen (beginStep OpenDrive) (\<lambda>_. set_raw (\<lambda>_. new_raw (disk_number disk)))) (\<lambda>_. begun S req disk)" for disk
    unfolding leads_def wp_andThen step_events set_raw_def
    using target_checked_append [of S req disk _ "[WStepReported OpenDrive]"]
      target_checked_append [of S req disk _ "[WStepReported OpenDrive, WDetailReported (WOutOfPlanOrder OpenDrive)]"]
    by (auto simp: run_simps fresh_def begun_def untouched_def new_raw_def split: prod.split)
  have inside: "leads S req (begun S req disk) (leaving (andThen (win_prepare req disk) (\<lambda>_. win_rewrite req disk)) close_raw) (\<lambda>_ _. True)" for disk
    by (rule leads_closing, rule leads_andThen [OF leads_prepare], rule leads_ex, rule leads_rewrite)
  have body: "leads S req (?J disk) (andThen (beginStep OpenDrive) (\<lambda>_. andThen (set_raw (\<lambda>_. new_raw (disk_number disk))) (\<lambda>_.
      leaving (andThen (win_prepare req disk) (\<lambda>_. win_rewrite req disk)) close_raw))) (\<lambda>_ _. True)" for disk
    using leads_andThen [OF start inside, of disk] unfolding leads_def wp_andThen by simp
  show ?thesis unfolding windows_restore_def by (rule leads_andThen [OF leads_checks body])
qed

lemma windows_restore_justified:
  assumes "windows_restore req S new_winworld = Some (r, w)"
  shows "win_justified S req (happened w)"
proof -
  have "fresh new_winworld" by (simp add: fresh_def untouched_def new_winworld_def)
  then have "wp True (windows_restore req) S (\<lambda>_ w'. win_justified S req (happened w')) (\<lambda>_ w'. win_justified S req (happened w')) new_winworld"
    using leads_restore [of S req] by (simp add: leads_def new_winworld_def)
  then show ?thesis by (cases r) (simp_all add: assms wp_def)
qed

section \<open>The properties\<close>

text \<open>C3. A Windows restore changes only the drive it checked. Whatever Windows answers, at every moment of every run:
  a partition is deleted, a table is created, zeros are written, a layout is set, a letter is assigned and a volume is
  formatted only after both gates accepted the disk as Windows described it anew, with the letters of all its volumes,
  over the handle of that drive, whose number, bus, serial, size, sector size and writability were read and matched
  since the step the operation belongs to, and with no cancel request confirmed. The zeros come after the step that
  announces them, the one partition is the calculated layout, a deleted partition is one Windows listed for the disk
  and not at its start, a formatted or mounted volume was found on the disk through its extents, and a volume is only
  dismounted over a handle that named the disk, with no letter or with one the guard does not protect. Cancelling is
  only offered while nothing was erased.\<close>

theorem windows_restore_is_safe:
  "case windows_restore req S new_winworld of
     None \<Rightarrow> True
   | Some (r, w) \<Rightarrow> win_justified S req (happened w)"
  by (auto simp: windows_restore_justified split: option.split)

lemma win_justified_cancel:
  "win_justified S req h \<Longrightarrow> WCancelAsked True \<in> set h \<Longrightarrow> list_all (\<lambda>e. \<not> erasing e) h"
proof (induction h)
  case (Cons e h)
  show ?case
  proof (cases "WCancelAsked True \<in> set h")
    case True
    then have "\<not> win_may_touch S req p disk d h" for p disk d by (simp add: win_may_touch_def)
    then have "\<not> erasing e" using Cons.prems(1) by (cases e) (auto split: if_splits)
    then show ?thesis using Cons True by simp
  next
    case False
    then have "e = WCancelAsked True" using Cons.prems(2) by simp
    then show ?thesis using Cons.prems(1) by simp
  qed
qed simp

text \<open>C9. Cancelling leaves the drive as it was: a run in which a cancel request was confirmed has erased nothing, neither
  before nor after it, and a run that stops without an error is such a run.\<close>

theorem cancelled_windows_restore_erases_nothing:
  "case windows_restore req S new_winworld of
     None \<Rightarrow> True
   | Some (r, w) \<Rightarrow>
       \<not> ((r = Stopped \<or> WCancelAsked True \<in> set (happened w)) \<and> (\<exists>e \<in> set (happened w). erasing e))"
  using win_justified_cancel [OF windows_restore_justified] windows_steps
  by (auto simp: list_all_iff split: option.split)

end
