(* ===== verification/Windows_Ends.thy ===== *)
theory Windows_Ends
  imports Windows_Restore
begin

text \<open>
  The Windows restore comes to an end. \<open>ends\<close> operations return in every world; a loop that waits ends because
  the naps it takes add up on its clock, and the zeroing loop because a write leaves less to write and the retries
  are counted. The rules \<open>ends_intro\<close> and \<open>quick_intro\<close> follow the structure of the code.
\<close>

section \<open>Clocks and writes\<close>

text \<open>The milliseconds napped since the timer was started last.\<close>

fun slept :: "win_history \<Rightarrow> nat" where
  "slept [] = 0"
| "slept (e # h) = (case e of TimerStarted \<Rightarrow> 0 | NapTaken ms \<Rightarrow> ms + slept h | _ \<Rightarrow> slept h)"

text \<open>A timer shows at least the time slept since its start; \<open>WriteFile\<close> writes at most what it is given.\<close>

definition win_punctual :: "winos \<Rightarrow> bool" where
  "win_punctual S \<longleftrightarrow> (\<forall>h. slept h \<le> timer_answer S h)"

definition honest_writes :: "winos \<Rightarrow> bool" where
  "honest_writes S \<longleftrightarrow> (\<forall>h a p n k. write_answer S h a p n = Inr k \<longrightarrow> k \<le> n)"

section \<open>Operations that end\<close>

definition ends :: "winos \<Rightarrow> 'a win_action \<Rightarrow> bool" where
  "ends S m \<longleftrightarrow> (\<forall>w. wp False m S (\<lambda>_ _. True) (\<lambda>_ _. True) w)"

text \<open>\<open>quick\<close> operations end and take no nap.\<close>

definition quick :: "winos \<Rightarrow> 'a win_action \<Rightarrow> bool" where
  "quick S m \<longleftrightarrow> (\<forall>w. wp False m S (\<lambda>_ w'. slept (happened w') = slept (happened w)) (\<lambda>_ _. True) w)"

named_theorems ends_intro \<open>operations that end\<close>
named_theorems quick_intro \<open>operations that end without a nap\<close>

lemma ends_iff: "ends S m \<longleftrightarrow> (\<forall>w. m S w \<noteq> None)"
  by (auto simp: ends_def wp_def split: option.split outcome.split)

lemma wp_ends:
  assumes "ends S m" "\<And>x w'. Q x w'" "\<And>e w'. R e w'"
  shows "wp False m S Q R w"
  using assms by (auto simp: ends_def intro: wp_mono)

lemma wp_quick:
  assumes "quick S m" "\<And>x w'. slept (happened w') = slept (happened w) \<Longrightarrow> Q x w'" "\<And>e w'. R e w'"
  shows "wp False m S Q R w"
  using assms by (auto simp: quick_def intro: wp_mono)

lemma ends_basic [ends_intro]:
  "ends S (give x)" "ends S (fail e)" "ends S stop" "ends S (get g)" "ends S (check b e)" "ends S (gate h r)"
  "ends S (win_env f)" "ends S (change u)" "ends S (ask answer ev)" "ends S (tell a)" "ends S (win_detail d)"
  "ends S (set_raw v)" "ends S (beginStep step)" "ends S win_stop_if_cancelled"
  by (simp_all add: ends_def run_simps win_detail_def set_raw_def beginStep_def report_with_def
      win_stop_if_cancelled_def Let_def split: option.split prod.split)

lemma ends_andThen [ends_intro]: "ends S m \<Longrightarrow> (\<And>x. ends S (k x)) \<Longrightarrow> ends S (andThen m k)"
  unfolding ends_def wp_andThen by (blast intro: wp_mono)

lemma ends_attempt [ends_intro]: "ends S m \<Longrightarrow> ends S (attempt m)"
  by (simp add: ends_def wp_attempt)

lemma ends_rewording [ends_intro]: "ends S m \<Longrightarrow> ends S (rewording f m)"
  by (simp add: ends_def wp_rewording)

lemma ends_leaving [ends_intro]: "ends S m \<Longrightarrow> ends S d \<Longrightarrow> ends S (leaving m d)"
  unfolding ends_def wp_leaving by (blast intro: wp_mono)

lemma ends_cases [ends_intro]:
  "ends S m \<Longrightarrow> ends S n \<Longrightarrow> ends S (if b then m else n)"
  "(\<And>x. ends S (f x)) \<Longrightarrow> (\<And>y. ends S (g y)) \<Longrightarrow> ends S (case s of Inl x \<Rightarrow> f x | Inr y \<Rightarrow> g y)"
  "ends S m \<Longrightarrow> (\<And>y. ends S (h y)) \<Longrightarrow> ends S (case opt of None \<Rightarrow> m | Some y \<Rightarrow> h y)"
  "(\<And>x y. ends S (k x y)) \<Longrightarrow> ends S (case p of (x, y) \<Rightarrow> k x y)"
  "ends S m \<Longrightarrow> (\<And>x xs. ends S (l x xs)) \<Longrightarrow> ends S (case ys of [] \<Rightarrow> m | x # xs \<Rightarrow> l x xs)"
  "(\<And>x. ends S (f x)) \<Longrightarrow> (\<And>e. ends S (q e)) \<Longrightarrow> ends S m \<Longrightarrow>
   ends S (case r of Ok x \<Rightarrow> f x | Failed e \<Rightarrow> q e | Stopped \<Rightarrow> m)"
  by (auto split: sum.split option.split prod.split list.split outcome.split)

lemma quick_basic [quick_intro]:
  "quick S (give x)" "quick S (fail e)" "quick S (get g)" "quick S (check b e)" "quick S (win_detail d)"
  by (simp_all add: quick_def run_simps win_detail_def)

lemma quick_ask [quick_intro]: "(\<And>a h. slept (ev a # h) = slept h) \<Longrightarrow> quick S (ask answer ev)"
  by (simp add: quick_def run_simps)

lemma quick_tell [quick_intro]: "(\<And>h. slept (e # h) = slept h) \<Longrightarrow> quick S (tell e)"
  by (simp add: quick_def run_simps)

lemma quick_andThen [quick_intro]:
  assumes "quick S m" "\<And>x. quick S (k x)"
  shows "quick S (andThen m k)"
  unfolding quick_def wp_andThen
proof
  fix w
  show "wp False m S (\<lambda>x. wp False (k x) S (\<lambda>_ w'. slept (happened w') = slept (happened w)) (\<lambda>_ _. True)) (\<lambda>_ _. True) w"
    by (rule wp_quick [OF assms(1)]) (auto intro: wp_quick [OF assms(2)])
qed

lemma quick_cases [quick_intro]:
  "quick S m \<Longrightarrow> quick S n \<Longrightarrow> quick S (if b then m else n)"
  "(\<And>x. quick S (f x)) \<Longrightarrow> (\<And>y. quick S (g y)) \<Longrightarrow> quick S (case s of Inl x \<Rightarrow> f x | Inr y \<Rightarrow> g y)"
  "(\<And>x y. quick S (k x y)) \<Longrightarrow> quick S (case p of (x, y) \<Rightarrow> k x y)"
  by (auto split: sum.split prod.split)

lemma ends_quick: "quick S m \<Longrightarrow> ends S m"
  unfolding ends_def quick_def by (blast intro: wp_mono)

section \<open>Loops\<close>

text \<open>A loop whose rounds go on only before the time is up and then take a nap.\<close>

lemma timed_loop_ends:
  assumes "\<And>s w. wp False (body s) S
      (\<lambda>r w'. case r of Inl _ \<Rightarrow> slept (happened w) < limit \<and> slept (happened w) < slept (happened w') | Inr _ \<Rightarrow> True)
      (\<lambda>_ _. True) w"
  shows "ends S (iterate body s)"
  unfolding ends_def
proof (rule allI, rule wp_iterate_ends [where I = "\<lambda>_ _. True" and \<mu> = "\<lambda>_ w. limit - slept (happened w)"])
  show "wp False (body s) S (\<lambda>r w'. case r of Inl s' \<Rightarrow> True \<and> limit - slept (happened w') < limit - slept (happened w)
      | Inr a \<Rightarrow> True) (\<lambda>_ _. True) w" for s w
    by (rule wp_mono [OF assms]) (auto split: sum.splits)
qed simp

section \<open>Volumes and the raw disk\<close>

lemma quick_disk_numbers: "quick S (disk_numbers_from n room h)"
  by (induction n arbitrary: room) (auto intro!: quick_intro)

lemma quick_questions [quick_intro]:
  "quick S (openVolumePath path a)" "quick S (volumeHasDiskExtent h d)" "quick S (volumePathIsOnDisk path d)"
  unfolding openVolumePath_def volumePathIsOnDisk_def volumeHasDiskExtent_def volumeDiskNumbers_def
  by (rule quick_intro quick_disk_numbers | simp)+

lemma quick_any_on_disk [quick_intro]: "quick S (any_on_disk n ds)"
  by (induction ds) (auto intro!: quick_intro)

lemma quick_first_on_disk: "quick S (first_on_disk n vs)"
  by (induction vs) (auto intro!: quick_intro)

lemma quick_looking [quick_intro]: "quick S (findVolumeNameForDisk n)" "quick S (wait_note note' t)" "quick S (query wql)"
  unfolding findVolumeNameForDisk_def wait_note_def query_def
  by (rule quick_intro quick_first_on_disk | simp split: prod.split)+

lemmas ends_questions [ends_intro] = quick_questions [THEN ends_quick] quick_looking [THEN ends_quick]

lemma ends_disk_numbers [ends_intro]: "ends S (volumeDiskNumbers h)"
  unfolding volumeDiskNumbers_def by (rule ends_quick [OF quick_disk_numbers])

lemma ends_letters_of: "ends S (letters_of drives ks letters)"
  by (induction ks arbitrary: letters) (auto intro!: ends_intro)

lemma ends_letters [ends_intro]: "ends S driveLettersByDisk"
  unfolding driveLettersByDisk_def by (rule ends_intro ends_letters_of)+

lemma ends_raw_failed [ends_intro]: "ends S (raw_failed op code)"
  unfolding raw_failed_def by (rule ends_intro)+

lemma ends_with_handle [ends_intro]: "(\<And>c. ends S (m c)) \<Longrightarrow> (\<And>h. ends S (k h)) \<Longrightarrow> ends S (with_handle m k)"
  unfolding with_handle_def by (rule ends_intro | assumption)+

lemma ends_verify [ends_intro]: "ends S open_raw" "ends S (verify_raw disk)"
  unfolding open_raw_def verify_raw_def readStorageDeviceDescriptor_def Let_def by (rule ends_intro)+

lemma ends_lock_attempts: "ends S (lock_attempts h n code)"
  by (induction n arbitrary: code) (auto intro!: ends_intro)

lemma ends_controls [ends_intro]:
  "ends S lock_raw" "ends S allowExtendedIo" "ends S refreshLayout" "ends S try_refresh" "ends S layoutHasPartitions"
  "ends S (createDisk op c)" "ends S (setDriveLayout op l)" "ends S createGptDisk" "ends S setRaw" "ends S (seek_to a)"
  "ends S close_raw"
  unfolding lock_raw_def allowExtendedIo_def try_refresh_def refreshLayout_def layoutHasPartitions_def setRaw_def
    createGptDisk_def createDisk_def setDriveLayout_def seek_to_def close_raw_def
  by (rule ends_intro ends_lock_attempts)+

lemma ends_empty_layout: "ends S (empty_layout_attempts n e)"
  by (induction n arbitrary: e) (auto intro!: ends_intro)

lemma ends_writers [ends_intro]:
  "ends S replaceLayoutWithEmptyGpt" "ends S (createSinglePartition style fs size' sector)"
  unfolding createSinglePartition_def createSingleMbrPartition_def replaceLayoutWithEmptyGpt_def Let_def
  by (rule ends_intro ends_empty_layout)+

section \<open>Zeroing ends\<close>

lemma zero_progress:
  fixes k :: u32 and rest buf :: u64
  assumes "k \<le> ucast (min rest buf)" "k \<noteq> 0"
  shows "unat (rest - ucast k) < unat rest"
proof -
  have "unat k \<le> unat (ucast (min rest buf) :: u32)" using assms(1) by (simp add: word_le_nat_alt)
  also have "\<dots> \<le> unat (min rest buf)" by (simp add: unsigned_ucast_eq)
  also have "\<dots> \<le> unat rest" by (simp add: min_def word_le_nat_alt)
  finally have le: "unat k \<le> unat rest" .
  moreover have "0 < unat k" using assms(2) by (simp add: unat_gt_0)
  moreover have wide: "unat (ucast k :: u64) = unat k"
    by (simp add: unat_widen)
  moreover have "(ucast k :: u64) \<le> rest" using le by (simp add: word_le_nat_alt wide)
  ultimately show ?thesis by (simp add: unat_sub)
qed

lemma ends_zero_loop [ends_intro]:
  assumes "honest_writes S"
  shows "ends S (iterate (zero_round off amount sector) start)"
  unfolding ends_def
proof (rule allI, rule wp_iterate_ends [where I = "\<lambda>_ _. True"
      and \<mu> = "\<lambda>rest w. unat rest * 11 + (MaxNotReadyRetries - notReadyRetries (raw w))"])
  fix rest w
  have less: "k \<noteq> 0 \<Longrightarrow> unat (rest - ucast k) < unat rest"
    if "write_answer S h a p (ucast (min rest (zero_buffer sector))) = Inr k" for h a p k
    using assms that by (intro zero_progress [where buf = "zero_buffer sector"]) (auto simp: honest_writes_def)
  show "wp False (zero_round off amount sector rest) S
      (\<lambda>r w'. case r of Inl rest' \<Rightarrow> True \<and> unat rest' * 11 + (MaxNotReadyRetries - notReadyRetries (raw w')) <
          unat rest * 11 + (MaxNotReadyRetries - notReadyRetries (raw w)) | Inr a \<Rightarrow> True) (\<lambda>_ _. True) w"
    by (auto simp: zero_round_def seek_to_def with_handle_def raw_failed_def set_raw_def run_simps Let_def less
        split: option.split sum.split)
qed simp

section \<open>Waiting ends\<close>

lemma ends_waits [ends_intro]:
  assumes "win_punctual S"
  shows "ends S (waitForStorageJob path timeoutMs)" "ends S (waitForVolumesToLeaveDisk old n timeoutMs)"
    "ends S (waitForVolumeOnDisk n timeoutMs)"
    "ends S (iterate (target_round U v) seen)" "ends S (iterate (served_round U fs lab root) ())"
proof -
  have up: "slept h \<le> timer_answer S h" for h using assms by (simp add: win_punctual_def)
  have before: "slept h < limit" if "timer_answer S h < limit" for h limit using up [of h] that by simp
  show "ends S (waitForStorageJob path timeoutMs)" unfolding waitForStorageJob_def
    by (intro ends_intro timed_loop_ends [where limit = timeoutMs])
      (auto simp: job_round_def job_end_def Let_def run_simps not_le split: sum.split option.split dest!: before)
  show "ends S (waitForVolumesToLeaveDisk old n timeoutMs)" unfolding waitForVolumesToLeaveDisk_def
    by (intro ends_intro timed_loop_ends [where limit = timeoutMs])
      (auto simp: removal_round_def run_simps not_le dest!: before intro!: wp_quick [OF quick_any_on_disk] wp_quick [OF quick_looking(2)])
  show "ends S (waitForVolumeOnDisk n timeoutMs)" unfolding waitForVolumeOnDisk_def
    by (intro ends_intro timed_loop_ends [where limit = timeoutMs])
      (auto simp: new_volume_round_def run_simps not_le dest!: before intro!: wp_quick [OF quick_looking(1)] wp_quick [OF quick_looking(2)])
  show "ends S (iterate (target_round U v) seen)"
    by (intro timed_loop_ends [where limit = "30 * 1000"])
      (auto simp: target_round_def run_simps Let_def dest!: before split: prod.split option.split intro!: wp_quick [OF quick_looking(3)])
  show "ends S (iterate (served_round U fs lab root) ())"
    by (intro timed_loop_ends [where limit = "60 * 1000"])
      (auto simp: served_round_def run_simps Let_def dest!: before split: prod.split option.split)
qed

section \<open>Stages\<close>

lemma ends_lettering [ends_intro]: "ends S (firstDriveRootForVolume v)" "ends S (mayHaveDriveLetter v)"
  unfolding mayHaveDriveLetter_def firstDriveRootForVolume_def by (rule ends_intro)+

lemma ends_checking [ends_intro]: "ends S check_storage" "ends S new_volume_manager" "ends S (lockAndDismount h path)"
    "ends S (volumePathBelongsToDisk v n)" "ends S (mountVolume v)"
  unfolding check_storage_def new_volume_manager_def lockAndDismount_def volumePathBelongsToDisk_def mountVolume_def Let_def
  by (rule ends_intro)+

lemma ends_removal: "ends S (remove_mount_points U guarded n names)"
  by (induction names) (auto intro!: ends_intro simp: Let_def remove_mount_point_def)

lemma ends_dismounting: "ends S (dismount_all n names)"
  by (induction names) (auto intro!: ends_intro simp: dismount_unlettered_def)

lemma ends_detaching [ends_intro]:
  "ends S (dismountUnletteredVolumesOnDisk n)" "ends S (removeMountPointsForDisk n letters)"
  unfolding dismountUnletteredVolumesOnDisk_def removeMountPointsForDisk_def
  by (rule ends_intro ends_removal ends_dismounting)+

lemma ends_link_targets: "ends S (link_targets n ks)"
  by (induction ks) (auto intro!: ends_intro)

lemma ends_old_volumes [ends_intro]: "ends S (partitionVolumeDevices n)"
  unfolding partitionVolumeDevices_def by (rule ends_link_targets)

lemma ends_volume_info: "ends S (volumeInfoForLetters letters ls fs)"
  by (induction letters arbitrary: ls fs) (auto intro!: ends_intro simp: Let_def)

lemma ends_describing [ends_intro]: "ends S (diskInfoFromObject ob letters d)" "ends S (diskByNumber n d)"
  unfolding diskByNumber_def diskInfoFromObject_def Let_def by (rule ends_intro ends_volume_info)+

lemma ends_clearing [ends_intro]:
  assumes "honest_writes S"
  shows "ends S (clearPartitionSignatures size' s)"
  unfolding clearPartitionSignatures_def writeZeros_raw_def Let_def by (rule ends_intro assms)+

lemma ends_storage_call [ends_intro]:
  assumes "win_punctual S"
  shows "ends S (storage_call cls path m ins t)"
  unfolding storage_call_def callMethodAndWait_def callMethod_def by (rule ends_intro assms)+

lemma ends_delete_partitions:
  assumes "win_punctual S"
  shows "ends S (delete_partitions b ps)"
  by (induction ps arbitrary: b) (auto intro!: ends_intro assms)

lemma ends_storage [ends_intro]:
  assumes "win_punctual S"
  shows "ends S (refreshDisk n)" "ends S (deletePartitionsForDisk n)" "ends S (formatVolume v root n fs u lab)"
  unfolding refreshDisk_def deletePartitionsForDisk_def formatVolume_def
  by (rule ends_intro ends_delete_partitions assms)+

lemma ends_checks [ends_intro]: "ends S (win_restore_checks req)" "ends S (confirmStillSelected disk)"
  unfolding win_restore_checks_def confirmStillSelected_def Let_def by (rule ends_intro)+

lemma ends_stages [ends_intro]:
  assumes "win_punctual S" "honest_writes S"
  shows "ends S (win_prepare req disk)" "ends S (win_rewrite req disk)"
  unfolding win_prepare_def win_rewrite_def delete_stage_def lock_stage_def clear_stage_def partition_stage_def
    volume_stage_def format_stage_def Let_def
  by (rule ends_intro assms)+

section \<open>The restore\<close>

text \<open>C12. A Windows restore comes to an end: when the timer counts the time slept and no write claims more bytes than it
was given, every run returns, whatever else Windows answers and from whatever world it starts.\<close>

theorem windows_restore_ends:
  assumes "win_punctual S" "honest_writes S"
  shows "windows_restore req S w \<noteq> None"
proof -
  have "ends S (windows_restore req)"
    unfolding windows_restore_def by (rule ends_intro assms)+
  then show ?thesis by (simp add: ends_iff)
qed

text \<open>Listing the disks waits for nothing.\<close>

lemma windows_listing_ends: "windows_listUsbDisks S w \<noteq> None"
proof -
  have infos: "ends S (infos_of letters obs)" for letters obs
    by (induction obs) (auto intro!: ends_intro)
  have "ends S windows_listUsbDisks"
    unfolding windows_listUsbDisks_def by (rule ends_intro infos)+
  then show ?thesis by (simp add: ends_iff)
qed

text \<open>A Windows that never answers well, on which time passes only while the program sleeps.\<close>

definition broken_windows :: winos where
  "broken_windows =
     \<lparr>win_tables = ascii_tables, letter_or_number = (\<lambda>_. True), upper_char = (\<lambda>c. c), win_cancel_answer = (\<lambda>_. False),
      create_file_answer = (\<lambda>_ _ _. Inl 5), number_answer = (\<lambda>_ _. Inl 5), header_answer = (\<lambda>_ _. Inl 5),
      descriptor_answer = (\<lambda>_ _ _. Inl 5), length_answer = (\<lambda>_ _. Inl 5), geometry_answer = (\<lambda>_ _. None),
      writable_answer = (\<lambda>_ _. Some 19), lock_answer = (\<lambda>_ _. Some 5), dismount_answer = (\<lambda>_ _. Some 5),
      extended_io_answer = (\<lambda>_ _. Some 5), update_answer = (\<lambda>_ _. Some 5), create_disk_answer = (\<lambda>_ _ _. Some 5),
      layout_answer = (\<lambda>_ _. Inl 5), set_layout_answer = (\<lambda>_ _ _. Some 5), seek_answer = (\<lambda>_ _ _. Some 5),
      write_answer = (\<lambda>_ _ _ n. Inr n), guid_answer = (\<lambda>_. None), timer_answer = slept,
      connect_answer = (\<lambda>_. None), query_answer = (\<lambda>_ _. ([], None)), method_answer = (\<lambda>_ _ _ _ _. Inr None),
      object_answer = (\<lambda>_ _. Inl (WmiError NoLocator 5)), drives_answer = (\<lambda>_. 4), extents_answer = (\<lambda>_ _ _. Inl 5),
      offline_answer = (\<lambda>_ _. False), volumes_answer = (\<lambda>_. []), path_names_answer = (\<lambda>_ _. None),
      delete_mount_answer = (\<lambda>_ _. Some 5), set_mount_answer = (\<lambda>_ _ _. Some 5), volume_info_answer = (\<lambda>_ _. None),
      set_label_answer = (\<lambda>_ _ _. False), dos_device_answer = (\<lambda>_ _. None)\<rparr>"

lemma broken_windows_ends: "win_punctual broken_windows" "honest_writes broken_windows"
  by (simp_all add: win_punctual_def honest_writes_def broken_windows_def)

theorem windows_restore_ends_witness:
  "windows_restore
     \<lparr>request_disk = usb_stick, request_style = Gpt, request_fileSystem = ExFat, volumeLabel = qs ''USB'',
      request_guard = running_system, displayLanguage = English\<rparr> broken_windows new_winworld \<noteq> None"
  using broken_windows_ends by (rule windows_restore_ends)

end
