(* ===== verification/Windows_Clearing.thy ===== *)
theory Windows_Clearing
  imports Windows_Ends
begin

text \<open>
  What the zeroing of \<open>src/win/raw_disk.cpp\<close> covers. The loop of \<open>writeZeros\<close> writes from the position of the handle,
  which a short write leaves in the middle and a retry sets back; its invariant says that the position is where
  the next zero belongs.
\<close>

section \<open>Bytes aimed at and bytes cleared\<close>

fun aimed_bytes :: "win_history \<Rightarrow> nat set" where
  "aimed_bytes [] = {}"
| "aimed_bytes (e # past) =
     (case e of ZerosWritten _ p n _ \<Rightarrow> {unat p..<unat p + unat n} | _ \<Rightarrow> {}) \<union> aimed_bytes past"

fun cleared_bytes :: "win_handle \<Rightarrow> win_history \<Rightarrow> nat set" where
  "cleared_bytes h [] = {}"
| "cleared_bytes h (e # past) =
     (case e of ZerosWritten h' p _ (Inr k) \<Rightarrow> if h' = h then {unat p..<unat p + unat k} else {} | _ \<Rightarrow> {}) \<union>
     cleared_bytes h past"

lemma bytes_append [simp]:
  "aimed_bytes (a @ b) = aimed_bytes a \<union> aimed_bytes b" "cleared_bytes h (a @ b) = cleared_bytes h a \<union> cleared_bytes h b"
  by (induction a) auto

text \<open>\<open>covers h A B w w'\<close>: between the worlds nothing outside \<open>A\<close> was aimed at, and exactly \<open>B\<close> was cleared.\<close>

definition covers :: "win_handle \<Rightarrow> nat set \<Rightarrow> nat set \<Rightarrow> winworld \<Rightarrow> winworld \<Rightarrow> bool" where
  "covers h A B w w' \<longleftrightarrow>
     (\<exists>new. happened w' = new @ happened w \<and> aimed_bytes new \<subseteq> A \<and> cleared_bytes h new = B)"

lemma covers_refl [simp]: "happened w' = happened w \<Longrightarrow> covers h A {} w w'"
  by (simp add: covers_def)

lemma covers_trans:
  assumes "covers h A B w w'" "covers h A B' w' w''"
  shows "covers h A (B \<union> B') w w''"
proof -
  obtain new new' where "happened w' = new @ happened w" "aimed_bytes new \<subseteq> A" "cleared_bytes h new = B"
    "happened w'' = new' @ happened w'" "aimed_bytes new' \<subseteq> A" "cleared_bytes h new' = B'"
    using assms by (auto simp: covers_def)
  then show ?thesis unfolding covers_def by (intro exI [of _ "new' @ new"]) auto
qed

lemma covers_noting:
  assumes "covers h A B w w'" "aimed_bytes [e] \<subseteq> A"
  shows "covers h A (B \<union> cleared_bytes h [e]) w (noting e w')"
proof -
  obtain new where "happened w' = new @ happened w" "aimed_bytes new \<subseteq> A" "cleared_bytes h new = B"
    using assms(1) by (auto simp: covers_def)
  then show ?thesis unfolding covers_def using assms(2) by (intro exI [of _ "e # new"]) auto
qed

lemma covers_calm:
  "covers h A B w w' \<Longrightarrow> aimed_bytes [e] = {} \<Longrightarrow> cleared_bytes h [e] = {} \<Longrightarrow> covers h A B w (noting e w')"
  using covers_noting [of h A B w w' e] by simp

lemma covers_record [simp]: "covers h A B w (w'\<lparr>raw := d\<rparr>) = covers h A B w w'"
  by (simp add: covers_def)

lemma covers_mono: "covers h A B w w' \<Longrightarrow> A \<subseteq> A' \<Longrightarrow> covers h A' B w w'"
  by (auto simp: covers_def)

section \<open>The zeroing loop\<close>

definition zeroing :: "win_handle \<Rightarrow> u64 \<Rightarrow> u64 \<Rightarrow> winworld \<Rightarrow> u64 \<Rightarrow> winworld \<Rightarrow> bool" where
  "zeroing h off amount w rest w' \<longleftrightarrow>
     raw_handle (raw w') = Some h \<and> rest \<le> amount \<and> raw_pointer (raw w') = off + (amount - rest) \<and>
     covers h {unat off..<unat off + unat amount} {unat off..<unat off + (unat amount - unat rest)} w w'"

text \<open>A write of at most what remains stays in the range, and what it wrote extends what is cleared.\<close>

lemma zeroing_write:
  fixes n :: u32
  assumes "zeroing h off amount w rest w'" "unat off + unat amount < 2 ^ 64" "unat n \<le> unat rest"
  shows "covers h {unat off..<unat off + unat amount} {unat off..<unat off + (unat amount - unat rest)} w
      (noting (ZerosWritten h (raw_pointer (raw w')) n (Inl code)) w')"
    and "k \<le> n \<Longrightarrow> zeroing h off amount w (rest - ucast k)
      (noting (ZerosWritten h (raw_pointer (raw w')) n (Inr k)) w'
        \<lparr>raw := (raw w')\<lparr>writeAccepted := True, raw_pointer := raw_pointer (raw w') + ucast k\<rparr>\<rparr>)"
proof -
  have I: "raw_handle (raw w') = Some h" "rest \<le> amount" "raw_pointer (raw w') = off + (amount - rest)"
    "covers h {unat off..<unat off + unat amount} {unat off..<unat off + (unat amount - unat rest)} w w'"
    using assms(1) by (auto simp: zeroing_def)
  have less: "unat rest \<le> unat amount" using I(2) by (simp add: word_le_nat_alt)
  have gap: "unat (amount - rest) = unat amount - unat rest" using I(2) by (rule unat_sub)
  then have at: "unat (raw_pointer (raw w')) = unat off + (unat amount - unat rest)"
    using I(3) less assms(2) by (simp add: unat_plus_u64)
  have inside: "{unat off + (unat amount - unat rest)..<unat off + (unat amount - unat rest) + unat n} \<subseteq>
      {unat off..<unat off + unat amount}"
    using less assms(3) by auto
  note step = covers_noting [OF I(4), of "ZerosWritten h (raw_pointer (raw w')) n r" for r]
  show "covers h {unat off..<unat off + unat amount} {unat off..<unat off + (unat amount - unat rest)} w
      (noting (ZerosWritten h (raw_pointer (raw w')) n (Inl code)) w')"
    using step [of "Inl code"] inside by (simp add: at)
  show "zeroing h off amount w (rest - ucast k)
      (noting (ZerosWritten h (raw_pointer (raw w')) n (Inr k)) w'
        \<lparr>raw := (raw w')\<lparr>writeAccepted := True, raw_pointer := raw_pointer (raw w') + ucast k\<rparr>\<rparr>)" if "k \<le> n"
  proof -
    have k: "unat k \<le> unat rest" using that assms(3) by (simp add: word_le_nat_alt)
    then have kr: "(ucast k :: u64) \<le> rest" by (simp add: word_le_nat_alt unat_widen)
    have left: "unat (rest - ucast k) = unat rest - unat k" using kr by (simp add: unat_sub unat_widen)
    have parts: "{unat off..<unat off + (unat amount - unat rest)} \<union>
        {unat off + (unat amount - unat rest)..<unat off + (unat amount - unat rest) + unat k} =
        {unat off..<unat off + (unat amount - (unat rest - unat k))}"
      using k less by auto
    have "covers h {unat off..<unat off + unat amount} {unat off..<unat off + (unat amount - (unat rest - unat k))} w
        (noting (ZerosWritten h (raw_pointer (raw w')) n (Inr k)) w')"
      using step [of "Inr k"] inside parts by (simp add: at)
    moreover have "raw_pointer (raw w') + ucast k = off + (amount - (rest - ucast k))" by (simp add: I(3))
    moreover have "rest - ucast k \<le> amount" using less k by (simp add: word_le_nat_alt left)
    ultimately show ?thesis using I(1) by (simp add: zeroing_def left)
  qed
qed

lemma zeroing_calm:
  assumes "zeroing h off amount w rest w'"
  shows "zeroing h off amount w rest (noting (NapTaken ms) w')" "zeroing h off amount w rest (noting (PointerSet h' p r) w')"
    and "raw_handle (raw w') = raw_handle d \<Longrightarrow> raw_pointer d = off + (amount - rest) \<Longrightarrow>
      zeroing h off amount w rest (w'\<lparr>raw := d\<rparr>)"
  using assms by (auto simp: zeroing_def intro: covers_calm)

lemma zeroing_covers: "zeroing h off amount w rest w' \<Longrightarrow>
    covers h {unat off..<unat off + unat amount} {unat off..<unat off + (unat amount - unat rest)} w w'"
  by (simp add: zeroing_def)

abbreviation within_range :: "win_handle \<Rightarrow> nat set \<Rightarrow> winworld \<Rightarrow> WindowsError option \<Rightarrow> winworld \<Rightarrow> bool" where
  "within_range h A w \<equiv> \<lambda>_ w'. \<exists>B. covers h A B w w'"

lemma in_range: "covers h A B w w' \<Longrightarrow> \<exists>B. covers h A B w w'"
  by blast

lemma chunk_fits: "unat (ucast (min rest (buf :: u64)) :: u32) \<le> unat rest"
proof -
  have "unat (ucast (min rest buf) :: u32) \<le> unat (min rest buf)" by (simp add: unsigned_ucast_eq)
  then show ?thesis by (simp add: min_def word_le_nat_alt split: if_splits)
qed

lemma zeroing_round:
  assumes I: "zeroing h off amount w rest w'" and room: "unat off + unat amount < 2 ^ 64" and ok: "honest_writes S"
  shows "wp True (zero_round off amount sector rest) S
     (\<lambda>r w'. case r of Inl rest' \<Rightarrow> zeroing h off amount w rest' w' | Inr _ \<Rightarrow> zeroing h off amount w 0 w')
     (within_range h {unat off..<unat off + unat amount} w) w'"
proof (cases "rest = 0")
  case True
  then show ?thesis using I by (simp add: zero_round_def run_simps)
next
  case False
  let ?p = "raw_pointer (raw w')" and ?A = "{unat off..<unat off + unat amount}"
  define n where "n = (ucast (min rest (zero_buffer sector)) :: u32)"
  have n: "unat n \<le> unat rest" unfolding n_def by (rule chunk_fits)
  have h: "raw_handle (raw w') = Some h" and at: "?p = off + (amount - rest)" using I by (simp_all add: zeroing_def)
  note failed = zeroing_write(1) [OF I room n] and wrote = zeroing_write(2) [OF I room n]
  have honest: "k \<le> n" if "write_answer S h' a p n = Inr k" for h' a p k
    using ok that by (simp add: honest_writes_def)
  have retry: "zeroing h off amount w rest (noting (ZerosWritten h ?p n (Inl code)) w')" for code
    using I failed [of code] by (simp add: zeroing_def)
  have none: "covers h ?A {unat off..<unat off + (unat amount - unat rest)} w (noting (ZerosWritten h ?p n (Inr 0)) w')"
    using zeroing_covers [OF wrote [of 0]] by simp
  show ?thesis
  proof (cases "write_answer S (happened w') h ?p n")
    case (Inl code)
    then show ?thesis
      unfolding zero_round_def Let_def n_def [symmetric] using False h
      by (auto simp: run_simps with_handle_def set_raw_def seek_to_def raw_failed_def at [symmetric] split: option.split
          intro!: zeroing_calm retry failed [THEN in_range] in_range [OF zeroing_covers])
  next
    case (Inr k)
    then show ?thesis
      unfolding zero_round_def Let_def n_def [symmetric] using False h wrote [OF honest [OF Inr]] none
      by (auto simp: run_simps with_handle_def set_raw_def)
  qed
qed

section \<open>The two ranges\<close>

lemma writeZeros_covers:
  assumes h: "raw_handle (raw w) = Some h" and room: "unat off + unat amount < 2 ^ 64" and ok: "honest_writes S"
  shows "wp True (writeZeros_raw off amount sector) S
     (\<lambda>_ w'. raw_handle (raw w') = Some h \<and>
        covers h {unat off..<unat off + unat amount} {unat off..<unat off + unat amount} w w')
     (within_range h {unat off..<unat off + unat amount} w) w"
proof (cases "amount = 0")
  case True
  then show ?thesis using h by (simp add: writeZeros_raw_def run_simps)
next
  case False
  let ?I = "zeroing h off amount w"
  have start: "?I amount (noting (PointerSet h off r) w\<lparr>raw := (raw w)\<lparr>raw_pointer := off\<rparr>\<rparr>)" for r
    using h by (auto simp: zeroing_def intro!: covers_calm)
  have loop: "wp True (iterate (zero_round off amount sector) amount) S (\<lambda>_. ?I 0)
      (within_range h {unat off..<unat off + unat amount} w) w'" if "?I amount w'" for w'
    by (rule wp_iterate [where I = ?I, OF _ that]) (rule zeroing_round [OF _ room ok])
  have "wp True (iterate (zero_round off amount sector) amount) S
      (\<lambda>_ w'. raw_handle (raw w') = Some h \<and>
        covers h {unat off..<unat off + unat amount} {unat off..<unat off + unat amount} w w')
      (within_range h {unat off..<unat off + unat amount} w) w'" if "?I amount w'" for w'
    by (rule wp_mono [OF loop [OF that]]) (auto simp: zeroing_def)
  moreover have "covers h A {} w (noting (PointerSet h off r) w)" for A r
    by (intro covers_calm) simp_all
  ultimately show ?thesis
    unfolding writeZeros_raw_def using False h start
    by (auto simp: run_simps seek_to_def with_handle_def set_raw_def raw_failed_def split: option.split intro: covers_refl)
qed

text \<open>The bytes of the two signature ranges of a disk.\<close>

definition signature_bytes :: "u64 \<Rightarrow> u32 \<Rightarrow> nat set" where
  "signature_bytes diskSize sector =
     (let c = signatureClearRange diskSize sector; n = unat (clear_bytes c); t = unat (tailOffset c)
      in {0..<n} \<union> {t..<t + n})"

lemma clearing_covers:
  assumes h: "raw_handle (raw w) = Some h" and ok: "honest_writes S"
  shows "wp True (clearPartitionSignatures d s) S (\<lambda>_. covers h (signature_bytes d s) (signature_bytes d s) w)
     (within_range h (signature_bytes d s) w) w"
proof (cases "clear_bytes (signatureClearRange d s) = 0")
  case True
  then show ?thesis
    by (auto simp: clearPartitionSignatures_def run_simps Let_def intro: in_range [OF covers_refl])
next
  case False
  let ?c = "signatureClearRange d s"
  let ?n = "unat (clear_bytes ?c)" and ?t = "unat (tailOffset ?c)" and ?A = "signature_bytes d s"
  have A: "?A = {0..<?n} \<union> {?t..<?t + ?n}" by (simp add: signature_bytes_def Let_def)
  have room: "unat (0 :: u64) + ?n < 2 ^ 64" "?t + ?n < 2 ^ 64"
    using clear_range_fits [OF False] unat_u64_bound [of d] by simp_all
  have tail: "wp True (writeZeros_raw (tailOffset ?c) (clear_bytes ?c) (clear_sectorSize ?c)) S
      (\<lambda>_ w2. raw_handle (raw w2) = Some h \<and> covers h ?A ?A w w2) (within_range h ?A w) w1"
    if "raw_handle (raw w1) = Some h" "covers h {0..<?n} {0..<?n} w w1" for w1
  proof (rule wp_mono [OF writeZeros_covers [OF that(1) room(2) ok]], goal_cases)
    case (1 x w2)
    then show ?case using covers_trans [OF covers_mono [OF that(2)] covers_mono, of ?A] by (auto simp: A)
  next
    case (2 e w2)
    then obtain B where "covers h {?t..<?t + ?n} B w1 w2" by auto
    then show ?case using covers_trans [OF covers_mono [OF that(2)] covers_mono, of ?A] by (auto simp: A intro: in_range)
  qed
  have after: "wp True (andThen (with_handle (\<lambda>_. give ()) (\<lambda>h. tell (BuffersFlushed h))) (\<lambda>_. try_refresh)) S
      (\<lambda>_. covers h ?A ?A w) (within_range h ?A w) w2" if "raw_handle (raw w2) = Some h" "covers h ?A ?A w w2" for w2
    using that by (auto simp: run_simps with_handle_def try_refresh_def refreshLayout_def raw_failed_def
        split: option.split intro!: covers_calm)
  show ?thesis
    unfolding clearPartitionSignatures_def Let_def wp_andThen [of _ "get _"] wp_get wp_andThen [of _ "check _ _"] wp_check
      wp_andThen [of _ "writeZeros_raw _ _ _"] using False
  proof (simp, intro wp_mono [OF writeZeros_covers [OF h room(1) ok]], goal_cases)
    case (1 _ w1)
    then show ?case by (intro wp_mono [OF tail]) (auto intro!: after)
  next
    case (2 e w1)
    then show ?case by (auto simp: A intro: covers_mono)
  qed
qed

text \<open>C11. Clearing a drive on Windows is exact: whatever fails or is retried, no zero is aimed outside the two signature
ranges, and when it succeeds the writes that went through cover every byte of both.\<close>

theorem windows_clearing_is_exact:
  assumes "raw_handle (raw w) = Some h" "honest_writes S"
  shows "case clearPartitionSignatures d s S w of
     None \<Rightarrow> False
   | Some (r, w') \<Rightarrow> \<exists>new. happened w' = new @ happened w \<and> aimed_bytes new \<subseteq> signature_bytes d s \<and>
       (if r = Ok () then cleared_bytes h new = signature_bytes d s else True)"
proof -
  have "clearPartitionSignatures d s S w \<noteq> None"
    using ends_clearing [OF assms(2)] by (simp add: ends_iff)
  then obtain r w' where run: "clearPartitionSignatures d s S w = Some (r, w')" by auto
  note covered = clearing_covers [OF assms, of d s, unfolded wp_def run, simplified]
  show ?thesis
    using covered by (cases r) (auto simp: run covers_def)
qed

text \<open>A Windows that writes what it is given, on a drive that is not ready at first.\<close>

definition hasty_windows :: winos where
  "hasty_windows = broken_windows
     \<lparr>seek_answer := (\<lambda>_ _ _. None), update_answer := (\<lambda>_ _. None),
      write_answer := (\<lambda>past _ _ n. if length past < 2 then Inl ERROR_NOT_READY else Inr n)\<rparr>"

definition opened_world :: winworld where
  "opened_world = new_winworld\<lparr>raw := (new_raw 1)\<lparr>raw_handle := Some 7\<rparr>\<rparr>"

lemma hasty_windows_writes: "raw_handle (raw opened_world) = Some 7" "honest_writes hasty_windows"
  by (simp_all add: opened_world_def honest_writes_def hasty_windows_def)

theorem windows_clearing_is_exact_witness:
  "case clearPartitionSignatures 1048576 512 hasty_windows opened_world of
     None \<Rightarrow> False
   | Some (r, w') \<Rightarrow> \<exists>new. happened w' = new @ happened opened_world \<and> aimed_bytes new \<subseteq> signature_bytes 1048576 512 \<and>
       (if r = Ok () then cleared_bytes 7 new = signature_bytes 1048576 512 else True)"
  by (rule windows_clearing_is_exact [OF hasty_windows_writes])

end
