(* ===== verification/Windows_Jobs.thy ===== *)
theory Windows_Jobs
  imports Windows_Ends
begin

text \<open>
  The verdict on a storage call, \<open>callMethodAndWait\<close> of \<open>src/win/wmi.cpp\<close>: what Windows answered to the call and
  what the last look at its job showed decide whether it succeeded, and a job is given up only when its time is up.
\<close>

section \<open>What the readings of a job show\<close>

fun job_readings :: "qstring \<Rightarrow> win_history \<Rightarrow> (wmi_error + wmi_object) list" where
  "job_readings path [] = []"
| "job_readings path (e # past) =
     (case e of WmiRead p r \<Rightarrow> if p = path then r # job_readings path past else job_readings path past
      | _ \<Rightarrow> job_readings path past)"

definition reading_succeeded :: "wmi_error + wmi_object \<Rightarrow> bool" where
  "reading_succeeded r \<longleftrightarrow> (case r of
     Inl _ \<Rightarrow> False
   | Inr job \<Rightarrow> object_uint64 job ''JobState'' = Some 7 \<and> object_uint64 job ''ErrorCode'' = Some 0)"

definition reading_running :: "wmi_error + wmi_object \<Rightarrow> bool" where
  "reading_running r \<longleftrightarrow> (case r of
     Inl _ \<Rightarrow> False
   | Inr job \<Rightarrow> (case object_uint64 job ''JobState'' of
       None \<Rightarrow> False | Some s \<Rightarrow> 2 \<le> s \<and> s \<le> 12 \<and> s \<notin> {7, 8, 9, 10}))"

definition latest :: "(wmi_error + wmi_object \<Rightarrow> bool) \<Rightarrow> qstring \<Rightarrow> win_history \<Rightarrow> bool" where
  "latest P path new \<longleftrightarrow> (case job_readings path new of [] \<Rightarrow> False | r # _ \<Rightarrow> P r)"

text \<open>The path of the job Windows queued the call as, \<open>Some []\<close> when it named none.\<close>

definition queued_job :: "wmi_error + wmi_object option \<Rightarrow> qstring option" where
  "queued_job answer =
     (case answer of
        Inr (Some out) \<Rightarrow>
          if uintValue out ''ReturnValue'' 0 = 4096 then Some (object_text out ''CreatedStorageJob'') else None
      | _ \<Rightarrow> None)"

definition done_at_once :: "wmi_error + wmi_object option \<Rightarrow> bool" where
  "done_at_once answer \<longleftrightarrow>
     (case answer of Inl _ \<Rightarrow> False | Inr None \<Rightarrow> True | Inr (Some out) \<Rightarrow> uintValue out ''ReturnValue'' 0 = 0)"

text \<open>The verdict of a wait, from the events since its timer was started.\<close>

definition wait_verdict :: "qstring \<Rightarrow> nat \<Rightarrow> win_history \<Rightarrow> WindowsError option \<Rightarrow> bool" where
  "wait_verdict path timeoutMs new e \<longleftrightarrow>
     (e = None \<longleftrightarrow> latest reading_succeeded path new) \<and>
     ((\<exists>s. e = Some (JobTimedOut s)) \<longleftrightarrow> latest reading_running path new) \<and>
     list_all reading_running (tl (job_readings path new)) \<and> slept new < timeoutMs + 250"

lemma slept_since [simp]: "slept (new @ TimerStarted # h) = slept new"
  by (induction new) (auto split: win_event.split)

section \<open>The wait\<close>

definition waiting_job :: "qstring \<Rightarrow> nat \<Rightarrow> win_history \<Rightarrow> winworld \<Rightarrow> bool" where
  "waiting_job path timeoutMs h w' \<longleftrightarrow>
     (\<exists>new. happened w' = new @ TimerStarted # h \<and> list_all reading_running (job_readings path new) \<and>
        slept new < timeoutMs + 250)"

lemmas reading_defs = reading_running_def reading_succeeded_def JobStateCompleted_def JobStateTerminated_def
  JobStateKilled_def JobStateException_def

lemma job_round_verdict:
  assumes I: "waiting_job path timeoutMs h w" and up: "win_punctual S"
  shows "wp True (job_round path timeoutMs st) S
     (\<lambda>r w'. case r of
        Inl _ \<Rightarrow> waiting_job path timeoutMs h w'
      | Inr (_, e) \<Rightarrow> \<exists>new. happened w' = new @ TimerStarted # h \<and> wait_verdict path timeoutMs new e)
     (\<lambda>_ _. False) w"
proof -
  obtain new where new: "happened w = new @ TimerStarted # h" "list_all reading_running (job_readings path new)"
    "slept new < timeoutMs + 250" using I by (auto simp: waiting_job_def)
  have time: "slept new \<le> timer_answer S (WmiRead path r # happened w)" for r
    using up new(1) unfolding win_punctual_def by (elim allE [of _ "WmiRead path r # happened w"]) simp
  have verdict: "wait_verdict path timeoutMs (TimerRead ms # WmiRead path r # new) e"
    "wait_verdict path timeoutMs (TimerRead ms # TimerRead ms' # WmiRead path r # new) e"
    if "(e = None) = reading_succeeded r" "(\<exists>s. e = Some (JobTimedOut s)) = reading_running r" for ms ms' r e
    using that new by (simp_all add: wait_verdict_def latest_def)
  have ended: "wp True (job_end readings state what e) S
      (\<lambda>r w'. case r of
        Inl _ \<Rightarrow> waiting_job path timeoutMs h w'
      | Inr (_, e) \<Rightarrow> \<exists>new. happened w' = new @ TimerStarted # h \<and> wait_verdict path timeoutMs new e)
      (\<lambda>_ _. False) w'"
    if "happened w' = WmiRead path r # happened w \<or> (\<exists>ms. happened w' = TimerRead ms # WmiRead path r # happened w)"
      "(e = None) = reading_succeeded r" "(\<exists>s. e = Some (JobTimedOut s)) = reading_running r"
    for readings state what e w' r
    using that(1) new(1) verdict [OF that(2,3)]
    by (auto simp: job_end_def run_simps)
  show ?thesis
  proof (cases "object_answer S (happened w) path")
    case (Inl e)
    then show ?thesis
      by (auto simp: job_round_def run_simps reading_defs intro!: ended)
  next
    case (Inr job)
    show ?thesis
    proof (cases "object_uint64 job ''JobState''")
      case None
      then show ?thesis using Inr by (auto simp: job_round_def run_simps Let_def reading_defs intro!: ended)
    next
      case (Some s)
      then show ?thesis using Inr new time [of "Inr job"]
        by (auto simp: job_round_def run_simps Let_def reading_defs not_less not_le waiting_job_def intro!: ended)
    qed
  qed
qed

lemma wait_for_job_verdict:
  assumes "path \<noteq> []" "win_punctual S"
  shows "wp True (waitForStorageJob path timeoutMs) S
     (\<lambda>(_, e) w'. \<exists>new. happened w' = new @ TimerStarted # happened w \<and> wait_verdict path timeoutMs new e)
     (\<lambda>_ _. False) w"
proof -
  have start: "waiting_job path timeoutMs (happened w) (noting TimerStarted w)"
    by (auto simp: waiting_job_def)
  have "wp True (iterate (job_round path timeoutMs) st) S
      (\<lambda>(_, e) w'. \<exists>new. happened w' = new @ TimerStarted # happened w \<and> wait_verdict path timeoutMs new e)
      (\<lambda>_ _. False) w1" if "waiting_job path timeoutMs (happened w) w1" for st w1
    by (rule wp_iterate [where I = "\<lambda>_. waiting_job path timeoutMs (happened w)", OF _ that])
      (rule wp_mono [OF job_round_verdict [OF _ assms(2)]], auto split: sum.splits)
  then show ?thesis using assms(1) start by (simp add: waitForStorageJob_def run_simps)
qed

section \<open>The verdict\<close>

text \<open>C13. A storage call succeeds exactly when Windows reports it done, or queues it as a job whose last reading says
completed without an error; it is reported as timed out exactly when that reading shows the job still running, and it is
waited for only while every reading shows it running and the time is not up.\<close>

theorem storage_call_verdict:
  assumes "win_punctual S"
  shows "case callMethodAndWait cls path m ins timeoutMs S w of
     Some (Ok (how, e), w') \<Rightarrow>
       let answer = method_answer S (happened w) cls path m ins; past = WmiCalled cls path m ins answer # happened w
       in (case queued_job answer of
             None \<Rightarrow> happened w' = past \<and> (e = None \<longleftrightarrow> done_at_once answer)
           | Some job \<Rightarrow>
               if job = [] then happened w' = past \<and> e = Some JobWithoutPath
               else \<exists>new. happened w' = new @ TimerStarted # past \<and> wait_verdict job timeoutMs new e)
   | _ \<Rightarrow> False"
proof -
  let ?answer = "method_answer S (happened w) cls path m ins"
  let ?past = "WmiCalled cls path m ins ?answer # happened w"
  let ?Q = "\<lambda>(how, e) w'. case queued_job ?answer of
             None \<Rightarrow> happened w' = ?past \<and> (e = None \<longleftrightarrow> done_at_once ?answer)
           | Some job \<Rightarrow>
               if job = [] then happened w' = ?past \<and> e = Some JobWithoutPath
               else \<exists>new. happened w' = new @ TimerStarted # ?past \<and> wait_verdict job timeoutMs new e"
  have "ends S (callMethodAndWait cls path m ins timeoutMs)"
    unfolding callMethodAndWait_def callMethod_def by (rule ends_intro assms)+
  then have "callMethodAndWait cls path m ins timeoutMs S w \<noteq> None" by (simp add: ends_iff)
  moreover have "wp True (callMethodAndWait cls path m ins timeoutMs) S ?Q (\<lambda>_ _. False) w"
  proof (cases "queued_job ?answer")
    case None
    then show ?thesis
      by (auto simp: callMethodAndWait_def callMethod_def run_simps accepted_def queued_job_def done_at_once_def
          WmiMethodStartedJob_def split: sum.splits option.splits if_splits)
  next
    case (Some job)
    then obtain out where out: "?answer = Inr (Some out)" "uintValue out ''ReturnValue'' 0 = 4096"
      "job = object_text out ''CreatedStorageJob''"
      by (auto simp: queued_job_def split: sum.splits option.splits if_splits)
    show ?thesis
    proof (cases "job = []")
      case True
      then show ?thesis using Some out
        by (auto simp: callMethodAndWait_def callMethod_def run_simps accepted_def WmiMethodStartedJob_def waitForStorageJob_def)
    next
      case False
      then show ?thesis using Some out
        by (auto simp: callMethodAndWait_def callMethod_def run_simps accepted_def WmiMethodStartedJob_def
            intro!: wp_mono [OF wait_for_job_verdict [OF _ assms]])
    qed
  qed
  ultimately show ?thesis by (auto simp: wp_def Let_def split: option.split outcome.splits)
qed

text \<open>A Windows that queues every call as a job, which runs for one second and then completes.\<close>

definition queueing_windows :: winos where
  "queueing_windows = broken_windows
     \<lparr>method_answer := (\<lambda>_ _ _ _ _. Inr (Some \<lparr>object_text = (\<lambda>_. qs ''job''),
        object_uint = (\<lambda>_. Some 4096), object_uint64 = (\<lambda>_. None), object_bool = (\<lambda>_. None)\<rparr>)),
      object_answer := (\<lambda>past _. Inr \<lparr>object_text = (\<lambda>_. []), object_uint = (\<lambda>_. None),
        object_uint64 = (\<lambda>name. Some (if name = ''ErrorCode'' then 0 else if slept past < 1000 then 4 else 7)),
        object_bool = (\<lambda>_. None)\<rparr>)\<rparr>"

lemma queueing_windows_punctual: "win_punctual queueing_windows"
  by (simp add: win_punctual_def queueing_windows_def broken_windows_def)

lemma queueing_windows_queues: "queued_job (method_answer queueing_windows h cls path m ins) = Some (qs ''job'')"
  by (simp add: queued_job_def queueing_windows_def uintValue_def)

theorem storage_call_verdict_witness:
  "case callMethodAndWait ''MSFT_Disk'' [] ''Refresh'' [] 60000 queueing_windows new_winworld of
     Some (Ok (how, e), w') \<Rightarrow>
       \<exists>new past. happened w' = new @ TimerStarted # past \<and> wait_verdict (qs ''job'') 60000 new e
   | _ \<Rightarrow> False"
  using storage_call_verdict [OF queueing_windows_punctual, where cls = "''MSFT_Disk''" and path = "[]" and
      m = "''Refresh''" and ins = "[]" and timeoutMs = 60000 and w = new_winworld]
  by (simp add: queueing_windows_queues Let_def qs_def split: option.splits prod.splits outcome.splits) blast

end
