(* ===== verification/Windows_Wmi.thy ===== *)
theory Windows_Wmi
  imports Windows_Volumes
begin

text \<open>
  The COM side of \<open>src/win/wmi.cpp\<close>: the values WMI passes as \<open>VARIANT\<close>, how a property is read from one and an
  input parameter is put into one, and the calls behind a connection, a query, an object and a method. What
  \<open>Windows_Session\<close> has as the answer of one WMI event is what these functions compute from the \<open>HRESULT\<close>s of COM;
  \<open>read_object\<close> is the object its properties read as.

  \<^item> \<open>QVariant\<close> is Qt's value with the alternatives the code makes. Its conversions of a floating point number,
    which no storage class uses, are parameters (\<open>numerics\<close>), on the bits of the number.
  \<^item> COM answers a call with an \<open>HRESULT\<close> and perhaps an object; reference counting has no effect of its own.
\<close>

section \<open>Values\<close>

datatype variant =
    VEmpty | VNull | VOther
  | VBstr qstring
  | VBool u16
  | VI1 u8 | VUI1 u8
  | VI2 u16 | VUI2 u16
  | VI4 u32 | VUI4 u32
  | VI8 u64 | VUI8 u64
  | VR4 u32 | VR8 u64

datatype QVariant =
    NoValue
  | QText qstring
  | QBool bool
  | QInt u32
  | QUInt u32
  | QLongLong u64
  | QULongLong u64
  | QDouble u64

record numerics =
  widen_float :: "u32 \<Rightarrow> u64"
  double_text :: "u64 \<Rightarrow> qstring"
  double_uint :: "u64 \<Rightarrow> u32"
  double_ulonglong :: "u64 \<Rightarrow> u64"
  double_true :: "u64 \<Rightarrow> bool"
  lower_text :: "qstring \<Rightarrow> qstring"

text \<open>\<open>VARIANT_TRUE\<close> is -1.\<close>

definition VARIANT_TRUE :: u16 where "VARIANT_TRUE = -1"

fun variantToQt :: "numerics \<Rightarrow> variant \<Rightarrow> QVariant" where
  "variantToQt N (VBstr s) = QText s"
| "variantToQt N (VBool b) = QBool (b = VARIANT_TRUE)"
| "variantToQt N (VI1 c) = QInt (scast c)"
| "variantToQt N (VUI1 c) = QUInt (ucast c)"
| "variantToQt N (VI2 i) = QInt (scast i)"
| "variantToQt N (VUI2 i) = QUInt (ucast i)"
| "variantToQt N (VI4 i) = QInt i"
| "variantToQt N (VUI4 i) = QUInt i"
| "variantToQt N (VI8 n) = QLongLong n"
| "variantToQt N (VUI8 n) = QULongLong n"
| "variantToQt N (VR4 f) = QDouble (widen_float N f)"
| "variantToQt N (VR8 d) = QDouble d"
| "variantToQt N _ = NoValue"

text \<open>\<open>QVariant::toString\<close>, \<open>toUInt\<close>, \<open>toULongLong\<close> and \<open>toBool\<close>; \<open>None\<close> is \<open>ok = false\<close>.\<close>

fun qv_text :: "numerics \<Rightarrow> QVariant \<Rightarrow> qstring" where
  "qv_text N NoValue = []"
| "qv_text N (QText s) = s"
| "qv_text N (QBool b) = (if b then qs ''true'' else qs ''false'')"
| "qv_text N (QInt i) = number_int (sint i)"
| "qv_text N (QUInt n) = number (unat n)"
| "qv_text N (QLongLong i) = number_int (sint i)"
| "qv_text N (QULongLong n) = number (unat n)"
| "qv_text N (QDouble d) = double_text N d"

fun qv_uint :: "numerics \<Rightarrow> QVariant \<Rightarrow> u32 option" where
  "qv_uint N NoValue = None"
| "qv_uint N (QText s) = to_uint s"
| "qv_uint N (QBool b) = Some (if b then 1 else 0)"
| "qv_uint N (QInt i) = Some i"
| "qv_uint N (QUInt n) = Some n"
| "qv_uint N (QLongLong i) = Some (ucast i)"
| "qv_uint N (QULongLong n) = Some (ucast n)"
| "qv_uint N (QDouble d) = Some (double_uint N d)"

fun qv_ulonglong :: "numerics \<Rightarrow> QVariant \<Rightarrow> u64 option" where
  "qv_ulonglong N NoValue = None"
| "qv_ulonglong N (QText s) = to_ulonglong s"
| "qv_ulonglong N (QBool b) = Some (if b then 1 else 0)"
| "qv_ulonglong N (QInt i) = Some (scast i)"
| "qv_ulonglong N (QUInt n) = Some (ucast n)"
| "qv_ulonglong N (QLongLong i) = Some i"
| "qv_ulonglong N (QULongLong n) = Some n"
| "qv_ulonglong N (QDouble d) = Some (double_ulonglong N d)"

fun qv_bool :: "numerics \<Rightarrow> QVariant \<Rightarrow> bool" where
  "qv_bool N NoValue = False"
| "qv_bool N (QText s) = (s \<noteq> [] \<and> s \<noteq> qs ''0'' \<and> lower_text N s \<noteq> qs ''false'')"
| "qv_bool N (QBool b) = b"
| "qv_bool N (QInt i) = (i \<noteq> 0)"
| "qv_bool N (QUInt n) = (n \<noteq> 0)"
| "qv_bool N (QLongLong i) = (i \<noteq> 0)"
| "qv_bool N (QULongLong n) = (n \<noteq> 0)"
| "qv_bool N (QDouble d) = double_true N d"

text \<open>An object answers \<open>Get\<close> with a value, or fails; the reading of an invalid one has no value.\<close>

type_synonym com_object = "string \<Rightarrow> variant option"

definition wmi_value :: "numerics \<Rightarrow> com_object option \<Rightarrow> string \<Rightarrow> QVariant" where
  "wmi_value N ob name =
     (case ob of
        None \<Rightarrow> NoValue
      | Some get' \<Rightarrow> (case get' name of None \<Rightarrow> NoValue | Some v \<Rightarrow> variantToQt N v))"

definition read_object :: "numerics \<Rightarrow> com_object option \<Rightarrow> wmi_object" where
  "read_object N ob =
     \<lparr>object_text = (\<lambda>name. qv_text N (wmi_value N ob name)),
      object_uint = (\<lambda>name. qv_uint N (wmi_value N ob name)),
      object_uint64 = (\<lambda>name. qv_ulonglong N (wmi_value N ob name)),
      object_bool = (\<lambda>name. let v = wmi_value N ob name in if v = NoValue then None else Some (qv_bool N v))\<rparr>"

section \<open>Input parameters\<close>

text \<open>A text passes through \<open>c_str\<close>, which ends it at the first null character.\<close>

definition bstr :: "qstring \<Rightarrow> variant" where
  "bstr s = VBstr (takeWhile (\<lambda>c. c \<noteq> 0) s)"

fun input_variant :: "QVariant \<Rightarrow> variant option" where
  "input_variant (QBool b) = Some (VBool (if b then VARIANT_TRUE else 0))"
| "input_variant (QText s) = Some (bstr s)"
| "input_variant (QUInt n) = Some (VI4 n)"
| "input_variant (QInt i) = Some (VI4 i)"
| "input_variant (QULongLong n) = Some (bstr (number (unat n)))"
| "input_variant (QLongLong i) = Some (bstr (number_int (sint i)))"
| "input_variant _ = None"

type_synonym hresult = u32

definition FAILED :: "hresult \<Rightarrow> bool" where "FAILED r \<longleftrightarrow> 0x80000000 \<le> r"
definition E_FAIL :: hresult where "E_FAIL = 0x80004005"
definition E_POINTER :: hresult where "E_POINTER = 0x80004003"
definition E_INVALIDARG :: hresult where "E_INVALIDARG = 0x80070057"
definition RPC_E_CHANGED_MODE :: hresult where "RPC_E_CHANGED_MODE = 0x80010106"
definition RPC_E_TOO_LATE :: hresult where "RPC_E_TOO_LATE = 0x80010119"

fun input_value :: "wmi_input \<Rightarrow> QVariant" where
  "input_value (TextInput s) = QText s"
| "input_value (BoolInput b) = QBool b"
| "input_value (UIntInput n) = QUInt n"

section \<open>Connecting, querying, reading\<close>

text \<open>\<open>initializeComSecurity\<close>: the code of a failure it reports.\<close>

definition initializeComSecurity :: "hresult \<Rightarrow> hresult option" where
  "initializeComSecurity r = (if FAILED r \<and> r \<noteq> RPC_E_TOO_LATE then Some r else None)"

text \<open>
  The constructor, over what \<open>CoInitializeEx\<close>, \<open>CoCreateInstance\<close>, \<open>ConnectServer\<close> and \<open>CoSetProxyBlanket\<close> return:
  the last error, \<open>None\<close> for a valid connection, and whether the destructor calls \<open>CoUninitialize\<close>.
\<close>

definition open_connection :: "hresult \<Rightarrow> hresult \<Rightarrow> hresult \<Rightarrow> hresult \<Rightarrow> wmi_error option \<times> bool" where
  "open_connection initialized located connected proxied =
     (if FAILED initialized \<and> initialized \<noteq> RPC_E_CHANGED_MODE then (Some (WmiError ComNotInitialized initialized), False)
      else
        (if FAILED located then Some (WmiError NoLocator located)
         else if FAILED connected then Some (WmiError NotConnected connected)
         else if FAILED proxied then Some (WmiError NoProxyBlanket proxied)
         else None,
         \<not> FAILED initialized))"

text \<open>The answers of \<open>IEnumWbemClassObject::Next\<close>, each a code, a count and an object; after them nothing is returned.\<close>

fun next_objects :: "numerics \<Rightarrow> qstring \<Rightarrow> (hresult \<times> u32 \<times> com_object option) list \<Rightarrow>
    wmi_object list \<times> wmi_error option" where
  "next_objects N wql [] = ([], None)"
| "next_objects N wql ((r, returned, ob) # rest) =
     (if FAILED r then ([], Some (WmiError (EnumerationFailed wql) r))
      else if returned = 0 \<or> ob = None then ([], None)
      else let (obs, e) = next_objects N wql rest in (read_object N ob # obs, e))"

definition com_query :: "numerics \<Rightarrow> qstring \<Rightarrow> hresult \<times> bool \<Rightarrow> (hresult \<times> u32 \<times> com_object option) list \<Rightarrow>
    wmi_object list \<times> wmi_error option" where
  "com_query N wql executed nexts =
     (if FAILED (fst executed) \<or> \<not> snd executed
      then ([], Some (WmiError (QueryFailed wql) (if FAILED (fst executed) then fst executed else E_FAIL)))
      else next_objects N wql nexts)"

definition com_getObject :: "numerics \<Rightarrow> qstring \<Rightarrow> hresult \<times> com_object option \<Rightarrow> wmi_error + wmi_object" where
  "com_getObject N path answer =
     (if FAILED (fst answer) \<or> snd answer = None
      then Inl (WmiError (ObjectNotRead path) (if FAILED (fst answer) then fst answer else E_FAIL))
      else Inr (read_object N (snd answer)))"

section \<open>Calling a method\<close>

text \<open>
  What COM answers one call: the class, the method with or without an input signature, the input object, each
  parameter put into it, and the execution with the parameters of the input object, if there is one.
\<close>

record com_method =
  class_answer :: hresult
  signature_answer :: "hresult \<times> bool"
  spawn_answer :: "hresult \<times> bool"
  put_answer :: "string \<Rightarrow> variant \<Rightarrow> hresult"
  exec_answer :: "(string \<times> variant) list option \<Rightarrow> hresult \<times> com_object option"

datatype com_call =
    ClassAsked string
  | SignatureAsked string
  | InputSpawned
  | InputPut string variant
  | MethodExecuted qstring string "(string \<times> variant) list option"

text \<open>\<open>putInputValue\<close> and \<open>WmiObject::setValue\<close> on a valid object.\<close>

definition setValue :: "com_method \<Rightarrow> string \<Rightarrow> QVariant \<Rightarrow> com_call list \<times> (wmi_error + variant)" where
  "setValue C name v =
     (case input_variant v of
        None \<Rightarrow> ([], Inl (WmiError (InputFailed (qs name)) E_INVALIDARG))
      | Some x \<Rightarrow>
          ([InputPut name x],
           if FAILED (put_answer C name x) then Inl (WmiError (InputFailed (qs name)) (put_answer C name x)) else Inr x))"

fun set_inputs :: "com_method \<Rightarrow> wmi_inputs \<Rightarrow> com_call list \<times> (wmi_error + (string \<times> variant) list)" where
  "set_inputs C [] = ([], Inr [])"
| "set_inputs C ((name, v) # rest) =
     (let (calls, r) = setValue C name (input_value v)
      in case r of
           Inl e \<Rightarrow> (calls, Inl e)
         | Inr x \<Rightarrow>
             let (more, r') = set_inputs C rest
             in (calls @ more, case r' of Inl e \<Rightarrow> Inl e | Inr xs \<Rightarrow> Inr ((name, x) # xs)))"

text \<open>The input object with its parameters, \<open>Inr None\<close> when the method takes none.\<close>

definition prepare_inputs :: "com_method \<Rightarrow> string \<Rightarrow> string \<Rightarrow> wmi_inputs \<Rightarrow>
    com_call list \<times> (wmi_error + (string \<times> variant) list option)" where
  "prepare_inputs C cls m ins =
     (if FAILED (class_answer C) then ([ClassAsked cls], Inl (WmiError (ClassNotRead cls) (class_answer C)))
      else if FAILED (fst (signature_answer C))
        then ([ClassAsked cls, SignatureAsked m], Inl (WmiError (MethodNotFound cls m) (fst (signature_answer C))))
      else if snd (signature_answer C) then
        (if FAILED (fst (spawn_answer C)) \<or> \<not> snd (spawn_answer C)
         then ([ClassAsked cls, SignatureAsked m, InputSpawned],
               Inl (WmiError NoInputObject (if FAILED (fst (spawn_answer C)) then fst (spawn_answer C) else E_FAIL)))
         else
           let (calls, r) = set_inputs C ins
           in ([ClassAsked cls, SignatureAsked m, InputSpawned] @ calls,
               case r of Inl e \<Rightarrow> Inl e | Inr xs \<Rightarrow> Inr (Some xs)))
      else if ins \<noteq> [] then ([ClassAsked cls, SignatureAsked m], Inl (WmiError (NoInputSignature m) E_INVALIDARG))
      else ([ClassAsked cls, SignatureAsked m], Inr None))"

text \<open>The calls of \<open>WmiConnection::callMethod\<close> and what it ends with: the error, or the output object if there is one.\<close>

definition com_callMethod :: "numerics \<Rightarrow> com_method \<Rightarrow> string \<Rightarrow> qstring \<Rightarrow> string \<Rightarrow> wmi_inputs \<Rightarrow>
    com_call list \<times> (wmi_error + wmi_object option)" where
  "com_callMethod N C cls path m ins =
     (let (calls, r) = prepare_inputs C cls m ins
      in case r of
           Inl e \<Rightarrow> (calls, Inl e)
         | Inr xs \<Rightarrow>
             (calls @ [MethodExecuted path m xs],
              let (hr, out) = exec_answer C xs
              in if FAILED hr then Inl (WmiError (MethodFailed cls m) hr)
                 else Inr (case out of None \<Rightarrow> None | Some _ \<Rightarrow> Some (read_object N out))))"

section \<open>What a call executes\<close>

fun executions :: "com_call list \<Rightarrow> (qstring \<times> string \<times> (string \<times> variant) list option) list" where
  "executions [] = []"
| "executions (c # calls) =
     (case c of MethodExecuted path m xs \<Rightarrow> (path, m, xs) # executions calls | _ \<Rightarrow> executions calls)"

definition put_as_asked :: "com_method \<Rightarrow> wmi_inputs \<Rightarrow> (string \<times> variant) list option \<Rightarrow> bool" where
  "put_as_asked C ins xs \<longleftrightarrow>
     (case xs of
        None \<Rightarrow> ins = []
      | Some xs \<Rightarrow> list_all2 (\<lambda>(name, v) (name', x).
          name' = name \<and> input_variant (input_value v) = Some x \<and> \<not> FAILED (put_answer C name x)) ins xs)"

lemma executions_append [simp]: "executions (a @ b) = executions a @ executions b"
  by (induction a) (auto split: com_call.split)

lemma setValue_calls:
  "executions (fst (setValue C name v)) = []"
  "snd (setValue C name v) = Inr x \<Longrightarrow> input_variant v = Some x \<and> \<not> FAILED (put_answer C name x)"
  by (auto simp: setValue_def split: option.splits if_splits)

lemma set_inputs_calls:
  "executions (fst (set_inputs C ins)) = [] \<and>
   (case snd (set_inputs C ins) of Inl _ \<Rightarrow> True | Inr xs \<Rightarrow> put_as_asked C ins (Some xs))"
proof (induction ins)
  case (Cons input rest)
  obtain name v where i: "input = (name, v)" by (cases input)
  show ?case
    using Cons.IH setValue_calls [of C name "input_value v"]
    by (auto simp: i put_as_asked_def split: prod.splits sum.splits)
qed (simp add: put_as_asked_def)

lemma prepare_inputs_calls:
  "executions (fst (prepare_inputs C cls m ins)) = [] \<and>
   (case snd (prepare_inputs C cls m ins) of Inl _ \<Rightarrow> True | Inr xs \<Rightarrow> put_as_asked C ins xs)"
proof (cases "snd (signature_answer C)")
  case True
  then show ?thesis using set_inputs_calls [of C ins]
    by (auto simp: prepare_inputs_def split: prod.splits sum.splits)
next
  case False
  then show ?thesis by (simp add: prepare_inputs_def put_as_asked_def)
qed

text \<open>C14. A storage method is executed at most once per call, on the object and under the name asked for, and only when the
value of every input parameter was put into the input object; a call that executes nothing ends with an error.\<close>

theorem method_executed_as_asked:
  "case com_callMethod N C cls path m ins of (calls, r) \<Rightarrow>
     (case executions calls of
        [] \<Rightarrow> (\<exists>e. r = Inl e)
      | [(path', m', xs)] \<Rightarrow> path' = path \<and> m' = m \<and> put_as_asked C ins xs \<and>
          (FAILED (fst (exec_answer C xs)) = (\<exists>e. r = Inl e))
      | _ \<Rightarrow> False)"
  using prepare_inputs_calls [of C cls m ins]
  by (auto simp: com_callMethod_def Let_def split: prod.splits sum.splits)

lemma to_ulonglong_number [simp]: "to_ulonglong (number (unat k)) = Some k"
proof -
  obtain c cs where n: "number (unat k) = c # cs" by (cases "number (unat k)") simp_all
  then have "is_decimal c" using number_chars [of c "unat k"] by simp
  then have c: "c \<noteq> 0x2B" using decimal_not by blast
  have "trimmed (c # cs) = c # cs"
    using number_chars [of _ "unat k"] decimal_not n by (intro trimmed_solid) metis
  moreover have "unsigned_digits (c # cs) = Some (unat k)"
    using number_digits [of "unat k"] n by (simp add: unsigned_digits_def)
  ultimately show ?thesis
    using c unat_u64_bound [of k] by (simp add: to_ulonglong_def to_unsigned_def n)
qed

lemma bstr_solid: "0 \<notin> set s \<Longrightarrow> bstr s = VBstr s"
  by (auto simp: bstr_def takeWhile_eq_all_conv)

lemma bstr_number [simp]: "bstr (number n) = VBstr (number n)"
  using number_chars [of 0 n] by (auto intro!: bstr_solid simp: is_decimal_def)

text \<open>What the program puts into an input parameter is what it would read back from it: a 32-bit number with its high
bit, a 64-bit one from its decimal text, a flag, and a text up to its first null character.\<close>

lemma wmi_values_read_back:
  "map_option (\<lambda>x. qv_uint N (variantToQt N x)) (input_variant (QUInt n)) = Some (Some n)"
  "map_option (\<lambda>x. qv_ulonglong N (variantToQt N x)) (input_variant (QULongLong k)) = Some (Some k)"
  "map_option (\<lambda>x. qv_bool N (variantToQt N x)) (input_variant (QBool b)) = Some b"
  "map_option (\<lambda>x. qv_text N (variantToQt N x)) (input_variant (QText s)) = Some (takeWhile (\<lambda>c. c \<noteq> 0) s)"
  by (simp_all add: VARIANT_TRUE_def bstr_def [of s])

end
