(* ===== verification/Message_Texts.thy ===== *)
theory Message_Texts
  imports Restore_Steps Partition_Table Linux_Sysfs
begin

text \<open>
  The words for sizes, disks and refusals: \<open>formatByteSize\<close> and \<open>describeDisk\<close> of \<open>src/core/disk.cpp\<close>, \<open>coreText\<close>
  of \<open>src/core/language.cpp\<close>, and the texts the checks of \<open>src/core/safety.cpp\<close> and
  \<open>src/core/partition_table.cpp\<close> refuse with, over the refusals of \<open>Safety\<close> and \<open>Partition_Table\<close>.

  \<^item> A \<open>speech\<close> adds to the catalog what the operating system words: \<open>locale_decimal\<close> is
    \<open>QLocale(name).toString(value, 'f', 2)\<close> of a quotient, \<open>error_string\<close> is \<open>strerror\<close>, \<open>system_message\<close> and
    \<open>com_message\<close> are what Windows says about a code, trimmed.
  \<^item> A size is a \<open>double\<close>: rounded to 53 bits once, then divided by 1024, which is exact. So its value is the
    quotient of two numbers.
\<close>

record speech = wording +
  locale_decimal :: "qstring \<Rightarrow> nat \<Rightarrow> nat \<Rightarrow> qstring"
  error_string :: "nat \<Rightarrow> qstring"
  system_message :: "u32 \<Rightarrow> qstring"
  com_message :: "u32 \<Rightarrow> qstring"

definition words_of :: "speech \<Rightarrow> wording" where
  "words_of S = wording.truncate S"

lemma words_of_simps [simp]: "translate (words_of S) = translate S" "fill (words_of S) = fill S"
  by (simp_all add: words_of_def wording.defs)

definition coreText :: "speech \<Rightarrow> string \<Rightarrow> TextMode \<Rightarrow> qstring" where
  "coreText S source mode = (if mode = DisplayText then translate S ''usbrestore::Core'' source else qs source)"

definition core_fill :: "speech \<Rightarrow> string \<Rightarrow> qstring list \<Rightarrow> TextMode \<Rightarrow> qstring" where
  "core_fill S source args mode = fill S (coreText S source mode) args"

section \<open>Sizes\<close>

fun bit_length :: "nat \<Rightarrow> nat" where
  "bit_length n = (if n = 0 then 0 else Suc (bit_length (n div 2)))"

declare bit_length.simps [simp del]

text \<open>The nearest \<open>double\<close>, ties to even.\<close>

definition to_double :: "u64 \<Rightarrow> nat" where
  "to_double b =
     (let n = unat b; cut = bit_length n - 53; unit' = 2 ^ cut; q = n div unit'; r = n mod unit'
      in if unit' < 2 * r \<or> (unit' = 2 * r \<and> odd q) then (q + 1) * unit' else q * unit')"

function unit_from :: "nat \<Rightarrow> nat \<Rightarrow> nat" where
  "unit_from value k = (if k < 5 \<and> 1024 * 1024 ^ k \<le> value then unit_from value (Suc k) else k)"
  by pat_completeness auto

termination
  by (relation "measure (\<lambda>(_, k). 5 - k)") auto

declare unit_from.simps [simp del]

definition units :: "string list" where
  "units = [''B'', ''KB'', ''MB'', ''GB'', ''TB'', ''PB'']"

definition formatDecimal :: "speech \<Rightarrow> nat \<Rightarrow> nat \<Rightarrow> TextMode \<Rightarrow> qstring" where
  "formatDecimal S num den mode =
     locale_decimal S (if mode = DisplayText then coreText S ''en_US'' DisplayText else qs ''C'') num den"

definition formatByteSize :: "speech \<Rightarrow> u64 \<Rightarrow> TextMode \<Rightarrow> qstring" where
  "formatByteSize S b mode =
     (let k = unit_from (to_double b) 0
      in if k = 0 then number (unat b) @ qs '' '' @ qs (units ! k)
         else formatDecimal S (to_double b) (1024 ^ k) mode @ qs '' '' @ qs (units ! k))"

definition formatByteSizeMessage :: "speech \<Rightarrow> u64 \<Rightarrow> RestoreMessage" where
  "formatByteSizeMessage S b = Message (formatByteSize S b EnglishText) (formatByteSize S b DisplayText) Plain"

text \<open>The unit is the largest the value reaches.\<close>

lemma unit_from_bounds:
  assumes "k \<le> 5" "k = 0 \<or> 1024 ^ k \<le> d"
  shows "unit_from d k \<le> 5 \<and> (unit_from d k = 0 \<or> 1024 ^ unit_from d k \<le> d) \<and>
    (unit_from d k = 5 \<or> d < 1024 ^ Suc (unit_from d k))"
  using assms
proof (induction d k rule: unit_from.induct)
  case (1 d k)
  show ?case
  proof (cases "k < 5 \<and> 1024 * 1024 ^ k \<le> d")
    case True
    then have "unit_from d k = unit_from d (Suc k)" by (subst unit_from.simps) simp
    then show ?thesis using 1 True by simp
  next
    case False
    then have "unit_from d k = k" by (subst unit_from.simps, subst if_not_P [OF False]) (rule refl)
    then show ?thesis using 1 False by auto
  qed
qed

lemma bit_length_bounds: "n < 2 ^ bit_length n" "0 < n \<Longrightarrow> 2 ^ (bit_length n - 1) \<le> n"
proof -
  have "n < 2 ^ bit_length n \<and> (0 < n \<longrightarrow> 2 ^ (bit_length n - 1) \<le> n)"
  proof (induction n rule: bit_length.induct)
    case (1 n)
    show ?case
    proof (cases "n div 2 = 0")
      case True
      then have "n = 0 \<or> n = 1" by auto
      moreover have "bit_length 0 = 0" "bit_length 1 = 1" by (simp_all add: bit_length.simps)
      ultimately show ?thesis by (elim disjE) simp_all
    next
      case False
      then have n: "n \<noteq> 0" by auto
      obtain k where k: "bit_length (n div 2) = Suc k" using False by (simp add: bit_length.simps [of "n div 2"])
      define p :: nat where "p = 2 ^ k"
      have l: "bit_length n = Suc (Suc k)" using n k by (subst bit_length.simps) simp
      have "p \<le> n div 2" "n div 2 < 2 * p" using 1 n False k by (simp_all add: p_def)
      then have "2 * p \<le> n" "n < 4 * p" by linarith+
      then show ?thesis by (simp add: l p_def)
    qed
  qed
  then show "n < 2 ^ bit_length n" "0 < n \<Longrightarrow> 2 ^ (bit_length n - 1) \<le> n" by simp_all
qed

text \<open>Up to \<open>2 ^ 53\<close> a size is exact, and above it is off by at most half of its last place.\<close>

lemma to_double_near:
  "unat b < 2 ^ 53 \<Longrightarrow> to_double b = unat b"
  "2 * to_double b \<le> 2 * unat b + 2 ^ (bit_length (unat b) - 53)"
  "2 * unat b \<le> 2 * to_double b + 2 ^ (bit_length (unat b) - 53)"
proof -
  define e where "e = bit_length (unat b) - 53"
  define q r where "q = unat b div 2 ^ e" and "r = unat b mod 2 ^ e"
  have parts: "unat b = q * 2 ^ e + r" "r < 2 ^ e" 
    using div_mult_mod_eq [of "unat b" "2 ^ e"] by (simp_all add: q_def r_def)
  have d: "to_double b = (if 2 ^ e < 2 * r \<or> (2 ^ e = 2 * r \<and> odd q) then (q + 1) * 2 ^ e else q * 2 ^ e)"
    by (simp add: to_double_def Let_def e_def q_def r_def)
  show "2 * to_double b \<le> 2 * unat b + 2 ^ (bit_length (unat b) - 53)"
    "2 * unat b \<le> 2 * to_double b + 2 ^ (bit_length (unat b) - 53)"
    unfolding e_def [symmetric] d using parts by (auto split: if_splits)
  assume small: "unat b < 2 ^ 53"
  have "bit_length (unat b) \<le> 53"
  proof (rule ccontr)
    assume "\<not> bit_length (unat b) \<le> 53"
    then have "(2 :: nat) ^ 53 \<le> 2 ^ (bit_length (unat b) - 1)" "0 < unat b"
      by (intro power_increasing, auto, subst (asm) bit_length.simps, auto split: if_splits)
    then show False using bit_length_bounds(2) [of "unat b"] small by simp
  qed
  then have "e = 0" by (simp add: e_def)
  then show "to_double b = unat b" using parts by (simp add: d)
qed

section \<open>Disks\<close>

definition partition_style_text :: "speech \<Rightarrow> u16 \<Rightarrow> TextMode \<Rightarrow> qstring" where
  "partition_style_text S style mode =
     (case partitionStyleName style of Some n \<Rightarrow> qs n | None \<Rightarrow> coreText S ''RAW / unknown'' mode)"

definition bus_text :: "speech \<Rightarrow> u32 \<Rightarrow> TextMode \<Rightarrow> qstring" where
  "bus_text S bus mode = (case busTypeName bus of Some n \<Rightarrow> qs n | None \<Rightarrow> coreText S ''Unknown'' mode)"

definition identifier_of :: "DiskInfo \<Rightarrow> qstring" where
  "identifier_of disk = (if displayId disk = [] then deviceId disk else displayId disk)"

text \<open>The dash in the source is one code unit.\<close>

definition describe_format :: qstring where
  "describe_format = qs ''%1 '' @ [0x2014] @ qs '' %2 (%3)''"

definition describeDisk :: "speech \<Rightarrow> DiskInfo \<Rightarrow> TextMode \<Rightarrow> qstring" where
  "describeDisk S disk mode =
     (let name = if trimmed (disk_name disk) = [] then coreText S ''USB disk'' mode else trimmed (disk_name disk)
      in fill S describe_format [identifier_of disk, name, formatByteSize S (disk_size disk) mode])"

definition largeRestoreTargetWarning :: "speech \<Rightarrow> DiskInfo \<Rightarrow> TextMode \<Rightarrow> qstring" where
  "largeRestoreTargetWarning S disk mode =
     (if \<not> isLargeRestoreTarget disk then []
      else core_fill S
        ''Large USB disk: %1. Make sure this is not an external SSD or HDD with data you need.''
        [formatByteSize S (disk_size disk) mode] mode)"

section \<open>Refusals\<close>

fun safety_text :: "speech \<Rightarrow> DiskInfo \<Rightarrow> SafetyRefusal \<Rightarrow> TextMode \<Rightarrow> qstring" where
  "safety_text S disk NoDevicePath mode = coreText S ''This disk reports no device path to restore.'' mode"
| "safety_text S disk (NotOnUsbBus bus) mode =
     core_fill S ''%1 is on the %2 bus, not USB.'' [identifier_of disk, bus_text S bus mode] mode"
| "safety_text S disk RunningSystemDisk mode =
     core_fill S ''%1 is a disk the running system depends on.'' [identifier_of disk] mode"
| "safety_text S disk BootOrSystemDisk mode =
     core_fill S ''%1 is marked as a boot or system disk.'' [identifier_of disk] mode"
| "safety_text S disk HoldsProtectedLocation mode =
     core_fill S ''%1 holds a protected system location.'' [identifier_of disk] mode"
| "safety_text S disk DiskIsOffline mode = core_fill S ''%1 is offline.'' [identifier_of disk] mode"
| "safety_text S disk DiskIsReadOnly mode = core_fill S ''%1 is read-only.'' [identifier_of disk] mode"
| "safety_text S disk NoUsableMedia mode = core_fill S ''%1 reports no usable media.'' [identifier_of disk] mode"
| "safety_text S disk (TooSmallToRestore b) mode =
     core_fill S ''%1 reports only %2, which is too small to restore.''
       [identifier_of disk, formatByteSize S b mode] mode"
| "safety_text S disk (UnsupportedSectorSize s) mode =
     core_fill S ''%1 reports an unsupported sector size of %2 bytes.'' [identifier_of disk, number (unat s)] mode"
| "safety_text S disk TooSmallForSafeLayout mode =
     core_fill S ''%1 is too small for a safe partition layout.'' [identifier_of disk] mode"

fun changed_property :: "IdentityRefusal \<Rightarrow> string" where
  "changed_property DifferentSize = ''size''"
| "changed_property DifferentInstance = ''device instance''"
| "changed_property DifferentSectorSize = ''sector size''"
| "changed_property DifferentSerial = ''serial number''"
| "changed_property DifferentUniqueId = ''unique ID''"
| "changed_property DifferentPath = ''device path''"
| "changed_property DifferentName = ''device name''"
| "changed_property MovedDevice = []"

definition identity_text :: "speech \<Rightarrow> DiskInfo \<Rightarrow> DiskInfo \<Rightarrow> IdentityRefusal \<Rightarrow> TextMode \<Rightarrow> qstring" where
  "identity_text S selected current refusal mode =
     (if refusal = MovedDevice then
        core_fill S ''The selected disk moved from %1 to %2. Refresh and select the USB again.''
          [deviceId selected, deviceId current] mode
      else
        core_fill S ''%1 no longer reports the same %2. Refresh and select the USB again.''
          [identifier_of selected, coreText S (changed_property refusal) mode] mode)"

definition sequence_text :: "speech \<Rightarrow> qstring \<Rightarrow> TextMode \<Rightarrow> qstring" where
  "sequence_text S device mode =
     core_fill S ''Could not confirm that %1 is still the disk that was selected. Refresh and select the USB again.''
       [device] mode"

fun layout_text :: "speech \<Rightarrow> LayoutError \<Rightarrow> TextMode \<Rightarrow> qstring" where
  "layout_text S (UnsupportedLayoutSector s) mode =
     core_fill S ''Unsupported sector size of %1 bytes.'' [number (unat s)] mode"
| "layout_text S DiskTooSmallForLayout mode = coreText S ''The disk is too small for a partition layout.'' mode"
| "layout_text S NoStyleChosen mode = coreText S ''No partition style was chosen.'' mode"
| "layout_text S MbrCannotAddress mode =
     coreText S ''MBR cannot address a partition this far into the disk. Choose GPT.'' mode"

fun write_text :: "speech \<Rightarrow> WriteRefusal \<Rightarrow> TextMode \<Rightarrow> qstring" where
  "write_text S (LayoutRefused e) mode = layout_text S e mode"
| "write_text S LayoutNotAligned mode =
     coreText S ''The partition layout is not aligned to the sector size.'' mode"
| "write_text S LayoutPastEnd mode = coreText S ''The partition layout runs past the end of the disk.'' mode"
| "write_text S NoRoomForHeaders mode = coreText S ''The disk is too small to hold both GPT headers.'' mode"
| "write_text S NeedsIdentifiers mode = coreText S ''A GPT layout needs a disk and partition identifier.'' mode"
| "write_text S OverlapsHeaders mode = coreText S ''The partition layout overlaps the GPT headers.'' mode"
| "write_text S NeedsDiskIdentifier mode = coreText S ''An MBR layout needs a disk identifier.'' mode"

definition unaligned_text :: "speech \<Rightarrow> u64 \<Rightarrow> u64 \<Rightarrow> u32 \<Rightarrow> TextMode \<Rightarrow> qstring" where
  "unaligned_text S off n s mode =
     core_fill S ''Refusing to zero %1 bytes at offset %2: not a multiple of the %3-byte sector size.''
       [number (unat n), number (unat off), number (unat (supported_or_512 s))] mode"

text \<open>A refusal in both languages, as \<open>checkRestoreError\<close> words it.\<close>

definition both_texts :: "(TextMode \<Rightarrow> qstring) \<Rightarrow> RestoreMessage" where
  "both_texts f = Message (f EnglishText) (f DisplayText) Plain"

lemma both_texts_checked: "checkRestoreError (\<lambda>mode. Some (f mode)) True = Some (both_texts f)"
  by (simp add: checkRestoreError_def both_texts_def)

section \<open>Backend messages\<close>

definition backend_text :: "speech \<Rightarrow> string \<Rightarrow> RestoreMessage" where
  "backend_text S src = restoreText (words_of S) src"

definition backend_fill :: "speech \<Rightarrow> string \<Rightarrow> MessageArg list \<Rightarrow> RestoreMessage" where
  "backend_fill S src args = message_arg (words_of S) (backend_text S src) args"

text \<open>A format that is no text of the catalog.\<close>

definition plain_fill :: "speech \<Rightarrow> string \<Rightarrow> MessageArg list \<Rightarrow> RestoreMessage" where
  "plain_fill S src args = message_arg (words_of S) (plain_message (qs src)) args"

fun enumerate_message :: "speech \<Rightarrow> EnumerateError \<Rightarrow> RestoreMessage" where
  "enumerate_message S SysBlockNotAvailable =
     backend_text S ''/sys/block is not available, so block devices cannot be listed.''"
| "enumerate_message S (NoLongerPresent d) =
     backend_fill S ''%1 is no longer present. Refresh and select the USB again.'' [TextArg d]"
| "enumerate_message S (NoLongerOnUsb d) =
     backend_fill S ''%1 is no longer reported on the USB bus. Refresh and select the USB again.'' [TextArg d]"

section \<open>Both renderings say the same\<close>

text \<open>
  Under an untranslated catalog and one way of writing numbers, the display text of a message must be its English
  text: then the two differ by nothing but the translation of the same words with the same arguments.
\<close>

definition untranslated :: "speech \<Rightarrow> bool" where
  "untranslated S \<longleftrightarrow>
     (\<forall>ctx src. translate S ctx src = qs src) \<and> locale_decimal S (qs ''en_US'') = locale_decimal S (qs ''C'')"

definition alike :: "RestoreMessage \<Rightarrow> bool" where
  "alike m \<longleftrightarrow> display m = english m"

fun alike_arg :: "MessageArg \<Rightarrow> bool" where
  "alike_arg (MessageArg m) = alike m"
| "alike_arg _ = True"

named_theorems alike_intro \<open>messages that say the same in both renderings\<close>

lemma one_mode:
  assumes "untranslated S"
  shows "coreText S src mode = qs src" "core_fill S src args mode = fill S (qs src) args"
    "formatByteSize S b mode = formatByteSize S b EnglishText" "bus_text S bus mode = bus_text S bus EnglishText"
  using assms
  by (simp_all add: untranslated_def coreText_def core_fill_def formatByteSize_def formatDecimal_def bus_text_def
      Let_def cong: option.case_cong)

lemma text_modes:
  assumes "untranslated S"
  shows "safety_text S disk e mode = safety_text S disk e EnglishText"
    "identity_text S sel cur i mode = identity_text S sel cur i EnglishText"
    "layout_text S l mode = layout_text S l EnglishText" "write_text S x mode = write_text S x EnglishText"
    "unaligned_text S off n s mode = unaligned_text S off n s EnglishText"
    "sequence_text S d mode = sequence_text S d EnglishText"
proof -
  note same = one_mode [OF assms]
  show "safety_text S disk e mode = safety_text S disk e EnglishText"
    by (cases e) (simp_all add: same(1,2) same(3) [of _ mode] same(4) [of _ mode])
  show l: "layout_text S l mode = layout_text S l EnglishText" for l
    by (cases l) (simp_all add: same(1,2))
  show "write_text S x mode = write_text S x EnglishText"
    by (cases x) (simp_all add: same(1,2) l)
qed (simp_all add: identity_text_def unaligned_text_def sequence_text_def one_mode [OF assms])

lemma alike_both [alike_intro]: "f DisplayText = f EnglishText \<Longrightarrow> alike (both_texts f)"
  by (simp add: alike_def both_texts_def)

lemma alike_text [alike_intro]: "untranslated S \<Longrightarrow> alike (backend_text S src)"
  by (simp add: alike_def backend_text_def restoreText_def untranslated_def)

lemma alike_plain [alike_intro]: "alike (plain_message t)"
  by (simp add: alike_def plain_message_def)

lemma alike_size [alike_intro]: "untranslated S \<Longrightarrow> alike (formatByteSizeMessage S b)"
  using one_mode(3) [of S b DisplayText] by (simp add: alike_def formatByteSizeMessage_def)

lemma alike_message_arg:
  assumes "alike m" "list_all alike_arg args"
  shows "alike (message_arg w m args)"
proof -
  have "argument a DisplayText = argument a EnglishText" if "alike_arg a" for a
    using that by (cases a) (simp_all add: alike_def)
  then have "map (\<lambda>a. argument a DisplayText) args = map (\<lambda>a. argument a EnglishText) args"
    using assms(2) by (simp add: list_all_iff)
  then show ?thesis using assms(1) by (simp add: alike_def message_arg_def cong: map_cong)
qed

lemma alike_fill [alike_intro]:
  "untranslated S \<Longrightarrow> list_all alike_arg args \<Longrightarrow> alike (backend_fill S src args)"
  "list_all alike_arg args \<Longrightarrow> alike (plain_fill S src args)"
  by (simp_all add: backend_fill_def plain_fill_def alike_message_arg alike_text alike_plain)

lemma alike_trimmed [alike_intro]: "alike m \<Longrightarrow> alike (message_trimmed m)"
  by (simp add: alike_def message_trimmed_def)

lemma alike_enumerate [alike_intro]: "untranslated S \<Longrightarrow> alike (enumerate_message S e)"
  by (cases e) (simp_all add: alike_intro)

end
