(* ===== verification/Linux_Messages.thy ===== *)
theory Linux_Messages
  imports Message_Texts Restore_Session
begin

text \<open>
  What a Linux restore says when it fails: \<open>deviceErrorMessage\<close> and \<open>loopErrorMessage\<close> of
  \<open>src/linux/block_device.cpp\<close> and the text of every \<open>RestoreError\<close> where the code words it. The disks a refusal
  is about are arguments: the selected one and the one the gate looked at.
\<close>

section \<open>Errors of the drive and of the loop driver\<close>

definition EPERM :: errno where "EPERM = 1"
definition EIO :: errno where "EIO = 5"
definition ENXIO :: errno where "ENXIO = 6"
definition EACCES :: errno where "EACCES = 13"
definition ENODEV :: errno where "ENODEV = 19"
definition ENOSPC :: errno where "ENOSPC = 28"
definition EROFS :: errno where "EROFS = 30"

definition errno_message :: "speech \<Rightarrow> RestoreMessage \<Rightarrow> RestoreMessage \<Rightarrow> errno \<Rightarrow> RestoreMessage \<Rightarrow> RestoreMessage" where
  "errno_message S context' reason e advice =
     backend_fill S ''%1: %2 (errno %3). %4.''
       [MessageArg context', MessageArg reason, NumberArg (int e), MessageArg advice]"

text \<open>The reason and the advice; an unnamed error keeps the general advice.\<close>

definition device_reason :: "speech \<Rightarrow> errno \<Rightarrow> RestoreMessage \<times> RestoreMessage" where
  "device_reason S e =
     (let again = backend_text S ''Unplug the drive, plug it back in and try again''
      in if e = EBUSY then
           (backend_text S ''another program still has it open'',
            backend_text S ''Close that program, unmount every partition on the drive and try again'')
         else if e = EACCES \<or> e = EPERM \<or> e = EROFS then
           (backend_text S ''the drive would not accept writes'',
            backend_text S (''If it has a write-protect switch, turn it off and try again. If it has none, the drive may have made '' @
              ''itself read-only, which worn drives do, and needs replacing''))
         else if e = EIO then
           (backend_text S ''the drive stopped answering'',
            backend_text S ''Unplug it, plug it back in and try again; if it keeps happening the drive is damaged'')
         else if e = ENXIO \<or> e = ENODEV then
           (backend_text S ''the drive is no longer there'',
            backend_text S ''Plug it back in, refresh the list and select it again'')
         else if e = ENOSPC then
           (backend_text S ''the drive ran out of room before its reported size'',
            backend_text S ''Unplug it, plug it back in and try again; if it happens again the drive is smaller than it claims'')
         else (plain_message (error_string S e), again))"

definition deviceErrorMessage :: "speech \<Rightarrow> RestoreMessage \<Rightarrow> errno \<Rightarrow> RestoreMessage" where
  "deviceErrorMessage S context' e =
     (let (reason, advice) = device_reason S e in errno_message S context' reason e advice)"

definition loop_reason :: "speech \<Rightarrow> errno \<Rightarrow> RestoreMessage" where
  "loop_reason S e =
     (if e = EBUSY then backend_text S ''the loop driver is busy with another mapping''
      else if e = EACCES \<or> e = EPERM then backend_text S ''the system refused access to the loop driver''
      else if e = ENODEV then backend_text S ''the loop driver is not available''
      else if e = ENXIO then backend_text S ''the loop device went away''
      else if e = EINVAL then backend_text S ''the loop mapping was rejected''
      else if e = EIO then backend_text S ''the drive failed while writing''
      else if e = ENOSPC then backend_text S ''the loop mapping ran out of room''
      else plain_message (error_string S e))"

definition loopErrorMessage :: "speech \<Rightarrow> RestoreMessage \<Rightarrow> errno \<Rightarrow> RestoreMessage \<Rightarrow> RestoreMessage" where
  "loopErrorMessage S operation e advice = errno_message S operation (loop_reason S e) e advice"

fun device_context :: "speech \<Rightarrow> DeviceContext \<Rightarrow> qstring \<Rightarrow> RestoreMessage" where
  "device_context S OpeningDevice p = backend_fill S ''Could not open %1'' [TextArg p]"
| "device_context S ReadingInformation p = backend_fill S ''Could not read the device information of %1'' [TextArg p]"
| "device_context S WritingDevice p = backend_fill S ''Could not write to %1'' [TextArg p]"
| "device_context S SavingChanges p = backend_fill S ''Could not save the changes to %1'' [TextArg p]"
| "device_context S RescanningTable p =
     backend_fill S ''The new partition table was written to %1, but the system would not re-scan it'' [TextArg p]"
| "device_context S UnmountingVolume p = backend_fill S ''Could not unmount %1'' [TextArg p]"

fun loop_operation :: "LoopContext \<Rightarrow> string" where
  "loop_operation ReadingThroughLoop = ''Could not read the drive through the formatting area''"
| "loop_operation ReachingLoopDriver =
     ''Could not reach the Linux loop driver at /dev/loop-control, which formatting needs''"
| "loop_operation SettingUpLoop = ''Could not set up the temporary area used to format the drive''"
| "loop_operation PreparingPartition = ''Could not make the new partition available to the formatter''"
| "loop_operation FinishingVolume = ''Could not finish writing the new volume to the drive''"
| "loop_operation ClosingLoop =
     ''The new volume was written, but its temporary formatting area could not be closed''"

fun loop_advice :: "LoopContext \<Rightarrow> string" where
  "loop_advice ReadingThroughLoop = ''Try the restore again''"
| "loop_advice ReachingLoopDriver = ''Make sure the loop module is loaded (modprobe loop) and try again''"
| "loop_advice SettingUpLoop =
     ''Close other disk tools that may be holding loop devices, such as GNOME Disks, and try again''"
| "loop_advice PreparingPartition = ''Unplug the drive, plug it back in and try again''"
| "loop_advice FinishingVolume =
     ''Unplug the drive, plug it back in and check whether the volume appears; if it does not, '' @ ''run the restore again''"
| "loop_advice ClosingLoop = ''Unplug the drive and plug it back in; this does not damage the drive''"

section \<open>Every error\<close>

fun closed_use :: "ClosedUse \<Rightarrow> string" where
  "closed_use NothingChecked = ''%1 is not open, so nothing could be checked on it.''"
| "closed_use PartitionNotChecked = ''%1 is not open, so the new partition could not be checked.''"
| "closed_use NothingWritten = ''%1 is not open, so nothing could be written to it.''"
| "closed_use TableNotReread = ''%1 is not open, so its partition table could not be re-read.''"

fun file_system_message :: "speech \<Rightarrow> FileSystemRefusal \<Rightarrow> RestoreMessage" where
  "file_system_message S (NoFat32ForSector s) =
     backend_fill S ''A disk with %1-byte sectors cannot be formatted as FAT32.'' [NumberArg (int (unat s))]"
| "file_system_message S (TooLargeForFat32 maximum s) =
     backend_fill S (''FAT32 cannot address a volume larger than %1 with %2-byte sectors, and '' @
         ''the rest of the drive would be left unused. Choose exFAT or NTFS.'')
       [MessageArg (formatByteSizeMessage S maximum), NumberArg (int (unat s))]"
| "file_system_message S (TooSmallForFat32 minimum) =
     backend_fill S (''This drive is too small for a valid FAT32 filesystem; it needs at least '' @ ''%1. Choose exFAT.'')
       [MessageArg (formatByteSizeMessage S minimum)]"

text \<open>\<open>missing\<close> of \<open>resolveFormatTool\<close>; a double quote is the code unit 34.\<close>

definition quote :: string where "quote = [CHR 0x22]"

fun missing_tool :: "FileSystemType \<Rightarrow> string" where
  "missing_tool ExFat =
     ''mkfs.exfat was not found. Install exfatprogs (Debian/Ubuntu and Fedora: '' @ quote @ ''exfatprogs'' @ quote @
     '', Arch: '' @ quote @ ''exfatprogs'' @ quote @ '') and try again.''"
| "missing_tool Fat32 = ''mkfs.vfat was not found. Install dosfstools and try again.''"
| "missing_tool Ntfs =
     ''mkfs.ntfs was not found. Install ntfs-3g (Debian/Ubuntu: '' @ quote @ ''ntfs-3g'' @ quote @ '', '' @
     ''Fedora: '' @ quote @ ''ntfsprogs'' @ quote @ '', Arch: '' @ quote @ ''ntfs-3g'' @ quote @ '') and try again.''"
| "missing_tool Ext4 = ''mkfs.ext4 was not found. Install e2fsprogs and try again.''"

definition paragraph_break :: string where "paragraph_break = [CHR 0x0A, CHR 0x0A]"

definition tool_failed :: "speech \<Rightarrow> qstring \<Rightarrow> qstring \<Rightarrow> qstring \<Rightarrow> RestoreMessage" where
  "tool_failed S tool part output' =
     (if output' = [] then
        backend_fill S (''%1 failed to format the new volume on %2. Unplug the drive, plug it back in '' @
            ''and run the restore again.'') [TextArg tool, TextArg part]
      else
        backend_fill S (''%1 failed to format the new volume on %2: %3'' @ paragraph_break @
            ''Unplug the drive, plug it back in and run the restore again.'')
          [TextArg tool, TextArg part, TextArg output'])"

text \<open>\<open>selected\<close> is the disk the user chose, \<open>judged\<close> the one the gate looked at.\<close>

fun linux_error_message :: "speech \<Rightarrow> DiskInfo \<Rightarrow> DiskInfo \<Rightarrow> RestoreError \<Rightarrow> RestoreMessage" where
  "linux_error_message S selected judged (NotSafe e) = both_texts (safety_text S judged e)"
| "linux_error_message S selected judged (NotTheSelectedDisk e) = both_texts (identity_text S selected judged e)"
| "linux_error_message S selected judged (NoLayout e) = both_texts (layout_text S e)"
| "linux_error_message S selected judged (TableRefused e) = both_texts (write_text S e)"
| "linux_error_message S selected judged (FileSystemRefused e) = file_system_message S e"
| "linux_error_message S selected judged (NotEnumerated e) = enumerate_message S e"
| "linux_error_message S selected judged (DeviceError c p e) = deviceErrorMessage S (device_context S c p) e"
| "linux_error_message S selected judged (LoopError c e) =
     loopErrorMessage S (backend_text S (loop_operation c)) e (backend_text S (loop_advice c))"
| "linux_error_message S selected judged (StillInUse p) =
     backend_fill S (''%1 is still in use. Close anything reading from the drive, make sure every '' @
         ''partition is unmounted, and try again.'') [TextArg p]"
| "linux_error_message S selected judged (NotADiskDevice p) = backend_fill S ''%1 is not a disk device.'' [TextArg p]"
| "linux_error_message S selected judged (NotOpen use' p) = backend_fill S (closed_use use') [TextArg p]"
| "linux_error_message S selected judged (NoInstanceNumber p) =
     backend_fill S (''%1 does not report which instance of the drive it is, so the tool cannot be sure this is '' @
         ''the disk you selected. Linux restores need kernel 5.15 or newer (check with `uname -r`).'') [TextArg p]"
| "linux_error_message S selected judged (AnotherInstance p) = both_texts (sequence_text S p)"
| "linux_error_message S selected judged (NotAWholeDisk p) =
     backend_fill S (''%1 is not listed under /sys/block as a whole disk. Select the drive itself, such as '' @
         ''/dev/sdb rather than /dev/sdb1.'') [TextArg p]"
| "linux_error_message S selected judged (NodeMoved p) =
     backend_fill S ''%1 no longer points at the disk that was selected. Refresh and select the USB again.'' [TextArg p]"
| "linux_error_message S selected judged (NoMediaReported p) =
     backend_fill S (''%1 reports no usable media. The drive may be empty, damaged, or not fully '' @ ''plugged in.'')
       [TextArg p]"
| "linux_error_message S selected judged (HoldsAnotherDrive p now before) =
     backend_fill S (''%1 now holds a %2 drive, not the %3 that was selected. Refresh and select the '' @ ''USB again.'')
       [TextArg p, MessageArg (formatByteSizeMessage S now), MessageArg (formatByteSizeMessage S before)]"
| "linux_error_message S selected judged (AnotherSectorSize p now before) =
     backend_fill S (''%1 uses %2-byte sectors, not the %3-byte sectors the layout was built for. '' @
         ''Refresh and select the USB again.'')
       [TextArg p, NumberArg (int (unat now)), NumberArg (int (unat before))]"
| "linux_error_message S selected judged (WriteProtected p) =
     backend_fill S (''%1 is write-protected and cannot be formatted. Check for a write-protect switch on the '' @ ''drive.'')
       [TextArg p]"
| "linux_error_message S selected judged (NotOnTheUsbBus p) = backend_fill S ''%1 is not on the USB bus.'' [TextArg p]"
| "linux_error_message S selected judged (NotAPartitionOf p disk) =
     backend_fill S (''%1 did not appear as a partition of /dev/%2. Unplug the drive, plug it back in and try '' @ ''again.'')
       [TextArg p, TextArg disk]"
| "linux_error_message S selected judged (DiskReplaced p) =
     backend_fill S (''%1 is not the drive the partition table was written to: a different disk took its '' @
         ''place during the restore.'') [TextArg p]"
| "linux_error_message S selected judged (StoppedAccepting p) =
     backend_fill S (''%1 stopped accepting data part way through the write. Unplug the drive, '' @
         ''plug it back in and try again; if it keeps happening the drive is damaged.'') [TextArg p]"
| "linux_error_message S selected judged (UnalignedZeroRange off n s) = both_texts (unaligned_text S off n s)"
| "linux_error_message S selected judged LoopAlreadySetUp =
     backend_text S (''A formatting area is already set up for this drive. Unplug the drive, plug it '' @
         ''back in and try again.'')"
| "linux_error_message S selected judged NotReadableForFormatting =
     backend_text S (''The drive could not be read for formatting. Unplug it, plug it back in and try '' @ ''again.'')"
| "linux_error_message S selected judged OutsideTheDrive =
     backend_text S (''The space set aside for the new volume is outside the drive or is not aligned to '' @
         ''its sectors. Refresh the list and select the drive again.'')"
| "linux_error_message S selected judged (HoldsSystemMount dev mount) =
     backend_fill S (''%1 is mounted at %2, which the running system needs. Pick a different '' @ ''drive.'')
       [TextArg dev, TextArg mount]"
| "linux_error_message S selected judged (ToolMissing fs) = backend_text S (missing_tool fs)"
| "linux_error_message S selected judged (ToolNotStarted tool) =
     backend_fill S (''Could not run %1, the tool that formats the drive. Check that it is still '' @
         ''installed and that the system allows it to run, then try again.'') [TextArg tool]"
| "linux_error_message S selected judged (ToolTimedOut tool) =
     backend_fill S (''%1 did not finish formatting after 15 minutes and was stopped. The drive may be partly '' @
         ''formatted: unplug it, plug it back in and run the restore again.'') [TextArg tool]"
| "linux_error_message S selected judged (ToolFailed tool part output') = tool_failed S tool part output'"
| "linux_error_message S selected judged (NothingToClear dev) =
     backend_fill S (''%1 reports too little space to clear its old partition signatures. Unplug the drive, '' @
         ''plug it back '' @ ''in and select it again; if it still reports a tiny size, the drive is damaged.'') [TextArg dev]"
| "linux_error_message S selected judged (NotReidentified dev) =
     backend_fill S (''The drive %1 was formatted, but it could not be re-identified afterwards. '' @
         ''Unplug it, plug it back in and check that it shows one new partition.'') [TextArg dev]"
| "linux_error_message S selected judged (PartitionDidNotAppear dev) =
     backend_fill S (''The new partition did not appear on %1 within %2 seconds. Unplug the drive, '' @
         ''plug it back in and run the restore again.'') [TextArg dev, NumberArg 30]"

lemmas linux_message_defs = deviceErrorMessage_def device_reason_def loopErrorMessage_def loop_reason_def errno_message_def
  tool_failed_def

lemma alike_context [alike_intro]: "untranslated S \<Longrightarrow> alike (device_context S c p)"
  by (cases c) (simp_all add: alike_intro)

lemma alike_file_system [alike_intro]: "untranslated S \<Longrightarrow> alike (file_system_message S e)"
  by (cases e) (simp_all add: alike_intro)

text \<open>Every error of a Linux restore is worded the same in both renderings: under an untranslated catalog the text for
the window is the text for the log.\<close>

lemma linux_errors_read_alike:
  assumes "untranslated S"
  shows "display (linux_error_message S selected judged e) = english (linux_error_message S selected judged e)"
proof -
  note same = text_modes [OF assms, where mode = DisplayText]
  have "alike (linux_error_message S selected judged e)"
    using assms by (cases e) (auto simp: linux_message_defs Let_def same intro!: alike_intro)
  then show ?thesis by (simp add: alike_def)
qed

end
