(* ===== verification/Windows_Messages.thy ===== *)
theory Windows_Messages
  imports Linux_Messages Windows_Session
begin

text \<open>
  What a Windows restore says when it fails: the wording of Windows codes in \<open>src/win/windows_util.cpp\<close>, of
  \<open>HRESULT\<close>s in \<open>src/win/wmi.cpp\<close>, and the text of every \<open>WindowsError\<close> where the code words it.
  \<open>setRestoreError\<close> keeps the two texts of a message and not how it was built (\<open>settled\<close>).
\<close>

section \<open>Windows codes\<close>

text \<open>
  \<open>QString::arg\<close> of one text: every occurrence of the lowest-numbered place marker, one or two digits after a percent
  sign and perhaps an \<open>L\<close>, is replaced. A marker is its number and its length.
\<close>

fun marker_at :: "qstring \<Rightarrow> (nat \<times> nat) option" where
  "marker_at (p # rest) =
     (if p \<noteq> qc (CHR ''%'') then None
      else
        let (skip, digits) = (case rest of c # cs \<Rightarrow> if c = qc (CHR ''L'') then (2, cs) else (1, rest) | [] \<Rightarrow> (1, []))
        in case digits of
             [] \<Rightarrow> None
           | d # ds \<Rightarrow>
               if \<not> is_decimal d then None
               else (case ds of
                   d2 # _ \<Rightarrow> if is_decimal d2 then Some (unat (d - 0x30) * 10 + unat (d2 - 0x30), skip + 2)
                             else Some (unat (d - 0x30), skip + 1)
                 | [] \<Rightarrow> Some (unat (d - 0x30), skip + 1)))"
| "marker_at [] = None"

fun lowest_marker :: "qstring \<Rightarrow> nat option" where
  "lowest_marker [] = None"
| "lowest_marker (c # cs) =
     (case (marker_at (c # cs), lowest_marker cs) of
        (None, r) \<Rightarrow> r
      | (Some (n, _), None) \<Rightarrow> Some n
      | (Some (n, _), Some m) \<Rightarrow> Some (min n m))"

fun replace_marker :: "nat \<Rightarrow> nat \<Rightarrow> qstring \<Rightarrow> qstring \<Rightarrow> qstring" where
  "replace_marker k skip a [] = []"
| "replace_marker k (Suc skip) a (c # cs) = replace_marker k skip a cs"
| "replace_marker k 0 a (c # cs) =
     (case marker_at (c # cs) of
        Some (n, len) \<Rightarrow> if n = k then a @ replace_marker k (len - 1) a cs else c # replace_marker k 0 a cs
      | None \<Rightarrow> c # replace_marker k 0 a cs)"

definition text_arg :: "qstring \<Rightarrow> qstring \<Rightarrow> qstring" where
  "text_arg s a = (case lowest_marker s of None \<Rightarrow> s | Some k \<Rightarrow> replace_marker k 0 a s)"

definition windowsErrorMessage :: "speech \<Rightarrow> win_code \<Rightarrow> qstring" where
  "windowsErrorMessage S code =
     (let m = system_message S code; n = number (unat code)
      in if m = [] then text_arg (qs ''Windows error %1'') n else text_arg (text_arg (qs ''%1 (error %2)'') m) n)"

text \<open>The reason and the advice of a code the program explains.\<close>

definition explained :: "speech \<Rightarrow> win_code \<Rightarrow> (RestoreMessage \<times> RestoreMessage) option" where
  "explained S code =
     (if code = ERROR_SHARING_VIOLATION \<or> code = ERROR_LOCK_VIOLATION \<or> code = ERROR_BUSY then
        Some (backend_text S ''another program is still using the drive'',
          backend_text S ''Close any files, File Explorer windows and programs using the drive and try again'')
      else if code = ERROR_WRITE_PROTECT then
        Some (backend_text S ''the drive is write-protected'',
          backend_text S (''If it has a write-protect switch, turn it off and try again. If it has none, the drive may have made '' @
            ''itself read-only and need replacing''))
      else if code = ERROR_ACCESS_DENIED then
        Some (backend_text S ''Windows refused access to the drive'',
          backend_text S (''Close any programs using the drive. If it has a write-protect switch, turn it off and try again. '' @
            ''If it stays read-only, the drive may have made itself read-only and need replacing''))
      else if code = ERROR_IO_DEVICE \<or> code = ERROR_CRC \<or> code = ERROR_READ_FAULT \<or> code = ERROR_WRITE_FAULT then
        Some (backend_text S ''the drive could not complete the read or write'',
          backend_text S (''Unplug it, plug it back in and try again; if it keeps happening, try another USB port or replace the '' @
            ''drive''))
      else if code = ERROR_NOT_READY then
        Some (backend_text S ''the drive is not ready'',
          backend_text S ''Unplug the drive, plug it back in and try again'')
      else if code = ERROR_DEV_NOT_EXIST \<or> code = ERROR_DEVICE_NOT_CONNECTED \<or> code = ERROR_NO_MEDIA_IN_DRIVE \<or>
          code = ERROR_FILE_NOT_FOUND \<or> code = ERROR_PATH_NOT_FOUND then
        Some (backend_text S ''the drive is no longer available'',
          backend_text S ''Plug it back in, refresh the list and select it again'')
      else if code = ERROR_DISK_FULL \<or> code = ERROR_HANDLE_DISK_FULL then
        Some (backend_text S ''the drive ran out of room before its reported size'',
          backend_text S ''Unplug it, plug it back in and try again; if it happens again the drive may be smaller than it claims'')
      else None)"

definition windowsDeviceErrorMessage :: "speech \<Rightarrow> RestoreMessage \<Rightarrow> win_code \<Rightarrow> RestoreMessage" where
  "windowsDeviceErrorMessage S context' code =
     (case explained S code of
        None \<Rightarrow>
          plain_fill S ''%1: %2. %3.''
            [MessageArg context', TextArg (windowsErrorMessage S code),
             MessageArg (backend_text S ''Unplug the drive, plug it back in and try again'')]
      | Some (reason, advice) \<Rightarrow>
          backend_fill S ''%1: %2 (Windows error %3). %4.''
            [MessageArg context', MessageArg reason, NumberArg (int (unat code)), MessageArg advice])"

definition windowsRestoreErrorMessage ::
  "speech \<Rightarrow> RestoreMessage \<Rightarrow> RestoreMessage \<Rightarrow> RestoreMessage option \<Rightarrow> RestoreMessage" where
  "windowsRestoreErrorMessage S context' detail' advice =
     (let nextStep = (case advice of
            None \<Rightarrow> backend_text S ''Close any programs using the drive, unplug it, plug it back in and run the restore again''
          | Some a \<Rightarrow> a)
      in if english detail' = [] then plain_fill S ''%1. %2.'' [MessageArg context', MessageArg nextStep]
         else plain_fill S ''%1. %2.%3''
           [MessageArg context', MessageArg nextStep,
            MessageArg (backend_fill S ([CHR 0x0A, CHR 0x0A] @ ''Details: %1'') [MessageArg detail'])])"

definition windowsErrorDetails :: "speech \<Rightarrow> RestoreMessage \<Rightarrow> win_code \<Rightarrow> RestoreMessage" where
  "windowsErrorDetails S context' code =
     plain_fill S ''%1: %2'' [MessageArg context', TextArg (windowsErrorMessage S code)]"

section \<open>WMI\<close>

definition wbemStatusText :: "u32 \<Rightarrow> string option" where
  "wbemStatusText r =
     map_of [(0x80041001, ''WMI reported a general failure''), (0x80041002, ''WMI object not found''),
       (0x80041003, ''Access denied by WMI''), (0x80041005, ''WMI parameter type mismatch''),
       (0x80041008, ''Invalid parameter passed to WMI''), (0x8004100E, ''Invalid WMI namespace''),
       (0x80041010, ''Invalid WMI class''), (0x80041017, ''Invalid WMI query''),
       (0x80041021, ''The WMI provider is not available''), (0x80041033, ''The WMI provider is shutting down'')] r"

text \<open>Eight hexadecimal digits.\<close>

definition hex_digit :: "nat \<Rightarrow> qchar" where
  "hex_digit d = (if d < 10 then 0x30 + of_nat d else 0x61 + of_nat (d - 10))"

definition hex8 :: "u32 \<Rightarrow> qstring" where
  "hex8 r = map (\<lambda>k. hex_digit (unat r div 16 ^ k mod 16)) [7, 6, 5, 4, 3, 2, 1, 0]"

definition hresultMessage :: "speech \<Rightarrow> u32 \<Rightarrow> RestoreMessage" where
  "hresultMessage S r =
     plain_fill S ''%1 (HRESULT 0x%2)''
       [case wbemStatusText r of Some t \<Rightarrow> MessageArg (backend_text S t) | None \<Rightarrow> TextArg (com_message S r),
        TextArg (hex8 r)]"

fun wmi_context_message :: "speech \<Rightarrow> wmi_context \<Rightarrow> RestoreMessage" where
  "wmi_context_message S ComNotInitialized = backend_text S ''CoInitializeEx failed''"
| "wmi_context_message S NoLocator = backend_text S ''CoCreateInstance(IWbemLocator) failed''"
| "wmi_context_message S NotConnected = backend_text S ''WMI ConnectServer failed''"
| "wmi_context_message S NoProxyBlanket = backend_text S ''CoSetProxyBlanket failed''"
| "wmi_context_message S (QueryFailed wql) = backend_fill S ''WMI query failed: %1'' [TextArg wql]"
| "wmi_context_message S (EnumerationFailed wql) = backend_fill S ''WMI result enumeration failed: %1'' [TextArg wql]"
| "wmi_context_message S (ObjectNotRead path) = backend_fill S ''WMI GetObject failed for %1'' [TextArg path]"
| "wmi_context_message S (ClassNotRead cls) = backend_fill S ''WMI GetObject failed for class %1'' [TextArg (qs cls)]"
| "wmi_context_message S (MethodNotFound cls m) =
     backend_fill S ''WMI GetMethod failed for %1.%2'' [TextArg (qs cls), TextArg (qs m)]"
| "wmi_context_message S NoInputObject = backend_text S ''WMI input parameter object creation failed''"
| "wmi_context_message S (NoInputSignature m) =
     backend_fill S ''WMI method has no input parameter signature: %1'' [TextArg (qs m)]"
| "wmi_context_message S (InputFailed name) = plain_message name"
| "wmi_context_message S (MethodFailed cls m) =
     backend_fill S ''WMI ExecMethod failed for %1.%2'' [TextArg (qs cls), TextArg (qs m)]"

text \<open>\<open>setError\<close>, and the text \<open>setValue\<close> sets itself.\<close>

fun wmi_error_message :: "speech \<Rightarrow> wmi_error \<Rightarrow> RestoreMessage" where
  "wmi_error_message S (WmiError (InputFailed name) r) =
     backend_fill S ''WMI input parameter failed: %1: %2'' [TextArg name, MessageArg (hresultMessage S r)]"
| "wmi_error_message S (WmiError c r) =
     plain_fill S ''%1: %2'' [MessageArg (wmi_context_message S c), MessageArg (hresultMessage S r)]"

section \<open>Every error\<close>

fun raw_operation_text :: "raw_operation \<Rightarrow> string" where
  "raw_operation_text OpenTheDrive = ''open the drive''"
| "raw_operation_text ReadDeviceNumber = ''read the device number''"
| "raw_operation_text ReadStorageProperties = ''read the storage properties''"
| "raw_operation_text ReadDriveSize = ''read the drive size''"
| "raw_operation_text CheckWriteAccess = ''check write access''"
| "raw_operation_text EnableExtendedIo = ''enable extended disk I/O''"
| "raw_operation_text RefreshProperties = ''refresh the disk properties''"
| "raw_operation_text ResetTable = ''reset the partition table''"
| "raw_operation_text WriteGptTable = ''write the GPT partition table''"
| "raw_operation_text WriteMbrTable = ''write the MBR partition table''"
| "raw_operation_text ReadTable = ''read the partition table''"
| "raw_operation_text CreateGptPartition = ''create the GPT partition''"
| "raw_operation_text CreateMbrPartition = ''create the MBR partition''"
| "raw_operation_text SeekToPosition = ''seek to the write position''"

fun restore_operation_message :: "speech \<Rightarrow> restore_operation \<Rightarrow> RestoreMessage" where
  "restore_operation_message S VerifyTheDrive = backend_text S ''verify the selected drive''"
| "restore_operation_message S RefreshTheMetadata = backend_text S ''refresh Windows disk metadata''"
| "restore_operation_message S DetachTheVolumes = backend_text S ''detach the existing volumes and drive letters''"
| "restore_operation_message S DeleteThePartitions = backend_text S ''delete the existing partitions''"
| "restore_operation_message S FindTheNewVolume = backend_text S ''find the new volume''"
| "restore_operation_message S VerifyTheNewVolume = backend_text S ''verify the new volume''"
| "restore_operation_message S AssignALetter = backend_text S ''assign a drive letter''"
| "restore_operation_message S (FormatTheVolume fs) =
     backend_fill S ''format as %1'' [TextArg (qs (fileSystemTypeName fs))]"

fun restore_advice :: "speech \<Rightarrow> restore_operation \<Rightarrow> RestoreMessage option" where
  "restore_advice S DetachTheVolumes =
     Some (backend_text S ''Close any files, File Explorer windows and programs using the drive and run the restore again'')"
| "restore_advice S AssignALetter =
     Some (backend_text S (''If every drive letter is in use, eject another drive to free one. Then unplug this drive, plug it '' @
       ''back in and run the restore again''))"
| "restore_advice S _ = None"

fun format_refusal_message :: "speech \<Rightarrow> FormatRefusal \<Rightarrow> RestoreMessage" where
  "format_refusal_message S (LinuxFormatRefusal e) = file_system_message S e"
| "format_refusal_message S WindowsFat32TooLarge =
     backend_text S (''Windows cannot format FAT32 on a volume larger than 32 GB. Choose exFAT or '' @ ''NTFS.'')"
| "format_refusal_message S (WindowsFat32TooSmall s) =
     backend_fill S (''Windows cannot format FAT32 on a volume this small with %1-byte sectors. '' @ ''Choose exFAT or NTFS.'')
       [NumberArg (int (unat s))]"
| "format_refusal_message S WindowsNoExt4 = backend_text S ''ext4 is not available on Windows.''"

definition settled :: "RestoreMessage \<Rightarrow> RestoreMessage" where
  "settled m = Message (english m) (display m) Plain"

definition disk_fill :: "speech \<Rightarrow> string \<Rightarrow> u32 \<Rightarrow> RestoreMessage" where
  "disk_fill S src n = backend_fill S src [NumberArg (int (unat n))]"

definition method_refused :: "speech \<Rightarrow> string \<Rightarrow> string \<Rightarrow> u32 \<Rightarrow> wmi_error option \<Rightarrow> qstring \<Rightarrow> RestoreMessage" where
  "method_refused S cls m v e status =
     (let what = TextArg (qs cls @ qs ''.'' @ qs m); value' = NumberArg (int (unat v));
          detail' = (case e of Some e \<Rightarrow> wmi_error_message S e | None \<Rightarrow> plain_message status)
      in if english detail' = [] then backend_fill S ''%1 failed with return value %2.'' [what, value']
         else backend_fill S ''%1 failed with return value %2. %3'' [what, value', MessageArg detail'])"

definition job_not_successful :: "speech \<Rightarrow> u64 option \<Rightarrow> qstring \<Rightarrow> RestoreMessage" where
  "job_not_successful S code description =
     message_trimmed (backend_fill S ''The Windows storage job did not confirm success (error code %1). %2''
       [MessageArg (case code of Some c \<Rightarrow> plain_message (number (unat c)) | None \<Rightarrow> backend_text S ''unavailable''),
        TextArg description])"

fun win_error_message :: "speech \<Rightarrow> DiskInfo \<Rightarrow> DiskInfo \<Rightarrow> WindowsError \<Rightarrow> RestoreMessage" where
  "win_error_message S selected judged (TargetUnsafe e) = both_texts (safety_text S judged e)"
| "win_error_message S selected judged (TargetDiffers e) = both_texts (identity_text S selected judged e)"
| "win_error_message S selected judged (LayoutImpossible e) = both_texts (layout_text S e)"
| "win_error_message S selected judged (FormatImpossible e) = format_refusal_message S e"
| "win_error_message S selected judged (RawFailed op n code) =
     windowsDeviceErrorMessage S (backend_fill S ''Could not %1 on disk %2''
       [MessageArg (backend_text S (raw_operation_text op)), NumberArg (int (unat n))]) code"
| "win_error_message S selected judged (DriveNotOpen n) =
     disk_fill S ''Could not verify disk %1 because the drive is not open. Run the restore again.'' n"
| "win_error_message S selected judged (HandleNotADisk n) =
     disk_fill S (''Could not verify disk %1 because the opened device is not a disk. '' @
       ''Refresh the list and select the USB drive again.'') n"
| "win_error_message S selected judged (HandleOfAnotherDisk other n) =
     backend_fill S (''The opened handle points at disk %1, not the whole of disk %2. '' @
       ''Refresh the list and select the USB drive again.'') [NumberArg (int (unat other)), NumberArg (int (unat n))]"
| "win_error_message S selected judged (DiskNotOnUsb n) =
     disk_fill S ''Disk %1 is not on the USB bus. Refresh the list and select a USB drive.'' n"
| "win_error_message S selected judged (AnotherSerial n) =
     disk_fill S (''Disk %1 reports a different serial number than the disk that was selected. '' @
       ''Refresh the list and select the USB drive again.'') n"
| "win_error_message S selected judged (AnotherDiskSize n now before) =
     backend_fill S (''Disk %1 now reports %2 instead of the %3 that was selected. '' @
       ''Refresh the list and select the USB drive again.'')
       [NumberArg (int (unat n)), MessageArg (formatByteSizeMessage S now), MessageArg (formatByteSizeMessage S before)]"
| "win_error_message S selected judged (AnotherDiskSector n now before) =
     backend_fill S (''Disk %1 reports %2-byte sectors instead of the %3-byte sectors that '' @
       ''were selected. Refresh the list and select the USB drive again.'')
       [NumberArg (int (unat n)), NumberArg (int (unat now)), NumberArg (int (unat before))]"
| "win_error_message S selected judged (LockFailed n code) =
     windowsDeviceErrorMessage S (disk_fill S ''Could not lock the drive on disk %1'' n) code"
| "win_error_message S selected judged (TooSmallToClear n) =
     disk_fill S ''Disk %1 is too small to clear safely. Select a larger USB drive.'' n"
| "win_error_message S selected judged (UnalignedClearing n off len s) =
     backend_fill S ''Could not clear old signatures on disk %1: %2 Restart the app and try again.''
       [NumberArg (int (unat n)), MessageArg (both_texts (unaligned_text S off len s))]"
| "win_error_message S selected judged (ClearingFailed n code) =
     windowsDeviceErrorMessage S (disk_fill S ''Could not clear old signatures on disk %1'' n) code"
| "win_error_message S selected judged (WritesNotAccepted n) =
     disk_fill S (''Disk %1 stopped accepting writes while clearing old signatures. '' @
       ''Unplug the drive, plug it back in and try again; if it keeps happening, '' @
       ''try another USB port or replace the drive.'') n"
| "win_error_message S selected judged (NoTableGuid n) =
     disk_fill S (''Could not generate an identifier for a partition table on disk %1. Run the '' @ ''restore again.'') n"
| "win_error_message S selected judged (NoPartitionGuid n) =
     disk_fill S ''Could not generate a partition identifier for disk %1. Run the restore again.'' n"
| "win_error_message S selected judged (NoMbrSignature n) =
     disk_fill S ''Could not generate an MBR signature for disk %1. Run the restore again.'' n"
| "win_error_message S selected judged (IncompleteTable n) =
     disk_fill S (''Windows returned an incomplete partition table for disk %1. Unplug the drive, plug it back '' @
       ''in and try again.'') n"
| "win_error_message S selected judged (PartitionStillListed n) =
     disk_fill S (''Windows still lists a partition on disk %1 after an empty partition table was '' @
       ''written. Unplug the USB disk, plug it back in and run the restore again.'') n"
| "win_error_message S selected judged (PartitionImpossible n e) =
     backend_fill S (''Could not create a partition on disk %1: %2 Select a supported partition layout '' @
       ''or a different USB drive.'') [NumberArg (int (unat n)), MessageArg (both_texts (layout_text S e))]"
| "win_error_message S selected judged (StorageFailed e) = wmi_error_message S e"
| "win_error_message S selected judged (DiskNotReported n) = disk_fill S ''Windows did not report USB disk %1.'' n"
| "win_error_message S selected judged (DiskNoLongerUsb n) =
     disk_fill S (''Disk %1 is no longer reported as a USB disk. Refresh and '' @ ''select the USB again.'') n"
| "win_error_message S selected judged (MethodRefused cls m v e status) = method_refused S cls m v e status"
| "win_error_message S selected judged JobWithoutPath =
     backend_text S ''Windows queued a storage operation without a job to monitor. Restore stopped.''"
| "win_error_message S selected judged (JobUnconfirmed e) =
     backend_fill S ''Could not confirm that the Windows storage job completed. Restore stopped. %1''
       [MessageArg (wmi_error_message S e)]"
| "win_error_message S selected judged JobStateUnusable =
     backend_text S ''The Windows storage job reported no usable state. Restore stopped.''"
| "win_error_message S selected judged (JobNotSuccessful code description) = job_not_successful S code description"
| "win_error_message S selected judged (JobFailedInState s) =
     backend_fill S ''A Windows storage job failed with state %1.'' [NumberArg (int (unat s))]"
| "win_error_message S selected judged (JobFailedSaying t) =
     backend_fill S ''A Windows storage job failed: %1'' [TextArg t]"
| "win_error_message S selected judged (JobTimedOut s) =
     backend_fill S ''A Windows storage job did not finish within %1 seconds.'' [NumberArg (int s)]"
| "win_error_message S selected judged (VolumeNotOpened v code) =
     windowsErrorDetails S (backend_fill S ''Could not open volume %1 before restore'' [TextArg v]) code"
| "win_error_message S selected judged (VolumeNotLocked v code) =
     windowsErrorDetails S (backend_fill S ''Could not lock volume %1 before restore'' [TextArg v]) code"
| "win_error_message S selected judged (VolumeNotDismounted v code) =
     windowsErrorDetails S (backend_fill S ''Could not dismount volume %1 before restore'' [TextArg v]) code"
| "win_error_message S selected judged (MountPointKept p code) =
     windowsErrorDetails S (backend_fill S ''Could not remove mount point %1'' [TextArg p]) code"
| "win_error_message S selected judged (NoNewVolume n s) =
     backend_fill S ''Windows did not report a new volume for disk %1 within %2 seconds.''
       [NumberArg (int (unat n)), NumberArg (int s)]"
| "win_error_message S selected judged NoFreeLetter = backend_text S ''No available drive letter was found.''"
| "win_error_message S selected judged (VolumeNotMounted p code) =
     windowsErrorDetails S (backend_fill S ''Could not mount the restored volume at %1'' [TextArg p]) code"
| "win_error_message S selected judged (VolumeNotReopened code) =
     windowsErrorDetails S (backend_text S ''Could not reopen the restored volume'') code"
| "win_error_message S selected judged (VolumeMovedAway n) =
     disk_fill S ''The restored volume no longer belongs to disk %1.'' n"
| "win_error_message S selected judged (NoWindowsFormatter fs) =
     backend_fill S ''Windows cannot format a volume as %1.'' [TextArg (qs (fileSystemTypeName fs))]"
| "win_error_message S selected judged NoAllocationUnit =
     backend_text S ''No valid FAT32 allocation unit was selected before formatting.''"
| "win_error_message S selected judged (VolumeNotReported n) =
     disk_fill S ''Windows did not report the restored volume for disk %1.'' n"
| "win_error_message S selected judged (FormatNotSeen fs lab root) =
     backend_fill S ''The format completed, but Windows did not report a %1 volume labelled %2 at %3.''
       [TextArg (qs fs), TextArg lab, TextArg root]"
| "win_error_message S selected judged (CouldNot op n e) =
     windowsRestoreErrorMessage S (backend_fill S ''Could not %1 on disk %2''
       [MessageArg (restore_operation_message S op), NumberArg (int (unat n))])
       (settled (win_error_message S selected judged e)) (restore_advice S op)"
| "win_error_message S selected judged (StoppedBeforeFormatting n e) =
     backend_fill S (''Stopped before formatting disk %1: %2 If the original USB disk was unplugged, its '' @
       ''partition table has already been rewritten. Plug it back in and run the restore on '' @ ''it again.'')
       [NumberArg (int (unat n)), MessageArg (settled (win_error_message S selected judged e))]"

section \<open>What the texts say\<close>

lemmas windows_message_defs = windowsDeviceErrorMessage_def windowsRestoreErrorMessage_def windowsErrorDetails_def
  hresultMessage_def disk_fill_def settled_def

lemma alike_settled [alike_intro]: "alike m \<Longrightarrow> alike (settled m)"
  by (simp add: alike_def settled_def)

lemma alike_explained:
  assumes "untranslated S" "explained S code = Some (reason, advice)"
  shows "alike reason" "alike advice"
  using assms by (auto simp: explained_def intro: alike_text split: if_splits)

lemma alike_device_error [alike_intro]:
  assumes "untranslated S" "alike context'"
  shows "alike (windowsDeviceErrorMessage S context' code)"
proof (cases "explained S code")
  case None
  then show ?thesis using assms by (simp add: windowsDeviceErrorMessage_def alike_intro)
next
  case (Some explanation)
  obtain reason advice where "explanation = (reason, advice)" by (cases explanation)
  then show ?thesis using Some alike_explained [OF assms(1)] assms
    by (simp add: windowsDeviceErrorMessage_def alike_intro)
qed

lemma alike_restore_error [alike_intro]:
  assumes "untranslated S" "alike context'" "alike detail'" "\<And>a. advice = Some a \<Longrightarrow> alike a"
  shows "alike (windowsRestoreErrorMessage S context' detail' advice)"
  using assms by (cases advice) (simp_all add: windowsRestoreErrorMessage_def Let_def alike_intro)

lemma alike_details [alike_intro]: "alike context' \<Longrightarrow> alike (windowsErrorDetails S context' code)"
  by (simp add: windowsErrorDetails_def alike_intro)

lemma alike_hresult [alike_intro]: "untranslated S \<Longrightarrow> alike (hresultMessage S r)"
  by (cases "wbemStatusText r") (simp_all add: hresultMessage_def alike_intro)

lemma alike_wmi_context [alike_intro]: "untranslated S \<Longrightarrow> alike (wmi_context_message S c)"
  by (cases c) (simp_all add: alike_intro)

lemma alike_wmi [alike_intro]: "untranslated S \<Longrightarrow> alike (wmi_error_message S e)"
  by (cases "(S, e)" rule: wmi_error_message.cases) (simp_all add: alike_intro)

lemma alike_operation [alike_intro]: "untranslated S \<Longrightarrow> alike (restore_operation_message S op)"
  by (cases op) (simp_all add: alike_intro)

lemma alike_advice: "untranslated S \<Longrightarrow> restore_advice S op = Some a \<Longrightarrow> alike a"
  by (cases op) (auto simp: alike_intro)

lemma alike_format_refusal [alike_intro]: "untranslated S \<Longrightarrow> alike (format_refusal_message S e)"
  by (cases e) (simp_all add: alike_intro)

lemma alike_method_refused [alike_intro]: "untranslated S \<Longrightarrow> alike (method_refused S cls m v e status)"
  by (cases e) (simp_all add: method_refused_def Let_def alike_intro)

lemma alike_job [alike_intro]: "untranslated S \<Longrightarrow> alike (job_not_successful S code description)"
  by (cases code) (simp_all add: job_not_successful_def alike_intro)

lemma windows_errors_alike:
  assumes "untranslated S"
  shows "alike (win_error_message S selected judged e)"
proof (induction e)
  case (CouldNot op n e)
  then show ?case using assms alike_advice [OF assms] by (auto intro!: alike_intro)
qed (use assms text_modes [OF assms, where mode = DisplayText] in \<open>auto simp: disk_fill_def intro!: alike_intro\<close>)

section \<open>The code in the text\<close>

lemma marker_at_append:
  assumes "marker_at (c # cs) = None" "\<not> is_decimal r" "r \<noteq> qc (CHR ''L'')"
  shows "marker_at (c # cs @ r # rs) = None"
  using assms by (cases cs; cases "tl cs") (auto simp: Let_def split: if_splits list.splits)

lemma text_without_places:
  assumes "lowest_marker m = None" "\<not> is_decimal r" "r \<noteq> qc (CHR ''L'')"
  shows "lowest_marker (m @ r # rs) = lowest_marker (r # rs)"
    and "replace_marker k 0 a (m @ r # rs) = m @ replace_marker k 0 a (r # rs)"
  using assms
proof (induction m)
  case (Cons c cs)
  { case 1
    then show ?case using Cons marker_at_append [of c cs r rs] by (auto split: option.splits)
  next
    case 2
    then show ?case using Cons marker_at_append [of c cs r rs] by (auto split: option.splits) }
qed simp_all

lemma code_place:
  "lowest_marker (qs '' (error %2)'') = Some 2"
  "replace_marker 2 0 a (qs '' (error %2)'') = qs '' (error '' @ a @ qs '')''"
  by (simp_all add: qs_def qc_def is_decimal_def)

lemma first_place: "text_arg (qs ''%1 (error %2)'') m = m @ qs '' (error %2)''"
  by (simp add: text_arg_def qs_def qc_def is_decimal_def)

text \<open>A Windows text that has no place markers is shown whole, with the code after it.\<close>

lemma windows_code_is_shown:
  assumes "system_message S code \<noteq> []" "lowest_marker (system_message S code) = None"
  shows "windowsErrorMessage S code =
    system_message S code @ qs '' (error '' @ number (unat code) @ qs '')''"
proof -
  let ?m = "system_message S code"
  have rest: "qs '' (error %2)'' = qc (CHR '' '') # qs ''(error %2)''" by (simp add: qs_def)
  have "\<not> is_decimal (qc (CHR '' ''))" "qc (CHR '' '') \<noteq> qc (CHR ''L'')" by (simp_all add: is_decimal_def qc_def)
  note split' = text_without_places [OF assms(2) this, where rs = "qs ''(error %2)''", folded rest]
  show ?thesis using assms(1) by (simp add: windowsErrorMessage_def Let_def first_place text_arg_def [of "_ @ _"] split' code_place)
qed

text \<open>
  \<open>windowsErrorMessage\<close> puts the text of Windows in and then fills the lowest place of the result, wherever it is.
  Windows words error 34 with places of its own, which \<open>FORMAT_MESSAGE_IGNORE_INSERTS\<close> leaves in the text.
\<close>

definition wrong_disk_text :: qstring where
  "wrong_disk_text = qs ''The wrong diskette is in the drive. Insert %2 (Volume Serial Number: %3) into drive %1.''"

lemma wrong_disk_filled:
  "text_arg (wrong_disk_text @ qs '' (error %2)'') (qs ''34'') =
   qs (''The wrong diskette is in the drive. Insert %2 (Volume Serial Number: %3) into drive 34. '' @ ''(error %2)'')"
  by code_simp

text \<open>C31. The text of error 34 takes the code: it lands in the sentence of Windows as a drive name, and the place meant for
it stays an unfilled marker.\<close>

theorem windows_code_is_lost:
  "windowsErrorMessage (S\<lparr>system_message := \<lambda>_. wrong_disk_text\<rparr>) 34 =
   qs (''The wrong diskette is in the drive. Insert %2 (Volume Serial Number: %3) into drive 34. '' @ ''(error %2)'')"
proof -
  have "number 34 = qs ''34''" by code_simp
  moreover have "wrong_disk_text \<noteq> []" by code_simp
  ultimately show ?thesis by (simp add: windowsErrorMessage_def Let_def first_place wrong_disk_filled)
qed

text \<open>A speech to try the texts with: untranslated, numbers in decimal, one sentence for every code.\<close>

definition plain_speech :: speech where
  "plain_speech = \<lparr>translate = \<lambda>_. qs, fill = foldl text_arg, locale_decimal = \<lambda>_ p q. number (p div q),
     error_string = \<lambda>_. qs ''Input/output error'', system_message = \<lambda>_. qs ''Access is denied.'',
     com_message = \<lambda>_. qs ''Unspecified error''\<rparr>"

lemma windows_code_is_shown_witness:
  "windowsErrorMessage plain_speech 5 = qs ''Access is denied. (error 5)''"
proof -
  have m: "system_message plain_speech 5 = qs ''Access is denied.''" by (simp add: plain_speech_def)
  have "qs ''Access is denied.'' \<noteq> []" "lowest_marker (qs ''Access is denied.'') = None"
    "qs ''Access is denied.'' @ qs '' (error '' @ number (unat (5 :: win_code)) @ qs '')'' = qs ''Access is denied. (error 5)''"
    by code_simp+
  then show ?thesis using windows_code_is_shown [of plain_speech 5, unfolded m] by simp
qed

end
