(* ===== verification/Window_View.thy ===== *)
theory Window_View
  imports Main_Window Windows_Messages
begin

text \<open>
  What the user reads: the texts \<open>src/gui/main_window.cpp\<close> puts on its widgets for a state of the window, the page
  \<open>src/gui/restore_dialog.cpp\<close> shows before anything is erased, and what the log says of a request. The state is that of
  \<open>Main_Window\<close>; a text is \<open>tr\<close> of the source, filled with its arguments.
\<close>

section \<open>Texts of the window\<close>

definition window_tr :: "speech \<Rightarrow> string \<Rightarrow> qstring" where
  "window_tr S src = translate S ''usbrestore::MainWindow'' src"

definition window_fill :: "speech \<Rightarrow> string \<Rightarrow> qstring list \<Rightarrow> qstring" where
  "window_fill S src args = fill S (window_tr S src) args"

fun joined :: "qstring \<Rightarrow> qstring list \<Rightarrow> qstring" where
  "joined sep [] = []"
| "joined sep [t] = t"
| "joined sep (t # ts) = t @ sep @ joined sep ts"

text \<open>The dash and the middle dots of the sources are single code units.\<close>

definition joinOrDash :: "qstring list \<Rightarrow> qstring" where
  "joinOrDash values = (if values = [] then [0x2014] else joined (qs '', '') values)"

definition entry_format :: qstring where
  "entry_format = (let dot = qs ''  '' @ [0xB7] @ qs ''  ''
     in qs ''%1'' @ dot @ qs ''%2'' @ [0x0A] @ qs ''%3'' @ dot @ qs ''%4'' @ dot @ qs ''%5'')"

definition diskListEntry :: "speech \<Rightarrow> DiskInfo \<Rightarrow> qstring" where
  "diskListEntry S disk =
     (let name = if disk_name disk = [] then window_tr S ''USB disk'' else disk_name disk;
          mounts = if mountPoints disk = [] then window_tr S ''not mounted'' else joined (qs '', '') (mountPoints disk)
      in fill S entry_format
           [identifier_of disk, name, formatByteSize S (disk_size disk) DisplayText,
            partition_style_text S (partitionStyle disk) DisplayText, mounts])"

text \<open>\<open>renderDisks\<close>: the rows with their tool tips, and the count under them.\<close>

definition disk_row :: "speech \<Rightarrow> unicode \<Rightarrow> RestoreGuard \<Rightarrow> DiskInfo \<Rightarrow> qstring \<times> qstring option" where
  "disk_row S U guard disk =
     (diskListEntry S disk, map_option (\<lambda>e. safety_text S disk e DisplayText) (isSafeRestoreTarget U disk guard))"

definition disk_rows :: "speech \<Rightarrow> unicode \<Rightarrow> MainWindow \<Rightarrow> (qstring \<times> qstring option) list" where
  "disk_rows S U w = map (disk_row S U (window_guard w)) (disks w)"

definition disk_count :: "speech \<Rightarrow> MainWindow \<Rightarrow> qstring" where
  "disk_count S w =
     (if disks w = [] then window_tr S ''No USB disks detected. Plug the drive in and select Refresh.''
      else if length (disks w) = 1 then window_tr S ''1 USB disk detected.''
      else window_fill S ''%1 USB disks detected.'' [number (length (disks w))])"

text \<open>\<open>renderSelectedDisk\<close>: the title and the values under it; a line feed is the code unit 10.\<close>

definition line_feed :: string where "line_feed = [CHR 0x0A]"

definition selected_texts :: "speech \<Rightarrow> MainWindow \<Rightarrow> qstring \<times> qstring" where
  "selected_texts S w =
     (case selectedDisk w of
        None \<Rightarrow> (window_tr S ''No disk selected'', window_tr S ''Only disks reported on the USB bus are listed.'')
      | Some disk \<Rightarrow>
          (describeDisk S disk DisplayText,
           window_fill S (''Bus: %1    Current layout: %2    Sector size: %3 bytes'' @ line_feed @ ''Filesystems: %4'' @
               line_feed @ ''Mounted at: %5'' @ line_feed @ ''Volume labels: %6'')
             [bus_text S (busType disk) DisplayText, partition_style_text S (partitionStyle disk) DisplayText,
              number (unat (sectorSize disk)), joinOrDash (fileSystems disk), joinOrDash (mountPoints disk),
              joinOrDash (labels disk)]))"

section \<open>The status\<close>

text \<open>The sentence of the badge; a horizontal ellipsis in it is written as three dots, as in the source.\<close>

fun status_sentence :: "speech \<Rightarrow> status_text \<Rightarrow> qstring" where
  "status_sentence S Scanning = window_tr S ''Scanning for USB disks...''"
| "status_sentence S ScanFailed = window_tr S ''Could not scan for USB disks.''"
| "status_sentence S SelectADisk = window_tr S ''Select a USB disk to restore.''"
| "status_sentence S WillNotBeRestored = window_tr S ''This disk will not be restored.''"
| "status_sentence S CannotBeUsed = window_tr S ''This restore configuration cannot be used on this disk.''"
| "status_sentence S CheckTheDisk = window_tr S ''Check this is the right disk.''"
| "status_sentence S (ReadyToRestore disk style fs) =
     window_fill S ''Ready to restore %1 as %2 %3.''
       [describeDisk S disk DisplayText, style_text style, qs (fileSystemTypeName fs)]"
| "status_sentence S (RestoringDisk name) = window_fill S ''Restoring %1...'' [name]"

text \<open>The text under it; a refusal speaks of the selected disk.\<close>

definition about_disk :: "MainWindow \<Rightarrow> (DiskInfo \<Rightarrow> qstring) \<Rightarrow> qstring" where
  "about_disk w f = (case selectedDisk w of Some disk \<Rightarrow> f disk | None \<Rightarrow> [])"

fun detail_sentence :: "speech \<Rightarrow> MainWindow \<Rightarrow> status_detail \<Rightarrow> qstring" where
  "detail_sentence S w NoDetail = []"
| "detail_sentence S w (ScanProblem t) = t"
| "detail_sentence S w NothingPlugged = window_tr S ''Nothing to restore until a USB disk is plugged in.''"
| "detail_sentence S w (RefusedDisk e) = about_disk w (\<lambda>disk. safety_text S disk e DisplayText)"
| "detail_sentence S w (RefusedLayout e) = layout_text S e DisplayText"
| "detail_sentence S w (RefusedFormat e) = display (format_refusal_message S e)"
| "detail_sentence S w (LargeDisk n) = about_disk w (\<lambda>disk. largeRestoreTargetWarning S disk DisplayText)"
| "detail_sentence S w (DiskContents labels') = window_fill S ''Contents: %1'' [joinOrDash labels']"

definition status_label :: "speech \<Rightarrow> MainWindow \<Rightarrow> qstring" where
  "status_label S w = statusBadgePrefix (status w) @ status_sentence S (statusText w)"

definition status_detail_label :: "speech \<Rightarrow> MainWindow \<Rightarrow> qstring" where
  "status_detail_label S w = detail_sentence S w (statusDetail w)"

definition plan_text :: "speech \<Rightarrow> PartitionStyle \<Rightarrow> FileSystemType \<Rightarrow> qstring" where
  "plan_text S style fs =
     window_fill S ''Erases all contents. Creates one %1 partition formatted %2, labelled %3.''
       [style_text style, qs (fileSystemTypeName fs), RestoreVolumeLabel]"

text \<open>The box \<open>startRestore\<close> opens when the disk or the configuration is refused: its title and the reason.\<close>

definition refusal_box :: "speech \<Rightarrow> DiskService \<Rightarrow> unicode \<Rightarrow> MainWindow \<Rightarrow> (qstring \<times> qstring) option" where
  "refusal_box S svc U w =
     (case selectedDisk w of
        None \<Rightarrow> None
      | Some disk \<Rightarrow>
          map_option (\<lambda>reason. (window_tr S ''Restore refused'', detail_sentence S w reason))
            (case isSafeRestoreTarget U disk (window_guard w) of
               Some e \<Rightarrow> Some (RefusedDisk e)
             | None \<Rightarrow> configuration_refusal svc w disk))"

section \<open>The page before the restore\<close>

definition dialog_tr :: "speech \<Rightarrow> string \<Rightarrow> qstring" where
  "dialog_tr S src = translate S ''usbrestore::RestoreDialog'' src"

definition dialog_fill :: "speech \<Rightarrow> string \<Rightarrow> qstring list \<Rightarrow> qstring" where
  "dialog_fill S src args = fill S (dialog_tr S src) args"

definition request_words :: "RestoreRequest \<Rightarrow> qstring list" where
  "request_words request =
     [style_text (request_style request), qs (fileSystemTypeName (request_fileSystem request)), volumeLabel request]"

text \<open>The labels of the constructor of \<open>RestoreDialog\<close> that name the disk and what happens to it, from top to bottom.\<close>

record confirmation_page =
  target_title :: qstring
  target_note :: qstring
  erase_title :: qstring
  erase_warning :: qstring
  erase_plan :: qstring
  erase_contents :: qstring
  large_warning :: "qstring option"
  acknowledgement :: qstring

definition confirmation_of :: "speech \<Rightarrow> RestoreRequest \<Rightarrow> confirmation_page" where
  "confirmation_of S request =
     (let disk = request_disk request; large = largeRestoreTargetWarning S disk DisplayText
      in \<lparr>target_title = describeDisk S disk DisplayText,
          target_note = dialog_fill S ''%1  /  %2  /  Label: %3'' (request_words request),
          erase_title = dialog_tr S ''This cannot be undone.'',
          erase_warning = dialog_tr S ''Every partition and file on this drive will be permanently erased.'',
          erase_plan = dialog_fill S ''Creates one %1 partition formatted %2 and labelled %3.'' (request_words request),
          erase_contents =
            dialog_fill S (''Mounted at: %1'' @ line_feed @ ''Volume labels: %2'')
              [joinOrDash (mountPoints disk), joinOrDash (labels disk)],
          large_warning = (if large = [] then None else Some large),
          acknowledgement =
            dialog_fill S (''I understand that everything on %1'' @ line_feed @ ''will be permanently erased.'')
              [identifier_of disk]\<rparr>)"

text \<open>The two lines \<open>beginRestore\<close> logs.\<close>

definition request_log :: "speech \<Rightarrow> RestoreRequest \<Rightarrow> qstring list" where
  "request_log S request =
     (let disk = request_disk request; comma = qs '', ''
      in [fill S (qs ''Restore requested for %1 as %2 %3'')
            [describeDisk S disk EnglishText, style_text (request_style request),
             qs (fileSystemTypeName (request_fileSystem request))],
          fill S (qs ''Target details '' @ [0x2014] @
              qs ('' device %1, bus %2, sector size %3, mounted at [%4], '' @ ''labels [%5]''))
            [deviceId disk, bus_text S (busType disk) EnglishText, number (unat (sectorSize disk)),
             joined comma (mountPoints disk), joined comma (labels disk)]])"

section \<open>Fixed texts\<close>

text \<open>\<open>privilegeHint\<close> on Linux and on Windows; \<open>path\<close> is \<open>applicationFilePath\<close>.\<close>

definition service_tr :: "speech \<Rightarrow> string \<Rightarrow> qstring" where
  "service_tr S src = translate S ''usbrestore::DiskService'' src"

definition linux_privilegeHint :: "speech \<Rightarrow> qstring \<Rightarrow> qstring" where
  "linux_privilegeHint S path =
     fill S (service_tr S (''USB Restoration Tool cannot get permission to restore USB disks.'' @ line_feed @ line_feed @
         ''Install it, so that it can ask for permission when a restore starts, or start it again with sudo:'' @
         line_feed @ line_feed @ ''    sudo %1'')) [path]"

definition windows_privilegeHint :: "speech \<Rightarrow> qstring" where
  "windows_privilegeHint S =
     service_tr S (''USB Restoration Tool needs Administrator permission to restore USB disks.'' @ line_feed @ line_feed @
       ''Close this window and start the app again, approving the Windows permission prompt.'')"

text \<open>The privilege badge of \<open>applyTranslatedText\<close>: its text and its tool tip.\<close>

fun privilege_badge :: "speech \<Rightarrow> bool \<Rightarrow> qstring \<Rightarrow> PrivilegeMode \<Rightarrow> qstring \<times> qstring" where
  "privilege_badge S on_windows hint Elevated =
     (qs (if on_windows then ''ADMINISTRATOR'' else ''ROOT''),
      window_tr S ''Raw disk access needs elevated permission, and this process runs with it.'')"
| "privilege_badge S on_windows hint Helper =
     (window_tr S ''USER'',
      window_tr S (''The app runs as an ordinary user. When a restore starts, the system asks for permission '' @
        ''and a separate root helper does the writing.''))"
| "privilege_badge S on_windows hint NoPrivilege = (window_tr S ''NO ACCESS'', hint)"

text \<open>
  The other texts of \<open>applyTranslatedText\<close> and \<open>applyActivityDialogText\<close>: the widget, what is set on it and the text, in
  the order of the code. An ampersand marks the shortcut.
\<close>

definition fixed_texts :: "speech \<Rightarrow> Language \<Rightarrow> Theme \<Rightarrow> (string \<times> string \<times> qstring) list" where
  "fixed_texts S lang th =
     (let tr = window_tr S
      in [(''subtitle'', ''text'', tr ''A fresh start for your USB drive.''),
          (''activityButton'', ''text'', tr ''Activity''),
          (''activityButton'', ''toolTip'', tr ''Every step of this session, and a link to the log file.''),
          (''languageButton'', ''text'', translate S ''usbrestore::Language'' (languageButtonText lang)),
          (''themeButton'', ''text'', translate S ''usbrestore::Theme'' (themeButtonText th)),
          (''aboutButton'', ''text'', tr ''About''),
          (''diskCard'', ''title'', tr ''01 / Select a drive''),
          (''diskList'', ''accessibleName'', tr ''Detected USB disks''),
          (''refreshButton'', ''text'', tr ''&Refresh''),
          (''detailCard'', ''title'', tr ''Drive details''),
          (''restoreCard'', ''title'', tr ''02 / Set up your restore''),
          (''partitionLabel'', ''text'', tr ''Partition layout''),
          (''filesystemLabel'', ''text'', tr ''Filesystem''),
          (''styleCombo'', ''GPT item'', tr ''GPT (recommended)''),
          (''styleCombo'', ''MBR item'', tr ''MBR (older devices)''),
          (''styleCombo'', ''accessibleName'', tr ''Partition style''),
          (''styleCombo'', ''toolTip'',
            tr (''GPT is what current systems expect and what Windows itself writes.'' @ line_feed @
              ''MBR is for devices that predate it and refuse to read a GPT stick:'' @ line_feed @
              ''BIOS-era PCs, car stereos, older TVs and set-top boxes.'')),
          (''fileSystemCombo'', ''accessibleName'', tr ''Filesystem''),
          (''fileSystemCombo'', ''toolTip'',
            tr (''exFAT (recommended) works on Windows, Linux and macOS.'' @ line_feed @
              ''FAT32 is for older devices; files cannot be larger than 4 GB.'' @ line_feed @
              ''NTFS is Windows'' @ [CHR 0x27] @ '' own filesystem; some cameras and consoles will not read it.'' @ line_feed @
              ''ext4 is Linux-only; Windows will not mount it without extra software.'')),
          (''statusLabel'', ''accessibleName'', tr ''Restore status''),
          (''restoreButton'', ''text'', tr ''Restore USB''),
          (''restoreButton'', ''accessibleName'', tr ''Restore the selected USB disk''),
          (''warningTitle'', ''text'', tr ''Restoring erases every partition and file on the selected drive.''),
          (''warningDetail'', ''text'',
            tr (''Check the model and capacity before confirming. Boot, system, offline, read-only and non-USB disks '' @
              ''are refused.'')),
          (''log'', ''accessibleName'', tr ''Activity log''),
          (''activityDialog'', ''windowTitle'', tr ''Activity''),
          (''activityCaption'', ''text'',
            tr (''Every step of this session. The same lines are written to the log '' @ ''file, which survives a restart.'')),
          (''openLogButton'', ''text'', tr ''Open log file''),
          (''activityCloseButton'', ''text'', tr ''Close'')])"

text \<open>The file system of the data of the current item, if there is a box; \<open>fileSystemChoice\<close> is its value.\<close>

definition selectedFileSystem :: "u16 option \<Rightarrow> FileSystemType" where
  "selectedFileSystem data =
     (case data of
        None \<Rightarrow> ExFat
      | Some code \<Rightarrow>
          if isKnownFileSystem code
          then (case find (\<lambda>fs. file_system_code fs = code) [ExFat, Fat32, Ntfs, Ext4] of Some fs \<Rightarrow> fs | None \<Rightarrow> ExFat)
          else ExFat)"

lemma selected_item: "selectedFileSystem (Some (file_system_code fs)) = fs"
  by (cases fs) (simp_all add: selectedFileSystem_def isKnownFileSystem_def FileSystemNamesTable_def)

text \<open>The items of the file system box, and the box \<open>closeEvent\<close> opens when it refuses.\<close>

definition file_system_items :: "DiskService \<Rightarrow> string list" where
  "file_system_items svc = map fileSystemTypeLabel (supportedFileSystems svc)"

definition close_box :: "speech \<Rightarrow> DiskService \<Rightarrow> bool \<Rightarrow> MainWindow \<Rightarrow> (qstring \<times> qstring) option" where
  "close_box S svc threadRunning w =
     (case closeEvent svc threadRunning w of
        CloseAccepted \<Rightarrow> None
      | CloseRefused writing \<Rightarrow>
          Some (window_tr S ''Restore in progress'',
            if writing then window_tr S (''A restore is writing to the disk. Wait for it to finish before closing; '' @
                ''stopping now would leave the disk unusable.'')
            else window_tr S (''A restore is still running. Wait for it to finish before closing. '' @
                ''The disk has not been changed yet, but closing now would stop the restore.'')))"

end
