(* ===== verification/Window_Truth.thy ===== *)
theory Window_Truth
  imports Window_View Window_Properties
begin

text \<open>
  The window tells the truth: in every reachable state its status, its enabled widgets and its texts are those of the
  disks, the guard and the choices it holds now, so what the user reads before pressing the button is what the
  confirmation names and what the request carries.
\<close>

section \<open>A window that is up to date\<close>

definition truthful :: "DiskService \<Rightarrow> unicode \<Rightarrow> wording \<Rightarrow> MainWindow \<Rightarrow> bool" where
  "truthful svc U words w \<longleftrightarrow>
     (if restoreRunning w then \<not> restore_enabled w else updateRestoreState svc U words w = w)"

lemma refusal_of_fields:
  "styleChoice w = styleChoice w' \<Longrightarrow> fileSystemChoice w = fileSystemChoice w' \<Longrightarrow>
   configuration_refusal svc w disk = configuration_refusal svc w' disk"
  by (simp add: configuration_refusal_def selectedPartitionStyle_def cong: option.case_cong)

lemma choices_of_fields:
  "currentRow w = currentRow w' \<Longrightarrow> disks w = disks w' \<Longrightarrow> selectedDisk w = selectedDisk w'"
  "styleChoice w = styleChoice w' \<Longrightarrow> selectedPartitionStyle w = selectedPartitionStyle w'"
  by (simp_all add: selectedDisk_def selectedPartitionStyle_def)

definition same_inputs :: "MainWindow \<Rightarrow> MainWindow \<Rightarrow> bool" where
  "same_inputs w w' \<longleftrightarrow> restoreRunning w = restoreRunning w' \<and> scanning w = scanning w' \<and> scanError w = scanError w' \<and>
     currentRow w = currentRow w' \<and> disks w = disks w' \<and> window_guard w = window_guard w' \<and>
     styleChoice w = styleChoice w' \<and> fileSystemChoice w = fileSystemChoice w'"

text \<open>What \<open>updateRestoreState\<close> decides: whether the choices and the button can be used, and the status.\<close>

definition decided :: "DiskService \<Rightarrow> unicode \<Rightarrow> wording \<Rightarrow> MainWindow \<Rightarrow>
    bool \<times> bool \<times> StatusKind \<times> status_text \<times> status_detail" where
  "decided svc U words w =
     (let w' = updateRestoreState svc U words w
      in (combos_enabled w', restore_enabled w', status w', statusText w', statusDetail w'))"

lemma updateRestoreState_decides:
  assumes "\<not> restoreRunning w"
  shows "updateRestoreState svc U words w =
    (case decided svc U words w of (c, r, k, t, d) \<Rightarrow>
       w\<lparr>combos_enabled := c, restore_enabled := r, status := k, statusText := t, statusDetail := d\<rparr>)"
  using assms
  by (simp add: decided_def updateRestoreState_def setStatus_def Let_def split: option.split)

lemma decided_same:
  assumes "same_inputs w w'" "\<not> restoreRunning w"
  shows "decided svc U words w = decided svc U words w'"
proof -
  have eqs: "restoreRunning w = restoreRunning w'" "scanning w = scanning w'" "scanError w = scanError w'"
    "disks w = disks w'" "window_guard w = window_guard w'" "fileSystemChoice w = fileSystemChoice w'"
    "selectedDisk w = selectedDisk w'" "selectedPartitionStyle w = selectedPartitionStyle w'"
    "\<And>disk. configuration_refusal svc w disk = configuration_refusal svc w' disk"
    using assms choices_of_fields [of w w'] refusal_of_fields [of w w'] by (simp_all add: same_inputs_def)
  show ?thesis using assms(2)
    by (simp add: decided_def updateRestoreState_def setStatus_def Let_def eqs split: option.split)
qed

lemma truthful_decided:
  assumes "\<not> restoreRunning w"
  shows "truthful svc U words w \<longleftrightarrow>
    decided svc U words w = (combos_enabled w, restore_enabled w, status w, statusText w, statusDetail w)"
proof -
  have "(x = w) = (combos_enabled x = combos_enabled w \<and> restore_enabled x = restore_enabled w \<and> status x = status w \<and>
      statusText x = statusText w \<and> statusDetail x = statusDetail w)"
    if "x = w\<lparr>combos_enabled := c, restore_enabled := r, status := k, statusText := t, statusDetail := d\<rparr>" for x c r k t d
    using that by (cases w) auto
  then show ?thesis
    using assms updateRestoreState_decides [OF assms, of svc U words]
    by (auto simp: truthful_def split: prod.splits)
qed

lemma truthful_update [simp]: "\<not> restoreRunning w \<Longrightarrow> truthful svc U words (updateRestoreState svc U words w)"
proof -
  assume idle: "\<not> restoreRunning w"
  let ?w = "updateRestoreState svc U words w"
  have same: "same_inputs w ?w"
    using updateRestoreState_decides [OF idle, of svc U words] by (simp add: same_inputs_def split: prod.splits)
  then have "\<not> restoreRunning ?w" using idle by (simp add: same_inputs_def)
  then show ?thesis
    using truthful_decided [of ?w] decided_same [OF same idle, of svc U words] by (simp add: decided_def Let_def)
qed

text \<open>A change of nothing the status depends on keeps the window up to date.\<close>

lemma truthful_same:
  assumes "truthful svc U words w" "same_inputs w w'" "restore_enabled w' = restore_enabled w"
    and "\<not> restoreRunning w \<Longrightarrow> combos_enabled w' = combos_enabled w \<and> status w' = status w \<and> statusText w' = statusText w \<and>
      statusDetail w' = statusDetail w"
  shows "truthful svc U words w'"
proof (cases "restoreRunning w")
  case True
  then show ?thesis using assms by (simp add: truthful_def same_inputs_def)
next
  case False
  moreover have "\<not> restoreRunning w'" using False assms(2) by (simp add: same_inputs_def)
  ultimately show ?thesis
    using assms truthful_decided [of w] truthful_decided [of w'] decided_same [OF assms(2) False, of svc U words] by simp
qed

section \<open>Every handler keeps it\<close>

lemma truthful_updated:
  assumes "restoreRunning w \<Longrightarrow> \<not> restore_enabled w"
  shows "truthful svc U words (updateRestoreState svc U words w)"
proof (cases "restoreRunning w")
  case True
  then have "updateRestoreState svc U words w = w" by (simp add: updateRestoreState_def)
  then show ?thesis using True assms by (simp add: truthful_def)
qed simp

lemma truthful_idle_update: "truthful svc U words w \<Longrightarrow> truthful svc U words (updateRestoreState svc U words w)"
  by (rule truthful_updated) (simp add: truthful_def)

lemma truthful_running: "truthful svc U words w \<Longrightarrow> restoreRunning w \<Longrightarrow> \<not> restore_enabled w"
  by (simp add: truthful_def)

lemma truthful_on_dialog [simp]: "truthful svc U words w \<Longrightarrow> truthful svc U words (on_dialog f w)"
  "truthful svc U words w \<Longrightarrow> truthful svc U words (w\<lparr>restoreDialog := d\<rparr>)"
  by (erule truthful_same; simp add: on_dialog_def same_inputs_def)+

lemma truthful_refresh: "truthful svc U words w \<Longrightarrow> truthful svc U words (fst (refreshDisks svc U words w))"
  by (auto simp: refreshDisks_def intro: truthful_updated)

lemma truthful_scan: "truthful svc U words w \<Longrightarrow> truthful svc U words (fst (applyScan svc U words found e g w))"
  by (auto simp: applyScan_def onSelectionChanged_def renderDisks_def Let_def intro!: truthful_updated dest: truthful_running)

lemma truthful_stopped: "truthful svc U words (setRunning svc U words False w)"
  by (simp add: setRunning_def truthful_updated)

lemma truthful_begin: "truthful svc U words w \<Longrightarrow> truthful svc U words (fst (beginRestore svc U words request w))"
  by (simp add: beginRestore_def setRunning_def setStatus_def Let_def truthful_def)

lemma truthful_start: "truthful svc U words w \<Longrightarrow> truthful svc U words (fst (startRestore svc U words lang w))"
  by (auto simp: startRestore_def Let_def truthful_idle_update split: option.split)

lemma truthful_started:
  "startRestore svc U words lang w = (w', r, es) \<Longrightarrow> truthful svc U words w \<Longrightarrow> truthful svc U words w'"
  using truthful_start [of svc U words w lang] by simp

lemma truthful_cancel: "truthful svc U words w \<Longrightarrow> truthful svc U words (fst (cancelRestore svc w))"
  by (simp add: cancelRestore_def)

lemma truthful_progress:
  assumes "truthful svc U words w"
  shows "truthful svc U words (fst (onRestoreProgress now step totalSteps message w))"
proof -
  have "truthful svc U words (w\<lparr>restoreStep := step, stallNoticeShown := False\<rparr>)"
    by (rule truthful_same [OF assms]) (simp_all add: same_inputs_def)
  then show ?thesis by (simp add: onRestoreProgress_def Let_def split: option.split prod.split)
qed

lemma truthful_deliver:
  assumes "truthful svc U words w"
  shows "truthful svc U words (fst (deliver svc U words now s w))"
  using assms
  by (cases s) (simp_all add: truthful_progress onRestoreFailed_def onRestoreCancelled_def onRestoreFinished_def Let_def
      truthful_refresh truthful_stopped split_beta)

lemma truthful_tick:
  assumes "truthful svc U words w"
  shows "truthful svc U words (onStallTick svc seconds w)"
proof -
  have "truthful svc U words (w\<lparr>stallNoticeShown := b\<rparr>)" for b
    by (rule truthful_same [OF assms]) (simp_all add: same_inputs_def)
  then show ?thesis using assms by (simp add: onStallTick_def)
qed

lemma truthful_preferences:
  assumes "truthful svc U words w"
  shows "truthful svc U words (fst (cycleLanguage w))" "truthful svc U words (fst (toggleTheme w))"
proof -
  have "truthful svc U words (w\<lparr>language_setting := l\<rparr>)" "truthful svc U words (w\<lparr>theme_setting := t\<rparr>)" for l t
    by (rule truthful_same [OF assms]; simp add: same_inputs_def)+
  then show "truthful svc U words (fst (cycleLanguage w))" "truthful svc U words (fst (toggleTheme w))"
    using assms by (simp_all add: cycleLanguage_def toggleTheme_def)
qed

lemma truthful_retranslated: "truthful svc U words w \<Longrightarrow> truthful svc U words (retranslateUi svc U words w)"
  by (auto simp: retranslateUi_def onSelectionChanged_def renderDisks_def Let_def intro!: truthful_updated
      dest: truthful_running)

lemma truthful_signalled:
  assumes "truthful svc U words w"
  shows "truthful svc U words (fst (dialog_signalled svc U words request signals w))"
  using assms
  by (cases "(svc, U, words, request, signals, w)" rule: dialog_signalled.cases) (simp_all add: truthful_begin truthful_cancel)

lemma window_after_handler [simp]: "window (after_handler signals (w, es) a) = w"
proof -
  have "window (fold (carry_out signals) es b) = window b" for b
    by (induction es arbitrary: b) (simp_all, case_tac a, simp_all)
  then show ?thesis by (simp add: after_handler_def)
qed

lemma window_of_handler: "window (after_handler signals r a) = fst r"
  by (cases r) simp

lemma truthful_user:
  assumes "truthful svc U words (window a)"
  shows "truthful svc U words (window (user_acts svc U words action a))"
  using assms
  by (cases action) (auto simp: window_of_handler truthful_refresh truthful_preferences onSelectionChanged_def
      intro!: truthful_updated dest: truthful_running truthful_started split: prod.split option.split)

lemma reachable_truthful: "reachable svc U words a \<Longrightarrow> truthful svc U words (window a)"
proof (induction rule: reachable.induct)
  case (start settings)
  show ?case
    by (simp add: app_start_def window_of_handler refreshDisks_def new_window_def built_window_def loadSettings_def
        truthful_updated)
next
  case (step a b)
  from step.hyps(2) step.IH show ?case
    by cases (auto simp: window_of_handler truthful_user truthful_scan truthful_deliver truthful_tick truthful_retranslated
        dialog_acts_def truthful_signalled split: prod.split)
qed

section \<open>What the user reads before pressing the button\<close>

lemma truthful_enabled:
  assumes "truthful svc U words w" "restore_enabled w"
  obtains disk where "\<not> restoreRunning w" "\<not> scanning w" "selectedDisk w = Some disk"
    and "isSafeRestoreTarget U disk (window_guard w) = None" "configuration_refusal svc w disk = None"
    and "status w = (if isLargeRestoreTarget disk then WarningStatus else ReadyStatus)"
    and "statusText w = (if isLargeRestoreTarget disk then CheckTheDisk
           else ReadyToRestore disk (selectedPartitionStyle w) (fileSystemChoice w))"
    and "statusDetail w = (if isLargeRestoreTarget disk then LargeDisk (disk_size disk) else DiskContents (labels disk))"
proof -
  have idle: "\<not> restoreRunning w" using assms by (auto simp: truthful_def)
  then have d: "decided svc U words w = (combos_enabled w, True, status w, statusText w, statusDetail w)"
    using assms truthful_decided by simp
  show ?thesis
    using d idle that
    by (auto simp: decided_def updateRestoreState_def setStatus_def Let_def split: if_splits option.splits)
qed

lemma selected_row:
  assumes "selectedDisk w = Some disk"
  shows "disk_rows S U w ! nat (currentRow w) = disk_row S U (window_guard w) disk"
  using assms by (auto simp: selectedDisk_def disk_rows_def nat_less_iff split: if_splits)

text \<open>C6. Whenever the restore button can be used, in any reachable state, the window shows one disk for what pressing it
asks about: the selected row has no refusal for a tool tip, its title is the title of the confirmation, the badge says ready with
the layout and file system of the request, or warns of a large disk with the warning the confirmation repeats, and pressing it
opens the confirmation of exactly that request and no refusal.\<close>

theorem enabled_button_shows_the_target:
  assumes "reachable svc U words a" "restore_enabled (window a)"
  shows "\<exists>disk. let w = window a; request = window_request w lang disk; page = confirmation_of S request in
    selectedDisk w = Some disk \<and>
    disk_rows S U w ! nat (currentRow w) = (diskListEntry S disk, None) \<and>
    fst (selected_texts S w) = target_title page \<and>
    status_label S w =
      (if isLargeRestoreTarget disk then statusBadgePrefix WarningStatus @ window_tr S ''Check this is the right disk.''
       else status_sentence S (ReadyToRestore disk (request_style request) (request_fileSystem request))) \<and>
    (isLargeRestoreTarget disk \<longrightarrow> status_detail_label S w \<noteq> [] \<longrightarrow>
       large_warning page = Some (status_detail_label S w)) \<and>
    refusal_box S svc U w = None \<and>
    (\<not> dialog_shown a \<longrightarrow> fst (snd (startRestore svc U words lang w)) = Some request)"
proof -
  obtain disk where t: "\<not> restoreRunning (window a)" "\<not> scanning (window a)" "selectedDisk (window a) = Some disk"
    "isSafeRestoreTarget U disk (window_guard (window a)) = None" "configuration_refusal svc (window a) disk = None"
    "status (window a) = (if isLargeRestoreTarget disk then WarningStatus else ReadyStatus)"
    "statusText (window a) = (if isLargeRestoreTarget disk then CheckTheDisk
       else ReadyToRestore disk (selectedPartitionStyle (window a)) (fileSystemChoice (window a)))"
    "statusDetail (window a) = (if isLargeRestoreTarget disk then LargeDisk (disk_size disk) else DiskContents (labels disk))"
    by (rule truthful_enabled [OF reachable_truthful [OF assms(1)] assms(2)])
  have pressed: "\<not> dialog_shown a \<Longrightarrow> fst (snd (startRestore svc U words lang (window a))) = Some (window_request (window a) lang disk)"
    using t(1-5) by (simp add: startRestore_def dialog_shown_def)
  show ?thesis
    using t(3-8) pressed
    by (intro exI [of _ disk])
      (simp add: Let_def selected_row disk_row_def selected_texts_def confirmation_of_def window_request_def status_label_def
        status_detail_label_def about_disk_def refusal_box_def)
qed

theorem enabled_button_shows_the_target_witness:
  "\<exists>disk. selectedDisk (window stick_scanned) = Some disk \<and>
     refusal_box plain_speech linuxDiskService ascii_tables (window stick_scanned) = None \<and>
     disk_rows plain_speech ascii_tables (window stick_scanned) ! 0 = (diskListEntry plain_speech disk, None)"
  using enabled_button_shows_the_target [OF stick_scanned_reached stick_scanned_fields(9), of English plain_speech]
  by (auto simp: Let_def stick_scanned_fields(5))

end
