(* ===== verification/Window_Theme.thy ===== *)
theory Window_Theme
  imports App_Settings "HOL-Library.Sublist"
begin

text \<open>
  Colours and the style sheet, \<open>src/gui/theme.cpp\<close>, and the badge of \<open>refreshStatusBadge\<close>. The style sheet is the text of the
  source, line by line, with its tokens replaced one after the other, in the order of \<open>tokenReplace\<close>: the order matters
  where one token begins another. It is ASCII, so it is a \<open>string\<close>; a colour is its three bytes.
\<close>

section \<open>Palettes\<close>

type_synonym color = "u8 \<times> u8 \<times> u8"

record Palette =
  color_background :: color
  color_surface :: color
  color_surfaceAlt :: color
  color_border :: color
  color_text :: color
  color_mutedText :: color
  color_accent :: color
  color_accentHover :: color
  color_accentPressed :: color
  color_accentText :: color
  color_accentSoft :: color
  color_warningSurface :: color
  color_danger :: color
  color_dangerHover :: color
  color_dangerPressed :: color
  color_statusWarning :: color
  color_statusError :: color
  color_statusInfo :: color
  color_statusMuted :: color
  isDark :: bool

definition lightPalette :: Palette where
  "lightPalette =
     \<lparr>color_background = (0xF3, 0xF6, 0xF5), color_surface = (0xFF, 0xFF, 0xFF),
      color_surfaceAlt = (0xF0, 0xF4, 0xF3), color_border = (0xD5, 0xE0, 0xDC),
      color_text = (0x18, 0x32, 0x35), color_mutedText = (0x58, 0x6E, 0x6B),
      color_accent = (0x08, 0x7F, 0x70), color_accentHover = (0x06, 0x68, 0x58),
      color_accentPressed = (0x07, 0x57, 0x49), color_accentText = (0xFF, 0xFF, 0xFF),
      color_accentSoft = (0xDE, 0xF3, 0xEB), color_warningSurface = (0xFA, 0xF0, 0xDF),
      color_danger = (0xB9, 0x1C, 0x1C), color_dangerHover = (0x99, 0x1B, 0x1B),
      color_dangerPressed = (0x7F, 0x1D, 0x1D), color_statusWarning = (0x95, 0x55, 0x12),
      color_statusError = (0xB9, 0x1C, 0x1C), color_statusInfo = (0x07, 0x6C, 0x60),
      color_statusMuted = (0x58, 0x6E, 0x6B), isDark = False\<rparr>"

definition darkPalette :: Palette where
  "darkPalette =
     \<lparr>color_background = (0x10, 0x1C, 0x1F), color_surface = (0x18, 0x28, 0x2B),
      color_surfaceAlt = (0x20, 0x33, 0x36), color_border = (0x35, 0x4C, 0x4E),
      color_text = (0xED, 0xF6, 0xF2), color_mutedText = (0xA0, 0xB8, 0xB2),
      color_accent = (0x79, 0xE2, 0xBF), color_accentHover = (0xA3, 0xF5, 0xD7),
      color_accentPressed = (0x45, 0xC9, 0xA8), color_accentText = (0x10, 0x23, 0x26),
      color_accentSoft = (0x24, 0x48, 0x3F), color_warningSurface = (0x34, 0x2E, 0x23),
      color_danger = (0xC9, 0x34, 0x3E), color_dangerHover = (0xD6, 0x3B, 0x46),
      color_dangerPressed = (0xAF, 0x27, 0x33), color_statusWarning = (0xF2, 0xC0, 0x78),
      color_statusError = (0xFF, 0x9B, 0xA1), color_statusInfo = (0x79, 0xE2, 0xBF),
      color_statusMuted = (0xA0, 0xB8, 0xB2), isDark = True\<rparr>"

fun paletteFor :: "ColorScheme \<Rightarrow> Palette" where
  "paletteFor DarkScheme = darkPalette"
| "paletteFor LightScheme = lightPalette"

text \<open>\<open>QColor::name(HexRgb)\<close>.\<close>

definition hex_byte :: "u8 \<Rightarrow> string" where
  "hex_byte b = (let digits = ''0123456789abcdef'' in [digits ! (unat b div 16 mod 16), digits ! (unat b mod 16)])"

fun hex_color :: "color \<Rightarrow> string" where
  "hex_color (r, g, b) = CHR ''#'' # hex_byte r @ hex_byte g @ hex_byte b"

section \<open>Replacing the tokens\<close>

text \<open>\<open>QString::replace\<close> of a text that is not empty, from the left; the number is how much of a match is still to be passed.\<close>

fun replaced :: "string \<Rightarrow> string \<Rightarrow> nat \<Rightarrow> string \<Rightarrow> string" where
  "replaced before after k [] = []"
| "replaced before after (Suc k) (c # cs) = replaced before after k cs"
| "replaced before after 0 (c # cs) =
     (if take (length before) (c # cs) = before then after @ replaced before after (length before - 1) cs
      else c # replaced before after 0 cs)"

definition style_tokens :: "Palette \<Rightarrow> (string \<times> string) list" where
  "style_tokens p =
     [(''bg'', hex_color (color_background p)), (''surfaceAlt'', hex_color (color_surfaceAlt p)),
      (''surface'', hex_color (color_surface p)), (''border'', hex_color (color_border p)),
      (''mutedText'', hex_color (color_mutedText p)), (''text'', hex_color (color_text p)),
      (''accentHover'', hex_color (color_accentHover p)), (''accentPressed'', hex_color (color_accentPressed p)),
      (''accentText'', hex_color (color_accentText p)), (''accentSoft'', hex_color (color_accentSoft p)),
      (''warningSurface'', hex_color (color_warningSurface p)), (''accent'', hex_color (color_accent p)),
      (''dangerHover'', hex_color (color_dangerHover p)), (''dangerPressed'', hex_color (color_dangerPressed p)),
      (''danger'', hex_color (color_danger p)), (''statusError'', hex_color (color_statusError p)),
      (''chevron'', if isDark p then '':/icons/chevron-down-dark.svg'' else '':/icons/chevron-down-light.svg''),
      (''checkmark'', if isDark p then '':/icons/checkmark-dark.svg'' else '':/icons/checkmark-light.svg'')]"

definition tokenReplace :: "string \<Rightarrow> Palette \<Rightarrow> string" where
  "tokenReplace tpl p = fold (\<lambda>(token, v) s. replaced (CHR ''@'' # token) v 0 s) (style_tokens p) tpl"

definition quote_mark :: string where "quote_mark = [CHR 0x22]"

definition style_lines_1 :: "string list" where
  "style_lines_1 =
     [''QWidget {'', ''    font-family: 'Segoe UI', 'Noto Sans', sans-serif;'', ''    font-size: 10pt;'',
      ''    background: @bg;'', ''    color: @text;'', ''}'', '''', ''QGroupBox#card {'', ''    background: @surface;'',
      ''    border: 1px solid @border;'', ''    border-radius: 16px;'', ''    margin-top: 14px;'',
      ''    padding: 16px 14px 14px 14px;'', ''}'', ''QGroupBox#card::title {'', ''    subcontrol-origin: margin;'',
      ''    subcontrol-position: top left;'', ''    left: 14px;'', ''    padding: 0 8px;'', ''    color: @accent;'',
      ''    font-weight: 600;'', ''}'', '''', ''QLabel { background: transparent; }'',
      ''QLabel#title { font-size: 19pt; font-weight: 700; color: @text; }'', ''QLabel#subtitle { color: @mutedText; }'',
      ''QLabel#version { color: @mutedText; font-size: 9pt; }'',
      ''QLabel#detailTitle { color: @text; font-weight: 600; font-size: 11pt; }'',
      ''QLabel#fieldLabel { color: @mutedText; font-weight: 600; }'', ''QLabel#fieldValue { color: @text; }'',
      ''QLabel#footnote { color: @mutedText; }'',
      ''QLabel#restoreEyebrow { color: @accent; font-size: 8pt; font-weight: 700; }'',
      ''QLabel#restoreTitle { font-size: 20pt; font-weight: 700; }'',
      ''QLabel#restoreMessage { font-size: 11pt; font-weight: 600; }'',
      ''QLabel#restoreCounter { color: @accent; font-weight: 600; }'',
      ''QLabel#restoreCounter[state='' @ quote_mark @ ''error'' @ quote_mark @ ''] { color: @statusError; }'',
      ''QWidget#restoreStepIndicator { background: transparent; }'',
      ''QLabel#restoreClock, QLabel#restoreStepState, QLabel#restoreNotice { color: @mutedText; font-size: 9pt; }'',
      ''QFrame#restoreTarget {'', ''    background: @surface;'', ''    border: 1px solid @border;'',
      ''    border-radius: 12px;'', ''}'',
      ''QFrame#restoreStepRow { border: 1px solid transparent; border-radius: 8px; }'',
      ''QFrame#restoreStepRow[state='' @ quote_mark @ ''active'' @ quote_mark @ ''] { background: @accentSoft; border: 1px solid @accent; }'',
      ''QFrame#restoreStepRow[state='' @ quote_mark @ ''active'' @ quote_mark @ ''] QLabel#restoreStepTitle { font-weight: 700; }'',
      ''QFrame#restoreStepRow[state='' @ quote_mark @ ''active'' @ quote_mark @ ''] QLabel#restoreStepState { color: @accent; font-weight: 600; }'',
      ''QFrame#restoreStepRow[state='' @ quote_mark @ ''complete'' @ quote_mark @ ''] QLabel#restoreStepState { color: @accent; }'',
      ''QFrame#restoreStepRow[state='' @ quote_mark @ ''error'' @ quote_mark @ ''] QLabel#restoreStepState { color: @statusError; font-weight: 700; }'',
      ''QProgressBar#restoreStepProgress {'', ''    background: @surfaceAlt;'', ''    min-height: 6px;'',
      ''    max-height: 6px;'', ''    border: none;'', ''    border-radius: 3px;'', ''}'',
      ''QProgressBar#restoreStepProgress::chunk { background: @accent; border: none; border-radius: 3px; }'',
      ''QFrame#warningBanner {'', ''    background: @warningSurface;'', ''    border: 1px solid @border;'',
      ''    border-radius: 12px;'', ''}'', ''QLabel#warningTitle { font-weight: 600; }'',
      ''QToolTip { background: @surface; color: @text; border: 1px solid @border; padding: 6px; }'', ''QCheckBox {'',
      ''    background: transparent;'', ''    spacing: 10px;'', ''    padding: 6px;'',
      ''    border: 1px solid transparent;'', ''    border-radius: 8px;'', ''}'',
      ''QCheckBox:focus { border: 1px solid @accent; background: @surfaceAlt; }'', ''QCheckBox::indicator {'',
      ''    width: 20px;'', ''    height: 20px;'', ''    border: 2px solid @mutedText;'', ''    border-radius: 5px;'',
      ''    background: @surface;'', ''}'',
      ''QCheckBox::indicator:unchecked:hover { border-color: @accent; background: @accentSoft; }'',
      ''QCheckBox::indicator:checked {'', ''    background: @accent;'', ''    border-color: @accent;'',
      ''    image: url(@checkmark);'', ''}'',
      ''QCheckBox::indicator:checked:hover { background: @accentHover; border-color: @accentHover; }'']"

definition style_lines_2 :: "string list" where
  "style_lines_2 =
     ['''', ''QLabel#adminBadge {'', ''    background: @surfaceAlt;'', ''    border: 1px solid @border;'',
      ''    border-radius: 6px;'', ''    padding: 4px 8px;'', ''    color: @mutedText;'', ''    font-size: 8pt;'',
      ''    font-weight: 600;'', ''}'', '''', ''QComboBox {'', ''    background: @surfaceAlt;'',
      ''    border: 1px solid @border;'', ''    border-radius: 8px;'', ''    padding: 9px 12px;'',
      ''    min-height: 20px;'', ''    combobox-popup: 0;'', ''}'', ''QComboBox:hover { border: 1px solid @accent; }'',
      ''QComboBox:focus { border: 1px solid @accent; }'', ''QComboBox:disabled { color: @mutedText; }'',
      ''QComboBox::drop-down {'', ''    subcontrol-origin: padding;'', ''    subcontrol-position: center right;'',
      ''    width: 30px;'', ''    border: none;'', ''}'', ''QComboBox::down-arrow {'', ''    image: url(@chevron);'',
      ''    width: 14px;'', ''    height: 14px;'', ''    margin-right: 10px;'', ''}'', ''QComboBox QAbstractItemView {'',
      ''    background: @surface;'', ''    border: 1px solid @border;'', ''    border-radius: 8px;'',
      ''    padding: 4px;'', ''    outline: none;'', ''    selection-background-color: transparent;'',
      ''    selection-color: @accentText;'', ''}'', ''QComboBox QAbstractItemView::item {'', ''    padding: 0px 10px;'',
      ''    min-height: 30px;'', ''    border: none;'', ''    border-radius: 6px;'', ''    color: @text;'', ''}'',
      ''QComboBox QAbstractItemView::item:hover { background: @surfaceAlt; color: @text; }'',
      ''QComboBox QAbstractItemView::item:selected { background: @accent; color: @accentText; }'']"

definition style_lines_3 :: "string list" where
  "style_lines_3 =
     ['''', ''QListWidget {'', ''    background: @surfaceAlt;'', ''    border: 1px solid @border;'',
      ''    border-radius: 8px;'', ''    padding: 4px;'', ''    outline: none;'', ''}'', ''QListWidget::item {'',
      ''    padding: 12px;'', ''    margin: 2px;'', ''    border: 1px solid transparent;'', ''    border-radius: 6px;'',
      ''    color: @text;'', ''}'', ''QListWidget::item:hover { background: @surface; }'',
      ''QListWidget::item:selected {'', ''    background: @accentSoft;'', ''    border: 1px solid @accent;'',
      ''    color: @text;'', ''}'', ''QListWidget:focus { border: 1px solid @accent; }'', '''',
      ''QTextEdit#activityLog {'', ''    background: @surfaceAlt;'', ''    border: 1px solid @border;'',
      ''    border-radius: 8px;'', ''    padding: 8px;'', ''    color: @text;'', ''}'', '''', ''QPushButton {'',
      ''    background: @surfaceAlt;'', ''    color: @text;'', ''    border: 1px solid @border;'',
      ''    border-radius: 8px;'', ''    padding: 8px 16px;'', ''    font-weight: 600;'', ''}'',
      ''QPushButton:hover, QPushButton:focus { border: 1px solid @accent; color: @accent; }'',
      ''QPushButton:pressed { background: @border; }'',
      ''QPushButton:disabled { color: @mutedText; border: 1px solid @border; background: @surfaceAlt; }'']"

definition style_lines_4 :: "string list" where
  "style_lines_4 =
     ['''', ''QPushButton[variant='' @ quote_mark @ ''primary'' @ quote_mark @ ''] {'', ''    background: @accent;'',
      ''    color: @accentText;'', ''    border: 1px solid @accent;'', ''    padding: 10px 22px;'', ''}'',
      ''QPushButton[variant='' @ quote_mark @ ''primary'' @ quote_mark @ '']:hover { background: @accentHover; border: 1px solid @accentHover; color: @accentText; }'',
      ''QPushButton[variant='' @ quote_mark @ ''primary'' @ quote_mark @ '']:pressed { background: @accentPressed; border: 1px solid @accentPressed; }'',
      ''QPushButton[variant='' @ quote_mark @ ''primary'' @ quote_mark @ '']:disabled { background: @surfaceAlt; color: @mutedText; border: 1px solid @border; }'',
      '''', ''QPushButton[variant='' @ quote_mark @ ''danger'' @ quote_mark @ ''] {'', ''    background: @danger;'',
      ''    color: #ffffff;'', ''    border: 1px solid @danger;'', ''    padding: 10px 22px;'', ''}'',
      ''QPushButton[variant='' @ quote_mark @ ''danger'' @ quote_mark @ '']:hover { background: @dangerHover; border: 1px solid @dangerHover; color: #ffffff; }'',
      ''QPushButton[variant='' @ quote_mark @ ''danger'' @ quote_mark @ '']:pressed { background: @dangerPressed; border: 1px solid @dangerPressed; }'',
      ''QPushButton[variant='' @ quote_mark @ ''danger'' @ quote_mark @ '']:disabled { background: @surfaceAlt; color: @mutedText; border: 1px solid @border; }'',
      '''', ''QPushButton[variant='' @ quote_mark @ ''secondary'' @ quote_mark @ ''] {'', ''    background: @surfaceAlt;'',
      ''    color: @text;'', ''    border: 1px solid @border;'', ''}'',
      ''QPushButton[variant='' @ quote_mark @ ''secondary'' @ quote_mark @ '']:hover { border: 1px solid @accent; color: @accent; }'',
      ''QPushButton[variant='' @ quote_mark @ ''secondary'' @ quote_mark @ '']:pressed { background: @border; }'', '''',
      ''QPushButton[variant='' @ quote_mark @ ''text'' @ quote_mark @ ''] {'', ''    background: transparent;'',
      ''    color: @mutedText;'', ''    border: 1px solid transparent;'', ''    padding: 6px 8px;'',
      ''    font-weight: 600;'', ''}'',
      ''QPushButton[variant='' @ quote_mark @ ''text'' @ quote_mark @ '']:hover { color: @accent; background: @surfaceAlt; }'',
      ''QPushButton[variant='' @ quote_mark @ ''text'' @ quote_mark @ '']:pressed { background: @border; }'', '''',
      ''QLabel#statusBadge {'', ''    border-radius: 8px;'', ''    padding: 8px 12px;'', ''    font-weight: 700;'', ''}'',
      '''', ''QScrollBar:vertical {'', ''    background: transparent;'', ''    width: 10px;'', ''    margin: 0;'', ''}'',
      ''QScrollBar::handle:vertical {'', ''    background: @border;'', ''    border-radius: 5px;'',
      ''    min-height: 24px;'', ''}'', ''QScrollBar::add-line:vertical, QScrollBar::sub-line:vertical { height: 0; }'',
      ''QScrollBar::add-page:vertical, QScrollBar::sub-page:vertical { background: transparent; }'']"

definition style_lines :: "string list" where
  "style_lines = style_lines_1 @ style_lines_2 @ style_lines_3 @ style_lines_4"

text \<open>The raw string begins with a line feed and ends with one.\<close>

definition style_template :: string where
  "style_template = concat (map (\<lambda>l. CHR 0x0A # l) style_lines) @ [CHR 0x0A]"

definition buildStyleSheet :: "Palette \<Rightarrow> string" where
  "buildStyleSheet p = tokenReplace style_template p"

text \<open>What \<open>applyTheme\<close> sets: the roles of the palette and the style sheet.\<close>

definition applyTheme :: "bool \<Rightarrow> Theme \<Rightarrow> (string \<times> color) list \<times> string" where
  "applyTheme system_dark th =
     (let p = paletteFor (resolveColorScheme system_dark th)
      in ([(''Window'', color_background p), (''WindowText'', color_text p),
           (''Base'', color_surfaceAlt p), (''AlternateBase'', color_surface p),
           (''Text'', color_text p), (''Button'', color_surfaceAlt p),
           (''ButtonText'', color_text p), (''Highlight'', color_accent p),
           (''HighlightedText'', color_accentText p), (''ToolTipBase'', color_surface p),
           (''ToolTipText'', color_text p), (''PlaceholderText'', color_mutedText p),
           (''Disabled Text'', color_mutedText p), (''Disabled ButtonText'', color_mutedText p)],
          buildStyleSheet p))"

section \<open>The badge\<close>

fun statusBaseColor :: "StatusKind \<Rightarrow> Palette \<Rightarrow> color" where
  "statusBaseColor WarningStatus p = color_statusWarning p"
| "statusBaseColor BlockedStatus p = color_statusError p"
| "statusBaseColor ErrorStatus p = color_statusError p"
| "statusBaseColor ReadyStatus p = color_statusInfo p"
| "statusBaseColor RunningStatus p = color_statusInfo p"
| "statusBaseColor InfoStatus p = color_statusInfo p"

text \<open>The colour and its alpha.\<close>

definition statusBadgeBackground :: "StatusKind \<Rightarrow> Palette \<Rightarrow> color \<times> nat" where
  "statusBadgeBackground kind p = (statusBaseColor kind p, if isDark p then 48 else 28)"

definition statusBadgeText :: "StatusKind \<Rightarrow> Palette \<Rightarrow> color" where
  "statusBadgeText kind p = statusBaseColor kind p"

definition refreshStatusBadge :: "bool \<Rightarrow> Theme \<Rightarrow> StatusKind \<Rightarrow> qstring" where
  "refreshStatusBadge system_dark th kind =
     (let p = paletteFor (resolveColorScheme system_dark th);
          ((r, g, b), alpha) = statusBadgeBackground kind p; comma = qs '', ''
      in qs ''QLabel#statusBadge { background: rgba('' @ number (unat r) @ comma @ number (unat g) @ comma @
         number (unat b) @ comma @ number alpha @ qs ''); color: '' @ qs (hex_color (statusBadgeText kind p)) @
         qs ''; border-radius: 8px; padding: 8px 12px; font-weight: 700; }'')"

section \<open>All tokens at once\<close>

text \<open>The name after an at sign is the run of letters there; \<open>resolved\<close> puts the value of every known name in at once.\<close>

definition letter :: "char \<Rightarrow> bool" where
  "letter c = (let n = (of_char c :: nat) in 65 \<le> n \<and> n \<le> 90 \<or> 97 \<le> n \<and> n \<le> 122)"

fun token_names :: "string \<Rightarrow> string list" where
  "token_names [] = []"
| "token_names (c # cs) = (if c = CHR ''@'' then [takeWhile letter cs] else []) @ token_names cs"

fun resolved :: "(string \<Rightarrow> string option) \<Rightarrow> nat \<Rightarrow> string \<Rightarrow> string" where
  "resolved env k [] = []"
| "resolved env (Suc k) (c # cs) = resolved env k cs"
| "resolved env 0 (c # cs) =
     (if c = CHR ''@'' then
        (case env (takeWhile letter cs) of
           Some v \<Rightarrow> v @ resolved env (length (takeWhile letter cs)) cs
         | None \<Rightarrow> c # resolved env 0 cs)
      else c # resolved env 0 cs)"

lemma not_letter_at [simp]: "\<not> letter (CHR ''@'')"
  by (simp add: letter_def)

lemma replaced_skip: "replaced b v k s = replaced b v 0 (drop k s)"
proof (induction s arbitrary: k)
  case (Cons c cs)
  then show ?case by (cases k) simp_all
qed simp

lemma resolved_skip: "resolved env k s = resolved env 0 (drop k s)"
proof (induction s arbitrary: k)
  case (Cons c cs)
  then show ?case by (cases k) simp_all
qed simp

lemma drop_takeWhile: "drop (length (takeWhile P xs)) xs = dropWhile P xs"
  by (induction xs) auto

lemma resolved_at: "resolved env 0 (CHR ''@'' # cs) =
    (case env (takeWhile letter cs) of
       Some v \<Rightarrow> v @ resolved env 0 (dropWhile letter cs) | None \<Rightarrow> CHR ''@'' # resolved env 0 cs)"
  by (simp add: resolved_skip [of env "length _"] drop_takeWhile split: option.split)

lemma resolved_text: "CHR ''@'' \<notin> set v \<Longrightarrow> resolved env 0 (v @ s) = v @ resolved env 0 s"
  by (induction v) auto

lemma names_text: "CHR ''@'' \<notin> set v \<Longrightarrow> token_names (v @ s) = token_names s"
  by (induction v) auto

lemma letters_no_at: "\<forall>c \<in> set m. letter c \<Longrightarrow> CHR ''@'' \<notin> set m"
  using not_letter_at by blast

lemma takeWhile_letters: "CHR ''@'' \<notin> set (takeWhile letter cs)"
  using letters_no_at set_takeWhileD by metis

lemma resolved_none: "resolved Map.empty 0 s = s"
  by (induction s) simp_all

lemma names_empty: "token_names s = [] \<longleftrightarrow> CHR ''@'' \<notin> set s"
  by (induction s) auto

text \<open>A value that ends no name: it starts with no letter and holds no at sign.\<close>

definition inert :: "string \<Rightarrow> bool" where
  "inert v \<longleftrightarrow> v \<noteq> [] \<and> \<not> letter (hd v) \<and> CHR ''@'' \<notin> set v"

definition inert_env :: "(string \<Rightarrow> string option) \<Rightarrow> bool" where
  "inert_env env \<longleftrightarrow> (\<forall>m v. env m = Some v \<longrightarrow> inert v)"

lemma resolved_boundary:
  assumes "inert_env env" "s = [] \<or> \<not> letter (hd s)"
  shows "resolved env 0 s = [] \<or> \<not> letter (hd (resolved env 0 s))"
proof (cases s)
  case (Cons c cs)
  show ?thesis
  proof (cases "c = CHR ''@''")
    case True
    have "inert v" if "env (takeWhile letter cs) = Some v" for v using assms(1) that by (auto simp: inert_env_def)
    then show ?thesis
      unfolding Cons True resolved_at by (auto simp: inert_def split: option.split)
  qed (use assms Cons in simp)
qed simp

lemma split_name:
  obtains m t where "cs = m @ t" "takeWhile letter cs = m" "dropWhile letter cs = t" "CHR ''@'' \<notin> set m"
    "\<forall>c \<in> set m. letter c" "t = [] \<or> \<not> letter (hd t)"
proof -
  have "dropWhile letter cs = [] \<or> \<not> letter (hd (dropWhile letter cs))" using hd_dropWhile by blast
  then show ?thesis
    using that [of "takeWhile letter cs" "dropWhile letter cs"] takeWhile_letters set_takeWhileD
    by (metis takeWhile_dropWhile_id)
qed

lemma takeWhile_name:
  assumes "\<forall>c \<in> set m. letter c" "t = [] \<or> \<not> letter (hd t)"
  shows "takeWhile letter (m @ t) = m" "dropWhile letter (m @ t) = t"
proof -
  have "takeWhile letter t = []" "dropWhile letter t = t" using assms(2) by (cases t; simp)+
  then show "takeWhile letter (m @ t) = m" "dropWhile letter (m @ t) = t" using assms(1) by simp_all
qed

lemma names_at: "token_names (CHR ''@'' # cs) = takeWhile letter cs # token_names (dropWhile letter cs)"
  using names_text [OF takeWhile_letters, of cs "dropWhile letter cs"] by simp

text \<open>What is left of the names, and one round after another.\<close>

lemma names_resolved:
  assumes "inert_env env"
  shows "token_names (resolved env 0 s) = filter (\<lambda>m. env m = None) (token_names s)"
proof (induction "length s" arbitrary: s rule: less_induct)
  case less
  show ?case
  proof (cases s)
    case (Cons c cs)
    show ?thesis
    proof (cases "c = CHR ''@''")
      case True
      obtain m t where m: "cs = m @ t" "takeWhile letter cs = m" "dropWhile letter cs = t" "CHR ''@'' \<notin> set m"
        "\<forall>c \<in> set m. letter c" "t = [] \<or> \<not> letter (hd t)"
        by (rule split_name)
      have t: "token_names (resolved env 0 t) = filter (\<lambda>m. env m = None) (token_names t)"
        using less Cons m(1) by simp
      show ?thesis
      proof (cases "env m")
        case None
        have "token_names (CHR ''@'' # m @ resolved env 0 t) = m # token_names (resolved env 0 t)"
          using takeWhile_name [OF m(5) resolved_boundary [OF assms m(6)]] names_at [of "m @ resolved env 0 t"] by simp
        then show ?thesis
          unfolding Cons True resolved_at names_at m(2,3) using None t m(1) by (simp add: resolved_text [OF m(4)] names_text [OF m(4)])
      next
        case (Some v)
        then have "CHR ''@'' \<notin> set v" using assms by (auto simp: inert_env_def inert_def)
        then show ?thesis
          unfolding Cons True resolved_at names_at m(2,3) using Some t by (simp add: names_text)
      qed
    qed (use less Cons in simp)
  qed simp
qed

lemma resolved_twice:
  assumes "inert_env env"
  shows "resolved env' 0 (resolved env 0 s) = resolved (env' ++ env) 0 s"
proof (induction "length s" arbitrary: s rule: less_induct)
  case less
  show ?case
  proof (cases s)
    case (Cons c cs)
    show ?thesis
    proof (cases "c = CHR ''@''")
      case True
      obtain m t where m: "cs = m @ t" "takeWhile letter cs = m" "dropWhile letter cs = t" "CHR ''@'' \<notin> set m"
        "\<forall>c \<in> set m. letter c" "t = [] \<or> \<not> letter (hd t)"
        by (rule split_name)
      have t: "resolved env' 0 (resolved env 0 t) = resolved (env' ++ env) 0 t"
        using less Cons m(1) by simp
      show ?thesis
      proof (cases "env m")
        case None
        have "resolved env 0 cs = m @ resolved env 0 t" using m(1,4) by (simp add: resolved_text)
        then show ?thesis
          unfolding Cons True resolved_at m(2,3) using None t takeWhile_name [OF m(5) resolved_boundary [OF assms m(6)]] m(1,4)
          by (simp add: resolved_at resolved_text map_add_def del: resolved.simps split: option.split)
      next
        case (Some v)
        then have "CHR ''@'' \<notin> set v" using assms by (auto simp: inert_env_def inert_def)
        then show ?thesis
          unfolding Cons True resolved_at m(2,3) using Some t by (simp add: resolved_text map_add_def)
      qed
    qed (use less Cons in simp)
  qed simp
qed

section \<open>One after another is all at once\<close>

lemma take_is_prefix: "take (length n) s = n \<longleftrightarrow> prefix n s"
  by (metis append_take_drop_id prefixI take_is_prefix append_eq_conv_conj prefixE)

lemma prefix_of_name:
  assumes "\<forall>c \<in> set n. letter c"
  shows "prefix n cs \<longleftrightarrow> prefix n (takeWhile letter cs)"
proof
  assume "prefix n cs"
  then obtain t where "cs = n @ t" by (auto elim: prefixE)
  then have "takeWhile letter cs = n @ takeWhile letter t" using assms by simp
  then show "prefix n (takeWhile letter cs)" by simp
next
  assume "prefix n (takeWhile letter cs)"
  then show "prefix n cs" by (metis prefix_order.trans prefixI takeWhile_dropWhile_id)
qed

lemma replaced_resolves:
  assumes "\<forall>c \<in> set n. letter c" "\<forall>m \<in> set (token_names s). \<not> strict_prefix n m"
  shows "replaced (CHR ''@'' # n) v 0 s = resolved [n \<mapsto> v] 0 s"
  using assms(2)
proof (induction "length s" arbitrary: s rule: less_induct)
  case less
  show ?case
  proof (cases s)
    case (Cons c cs)
    have rest: "replaced (CHR ''@'' # n) v 0 cs = resolved [n \<mapsto> v] 0 cs"
      using less(1) [of cs] less(2) Cons by auto
    show ?thesis
    proof (cases "c = CHR ''@''")
      case True
      have "prefix n cs \<longleftrightarrow> n = takeWhile letter cs"
        using prefix_of_name [OF assms(1), of cs] less(2) Cons True by (auto simp: strict_prefix_def)
      moreover have "replaced (CHR ''@'' # n) v 0 (drop (length n) cs) = resolved [n \<mapsto> v] 0 (drop (length n) cs)"
        if "n = takeWhile letter cs"
        using less(1) [of "drop (length n) cs"] less(2) Cons True that names_at [of cs]
        by (auto simp: drop_takeWhile le_imp_less_Suc [OF length_dropWhile_le])
      ultimately show ?thesis
        using rest replaced_skip [of "CHR ''@'' # n" v "length n" cs] Cons True
        by (auto simp: take_is_prefix resolved_at drop_takeWhile simp del: resolved.simps)
    qed (use rest Cons in simp)
  qed simp
qed

definition ordered_tokens :: "(string \<times> string) list \<Rightarrow> bool" where
  "ordered_tokens toks \<longleftrightarrow>
     sorted_wrt (\<lambda>a b. \<not> strict_prefix (fst a) (fst b)) toks \<and>
     list_all (\<lambda>(n, v). list_all letter n \<and> inert v) toks"

lemma tokens_in_order:
  assumes "ordered_tokens toks" "set (token_names s) \<subseteq> fst ` set toks"
  shows "fold (\<lambda>(n, v) s. replaced (CHR ''@'' # n) v 0 s) toks s = resolved (map_of toks) 0 s"
    and "CHR ''@'' \<notin> set (resolved (map_of toks) 0 s)"
  using assms
proof (induction toks arbitrary: s)
  case Nil
  { case 1 then show ?case by (simp add: resolved_none) next
    case 2 then show ?case by (simp add: resolved_none names_empty) }
next
  case (Cons tok toks)
  obtain n v where tok: "tok = (n, v)" by (cases tok)
  have o': "ordered_tokens toks" if "ordered_tokens (tok # toks)" using that by (simp add: ordered_tokens_def)
  have env: "inert_env [n \<mapsto> v]" if "ordered_tokens (tok # toks)"
    using that tok by (auto simp: inert_env_def ordered_tokens_def split: if_splits)
  have once: "replaced (CHR ''@'' # n) v 0 s = resolved [n \<mapsto> v] 0 s"
    if "ordered_tokens (tok # toks)" "set (token_names s) \<subseteq> fst ` set (tok # toks)" for s
  proof (rule replaced_resolves)
    show "\<forall>c \<in> set n. letter c" using that(1) tok by (simp add: ordered_tokens_def list_all_iff)
    show "\<forall>m \<in> set (token_names s). \<not> strict_prefix n m"
      using that tok by (fastforce simp: ordered_tokens_def)
  qed
  have left: "set (token_names (resolved [n \<mapsto> v] 0 s)) \<subseteq> fst ` set toks"
    if "ordered_tokens (tok # toks)" "set (token_names s) \<subseteq> fst ` set (tok # toks)" for s
    using that tok names_resolved [OF env [OF that(1)], of s] by (auto split: if_splits)
  have both: "resolved (map_of toks) 0 (resolved [n \<mapsto> v] 0 s) = resolved (map_of (tok # toks)) 0 s"
    if "ordered_tokens (tok # toks)" for s
  proof -
    have "map_of toks ++ [n \<mapsto> v] = map_of (tok # toks)" by (simp add: tok)
    then show ?thesis using resolved_twice [OF env [OF that], of "map_of toks" s] by simp
  qed
  { case 1
    then have "fold (\<lambda>(n, v) s. replaced (CHR ''@'' # n) v 0 s) toks (resolved [n \<mapsto> v] 0 s) =
        resolved (map_of toks) 0 (resolved [n \<mapsto> v] 0 s)"
      by (intro Cons.IH(1) [OF o' [OF 1(1)] left [OF 1]])
    then show ?case using once [OF 1] both [OF 1(1)] by (simp add: tok fun_upd_def)
  next
    case 2 then show ?case using Cons.IH(2) [OF o' left] both by metis }
qed

section \<open>The style sheet\<close>

lemma names_boundary:
  assumes "b = [] \<or> \<not> letter (hd b)"
  shows "token_names (a @ b) = token_names a @ token_names b"
proof (induction a)
  case (Cons c cs)
  have "takeWhile letter (cs @ b) = takeWhile letter cs"
    using assms by (cases b) (auto simp: takeWhile_append takeWhile_eq_all_conv [THEN iffD2])
  then show ?case using Cons by simp
qed simp

lemma names_of_lines:
  "token_names (concat (map (\<lambda>l. CHR 0x0A # l) ls) @ [CHR 0x0A]) = concat (map token_names ls)"
proof (induction ls)
  case (Cons l ls)
  let ?rest = "concat (map (\<lambda>l. CHR 0x0A # l) ls) @ [CHR 0x0A]"
  have "hd ?rest = CHR 0x0A" by (cases ls) simp_all
  then have "?rest = [] \<or> \<not> letter (hd ?rest)" by (simp add: letter_def)
  then show ?case using Cons names_boundary [of ?rest l] by simp
qed simp

definition token_list :: "string list" where
  "token_list = map fst (style_tokens lightPalette)"

definition known_names :: "string list \<Rightarrow> bool" where
  "known_names ls = list_all (\<lambda>l. list_all (\<lambda>m. m \<in> set token_list) (token_names l)) ls"

lemma lines_known:
  "known_names style_lines_1" "known_names style_lines_2" "known_names style_lines_3" "known_names style_lines_4"
  by code_simp+

lemma tokens_of [simp]: "fst ` set (style_tokens p) = set token_list"
  by (simp add: token_list_def style_tokens_def)

lemma template_names: "set (token_names style_template) \<subseteq> fst ` set (style_tokens p)"
proof -
  have "known_names style_lines" using lines_known by (simp add: style_lines_def known_names_def)
  then show ?thesis
    unfolding style_template_def names_of_lines by (auto simp: known_names_def list_all_iff)
qed

lemma hex_inert: "inert (hex_color c)"
proof -
  have "''0123456789abcdef'' ! n \<in> set ''0123456789abcdef''" if "n < 16" for n
    using that by (intro nth_mem) simp
  moreover have "CHR ''@'' \<notin> set ''0123456789abcdef''" by simp
  ultimately have digit: "''0123456789abcdef'' ! (k mod 16) \<noteq> CHR ''@''" for k :: nat
    by (metis mod_less_divisor zero_less_numeral)
  obtain r g b where "c = (r, g, b)" by (cases c)
  then show ?thesis
    using digit by (simp add: inert_def hex_byte_def Let_def letter_def eq_commute [of "CHR ''@''"] del: nth_Cons_numeral)
qed

lemma style_tokens_ordered: "ordered_tokens (style_tokens p)"
  by (simp add: ordered_tokens_def style_tokens_def hex_inert del: hex_color.simps)
    (simp add: letter_def inert_def strict_prefix_def)

text \<open>C39. Replacing the tokens of the style sheet one after the other, in the order of the source, is replacing them all at
once, each by its own colour and not by that of a token its name begins with; and no token is left over, whatever the palette.\<close>

theorem style_sheet_is_resolved:
  "buildStyleSheet p = resolved (map_of (style_tokens p)) 0 style_template \<and> CHR ''@'' \<notin> set (buildStyleSheet p)"
  using tokens_in_order [OF style_tokens_ordered [of p] template_names [of p]]
  by (simp add: buildStyleSheet_def tokenReplace_def)

end
