(* ===== verification/Process_Start.thy ===== *)
theory Process_Start
  imports Window_View Window_Theme
begin

text \<open>
  Around the window: the log file of \<open>src/platform/logger.cpp\<close>, what \<open>src/gui/main.cpp\<close> settles before Qt starts, the check
  for elevation and the hand-over to the user's own programs of \<open>src/win/windows_util.cpp\<close> and
  \<open>src/gui/main_window.cpp\<close>. The file system is what it holds and what it allows; the clock is the text it prints.
\<close>

section \<open>The log file\<close>

definition LogFileName :: qstring where "LogFileName = qs ''usb-restoration-tool.log''"

definition MaxLogBytes :: nat where "MaxLogBytes = 1024 * 1024"

text \<open>What a path holds, and which paths can be appended to, removed and renamed.\<close>

record log_disk =
  log_held :: "qstring \<Rightarrow> bytes option"
  can_append :: "qstring \<Rightarrow> bool"
  can_remove :: "qstring \<Rightarrow> bool"
  can_rename :: "qstring \<Rightarrow> bool"

definition rolled_path :: "qstring \<Rightarrow> qstring" where
  "rolled_path path = path @ qs ''.1''"

definition remove_file :: "qstring \<Rightarrow> log_disk \<Rightarrow> log_disk" where
  "remove_file path fs = (if can_remove fs path then fs\<lparr>log_held := (log_held fs)(path := None)\<rparr> else fs)"

text \<open>\<open>QFile::rename\<close> does not write over a file.\<close>

definition rename_file :: "qstring \<Rightarrow> qstring \<Rightarrow> log_disk \<Rightarrow> log_disk" where
  "rename_file old new fs =
     (if log_held fs new = None \<and> can_rename fs old
      then fs\<lparr>log_held := (log_held fs)(new := log_held fs old, old := None)\<rparr> else fs)"

definition roll_over :: "qstring \<Rightarrow> log_disk \<Rightarrow> log_disk" where
  "roll_over path fs =
     (case log_held fs path of
        Some b \<Rightarrow>
          if length b > MaxLogBytes then rename_file path (rolled_path path) (remove_file (rolled_path path) fs) else fs
      | None \<Rightarrow> fs)"

text \<open>The open file, if there is one, and the disk; opening creates the file.\<close>

definition openAt :: "qstring \<Rightarrow> log_disk \<Rightarrow> qstring option \<times> log_disk" where
  "openAt directory fs =
     (if directory = [] then (None, fs)
      else
        let path = join_path directory LogFileName; fs1 = roll_over path fs
        in if \<not> can_append fs1 path then (None, fs1)
           else (Some path, fs1\<lparr>log_held := (log_held fs1)(path := Some (case log_held fs1 path of Some b \<Rightarrow> b | None \<Rightarrow> []))\<rparr>))"

text \<open>\<open>log_pending\<close> is what the open file has taken and not yet written, the buffer of \<open>QFile\<close>.\<close>

record Logger =
  log_file :: "qstring option"
  log_pending :: bytes
  portable :: bool

text \<open>\<open>local_data\<close> is \<open>AppLocalDataLocation\<close>, \<open>made\<close> whether \<open>mkpath\<close> succeeds.\<close>

definition new_logger :: "qstring \<Rightarrow> qstring \<Rightarrow> bool \<Rightarrow> log_disk \<Rightarrow> Logger \<times> log_disk" where
  "new_logger application local_data made fs =
     (case openAt application fs of
        (Some path, fs1) \<Rightarrow> (\<lparr>log_file = Some path, log_pending = [], portable = True\<rparr>, fs1)
      | (None, fs1) \<Rightarrow>
          if local_data \<noteq> [] \<and> made
          then case openAt local_data fs1 of (f, fs2) \<Rightarrow> (\<lparr>log_file = f, log_pending = [], portable = False\<rparr>, fs2)
          else (\<lparr>log_file = None, log_pending = [], portable = False\<rparr>, fs1))"

text \<open>A line is its time in brackets, the message and a line feed; \<open>encoded\<close> is how a text stream writes it.\<close>

definition log_line :: "(qstring \<Rightarrow> bytes) \<Rightarrow> qstring \<Rightarrow> qstring \<Rightarrow> bytes" where
  "log_line encoded now message = encoded (qs ''['' @ now @ qs ''] '' @ message @ [0x0A])"

text \<open>
  A write can fail, and nobody asks whether it did: the file takes a prefix of the line, and a prefix of what it
  has taken reaches the disk. \<open>line_taken\<close> and \<open>reached\<close> are their lengths, if there are so many bytes.
\<close>

datatype write_answer = WriteAnswer (line_taken: nat) (reached: nat)

definition writeLine ::
  "(qstring \<Rightarrow> bytes) \<Rightarrow> qstring \<Rightarrow> qstring \<Rightarrow> write_answer \<Rightarrow> Logger \<Rightarrow> log_disk \<Rightarrow> Logger \<times> log_disk" where
  "writeLine encoded now message answer lg fs =
     (case log_file lg of
        None \<Rightarrow> (lg, fs)
      | Some path \<Rightarrow>
          let pending = log_pending lg @ take (line_taken answer) (log_line encoded now message);
              held = (case log_held fs path of Some b \<Rightarrow> b | None \<Rightarrow> [])
          in (lg\<lparr>log_pending := drop (reached answer) pending\<rparr>,
              fs\<lparr>log_held := (log_held fs)(path := Some (held @ take (reached answer) pending))\<rparr>))"

datatype log_call = Log qstring qstring | LogOnly qstring qstring

text \<open>\<open>log\<close> also emits the message to the window, \<open>logFileOnly\<close> does not. Every call comes with the fate of its line.\<close>

fun log_calls :: "(qstring \<Rightarrow> bytes) \<Rightarrow> (log_call \<times> write_answer) list \<Rightarrow> Logger \<Rightarrow> log_disk \<Rightarrow>
    qstring list \<times> Logger \<times> log_disk" where
  "log_calls encoded [] lg fs = ([], lg, fs)"
| "log_calls encoded ((Log now m, answer) # calls) lg fs =
     (let (lg1, fs1) = writeLine encoded now m answer lg fs; (to_window, after) = log_calls encoded calls lg1 fs1
      in (m # to_window, after))"
| "log_calls encoded ((LogOnly now m, answer) # calls) lg fs =
     (let (lg1, fs1) = writeLine encoded now m answer lg fs in log_calls encoded calls lg1 fs1)"

fun line_of :: "(qstring \<Rightarrow> bytes) \<Rightarrow> log_call \<Rightarrow> bytes" where
  "line_of encoded (Log now m) = log_line encoded now m"
| "line_of encoded (LogOnly now m) = log_line encoded now m"

fun message_of :: "log_call \<Rightarrow> qstring list" where
  "message_of (Log now m) = [m]"
| "message_of (LogOnly now m) = []"

text \<open>The part of its line a call gets into the file, and a call whose line is written whole.\<close>

fun taken_of :: "(qstring \<Rightarrow> bytes) \<Rightarrow> log_call \<times> write_answer \<Rightarrow> bytes" where
  "taken_of encoded (call, answer) = take (line_taken answer) (line_of encoded call)"

fun written_whole :: "(qstring \<Rightarrow> bytes) \<Rightarrow> log_call \<times> write_answer \<Rightarrow> bool" where
  "written_whole encoded (call, answer) \<longleftrightarrow>
     length (line_of encoded call) \<le> line_taken answer \<and> length (line_of encoded call) \<le> reached answer"

lemma log_calls_Cons:
  "log_calls encoded ((call, answer) # calls) lg fs =
     (case writeLine encoded (case call of Log now m \<Rightarrow> now | LogOnly now m \<Rightarrow> now)
        (case call of Log now m \<Rightarrow> m | LogOnly now m \<Rightarrow> m) answer lg fs of
      (lg1, fs1) \<Rightarrow> case log_calls encoded calls lg1 fs1 of (emits, after) \<Rightarrow> (message_of call @ emits, after))"
  by (cases call) (simp_all add: split_beta)

lemma writeLine_open:
  assumes "log_file lg = Some path" "log_held fs path = Some b"
    and "pending = log_pending lg @ taken_of encoded (call, answer)"
  shows "writeLine encoded (case call of Log now m \<Rightarrow> now | LogOnly now m \<Rightarrow> now)
      (case call of Log now m \<Rightarrow> m | LogOnly now m \<Rightarrow> m) answer lg fs =
    (lg\<lparr>log_pending := drop (reached answer) pending\<rparr>,
     fs\<lparr>log_held := (log_held fs)(path := Some (b @ take (reached answer) pending))\<rparr>)"
  using assms by (cases call) (simp_all add: writeLine_def Let_def)

lemma log_calls_held:
  assumes "log_file lg = Some path" "log_held fs path = Some b" "log_calls encoded calls lg fs = (emits, lg', fs')"
  shows "\<exists>stored. log_held fs' = (log_held fs)(path := Some (b @ stored)) \<and>
      stored @ log_pending lg' = log_pending lg @ concat (map (taken_of encoded) calls) \<and>
      (log_pending lg = [] \<and> list_all (written_whole encoded) calls \<longrightarrow> log_pending lg' = [])"
    and "emits = concat (map (message_of \<circ> fst) calls)"
  using assms
proof (induction calls arbitrary: lg fs b emits)
  case Nil
  {
    case 1
    then show ?case by (auto intro!: exI [of _ "[]"])
  next
    case 2
    then show ?case by simp
  }
next
  case (Cons x calls)
  obtain call answer where x: "x = (call, answer)" by (cases x)
  define pending where "pending = (\<lambda>lg :: Logger. log_pending lg @ taken_of encoded (call, answer))"
  define lg1 where "lg1 = (\<lambda>lg :: Logger. lg\<lparr>log_pending := drop (reached answer) (pending lg)\<rparr>)"
  define fs1 where "fs1 = (\<lambda>(lg :: Logger) (fs :: log_disk) b. fs\<lparr>log_held := (log_held fs)(path := Some (b @ take (reached answer) (pending lg)))\<rparr>)"
  have split: "\<exists>rest. log_calls encoded calls (lg1 lg) (fs1 lg fs b) = (rest, lg', fs') \<and> emits = message_of call @ rest"
    if "log_file lg = Some path" "log_held fs path = Some b" "log_calls encoded (x # calls) lg fs = (emits, lg', fs')"
    for lg fs b emits
    using that(3) unfolding x log_calls_Cons writeLine_open [OF that(1,2) pending_def [THEN fun_cong]] lg1_def fs1_def
    by (auto split: prod.splits)
  {
    case 1
    then obtain rest where rest: "log_calls encoded calls (lg1 lg) (fs1 lg fs b) = (rest, lg', fs')"
      using split by blast
    have open': "log_file (lg1 lg) = Some path"
      "log_held (fs1 lg fs b) path = Some (b @ take (reached answer) (pending lg))"
      using 1(1) by (simp_all add: lg1_def fs1_def)
    obtain stored where stored: "log_held fs' = (log_held (fs1 lg fs b))(path := Some ((b @ take (reached answer) (pending lg)) @ stored))"
      "stored @ log_pending lg' = log_pending (lg1 lg) @ concat (map (taken_of encoded) calls)"
      "log_pending (lg1 lg) = [] \<and> list_all (written_whole encoded) calls \<longrightarrow> log_pending lg' = []"
      using Cons.IH(1) [OF open' rest] by blast
    have "log_held fs' = (log_held fs)(path := Some (b @ take (reached answer) (pending lg) @ stored))"
      using stored(1) by (simp add: fs1_def)
    moreover have "(take (reached answer) (pending lg) @ stored) @ log_pending lg' =
        log_pending lg @ concat (map (taken_of encoded) (x # calls))"
      using stored(2) by (simp add: lg1_def x) (simp add: pending_def flip: append_assoc)
    moreover have "log_pending lg = [] \<and> list_all (written_whole encoded) (x # calls) \<longrightarrow> log_pending lg' = []"
      using stored(3) by (auto simp: x lg1_def pending_def)
    ultimately show ?case by blast
  next
    case 2
    then obtain rest where "log_calls encoded calls (lg1 lg) (fs1 lg fs b) = (rest, lg', fs')" "emits = message_of call @ rest"
      using split by blast
    then show ?case using Cons.IH(2) [of "lg1 lg" "fs1 lg fs b"] 2(1) by (simp add: x lg1_def fs1_def)
  }
qed

lemma rolled_differs: "rolled_path path \<noteq> path"
  by (simp add: rolled_path_def qs_def)

text \<open>Whether a file is longer than the limit, and whether it then becomes the backup.\<close>

definition oversized :: "qstring \<Rightarrow> log_disk \<Rightarrow> bool" where
  "oversized path fs \<longleftrightarrow> (case log_held fs path of Some b \<Rightarrow> 1048576 < length b | None \<Rightarrow> False)"

definition rolls :: "qstring \<Rightarrow> log_disk \<Rightarrow> bool" where
  "rolls path fs \<longleftrightarrow> oversized path fs \<and> can_rename fs path \<and>
     (log_held fs (rolled_path path) = None \<or> can_remove fs (rolled_path path))"

lemma openAt_keeps:
  assumes "openAt directory fs = (Some path, fs')"
  shows "log_held fs' = (log_held fs)
    (rolled_path path := (if rolls path fs then log_held fs path
       else if oversized path fs \<and> can_remove fs (rolled_path path) then None else log_held fs (rolled_path path)),
     path := Some (case log_held fs path of Some b \<Rightarrow> if rolls path fs then [] else b | None \<Rightarrow> []))"
  using assms rolled_differs [of path]
  by (auto simp: openAt_def roll_over_def rename_file_def remove_file_def rolls_def oversized_def MaxLogBytes_def Let_def
      fun_eq_iff split: if_splits option.splits)

text \<open>C40. The log keeps what was written, and its old content. Opening it makes a file longer than a mebibyte the one
backup, exactly when that backup can be replaced and the file renamed; otherwise the file keeps its content and grows. After any
calls of \<open>log\<close> and \<open>logFileOnly\<close>, whatever becomes of their writes, the file ends with what it took of their lines,
in order, except for what still waits to be written, and with every line whole when no write falls short. No other file changes,
and the window is shown exactly the messages of \<open>log\<close>.\<close>

theorem log_keeps_the_session:
  assumes "openAt directory fs = (Some path, fs')"
    and "log_calls encoded calls \<lparr>log_file = Some path, log_pending = [], portable = isPortable\<rparr> fs' = (to_window, lg, fs'')"
  shows "(\<exists>stored. log_held fs'' path =
        Some ((case log_held fs path of Some b \<Rightarrow> if rolls path fs then [] else b | None \<Rightarrow> []) @ stored) \<and>
      stored @ log_pending lg = concat (map (taken_of encoded) calls) \<and>
      (list_all (written_whole encoded) calls \<longrightarrow> stored = concat (map (line_of encoded \<circ> fst) calls))) \<and>
    log_held fs'' (rolled_path path) = (if rolls path fs then log_held fs path
      else if oversized path fs \<and> can_remove fs (rolled_path path) then None else log_held fs (rolled_path path)) \<and>
    (\<forall>p. p = path \<or> p = rolled_path path \<or> log_held fs'' p = log_held fs p) \<and>
    to_window = concat (map (message_of \<circ> fst) calls)"
proof -
  have whole: "concat (map (taken_of encoded) calls) = concat (map (line_of encoded \<circ> fst) calls)"
    if "list_all (written_whole encoded) calls"
    using that by (induction calls) auto
  have "log_file \<lparr>log_file = Some path, log_pending = [], portable = isPortable\<rparr> = Some path"
    "log_held fs' path = Some (case log_held fs path of Some b \<Rightarrow> if rolls path fs then [] else b | None \<Rightarrow> [])"
    by (simp_all add: openAt_keeps [OF assms(1)])
  note calls = log_calls_held [OF this assms(2)]
  show ?thesis
    using calls whole rolled_differs [of path] by (auto simp: openAt_keeps [OF assms(1)] split: if_splits)
qed

definition small_disk :: log_disk where
  "small_disk = \<lparr>log_held = [join_path (qs ''/opt'') LogFileName \<mapsto> [7]], can_append = \<lambda>_. True, can_remove = \<lambda>_. True,
     can_rename = \<lambda>_. True\<rparr>"

text \<open>The second line is cut by a full disk: its first byte is taken and nothing more is written.\<close>

theorem log_keeps_the_session_witness:
  "\<exists>fs' lg fs''. openAt (qs ''/opt'') small_disk = (Some (join_path (qs ''/opt'') LogFileName), fs') \<and>
     log_calls (map (\<lambda>c. ucast c))
       [(LogOnly [] (qs ''a''), WriteAnswer 9 9), (Log [] (qs ''b''), WriteAnswer 1 0)]
       \<lparr>log_file = Some (join_path (qs ''/opt'') LogFileName), log_pending = [], portable = True\<rparr> fs' = ([qs ''b''], lg, fs'') \<and>
     (\<exists>stored. log_held fs'' (join_path (qs ''/opt'') LogFileName) = Some ([7] @ stored) \<and>
        stored @ log_pending lg = map (\<lambda>c. ucast c) (qs ''[] a'' @ [0x0A] @ qs ''['' :: qstring))"
proof -
  let ?path = "join_path (qs ''/opt'') LogFileName" and ?lg = "\<lambda>path. \<lparr>log_file = Some path, log_pending = [], portable = True\<rparr>"
  let ?calls = "[(LogOnly [] (qs ''a''), WriteAnswer 9 9), (Log [] (qs ''b''), WriteAnswer 1 0)]"
  have "qs ''/opt'' \<noteq> []" by (simp add: qs_def)
  then have opened: "openAt (qs ''/opt'') small_disk = (Some ?path, small_disk\<lparr>log_held := log_held small_disk\<rparr>)"
    by (simp add: openAt_def roll_over_def small_disk_def MaxLogBytes_def Let_def)
  obtain to_window lg fs'' where calls: "log_calls (map (\<lambda>c. ucast c)) ?calls (?lg ?path) (small_disk\<lparr>log_held := log_held small_disk\<rparr>) =
      (to_window, lg, fs'')"
    by (metis prod.exhaust)
  have "\<not> rolls ?path small_disk" "log_held small_disk ?path = Some [7]"
    by (simp_all add: rolls_def oversized_def small_disk_def)
  moreover have "concat (map (taken_of (map (\<lambda>c. ucast c))) ?calls) = map (\<lambda>c. ucast c) (qs ''[] a'' @ [0x0A] @ qs ''['' :: qstring)"
    by (simp add: log_line_def qs_def)
  ultimately show ?thesis
    using log_keeps_the_session [OF opened calls] opened calls by (auto simp del: log_calls.simps)
qed

section \<open>Elevation and the user's own programs\<close>

text \<open>\<open>sid\<close> is whether the group of administrators could be built, \<open>member\<close> what \<open>CheckTokenMembership\<close> answers, if it does.\<close>

definition isProcessElevated :: "bool \<Rightarrow> bool option \<Rightarrow> bool" where
  "isProcessElevated sid member = (sid \<and> (case member of Some b \<Rightarrow> b | None \<Rightarrow> False))"

definition windows_privilegeMode :: "bool \<Rightarrow> PrivilegeMode" where
  "windows_privilegeMode elevated = (if elevated then Elevated else NoPrivilege)"

text \<open>The parameters given to \<open>explorer.exe\<close>, if it is started.\<close>

definition explorer_parameters :: "qstring \<Rightarrow> qstring option" where
  "explorer_parameters target =
     (if target = [] \<or> 0x22 \<in> set target then None else Some ([0x22] @ target @ [0x22]))"

datatype hand_over = Explorer qstring | DesktopFile qstring | DesktopUrl qstring

text \<open>\<open>native\<close> is \<open>toNativeSeparators\<close>, \<open>started\<close> whether the shell starts a program with these parameters.\<close>

definition openExternally :: "bool \<Rightarrow> (qstring \<Rightarrow> qstring) \<Rightarrow> (qstring \<Rightarrow> bool) \<Rightarrow> qstring \<Rightarrow> bool \<Rightarrow> hand_over list" where
  "openExternally on_windows native started target isLocalFile =
     (let desktop = if isLocalFile then DesktopFile target else DesktopUrl target
      in if \<not> on_windows then [desktop]
         else case explorer_parameters (if isLocalFile then native target else target) of
           None \<Rightarrow> [desktop]
         | Some p \<Rightarrow> if started p then [Explorer p] else [Explorer p, desktop])"

text \<open>A box with its title and text, or the file handed over.\<close>

datatype log_opened = NoLogBox qstring qstring | Handed "hand_over list"

definition openLogFile ::
  "speech \<Rightarrow> bool \<Rightarrow> (qstring \<Rightarrow> qstring) \<Rightarrow> (qstring \<Rightarrow> bool) \<Rightarrow> Logger \<Rightarrow> log_disk \<Rightarrow> log_opened" where
  "openLogFile S on_windows native started lg fs =
     (case log_file lg of
        Some path \<Rightarrow>
          if log_held fs path \<noteq> None then Handed (openExternally on_windows native started path True)
          else NoLogBox (window_tr S ''No log file'') (window_tr S ''No log file has been written yet.'')
      | None \<Rightarrow> NoLogBox (window_tr S ''No log file'') (window_tr S ''No log file has been written yet.''))"

lemma one_quoted_parameter:
  assumes "explorer_parameters target = Some p"
  shows "\<exists>t. p = [0x22] @ t @ [0x22] \<and> 0x22 \<notin> set t"
  using assms by (auto simp: explorer_parameters_def split: if_splits)

section \<open>Before Qt starts\<close>

text \<open>The two variables \<open>main\<close> may set on Linux.\<close>

definition start_environment :: "unicode \<Rightarrow> bool \<Rightarrow> (string \<Rightarrow> qstring option) \<Rightarrow> string \<Rightarrow> qstring option" where
  "start_environment U root env =
     (let env1 = if root \<and> env ''DBUS_SESSION_BUS_ADDRESS'' = None \<and> env ''QT_LOGGING_RULES'' = None
            then env(''QT_LOGGING_RULES'' \<mapsto> qs ''qt.qpa.theme.*=false'') else env
      in if env1 ''QT_QPA_PLATFORM'' = None \<and> env1 ''WAYLAND_DISPLAY'' \<noteq> None \<and>
            contains_ci U (case env1 ''XDG_CURRENT_DESKTOP'' of Some d \<Rightarrow> d | None \<Rightarrow> []) (qs ''GNOME'')
         then env1(''QT_QPA_PLATFORM'' \<mapsto> qs ''xcb;wayland'') else env1)"

text \<open>\<open>main\<close> sets what the user has not: a variable that is set keeps its value.\<close>

lemma environment_kept: "env x = Some v \<Longrightarrow> start_environment U root env x = Some v"
  by (auto simp: start_environment_def Let_def)

text \<open>\<open>hardenProcessStartup\<close>: on Linux two calls; on Windows \<open>restricted\<close> is whether the first is supported.\<close>

datatype startup_call = DumpsForbidden | OwnerOnlyFiles | SearchPathRestricted | CurrentDirectoryDropped

definition linux_hardenProcessStartup :: "startup_call list" where
  "linux_hardenProcessStartup = [DumpsForbidden, OwnerOnlyFiles]"

definition windows_hardenProcessStartup :: "bool \<Rightarrow> startup_call list" where
  "windows_hardenProcessStartup restricted = SearchPathRestricted # (if restricted then [] else [CurrentDirectoryDropped])"

end
