(* ===== verification/Spec2Isabelle.thy ===== *)
theory Spec2Isabelle
  imports Usb_Prelude Action_Monad Qt_Text Disk_Info Safety Fat32 Byte_Buffer Partition_Table Restore_Steps Restore_Arguments
    Restore_Protocol Linux_Sysfs Restore_Session Block_Device Linux_Restore Restore_Runs Restore_Safety
    Restore_Order Restore_Image Helper_Client Helper_Process Helper_Exchange Restore_Worker Restore_Dialog
    App_Settings Main_Window Window_Runs Windows_Rules Window_Properties
    Windows_Session Windows_Disk Windows_Volumes Windows_Restore Windows_Effects Windows_Order Windows_Evidence Windows_Safety
    Windows_Stages Windows_Outcomes Windows_Ends Windows_Clearing Windows_Jobs
    Windows_Wmi Message_Texts Linux_Messages Windows_Messages Window_View Window_Truth Window_Theme Process_Start
begin
text \<open>
  USB Restoration Tool wipes a removable USB drive, puts one partition on it and formats it. A Qt window lists
  the drives, asks for confirmation and shows the progress; a backend per platform describes the drives and does
  the restore. On Linux the restore needs root, so the window starts a helper through pkexec and reads a line
  protocol from it; on Windows the restore runs in a thread of the window. What must never happen is that another
  disk than the selected one is touched, or one the running system needs. This development models the program
  from the arithmetic on sectors up to the window and proves what keeps it so.

  \<^bold>\<open>How the program is modelled.\<close> Machine integers are words of their width (\<open>u8\<close> to \<open>u64\<close>), a \<open>QString\<close> is its
  list of UTF-16 code units, an enumeration is a datatype and a class or struct a record with the source's
  fields. An operation with effects is an action of \<open>Action_Monad\<close>: a function of an environment (every answer
  the outside may give, each depending on the whole history so far) and a world, to an outcome (\<open>Ok\<close>, \<open>Failed\<close>
  with the error, \<open>Stopped\<close> after a cancel request) and the world after it. The world keeps every interaction in
  its history, newest first, together with the answer; destructors are \<open>leaving\<close>, which runs on every way
  out. Nothing is assumed of the answers unless a theorem says so, so a property holds for every operating
  system, also one whose calls fail at any point.

  \<^bold>\<open>Which theory models what\<close> (paths below \<open>src/src/\<close>).
    \<^item> \<open>Usb_Prelude\<close>, \<open>Qt_Text\<close>: shared facts, hints and the Qt value classes the code computes with.
    \<^item> \<open>Disk_Info\<close> (\<open>core/disk\<close>, \<open>core/language\<close>), \<open>Safety\<close> and \<open>Fat32\<close> (\<open>core/safety\<close>): the described disk, the
      gates \<open>isSafeRestoreTarget\<close>, \<open>isSameRestoreTarget\<close> and \<open>canCreatePartitionLayout\<close>, the layout, the
      ranges to clear and the cluster arithmetic.
    \<^item> \<open>Byte_Buffer\<close>, \<open>Partition_Table\<close> (\<open>core/partition_table\<close>): the bytes of both tables, the checksum, the gate
      in front of every write, and independent readers the tables are read back with.
    \<^item> \<open>Restore_Steps\<close> (\<open>core/restore_message\<close>), \<open>Restore_Arguments\<close> and \<open>Restore_Protocol\<close>
      (\<open>core/restore_protocol\<close>): the plans and their counter, the helper's command line, its lines and the verdict
      on a run.
    \<^item> \<open>Linux_Sysfs\<close> (\<open>linux/sysfs\<close>, \<open>linux/linux_enumerate\<close>): disks, mounts and swap from a snapshot of the file
      system.
    \<^item> \<open>Restore_Session\<close>, \<open>Block_Device\<close>, \<open>Linux_Restore\<close> (\<open>linux/block_device\<close>, \<open>linux/linux_restore\<close>): the restore on
      Linux, every call of the kernel an event. \<open>Restore_Runs\<close> says what each operation adds to the history;
      \<open>Restore_Safety\<close>, \<open>Restore_Order\<close> and \<open>Restore_Image\<close> prove which writes can happen, which steps are
      reported, and what is on the disk afterwards.
    \<^item> \<open>Helper_Process\<close> (\<open>helper/main.cpp\<close>, \<open>platform/translations\<close>), \<open>Helper_Client\<close> (\<open>linux/helper_client\<close>),
      \<open>Helper_Exchange\<close>: the helper, the window's end of it, and the two together.
    \<^item> \<open>Windows_Rules\<close>, \<open>Windows_Session\<close>, \<open>Windows_Disk\<close>, \<open>Windows_Volumes\<close>, \<open>Windows_Restore\<close> (\<open>win/\<close>): the Windows
      backend in the same style. \<open>Windows_Effects\<close> classifies what each operation can do, \<open>Windows_Order\<close> follows
      the reported steps, \<open>Windows_Evidence\<close>, \<open>Windows_Safety\<close>, \<open>Windows_Stages\<close> and \<open>Windows_Outcomes\<close> carry the
      proof that every change was preceded by the evidence it needs. \<open>Windows_Ends\<close> proves that every run returns,
      \<open>Windows_Clearing\<close> what is zeroed, \<open>Windows_Jobs\<close> when a storage call counts as done. \<open>Windows_Wmi\<close>
      (\<open>win/wmi\<close>) is the COM side: variants, queries and the call of a method, which give the objects the
      other theories read.
    \<^item> \<open>Message_Texts\<close>, \<open>Linux_Messages\<close>, \<open>Windows_Messages\<close>: the English and the display text of every refusal and
      error, over the same error constructors the restores end with, and the wording of sizes and system codes.
    \<^item> \<open>Restore_Worker\<close> (\<open>platform/restore_worker\<close>, \<open>linux/linux_disk_service\<close>), \<open>Restore_Dialog\<close>
      (\<open>gui/restore_dialog\<close>), \<open>App_Settings\<close> (\<open>gui/app_settings\<close>, \<open>gui/theme\<close>), \<open>Main_Window\<close>, \<open>Window_Runs\<close> and
      \<open>Window_Properties\<close> (\<open>gui/main_window\<close>): the slots of the window as functions on its state, and the window
      with the scan, the restore thread, timers and the user as one step relation. \<open>Window_View\<close> is what the user
      reads in a state of the window and on the confirmation page, \<open>Window_Truth\<close> proves that it is up to date.
    \<^item> \<open>Window_Theme\<close> (\<open>gui/theme\<close>): palettes and the style sheet with its tokens. \<open>Process_Start\<close> (\<open>platform/logger\<close>,
      \<open>gui/main.cpp\<close>, parts of \<open>win/windows_util\<close>): the log file, the environment and the hand-over to other
      programs.

  \<^bold>\<open>Interfaces.\<close> The locale \<open>buffer_field\<close> is the contract of the field writers the table builders rely on,
  \<open>restore_plan\<close> what the counter and the "safe to unplug" text ask of a plan, \<open>line_protocol\<close> what reading a
  stream of lines asks of its encoder and parser, \<open>disk_service\<close> what the worker and the window ask of a backend.
  Each is interpreted on the code's own definitions, for both platforms where there are two.

  \<^bold>\<open>What is shown.\<close>
    \<^item> Safety: which disks the gates accept; that in every run of either backend each change of the drive comes
      after both gates, the verified handle and no cancel request; that a cancelled run erased nothing; that the
      helper and the window only begin restores of vetted disks.
    \<^item> Function: tables read back with checksums that are the polynomial division of IEEE 802.3, the drive after the
      writing stages, the layout and the FAT32 parameters are the best legal ones, the gates characterised.
    \<^item> Agreement: the command line and the protocol round trip, the window sees what the helper did however the
      bytes arrive, the dialog ends on what the worker reported, and whenever the restore button can be used the
      window and the confirmation show the disk, the layout and the file system of the request.
    \<^item> Texts: the display text of an error differs from the logged one by its translation only; every token of the
      style sheet gets its own colour; the log keeps what its writes take of the session, and its old content.
    \<^item> Order and termination: the reported steps are the plan, and every run ends.

  \<^bold>\<open>Loops and bounds.\<close> Bounded retries recurse on their count, as the code counts: five attempts for the extents
  of a volume, ten for a lock, twenty looks at an emptied layout, ten retries of the first write. A loop the code
  leaves only when something answers is a \<open>partial_function (option)\<close> (\<open>iterate\<close>, \<open>writeAt_loop\<close>, \<open>wait_loop\<close>,
  \<open>fat32ClusterSearch\<close>), whose value \<open>None\<close> is a loop that never ends; the termination theorems state what the
  system must do for it to end and conclude that a result is returned.

  \<^bold>\<open>Two flaws.\<close> \<open>wrapping_layout_accepted\<close>: the gate in front of a write accepts a layout whose end wraps around
  \<open>2 ^ 64\<close>, which the program itself never asks for; \<open>gpt_regions_disjoint\<close> and \<open>mbr_reads_back\<close> are equivalences
  that show such layouts to be the only ones the gate is wrong about. \<open>windows_code_is_lost\<close>: the text of a Windows code with
  place markers of its own swallows the code.

  \<^bold>\<open>Not modelled.\<close> The layout of widgets, painting, the About box and the log dialog are calls into Qt without a
  decision of the program; so are signal handlers, mutexes and reference counts of the system. A translation, a
  number in the style of a locale and what the system says about a code are parameters; \<open>QProcess\<close> is what each
  round reads from it. Log notes of the restores are constructors with the arguments of their texts.
\<close>
end
